(* ===== verification/Objm_Prelude.thy ===== *)
theory Objm_Prelude
  imports Main "HOL-Library.Word" "HOL-Library.Monad_Syntax"
begin

text \<open>
  Shared vocabulary of the objmapper development: the machine integer types of the C
  sources, C strings, the byte order conversions (\<open>htons\<close>, \<open>be64toh\<close>, \<open>htole16\<close>, ...)
  as functions between numbers and byte lists, and the generic lemmas and
  \<^theory_text>\<open>named_theorems\<close> collections the components rely on.
\<close>

unbundle bit_operations_syntax

section \<open>Types\<close>

type_synonym u8 = "8 word"
type_synonym u16 = "16 word"
type_synonym u32 = "32 word"
type_synonym u64 = "64 word"
type_synonym bytes = "8 word list"

named_theorems wire_simps "byte order conversions and message layouts"
named_theorems posix_simps "one-step behaviour of the system calls"
named_theorems heap_simps "reads and writes of the entry heap"
named_theorems frame_simps "fields an operation leaves unchanged"

section \<open>C strings\<close>

text \<open>
  A C string is the list of the characters before its terminating NUL byte. A buffer that
  came from the wire may hold NUL bytes of its own: \<open>c_str\<close> is what \<open>strcmp\<close>,
  \<open>strlen\<close> and \<open>%s\<close> see of it.
\<close>

definition c_str :: "string \<Rightarrow> string" where
  "c_str s = takeWhile (\<lambda>c. c \<noteq> CHR 0x00) s"

text \<open>\<open>snprintf(buf, n, ...)\<close> keeps at most \<open>n - 1\<close> characters of the formatted text.\<close>

definition snprintf_buf :: "nat \<Rightarrow> string \<Rightarrow> string" where
  "snprintf_buf n s = take (n - 1) s"

text \<open>\<open>strncmp(s, p, strlen(p)) == 0\<close>.\<close>

definition has_prefix :: "string \<Rightarrow> string \<Rightarrow> bool" where
  "has_prefix p s \<longleftrightarrow> take (length p) s = p"

definition byte_of_char :: "char \<Rightarrow> u8" where
  "byte_of_char c = of_char c"

definition char_of_byte :: "u8 \<Rightarrow> char" where
  "char_of_byte b = char_of (unat b)"

definition bytes_of_string :: "string \<Rightarrow> bytes" where
  "bytes_of_string s = map byte_of_char s"

definition string_of_bytes :: "bytes \<Rightarrow> string" where
  "string_of_bytes bs = map char_of_byte bs"

lemma of_char_less_256 [simp]: "(of_char c :: nat) < 256"
  using of_char_mod_256 [of c, where ?'a = nat] mod_less_divisor [of 256 "of_char c"] by simp

lemma unat_byte_of_char [simp]: "unat (byte_of_char c) = of_char c"
proof -
  have "byte_of_char c = of_nat (of_char c)"
    by (simp add: byte_of_char_def of_nat_of_char)
  then show ?thesis by (simp add: unat_of_nat)
qed

lemma char_of_byte_of_char [simp]: "char_of_byte (byte_of_char c) = c"
  by (simp add: char_of_byte_def)

lemma byte_of_char_of_byte [simp]: "byte_of_char (char_of_byte b) = b"
proof -
  have "unat b < 256" using unsigned_less [of b] by simp
  then have "of_char (char_of (unat b) :: char) = unat b"
    by (simp add: of_char_of)
  then have "unat (byte_of_char (char_of_byte b)) = unat b"
    by (simp add: char_of_byte_def)
  then show ?thesis by (rule unsigned_word_eqI)
qed

lemma string_of_bytes_of_string [simp]: "string_of_bytes (bytes_of_string s) = s"
  by (simp add: string_of_bytes_def bytes_of_string_def comp_def)

lemma bytes_of_string_of_bytes [simp]: "bytes_of_string (string_of_bytes bs) = bs"
  by (simp add: string_of_bytes_def bytes_of_string_def comp_def)

lemma length_bytes_of_string [simp]: "length (bytes_of_string s) = length s"
  by (simp add: bytes_of_string_def)

lemma length_string_of_bytes [simp]: "length (string_of_bytes bs) = length bs"
  by (simp add: string_of_bytes_def)

lemma c_str_id: "CHR 0x00 \<notin> set s \<Longrightarrow> c_str s = s"
  by (auto simp: c_str_def takeWhile_eq_all_conv)

lemma c_str_no_nul [simp]: "CHR 0x00 \<notin> set (c_str s)"
  by (auto simp: c_str_def dest: set_takeWhileD)

lemma c_str_idem [simp]: "c_str (c_str s) = c_str s"
  by (simp add: c_str_id)

lemma length_c_str: "length (c_str s) \<le> length s"
  by (simp add: c_str_def length_takeWhile_le)

lemma snprintf_buf_id: "length s < n \<Longrightarrow> snprintf_buf n s = s"
  by (simp add: snprintf_buf_def)

lemma has_prefix_append [simp]: "has_prefix p (p @ s)"
  by (simp add: has_prefix_def)

section \<open>Byte order\<close>

text \<open>
  \<open>put_be n v\<close> is the memory image of \<open>v\<close> stored big-endian in \<open>n\<close> bytes (the stores
  through \<open>htons\<close>, \<open>htonl\<close> and \<open>htobe64\<close>), \<open>get_be\<close> the number read back;
  \<open>put_le\<close> and \<open>get_le\<close> are the little-endian ones.
\<close>

fun put_be :: "nat \<Rightarrow> nat \<Rightarrow> bytes" where
  "put_be 0 v = []"
| "put_be (Suc n) v = put_be n (v div 256) @ [of_nat (v mod 256)]"

definition get_be :: "bytes \<Rightarrow> nat" where
  "get_be bs = foldl (\<lambda>acc b. acc * 256 + unat b) 0 bs"

definition put_le :: "nat \<Rightarrow> nat \<Rightarrow> bytes" where
  "put_le n v = rev (put_be n v)"

definition get_le :: "bytes \<Rightarrow> nat" where
  "get_le bs = get_be (rev bs)"

lemma length_put_be [simp]: "length (put_be n v) = n"
  by (induction n arbitrary: v) auto

lemma length_put_le [simp]: "length (put_le n v) = n"
  by (simp add: put_le_def)

lemma get_be_Nil [simp]: "get_be [] = 0"
  by (simp add: get_be_def)

lemma get_be_snoc [simp]: "get_be (bs @ [b]) = get_be bs * 256 + unat b"
  by (simp add: get_be_def)

lemma unat_of_nat_mod_256 [simp]: "unat (of_nat (v mod 256) :: u8) = v mod 256"
  by (simp add: unat_of_nat)

lemma get_be_put_be: "get_be (put_be n v) = v mod 256 ^ n"
proof (induction n arbitrary: v)
  case 0
  then show ?case by simp
next
  case (Suc n)
  have "v div 256 mod 256 ^ n * 256 + v mod 256 = v mod (256 * 256 ^ n)"
    by (simp add: mod_mult2_eq)
  with Suc show ?case by simp
qed

lemma get_be_less: "get_be bs < 256 ^ length bs"
proof (induction bs rule: rev_induct)
  case Nil
  then show ?case by simp
next
  case (snoc b bs)
  have "unat b < 256" using unsigned_less [of b] by simp
  with snoc show ?case by simp
qed

lemma put_be_get_be: "put_be (length bs) (get_be bs) = bs"
proof (induction bs rule: rev_induct)
  case Nil
  then show ?case by simp
next
  case (snoc b bs)
  have b: "unat b < 256" using unsigned_less [of b] by simp
  then have "(get_be bs * 256 + unat b) div 256 = get_be bs"
    and "(get_be bs * 256 + unat b) mod 256 = unat b" by simp_all
  with snoc show ?case by simp
qed

lemma get_le_put_le: "get_le (put_le n v) = v mod 256 ^ n"
  by (simp add: get_le_def put_le_def get_be_put_be)

lemma get_le_less: "get_le bs < 256 ^ length bs"
  using get_be_less [of "rev bs"] by (simp add: get_le_def)

text \<open>The widths of the message fields, read back as words.\<close>

lemma unat_u8_less [simp]: "unat (x :: u8) < 256"
  using unsigned_less [of x, where ?'a = nat] by simp

lemma unat_u16_less [simp]: "unat (x :: u16) < 65536"
  using unsigned_less [of x, where ?'a = nat] by simp

lemma unat_u32_less [simp]: "unat (x :: u32) < 4294967296"
  using unsigned_less [of x, where ?'a = nat] by simp

lemma unat_u64_less [simp]: "unat (x :: u64) < 18446744073709551616"
  using unsigned_less [of x, where ?'a = nat] by simp

lemma word16_be [simp]: "(of_nat (get_be (put_be 2 (unat x))) :: u16) = x"
  by (simp add: get_be_put_be)

lemma word16_le [simp]: "(of_nat (get_le (put_le 2 (unat x))) :: u16) = x"
  by (simp add: get_le_put_le)

lemma word32_be [simp]: "(of_nat (get_be (put_be 4 (unat x))) :: u32) = x"
  by (simp add: get_be_put_be)

lemma word32_le [simp]: "(of_nat (get_le (put_le 4 (unat x))) :: u32) = x"
  by (simp add: get_le_put_le)

lemma word64_be [simp]: "(of_nat (get_be (put_be 8 (unat x))) :: u64) = x"
  by (simp add: get_be_put_be)

lemma word64_le [simp]: "(of_nat (get_le (put_le 8 (unat x))) :: u64) = x"
  by (simp add: get_le_put_le)

lemma put_be_1 [simp]: "put_be (Suc 0) (unat (b :: u8)) = [b]"
  by simp

section \<open>Lists\<close>

lemma take_append_length [simp]: "length xs = n \<Longrightarrow> take n (xs @ ys) = xs"
  by simp

lemma drop_append_length [simp]: "length xs = n \<Longrightarrow> drop n (xs @ ys) = ys"
  by simp

lemma nth_append_ge [simp]: "length xs \<le> i \<Longrightarrow> (xs @ ys) ! i = ys ! (i - length xs)"
  by (simp add: nth_append)

text \<open>
  A field of a message buffer: \<open>field off n buf\<close> is \<open>buf[off .. off + n]\<close>.
\<close>

definition field :: "nat \<Rightarrow> nat \<Rightarrow> 'a list \<Rightarrow> 'a list" where
  "field off n buf = take n (drop off buf)"

lemma field_0_append [wire_simps]: "length xs = n \<Longrightarrow> field 0 n (xs @ ys) = xs"
  by (simp add: field_def)

lemma field_skip [wire_simps]:
  "length xs \<le> off \<Longrightarrow> field off n (xs @ ys) = field (off - length xs) n ys"
  by (simp add: field_def)

lemma field_Cons [wire_simps]: "0 < off \<Longrightarrow> field off n (x # xs) = field (off - 1) n xs"
  by (cases off) (simp_all add: field_def)

lemma field_all [wire_simps]: "length xs = n \<Longrightarrow> field 0 n xs = xs"
  by (simp add: field_def)

lemma length_field: "off + n \<le> length buf \<Longrightarrow> length (field off n buf) = n"
  by (simp add: field_def)

end
