(* ===== verification/Posix.thy ===== *)
theory Posix
  imports Objm_Prelude
begin

text \<open>
  The part of the C library and of the kernel that the sources call, as functions on an
  explicit state \<open>os\<close>: the files and directories by path, the descriptor table of the
  process with its open file descriptions, the connected stream socket of the current
  thread with descriptors passed along its bytes, and the ways in which a call may fail.

  Failure is data: \<open>faults\<close> is consulted once by every allocation and every path call
  (\<open>True\<close>: this call fails; a script that has run out means success), and \<open>rx_ev\<close>,
  \<open>tx_ev\<close> and \<open>fio_ev\<close> script the short counts, interruptions and errors of the
  transfers on the socket and on files. A theorem that leaves these scripts free holds
  for every failure pattern of a run. Paths are compared as strings, so symbolic links
  and dot segments are outside the model.
\<close>

section \<open>State\<close>

datatype io_event = Upto nat | Intr | Fail

datatype item = Plain u8 | WithFd u8 nat

primrec item_byte :: "item \<Rightarrow> u8" where
  "item_byte (Plain b) = b"
| "item_byte (WithFd b d) = b"

datatype access = O_RDONLY | O_WRONLY | O_RDWR

record ofile =
  of_ino :: nat
  of_off :: nat
  of_acc :: access

record os =
  dir :: "string \<Rightarrow> nat option"       \<comment> \<open>regular files: path to inode\<close>
  is_dir :: "string \<Rightarrow> bool"           \<comment> \<open>directories\<close>
  inodes :: "nat \<Rightarrow> bytes"             \<comment> \<open>file contents\<close>
  next_ino :: nat
  fds :: "nat option list"               \<comment> \<open>descriptor table: to open file descriptions\<close>
  ofds :: "nat \<Rightarrow> ofile"
  next_ofd :: nat
  rx :: "item list"                      \<comment> \<open>all the peer sends before it closes\<close>
  tx :: "item list"                      \<comment> \<open>what has been sent to the peer\<close>
  rx_ev :: "io_event list"
  tx_ev :: "io_event list"
  fio_ev :: "io_event list"
  faults :: "bool list"
  clock :: u64

definition fault :: "'a os_scheme \<Rightarrow> bool \<times> 'a os_scheme" where
  "fault s = (case faults s of [] \<Rightarrow> (False, s) | b # bs \<Rightarrow> (b, s\<lparr>faults := bs\<rparr>))"

definition no_faults :: "'a os_scheme \<Rightarrow> bool" where
  "no_faults s \<longleftrightarrow> True \<notin> set (faults s)"

section \<open>The descriptor table\<close>

fun first_free :: "nat option list \<Rightarrow> nat" where
  "first_free [] = 0"
| "first_free (None # xs) = 0"
| "first_free (Some d # xs) = Suc (first_free xs)"

definition fd_obj :: "'a os_scheme \<Rightarrow> int \<Rightarrow> nat option" where
  "fd_obj s fd = (if 0 \<le> fd \<and> nat fd < length (fds s) then fds s ! nat fd else None)"

text \<open>The kernel hands out the lowest free descriptor number.\<close>

definition install_fd :: "nat \<Rightarrow> 'a os_scheme \<Rightarrow> int \<times> 'a os_scheme" where
  "install_fd d s =
     (let i = first_free (fds s)
      in (int i, s\<lparr>fds := (if i < length (fds s) then (fds s)[i := Some d] else fds s @ [Some d])\<rparr>))"

text \<open>\<open>close\<close>: its result is never looked at by the sources; a descriptor that is not
  open gives \<open>EBADF\<close> and changes nothing.\<close>

definition sys_close :: "int \<Rightarrow> 'a os_scheme \<Rightarrow> 'a os_scheme" where
  "sys_close fd s = (if fd_obj s fd = None then s else s\<lparr>fds := (fds s)[nat fd := None]\<rparr>)"

definition sys_dup :: "int \<Rightarrow> 'a os_scheme \<Rightarrow> int \<times> 'a os_scheme" where
  "sys_dup fd s =
     (let (f, s) = fault s
      in case fd_obj s fd of None \<Rightarrow> (-1, s) | Some d \<Rightarrow> if f then (-1, s) else install_fd d s)"

section \<open>Paths\<close>

definition dirname :: "string \<Rightarrow> string" where
  "dirname p = rev (tl (dropWhile (\<lambda>c. c \<noteq> CHR ''/'') (rev p)))"

definition parent_ok :: "'a os_scheme \<Rightarrow> string \<Rightarrow> bool" where
  "parent_ok s p \<longleftrightarrow> dirname p = [] \<or> is_dir s (dirname p)"

definition new_ofd :: "nat \<Rightarrow> access \<Rightarrow> 'a os_scheme \<Rightarrow> int \<times> 'a os_scheme" where
  "new_ofd ino acc s =
     install_fd (next_ofd s)
       (s\<lparr>ofds := (ofds s)(next_ofd s := \<lparr>of_ino = ino, of_off = 0, of_acc = acc\<rparr>),
          next_ofd := Suc (next_ofd s)\<rparr>)"

text \<open>\<open>open(path, acc)\<close> on an existing file.\<close>

definition sys_open :: "access \<Rightarrow> string \<Rightarrow> 'a os_scheme \<Rightarrow> int \<times> 'a os_scheme" where
  "sys_open acc path s =
     (let (f, s) = fault s
      in if f then (-1, s)
         else case dir s path of None \<Rightarrow> (-1, s) | Some ino \<Rightarrow> new_ofd ino acc s)"

text \<open>\<open>open(path, acc | O_CREAT | O_TRUNC, 0644)\<close>.\<close>

definition sys_open_creat :: "access \<Rightarrow> string \<Rightarrow> 'a os_scheme \<Rightarrow> int \<times> 'a os_scheme" where
  "sys_open_creat acc path s =
     (let (f, s) = fault s
      in if f then (-1, s)
         else case dir s path of
           Some ino \<Rightarrow> new_ofd ino acc (s\<lparr>inodes := (inodes s)(ino := [])\<rparr>)
         | None \<Rightarrow>
             if is_dir s path \<or> \<not> parent_ok s path then (-1, s)
             else new_ofd (next_ino s) acc
                    (s\<lparr>dir := (dir s)(path \<mapsto> next_ino s),
                       inodes := (inodes s)(next_ino s := []),
                       next_ino := Suc (next_ino s)\<rparr>))"

definition sys_unlink :: "string \<Rightarrow> 'a os_scheme \<Rightarrow> 'a os_scheme" where
  "sys_unlink path s =
     (let (f, s) = fault s in if f then s else s\<lparr>dir := (dir s)(path := None)\<rparr>)"

definition sys_rename :: "string \<Rightarrow> string \<Rightarrow> 'a os_scheme \<Rightarrow> bool \<times> 'a os_scheme" where
  "sys_rename old new s =
     (let (f, s) = fault s
      in if f then (False, s)
         else case dir s old of
           None \<Rightarrow> (False, s)
         | Some ino \<Rightarrow>
             if is_dir s new \<or> \<not> parent_ok s new then (False, s)
             else (True, s\<lparr>dir := (dir s)(old := None, new \<mapsto> ino)\<rparr>))"

datatype mkdir_result = MkdirOk | MkdirExists | MkdirError

definition sys_mkdir :: "string \<Rightarrow> 'a os_scheme \<Rightarrow> mkdir_result \<times> 'a os_scheme" where
  "sys_mkdir path s =
     (let (f, s) = fault s
      in if f \<or> path = [] then (MkdirError, s)
         else if is_dir s path \<or> dir s path \<noteq> None then (MkdirExists, s)
         else if \<not> parent_ok s path then (MkdirError, s)
         else (MkdirOk, s\<lparr>is_dir := (is_dir s)(path := True)\<rparr>))"

section \<open>File transfers\<close>

definition write_at :: "nat \<Rightarrow> bytes \<Rightarrow> bytes \<Rightarrow> bytes" where
  "write_at off bs old =
     take off old @ replicate (off - length old) 0 @ bs @ drop (off + length bs) old"

datatype kres = KErr | KIntr | KDone bytes

definition chunk :: "io_event list \<Rightarrow> nat \<Rightarrow> nat" where
  "chunk evs n = (case evs of Upto k # _ \<Rightarrow> min n (max 1 k) | _ \<Rightarrow> n)"

text \<open>
  \<open>write\<close> to a file. The limit of \<open>0x7ffff000\<close> bytes for one call is not built in: a write that it makes short
  is one with an \<open>Upto\<close> event in \<open>fio_ev\<close>.
\<close>

definition file_write :: "int \<Rightarrow> bytes \<Rightarrow> 'a os_scheme \<Rightarrow> kres \<times> 'a os_scheme" where
  "file_write fd bs s =
     (case fd_obj s fd of
        None \<Rightarrow> (KErr, s)
      | Some d \<Rightarrow>
          let evs = fio_ev s; s = s\<lparr>fio_ev := tl evs\<rparr>; f = ofds s d
          in if evs \<noteq> [] \<and> hd evs = Intr then (KIntr, s)
             else if (evs \<noteq> [] \<and> hd evs = Fail) \<or> of_acc f = O_RDONLY then (KErr, s)
             else let out = take (chunk evs (length bs)) bs
                  in (KDone out,
                      s\<lparr>inodes := (inodes s)(of_ino f := write_at (of_off f) out (inodes s (of_ino f))),
                        ofds := (ofds s)(d := f\<lparr>of_off := of_off f + length out\<rparr>)\<rparr>))"

definition file_read :: "int \<Rightarrow> nat \<Rightarrow> 'a os_scheme \<Rightarrow> kres \<times> 'a os_scheme" where
  "file_read fd n s =
     (case fd_obj s fd of
        None \<Rightarrow> (KErr, s)
      | Some d \<Rightarrow>
          let evs = fio_ev s; s = s\<lparr>fio_ev := tl evs\<rparr>; f = ofds s d
          in if evs \<noteq> [] \<and> hd evs = Intr then (KIntr, s)
             else if (evs \<noteq> [] \<and> hd evs = Fail) \<or> of_acc f = O_WRONLY then (KErr, s)
             else let got = take (chunk evs n) (drop (of_off f) (inodes s (of_ino f)))
                  in (KDone got, s\<lparr>ofds := (ofds s)(d := f\<lparr>of_off := of_off f + length got\<rparr>)\<rparr>))"

text \<open>\<open>sendfile(out, in, &offset, n)\<close> with \<open>offset = 0\<close>: copies at most \<open>0x7ffff000\<close>
  bytes from the start of \<open>in\<close> and returns the number of bytes copied.\<close>

definition sys_sendfile :: "int \<Rightarrow> int \<Rightarrow> nat \<Rightarrow> 'a os_scheme \<Rightarrow> int \<times> 'a os_scheme" where
  "sys_sendfile out src n s =
     (let (flt, s) = fault s
      in case (fd_obj s out, fd_obj s src) of
           (Some d, Some e) \<Rightarrow>
             if flt \<or> of_acc (ofds s d) = O_RDONLY \<or> of_acc (ofds s e) = O_WRONLY then (-1, s)
             else let data = take (min n 0x7ffff000) (inodes s (of_ino (ofds s e)));
                      f = ofds s d
                  in (int (length data),
                      s\<lparr>inodes := (inodes s)(of_ino f := write_at (of_off f) data (inodes s (of_ino f))),
                        ofds := (ofds s)(d := f\<lparr>of_off := of_off f + length data\<rparr>)\<rparr>)
         | _ \<Rightarrow> (-1, s))"

section \<open>The stream socket\<close>

text \<open>
  \<open>read\<close> returns the bytes that are there, up to the requested count; descriptors
  attached to bytes taken by a plain \<open>read\<close> are dropped by the kernel. An empty result
  is the end of the stream.
\<close>

definition sock_read :: "nat \<Rightarrow> 'a os_scheme \<Rightarrow> kres \<times> 'a os_scheme" where
  "sock_read n s =
     (let evs = rx_ev s; s = s\<lparr>rx_ev := tl evs\<rparr>
      in if evs \<noteq> [] \<and> hd evs = Intr then (KIntr, s)
         else if evs \<noteq> [] \<and> hd evs = Fail then (KErr, s)
         else let k = chunk evs n
              in (KDone (map item_byte (take k (rx s))), s\<lparr>rx := drop k (rx s)\<rparr>))"

definition sock_write :: "bytes \<Rightarrow> 'a os_scheme \<Rightarrow> kres \<times> 'a os_scheme" where
  "sock_write bs s =
     (let evs = tx_ev s; s = s\<lparr>tx_ev := tl evs\<rparr>
      in if evs \<noteq> [] \<and> hd evs = Intr then (KIntr, s)
         else if evs \<noteq> [] \<and> hd evs = Fail then (KErr, s)
         else let out = take (chunk evs (length bs)) bs
              in (KDone out, s\<lparr>tx := tx s @ map Plain out\<rparr>))"

text \<open>\<open>recv(fd, &b, 1, MSG_PEEK)\<close>: \<open>None\<close> unless exactly one byte was seen.\<close>

definition sock_peek :: "'a os_scheme \<Rightarrow> u8 option \<times> 'a os_scheme" where
  "sock_peek s =
     (let evs = rx_ev s; s = s\<lparr>rx_ev := tl evs\<rparr>
      in if evs \<noteq> [] \<and> (hd evs = Intr \<or> hd evs = Fail) then (None, s)
         else case rx s of [] \<Rightarrow> (None, s) | i # _ \<Rightarrow> (Some (item_byte i), s))"

text \<open>\<open>sendmsg\<close> of one byte with one descriptor in an \<open>SCM_RIGHTS\<close> control message.\<close>

definition sock_sendmsg_fd :: "u8 \<Rightarrow> int \<Rightarrow> 'a os_scheme \<Rightarrow> bool \<times> 'a os_scheme" where
  "sock_sendmsg_fd b fd s =
     (let evs = tx_ev s; s = s\<lparr>tx_ev := tl evs\<rparr>
      in if evs \<noteq> [] \<and> (hd evs = Intr \<or> hd evs = Fail) then (False, s)
         else case fd_obj s fd of
                None \<Rightarrow> (False, s)
              | Some d \<Rightarrow> (True, s\<lparr>tx := tx s @ [WithFd b d]\<rparr>))"

text \<open>
  \<open>recvmsg\<close> with room for \<open>n\<close> data bytes and one descriptor: the data bytes received
  (\<open>None\<close> when the call failed) and the descriptor of the control message, installed in
  the table. The kernel ends a message after bytes that carry a descriptor.
\<close>

fun upto_fd :: "item list \<Rightarrow> item list" where
  "upto_fd [] = []"
| "upto_fd (Plain b # xs) = Plain b # upto_fd xs"
| "upto_fd (WithFd b d # xs) = [WithFd b d]"

definition sock_recvmsg_fd ::
    "nat \<Rightarrow> 'a os_scheme \<Rightarrow> (bytes option \<times> int option) \<times> 'a os_scheme" where
  "sock_recvmsg_fd n s =
     (let evs = rx_ev s; s = s\<lparr>rx_ev := tl evs\<rparr>
      in if evs \<noteq> [] \<and> (hd evs = Intr \<or> hd evs = Fail) then ((None, None), s)
         else let got = upto_fd (take n (rx s)); s = s\<lparr>rx := drop (length got) (rx s)\<rparr>;
                  bs = Some (map item_byte got)
              in case (if got = [] then Plain 0 else last got) of
                   Plain b \<Rightarrow> ((bs, None), s)
                 | WithFd b d \<Rightarrow>
                     let (f, s) = fault s
                     in if f then ((bs, None), s)
                        else let (fd, s) = install_fd d s in ((bs, Some fd), s))"

definition link_ok :: "'a os_scheme \<Rightarrow> bool" where
  "link_ok s \<longleftrightarrow> Fail \<notin> set (rx_ev s) \<and> Fail \<notin> set (tx_ev s)"

text \<open>A link on which, in addition, no call is interrupted: \<open>sendmsg\<close> and \<open>recvmsg\<close> are
  called once and not repeated after \<open>EINTR\<close>.\<close>

definition link_calm :: "'a os_scheme \<Rightarrow> bool" where
  "link_calm s \<longleftrightarrow> link_ok s \<and> Intr \<notin> set (rx_ev s) \<and> Intr \<notin> set (tx_ev s)"

text \<open>A process that has just started: no files, standard descriptors free, no failures.\<close>

definition os_init :: os where
  "os_init =
     \<lparr>dir = Map.empty, is_dir = (\<lambda>_. False), inodes = (\<lambda>_. []), next_ino = 0,
      fds = [], ofds = (\<lambda>_. \<lparr>of_ino = 0, of_off = 0, of_acc = O_RDONLY\<rparr>), next_ofd = 0,
      rx = [], tx = [], rx_ev = [], tx_ev = [], fio_ev = [], faults = [], clock = 0\<rparr>"

section \<open>Laws of the calls\<close>

text \<open>A frame law says of which shape the next state is: \<open>s' = s\<lparr>fds := t\<rparr>\<close> for some
  \<open>t\<close>, from which every other field is seen to be unchanged.\<close>

lemma fault_none [posix_simps]: "faults s = [] \<Longrightarrow> fault s = (False, s)"
  by (simp add: fault_def)

lemma fault_frame:
  assumes "fault s = (b, s')" obtains t where "s' = s\<lparr>faults := t\<rparr>"
proof (cases "faults s")
  case Nil
  with assms have "s' = s\<lparr>faults := faults s\<rparr>" by (simp add: fault_def)
  then show ?thesis by (rule that)
next
  case (Cons c cs)
  with assms have "s' = s\<lparr>faults := cs\<rparr>" by (simp add: fault_def)
  then show ?thesis by (rule that)
qed

lemma no_faults_fault:
  assumes "no_faults s"
  obtains t where "fault s = (False, s\<lparr>faults := t\<rparr>)" "True \<notin> set t"
proof (cases "faults s")
  case Nil
  then have "fault s = (False, s\<lparr>faults := faults s\<rparr>)" by (simp add: fault_def)
  with Nil show ?thesis using that by fastforce
next
  case (Cons c cs)
  with assms show ?thesis using that by (auto simp: fault_def no_faults_def)
qed

lemma no_faults_step:
  assumes "no_faults s" "fault s = (b, s')"
  shows "\<not> b" "no_faults s'"
  using assms by (cases "faults s"; auto simp: fault_def no_faults_def)+

lemma first_free_le: "first_free xs \<le> length xs"
  by (induction xs rule: first_free.induct) auto

lemma first_free_None: "first_free xs < length xs \<Longrightarrow> xs ! first_free xs = None"
  by (induction xs rule: first_free.induct) auto

lemma install_fd_frame:
  assumes "install_fd d s = (fd, s')" obtains t where "s' = s\<lparr>fds := t\<rparr>"
  using assms by (auto simp: install_fd_def Let_def)

lemma install_fd_fresh:
  assumes "install_fd d s = (fd, s')"
  shows "fd_obj s fd = None" and "fd_obj s' fd = Some d" and "0 \<le> fd"
    and "\<And>fd'. fd' \<noteq> fd \<Longrightarrow> fd_obj s' fd' = fd_obj s fd'"
proof -
  from assms have fd: "fd = int (first_free (fds s))"
    and s': "fds s' = (if first_free (fds s) < length (fds s)
                then (fds s)[first_free (fds s) := Some d] else fds s @ [Some d])"
    by (auto simp: install_fd_def Let_def)
  note le = first_free_le [of "fds s"]
  show "fd_obj s fd = None" using first_free_None [of "fds s"] by (simp add: fd fd_obj_def)
  show "fd_obj s' fd = Some d"
    using le by (cases "first_free (fds s) < length (fds s)") (simp_all add: fd s' fd_obj_def)
  show "0 \<le> fd" by (simp add: fd)
  show "fd_obj s' fd' = fd_obj s fd'" if "fd' \<noteq> fd" for fd'
  proof (cases "0 \<le> fd'")
    case True
    with that have "nat fd' \<noteq> first_free (fds s)" by (auto simp: fd)
    with le show ?thesis
      by (auto simp: s' fd_obj_def nth_append nth_list_update)
  qed (simp add: fd_obj_def)
qed

lemma fd_obj_update [simp]:
  "fd_obj (s\<lparr>dir := x0\<rparr>) fd = fd_obj s fd"
  "fd_obj (s\<lparr>is_dir := x1\<rparr>) fd = fd_obj s fd"
  "fd_obj (s\<lparr>inodes := x2\<rparr>) fd = fd_obj s fd"
  "fd_obj (s\<lparr>next_ino := x3\<rparr>) fd = fd_obj s fd"
  "fd_obj (s\<lparr>ofds := x4\<rparr>) fd = fd_obj s fd"
  "fd_obj (s\<lparr>next_ofd := x5\<rparr>) fd = fd_obj s fd"
  "fd_obj (s\<lparr>rx := x6\<rparr>) fd = fd_obj s fd"
  "fd_obj (s\<lparr>tx := x7\<rparr>) fd = fd_obj s fd"
  "fd_obj (s\<lparr>rx_ev := x8\<rparr>) fd = fd_obj s fd"
  "fd_obj (s\<lparr>tx_ev := x9\<rparr>) fd = fd_obj s fd"
  "fd_obj (s\<lparr>fio_ev := x10\<rparr>) fd = fd_obj s fd"
  "fd_obj (s\<lparr>faults := x11\<rparr>) fd = fd_obj s fd"
  "fd_obj (s\<lparr>clock := x12\<rparr>) fd = fd_obj s fd"
  by (simp_all add: fd_obj_def)

lemma fd_obj_nonneg: "fd_obj s fd = Some d \<Longrightarrow> 0 \<le> fd"
  by (simp add: fd_obj_def split: if_splits)

lemma fd_obj_close [posix_simps]:
  "fd_obj (sys_close fd s) fd' = (if fd' = fd then None else fd_obj s fd')"
proof (cases "fd_obj s fd")
  case None
  then show ?thesis by (simp add: sys_close_def)
next
  case (Some d)
  then have fd: "0 \<le> fd" "nat fd < length (fds s)" by (auto simp: fd_obj_def split: if_splits)
  with Some have "fds (sys_close fd s) = (fds s)[nat fd := None]" by (simp add: sys_close_def)
  with fd show ?thesis by (auto simp: fd_obj_def nth_list_update)
qed

lemma sys_close_frame: obtains t where "sys_close fd s = s\<lparr>fds := t\<rparr>"
proof (cases "fd_obj s fd")
  case None
  then have "sys_close fd s = s\<lparr>fds := fds s\<rparr>" by (simp add: sys_close_def)
  then show ?thesis by (rule that)
qed (auto simp: sys_close_def intro: that)

text \<open>The fields that \<open>close\<close> leaves alone.\<close>

lemma sys_close_simps [frame_simps]:
  "dir (sys_close fd s) = dir s" "is_dir (sys_close fd s) = is_dir s"
  "inodes (sys_close fd s) = inodes s" "ofds (sys_close fd s) = ofds s"
  "next_ino (sys_close fd s) = next_ino s" "next_ofd (sys_close fd s) = next_ofd s"
  "rx (sys_close fd s) = rx s" "tx (sys_close fd s) = tx s"
  "rx_ev (sys_close fd s) = rx_ev s" "tx_ev (sys_close fd s) = tx_ev s"
  "fio_ev (sys_close fd s) = fio_ev s" "faults (sys_close fd s) = faults s"
  "clock (sys_close fd s) = clock s" "os.more (sys_close fd s) = os.more s"
  by (simp_all add: sys_close_def)

lemma new_ofd_result:
  assumes "new_ofd ino acc s = (fd, s')"
  shows "0 \<le> fd" "fd_obj s fd = None" "fd_obj s' fd = Some (next_ofd s)"
    "\<And>fd'. fd' \<noteq> fd \<Longrightarrow> fd_obj s' fd' = fd_obj s fd'"
proof -
  let ?t = "s\<lparr>ofds := (ofds s)(next_ofd s := \<lparr>of_ino = ino, of_off = 0, of_acc = acc\<rparr>),
              next_ofd := Suc (next_ofd s)\<rparr>"
  have t: "fd_obj ?t x = fd_obj s x" for x by (simp add: fd_obj_def)
  from assms have "install_fd (next_ofd s) ?t = (fd, s')" by (simp add: new_ofd_def)
  from install_fd_fresh [OF this] show "0 \<le> fd" "fd_obj s fd = None"
    "fd_obj s' fd = Some (next_ofd s)"
    "\<And>fd'. fd' \<noteq> fd \<Longrightarrow> fd_obj s' fd' = fd_obj s fd'" by (simp_all add: t)
qed

lemma new_ofd_frame:
  assumes "new_ofd ino acc s = (fd, s')"
  obtains t where "s' = s\<lparr>ofds := (ofds s)(next_ofd s := \<lparr>of_ino = ino, of_off = 0, of_acc = acc\<rparr>),
                    next_ofd := Suc (next_ofd s), fds := t\<rparr>"
  using install_fd_frame [OF assms [unfolded new_ofd_def]] by blast

text \<open>What \<open>open\<close> on an existing file may change, and what it returns.\<close>

lemma sys_open_frame:
  assumes "sys_open acc path s = (fd, s')"
  obtains f x n t where "s' = s\<lparr>faults := f, ofds := x, next_ofd := n, fds := t\<rparr>"
proof -
  obtain b s1 where b: "fault s = (b, s1)" by (cases "fault s")
  then obtain f where f: "s1 = s\<lparr>faults := f\<rparr>" by (rule fault_frame)
  show ?thesis
  proof (cases "b \<or> dir s1 path = None")
    case True
    with assms b have "s' = s1" by (auto simp: sys_open_def split: if_splits)
    also have "\<dots> = s\<lparr>faults := f, ofds := ofds s, next_ofd := next_ofd s, fds := fds s\<rparr>" by (simp add: f)
    finally show ?thesis by (rule that)
  next
    case False
    with assms b obtain ino where "new_ofd ino acc s1 = (fd, s')" by (auto simp: sys_open_def)
    from new_ofd_frame [OF this] f show ?thesis by (metis that)
  qed
qed

lemma sys_open_result:
  assumes "sys_open acc path s = (fd, s')"
  shows "0 \<le> fd \<Longrightarrow> \<exists>d ino. fd_obj s fd = None \<and> fd_obj s' fd = Some d \<and> dir s path = Some ino \<and>
           ofds s' d = \<lparr>of_ino = ino, of_off = 0, of_acc = acc\<rparr>"
    and "fd' \<noteq> fd \<Longrightarrow> fd_obj s' fd' = fd_obj s fd'" and "fd < 0 \<Longrightarrow> fd = -1"
proof -
  obtain b s1 where b: "fault s = (b, s1)" by (cases "fault s")
  then obtain f where f: "s1 = s\<lparr>faults := f\<rparr>" by (rule fault_frame)
  consider "fd = -1" "s' = s1" | ino where "dir s path = Some ino" "new_ofd ino acc s1 = (fd, s')"
    using assms b f by (auto simp: sys_open_def split: if_splits option.splits)
  then have "(0 \<le> fd \<longrightarrow> (\<exists>d ino. fd_obj s fd = None \<and> fd_obj s' fd = Some d \<and> dir s path = Some ino \<and>
           ofds s' d = \<lparr>of_ino = ino, of_off = 0, of_acc = acc\<rparr>)) \<and>
       (\<forall>fd'. fd' \<noteq> fd \<longrightarrow> fd_obj s' fd' = fd_obj s fd') \<and> (fd < 0 \<longrightarrow> fd = -1)"
  proof cases
    case 1
    with f show ?thesis by simp
  next
    case (2 ino)
    note r = new_ofd_result [OF 2(2)]
    obtain t where "s' = s1\<lparr>ofds := (ofds s1)(next_ofd s1 := \<lparr>of_ino = ino, of_off = 0, of_acc = acc\<rparr>),
        next_ofd := Suc (next_ofd s1), fds := t\<rparr>" using new_ofd_frame [OF 2(2)] .
    then have "ofds s' (next_ofd s1) = \<lparr>of_ino = ino, of_off = 0, of_acc = acc\<rparr>" by simp
    with r 2(1) f show ?thesis by auto
  qed
  then show "0 \<le> fd \<Longrightarrow> \<exists>d ino. fd_obj s fd = None \<and> fd_obj s' fd = Some d \<and> dir s path = Some ino \<and>
           ofds s' d = \<lparr>of_ino = ino, of_off = 0, of_acc = acc\<rparr>"
    and "fd' \<noteq> fd \<Longrightarrow> fd_obj s' fd' = fd_obj s fd'" and "fd < 0 \<Longrightarrow> fd = -1" by blast+
qed

lemma sys_open_ok:
  assumes "no_faults s" "dir s path = Some ino" "sys_open acc path s = (fd, s')"
  shows "0 \<le> fd" "no_faults s'"
proof -
  obtain t where f: "fault s = (False, s\<lparr>faults := t\<rparr>)" "True \<notin> set t" using no_faults_fault [OF assms(1)] .
  then have n: "new_ofd ino acc (s\<lparr>faults := t\<rparr>) = (fd, s')" using assms(2,3) by (simp add: sys_open_def)
  then show "0 \<le> fd" by (rule new_ofd_result)
  obtain u where "s' = (s\<lparr>faults := t\<rparr>)\<lparr>ofds := (ofds (s\<lparr>faults := t\<rparr>))
      (next_ofd (s\<lparr>faults := t\<rparr>) := \<lparr>of_ino = ino, of_off = 0, of_acc = acc\<rparr>),
      next_ofd := Suc (next_ofd (s\<lparr>faults := t\<rparr>)), fds := u\<rparr>"
    using new_ofd_frame [OF n] .
  then show "no_faults s'" using f(2) by (simp add: no_faults_def)
qed

lemma creat_shape:
  assumes "no_faults s" "dir s path = None \<Longrightarrow> \<not> is_dir s path \<and> parent_ok s path"
    and "j = (case dir s path of None \<Rightarrow> next_ino s | Some i \<Rightarrow> i)"
  obtains fd s' t n tt where "sys_open_creat acc path s = (fd, s')" "0 \<le> fd" "fd_obj s fd = None" "fd_obj s' fd = Some (next_ofd s)"
    "\<forall>x. x \<noteq> fd \<longrightarrow> fd_obj s' x = fd_obj s x"
    "True \<notin> set t" "s' = s\<lparr>faults := t, dir := (dir s)(path \<mapsto> j), inodes := (inodes s)(j := []), next_ino := n,
       ofds := (ofds s)(next_ofd s := \<lparr>of_ino = j, of_off = 0, of_acc = acc\<rparr>), next_ofd := Suc (next_ofd s), fds := tt\<rparr>"
proof -
  obtain t where f: "fault s = (False, s\<lparr>faults := t\<rparr>)" "True \<notin> set t" using no_faults_fault [OF assms(1)] .
  define n where "n = (if dir s path = None then Suc (next_ino s) else next_ino s)"
  define s1 where "s1 = s\<lparr>faults := t, dir := (dir s)(path \<mapsto> j), inodes := (inodes s)(j := []), next_ino := n\<rparr>"
  obtain fd s' where m: "new_ofd j acc s1 = (fd, s')" by fastforce
  have "sys_open_creat acc path s = (fd, s')"
  proof (cases "dir s path")
    case None
    then show ?thesis using f m assms(2,3) by (simp add: sys_open_creat_def s1_def n_def parent_ok_def)
  next
    case (Some i)
    then have "(dir s)(path \<mapsto> j) = dir s" using assms(3) by auto
    with Some show ?thesis using f m assms(3) by (simp add: sys_open_creat_def s1_def n_def)
  qed
  moreover obtain tt where "s' = s1\<lparr>ofds := (ofds s1)(next_ofd s1 := \<lparr>of_ino = j, of_off = 0, of_acc = acc\<rparr>),
      next_ofd := Suc (next_ofd s1), fds := tt\<rparr>" using new_ofd_frame [OF m] .
  moreover have "fd_obj s1 x = fd_obj s x" "next_ofd s1 = next_ofd s" for x by (simp_all add: s1_def)
  ultimately show ?thesis using new_ofd_result [OF m] f(2) by (intro that [where t = t and n = n and tt = tt]) (auto simp: s1_def)
qed

lemma creat_ok:
  assumes "no_faults s" "dir s path = None \<Longrightarrow> \<not> is_dir s path \<and> parent_ok s path"
  obtains fd s' d ino where "sys_open_creat acc path s = (fd, s')" "0 \<le> fd" "fd_obj s fd = None" "fd_obj s' fd = Some d"
    "ofds s' d = \<lparr>of_ino = ino, of_off = 0, of_acc = acc\<rparr>" "dir s' = (dir s)(path \<mapsto> ino)"
    "ino = (case dir s path of None \<Rightarrow> next_ino s | Some i \<Rightarrow> i)" "inodes s' = (inodes s)(ino := [])"
    "no_faults s'" "os.more s' = os.more s" "\<forall>x. x \<noteq> fd \<longrightarrow> fd_obj s' x = fd_obj s x"
proof -
  define ino where "ino = (case dir s path of None \<Rightarrow> next_ino s | Some i \<Rightarrow> i)"
  obtain fd s' t n tt where o: "sys_open_creat acc path s = (fd, s')" "0 \<le> fd" "fd_obj s fd = None"
    "fd_obj s' fd = Some (next_ofd s)" "\<forall>x. x \<noteq> fd \<longrightarrow> fd_obj s' x = fd_obj s x" "True \<notin> set t"
    and s': "s' = s\<lparr>faults := t, dir := (dir s)(path \<mapsto> ino), inodes := (inodes s)(ino := []), next_ino := n,
       ofds := (ofds s)(next_ofd s := \<lparr>of_ino = ino, of_off = 0, of_acc = acc\<rparr>), next_ofd := Suc (next_ofd s), fds := tt\<rparr>"
    using creat_shape [OF assms ino_def, of acc] .
  show ?thesis
    by (rule that [OF o(1-4), of ino]) (use o(5,6) in \<open>simp_all add: s' ino_def no_faults_def\<close>)
qed

lemma chunk_bounds: "0 < n \<Longrightarrow> 0 < chunk evs n \<and> chunk evs n \<le> n"
  by (auto simp: chunk_def split: list.splits io_event.splits)

lemma write_at_append [simp]: "off = length old \<Longrightarrow> write_at off bs old = old @ bs"
  by (simp add: write_at_def)

end
