(* ===== verification/Protocol_Meta.thy ===== *)
theory Protocol_Meta
  imports Posix
begin

text \<open>
  The metadata block of \<open>lib/protocol/protocol.c\<close>: type-length-value entries in the
  buffer that travels with a response (\<open>objm_metadata_create\<close>, \<open>_add\<close>, \<open>_parse\<close>,
  \<open>_get\<close>), and the name tables of the protocol's codes. A buffer is the list of its
  bytes; a store past its end, undefined in C, is the outer \<open>None\<close> of a result.
\<close>

section \<open>Protocol constants\<close>

abbreviation OBJM_CAP_OOO_REPLIES :: u16 where "OBJM_CAP_OOO_REPLIES \<equiv> 0x0001"
abbreviation OBJM_CAP_PIPELINING :: u16 where "OBJM_CAP_PIPELINING \<equiv> 0x0002"
abbreviation OBJM_CAP_COMPRESSION :: u16 where "OBJM_CAP_COMPRESSION \<equiv> 0x0004"
abbreviation OBJM_CAP_MULTIPLEXING :: u16 where "OBJM_CAP_MULTIPLEXING \<equiv> 0x0008"

abbreviation OBJM_REQ_ORDERED :: u8 where "OBJM_REQ_ORDERED \<equiv> 0x01"
abbreviation OBJM_REQ_PRIORITY :: u8 where "OBJM_REQ_PRIORITY \<equiv> 0x02"

abbreviation OBJM_MSG_REQUEST :: u8 where "OBJM_MSG_REQUEST \<equiv> 0x01"
abbreviation OBJM_MSG_RESPONSE :: u8 where "OBJM_MSG_RESPONSE \<equiv> 0x02"
abbreviation OBJM_MSG_CLOSE :: u8 where "OBJM_MSG_CLOSE \<equiv> 0x03"
abbreviation OBJM_MSG_CLOSE_ACK :: u8 where "OBJM_MSG_CLOSE_ACK \<equiv> 0x04"

abbreviation OBJM_STATUS_OK :: u8 where "OBJM_STATUS_OK \<equiv> 0x00"
abbreviation OBJM_STATUS_NOT_FOUND :: u8 where "OBJM_STATUS_NOT_FOUND \<equiv> 0x01"
abbreviation OBJM_STATUS_INVALID_REQUEST :: u8 where "OBJM_STATUS_INVALID_REQUEST \<equiv> 0x02"
abbreviation OBJM_STATUS_INVALID_MODE :: u8 where "OBJM_STATUS_INVALID_MODE \<equiv> 0x03"
abbreviation OBJM_STATUS_URI_TOO_LONG :: u8 where "OBJM_STATUS_URI_TOO_LONG \<equiv> 0x04"
abbreviation OBJM_STATUS_UNSUPPORTED_OP :: u8 where "OBJM_STATUS_UNSUPPORTED_OP \<equiv> 0x05"
abbreviation OBJM_STATUS_INTERNAL_ERROR :: u8 where "OBJM_STATUS_INTERNAL_ERROR \<equiv> 0x10"
abbreviation OBJM_STATUS_STORAGE_ERROR :: u8 where "OBJM_STATUS_STORAGE_ERROR \<equiv> 0x11"
abbreviation OBJM_STATUS_OUT_OF_MEMORY :: u8 where "OBJM_STATUS_OUT_OF_MEMORY \<equiv> 0x12"
abbreviation OBJM_STATUS_TIMEOUT :: u8 where "OBJM_STATUS_TIMEOUT \<equiv> 0x13"
abbreviation OBJM_STATUS_UNAVAILABLE :: u8 where "OBJM_STATUS_UNAVAILABLE \<equiv> 0x14"
abbreviation OBJM_STATUS_PROTOCOL_ERROR :: u8 where "OBJM_STATUS_PROTOCOL_ERROR \<equiv> 0x20"
abbreviation OBJM_STATUS_VERSION_MISMATCH :: u8 where "OBJM_STATUS_VERSION_MISMATCH \<equiv> 0x21"
abbreviation OBJM_STATUS_CAPABILITY_ERROR :: u8 where "OBJM_STATUS_CAPABILITY_ERROR \<equiv> 0x22"

abbreviation OBJM_MODE_FDPASS :: u8 where "OBJM_MODE_FDPASS \<equiv> 0x31"
abbreviation OBJM_MODE_COPY :: u8 where "OBJM_MODE_COPY \<equiv> 0x32"
abbreviation OBJM_MODE_SPLICE :: u8 where "OBJM_MODE_SPLICE \<equiv> 0x33"

abbreviation OBJM_META_SIZE :: u8 where "OBJM_META_SIZE \<equiv> 0x01"
abbreviation OBJM_META_MTIME :: u8 where "OBJM_META_MTIME \<equiv> 0x02"
abbreviation OBJM_META_BACKEND :: u8 where "OBJM_META_BACKEND \<equiv> 0x05"

abbreviation OBJM_MAX_URI_LEN :: nat where "OBJM_MAX_URI_LEN \<equiv> 4096"

section \<open>Metadata buffers\<close>

record objm_metadata_entry =
  me_type :: u8
  me_length :: u16
  me_data :: bytes

text \<open>\<open>malloc\<close> of the buffer; its bytes are unspecified in C and never read before they
  are written.\<close>

definition objm_metadata_create :: "nat \<Rightarrow> 'a os_scheme \<Rightarrow> bytes option \<times> 'a os_scheme" where
  "objm_metadata_create estimated_size s =
     (let (f, s) = fault s
      in (if f then None else Some (replicate (if 0 < estimated_size then estimated_size else 128) 0), s))"

text \<open>
  \<open>objm_metadata_add(metadata, current_len, type, data, len)\<close>: the new buffer and the
  returned length (0 on error). The code does not know the size of the buffer it writes to.
\<close>

definition objm_metadata_add ::
    "bytes option \<Rightarrow> nat \<Rightarrow> u8 \<Rightarrow> bytes \<Rightarrow> nat \<Rightarrow> (bytes option \<times> nat) option" where
  "objm_metadata_add metadata current_len type data len =
     (case metadata of
        None \<Rightarrow> Some (None, 0)
      | Some buf \<Rightarrow>
          if len > 65535 then Some (Some buf, 0)
          else if current_len + 3 + len > length buf then None
          else Some (Some (write_at current_len (type # put_be 2 len @ take len data) buf),
                     current_len + 3 + len))"

definition objm_metadata_add_size :: "bytes option \<Rightarrow> nat \<Rightarrow> u64 \<Rightarrow> (bytes option \<times> nat) option" where
  "objm_metadata_add_size metadata current_len sz =
     objm_metadata_add metadata current_len OBJM_META_SIZE (put_be 8 (unat sz)) 8"

definition objm_metadata_add_mtime :: "bytes option \<Rightarrow> nat \<Rightarrow> u64 \<Rightarrow> (bytes option \<times> nat) option" where
  "objm_metadata_add_mtime metadata current_len mtime =
     objm_metadata_add metadata current_len OBJM_META_MTIME (put_be 8 (unat mtime)) 8"

definition objm_metadata_add_backend :: "bytes option \<Rightarrow> nat \<Rightarrow> u8 \<Rightarrow> (bytes option \<times> nat) option" where
  "objm_metadata_add_backend metadata current_len backend_id =
     objm_metadata_add metadata current_len OBJM_META_BACKEND [backend_id] 1"

text \<open>The two loops of \<open>objm_metadata_parse\<close>: counting, then copying.\<close>

definition meta_len_at :: "bytes \<Rightarrow> nat \<Rightarrow> nat" where
  "meta_len_at metadata offset = get_be (field (offset + 1) 2 metadata)"

function meta_count :: "bytes \<Rightarrow> nat \<Rightarrow> nat \<Rightarrow> nat \<Rightarrow> nat" where
  "meta_count metadata metadata_len offset count =
     (if offset + 3 \<le> metadata_len then
        let len = meta_len_at metadata offset
        in if offset + 3 + len > metadata_len then count
           else meta_count metadata metadata_len (offset + (3 + len)) (count + 1)
      else count)"
  by pat_completeness auto
termination
  by (relation "measure (\<lambda>(m, n, off, c). n - off)") auto

fun meta_copy ::
    "bytes \<Rightarrow> nat \<Rightarrow> nat \<Rightarrow> nat \<Rightarrow> objm_metadata_entry list \<Rightarrow> 'a os_scheme
       \<Rightarrow> objm_metadata_entry list option \<times> 'a os_scheme" where
  "meta_copy metadata metadata_len offset 0 arr s = (Some arr, s)"
| "meta_copy metadata metadata_len offset (Suc left) arr s =
     (if offset + 3 \<le> metadata_len then
        let len = meta_len_at metadata offset; (f, s) = fault s
        in if f then (None, s)
           else meta_copy metadata metadata_len (offset + (3 + len)) left
                  (arr @ [\<lparr>me_type = metadata ! offset, me_length = of_nat len,
                           me_data = field (offset + 3) len metadata\<rparr>]) s
      else (Some arr, s))"

definition objm_metadata_parse ::
    "bytes \<Rightarrow> nat \<Rightarrow> 'a os_scheme \<Rightarrow> objm_metadata_entry list option \<times> 'a os_scheme" where
  "objm_metadata_parse metadata metadata_len s =
     (let count = meta_count metadata metadata_len 0 0; (f, s) = fault s
      in if f then (None, s) else meta_copy metadata metadata_len 0 count [] s)"

fun objm_metadata_get :: "objm_metadata_entry list \<Rightarrow> u8 \<Rightarrow> objm_metadata_entry option" where
  "objm_metadata_get [] type = None"
| "objm_metadata_get (e # es) type =
     (if me_type e = type then Some e else objm_metadata_get es type)"

section \<open>Names of codes\<close>

definition objm_status_name :: "u8 \<Rightarrow> string" where
  "objm_status_name status =
     (if status = OBJM_STATUS_OK then ''OK''
      else if status = OBJM_STATUS_NOT_FOUND then ''NOT_FOUND''
      else if status = OBJM_STATUS_INVALID_REQUEST then ''INVALID_REQUEST''
      else if status = OBJM_STATUS_INVALID_MODE then ''INVALID_MODE''
      else if status = OBJM_STATUS_URI_TOO_LONG then ''URI_TOO_LONG''
      else if status = OBJM_STATUS_UNSUPPORTED_OP then ''UNSUPPORTED_OP''
      else if status = OBJM_STATUS_INTERNAL_ERROR then ''INTERNAL_ERROR''
      else if status = OBJM_STATUS_STORAGE_ERROR then ''STORAGE_ERROR''
      else if status = OBJM_STATUS_OUT_OF_MEMORY then ''OUT_OF_MEMORY''
      else if status = OBJM_STATUS_TIMEOUT then ''TIMEOUT''
      else if status = OBJM_STATUS_UNAVAILABLE then ''UNAVAILABLE''
      else if status = OBJM_STATUS_PROTOCOL_ERROR then ''PROTOCOL_ERROR''
      else if status = OBJM_STATUS_VERSION_MISMATCH then ''VERSION_MISMATCH''
      else if status = OBJM_STATUS_CAPABILITY_ERROR then ''CAPABILITY_ERROR''
      else ''UNKNOWN'')"

definition objm_mode_name :: "u8 \<Rightarrow> string" where
  "objm_mode_name mode =
     (if mode = OBJM_MODE_FDPASS then ''FD_PASS''
      else if mode = OBJM_MODE_COPY then ''COPY''
      else if mode = OBJM_MODE_SPLICE then ''SPLICE''
      else ''UNKNOWN'')"

text \<open>
  One \<open>snprintf(buffer + written, size - written, "%s%s", ...)\<close> of
  \<open>objm_capability_names\<close>. \<open>buffer\<close> is the text before the terminating NUL. When an
  earlier call was truncated, \<open>written\<close> is past \<open>size\<close>, \<open>size - written\<close> wraps to a
  huge \<open>size_t\<close> and the store is out of bounds: \<open>None\<close>.
\<close>

definition cap_append ::
    "nat \<Rightarrow> bool \<Rightarrow> string \<Rightarrow> string \<times> nat \<times> bool \<Rightarrow> (string \<times> nat \<times> bool) option" where
  "cap_append sz enabled name st =
     (case st of (buffer, written, first) \<Rightarrow>
        if \<not> enabled then Some st
        else if written > sz then None
        else let txt = (if first then [] else ''|'') @ name
             in Some (if sz - written = 0 then buffer
                      else take written buffer @ snprintf_buf (sz - written) txt,
                      written + length txt, False))"

definition objm_capability_names :: "u16 \<Rightarrow> nat \<Rightarrow> (string \<times> nat) option" where
  "objm_capability_names capabilities sz =
     do {
       st \<leftarrow> cap_append sz (capabilities AND OBJM_CAP_OOO_REPLIES \<noteq> 0) ''OOO_REPLIES'' ([], 0, True);
       st \<leftarrow> cap_append sz (capabilities AND OBJM_CAP_PIPELINING \<noteq> 0) ''PIPELINING'' st;
       st \<leftarrow> cap_append sz (capabilities AND OBJM_CAP_COMPRESSION \<noteq> 0) ''COMPRESSION'' st;
       (buffer, written, first) \<leftarrow>
         cap_append sz (capabilities AND OBJM_CAP_MULTIPLEXING \<noteq> 0) ''MULTIPLEXING'' st;
       Some (buffer, written)
     }"

section \<open>Encoding of entry lists\<close>

text \<open>The reference layout of a list of entries, and the entries it holds.\<close>

definition encode_entry :: "u8 \<times> bytes \<Rightarrow> bytes" where
  "encode_entry e = fst e # put_be 2 (length (snd e)) @ snd e"

definition encode_entries :: "(u8 \<times> bytes) list \<Rightarrow> bytes" where
  "encode_entries es = concat (map encode_entry es)"

definition entry_of :: "u8 \<times> bytes \<Rightarrow> objm_metadata_entry" where
  "entry_of e = \<lparr>me_type = fst e, me_length = of_nat (length (snd e)), me_data = snd e\<rparr>"

definition entry_ok :: "u8 \<times> bytes \<Rightarrow> bool" where
  "entry_ok e \<longleftrightarrow> length (snd e) \<le> 65535"

lemma length_encode_entry [simp]: "length (encode_entry e) = 3 + length (snd e)"
  by (simp add: encode_entry_def)

lemma encode_entries_Cons [simp]:
  "encode_entries (e # es) = encode_entry e @ encode_entries es"
  by (simp add: encode_entries_def)

lemma encode_entries_Nil [simp]: "encode_entries [] = []"
  by (simp add: encode_entries_def)

lemma meta_len_at_encode:
  assumes "entry_ok e"
  shows "meta_len_at (pre @ encode_entry e @ rest) (length pre) = length (snd e)"
  using assms
  by (simp add: meta_len_at_def encode_entry_def entry_ok_def field_def get_be_put_be)

declare meta_count.simps [simp del]

lemma meta_count_encode:
  assumes "\<forall>e \<in> set es. entry_ok e" "length tail < 3"
  shows "meta_count (pre @ encode_entries es @ tail) (length (pre @ encode_entries es @ tail))
           (length pre) c = c + length es"
  using assms(1)
proof (induction es arbitrary: pre c)
  case Nil
  then show ?case using assms(2) by (simp add: meta_count.simps)
next
  case (Cons e es)
  let ?buf = "pre @ encode_entry e @ encode_entries es @ tail"
  have "meta_len_at ?buf (length pre) = length (snd e)"
    using Cons.prems meta_len_at_encode by simp
  moreover have "meta_count ((pre @ encode_entry e) @ encode_entries es @ tail)
      (length ((pre @ encode_entry e) @ encode_entries es @ tail))
      (length (pre @ encode_entry e)) (c + 1) = c + 1 + length es"
    using Cons.prems by (intro Cons.IH) simp
  ultimately show ?case
    by (simp add: meta_count.simps [of ?buf _ "length pre" c] add.assoc)
qed

lemma meta_copy_encode:
  assumes "\<forall>e \<in> set es. entry_ok e" "no_faults s"
  shows "\<exists>t. meta_copy (pre @ encode_entries es @ tail) (length (pre @ encode_entries es @ tail))
           (length pre) (length es) arr s = (Some (arr @ map entry_of es), s\<lparr>faults := t\<rparr>)"
  using assms
proof (induction es arbitrary: pre arr s)
  case Nil
  have "s = s\<lparr>faults := faults s\<rparr>" by simp
  then show ?case by (auto intro: exI [of _ "faults s"])
next
  case (Cons e es)
  let ?buf = "pre @ encode_entry e @ encode_entries es @ tail"
  have len: "meta_len_at ?buf (length pre) = length (snd e)"
    using Cons.prems meta_len_at_encode by simp
  have hd: "?buf ! length pre = fst e" "field (length pre + 3) (length (snd e)) ?buf = snd e"
    by (simp_all add: encode_entry_def field_def)
  obtain t where f: "fault s = (False, s\<lparr>faults := t\<rparr>)" and t: "no_faults (s\<lparr>faults := t\<rparr>)"
    using no_faults_fault [OF Cons.prems(2)] by (auto simp: no_faults_def)
  from Cons.IH [of "s\<lparr>faults := t\<rparr>" "pre @ encode_entry e" "arr @ [entry_of e]"] Cons.prems t
  show ?case by (simp add: len hd f entry_of_def Let_def)
qed

end
