(* ===== verification/Protocol_Conn.thy ===== *)
theory Protocol_Conn
  imports Protocol_Meta
begin

text \<open>
  The wire protocol of \<open>lib/protocol/protocol.c\<close>: the transfer loops, descriptor passing,
  and the client and server side of a connection. An operation takes the connection and the
  process state and returns the C result with both updated. Results are options and
  datatypes in place of \<open>0\<close> and \<open>-1\<close>; the guards that return \<open>-1\<close> for a \<open>NULL\<close>
  connection, request or response have no counterpart, since those are passed by value.
\<close>

section \<open>Types\<close>

text \<open>\<open>OBJM_PROTO_UNSET\<close> is the zero that \<open>calloc\<close> leaves in a new server connection.\<close>

datatype objm_version = OBJM_PROTO_UNSET | OBJM_PROTO_V1 | OBJM_PROTO_V2

abbreviation OBJM_VERSION_2 :: u8 where "OBJM_VERSION_2 \<equiv> 0x02"

record objm_request =
  rq_id :: u32
  rq_flags :: u8
  rq_mode :: u8
  rq_uri :: bytes
  rq_uri_len :: u64

record objm_response =
  rs_request_id :: u32
  rs_status :: u8
  rs_fd :: int
  rs_content_len :: u64
  rs_metadata :: "bytes option"
  rs_metadata_len :: u64
  rs_error_msg :: "string option"

record objm_hello =
  h_capabilities :: u16
  h_max_pipeline :: u16
  h_backend_parallelism :: u8

record objm_params =
  p_version :: objm_version
  p_capabilities :: u16
  p_max_pipeline :: u16
  p_backend_parallelism :: u8

text \<open>The callbacks are stored and never called by the library: four function addresses.\<close>

record objm_callbacks =
  on_send_ready :: nat
  on_response :: nat
  on_error :: nat
  on_close :: nat

record objm_connection =
  c_fd :: int
  c_version :: objm_version
  c_params :: objm_params
  c_is_server :: bool
  c_next_request_id :: u32
  c_pending :: "objm_response option list"   \<comment> \<open>\<open>pending_responses\<close>; its length is the capacity\<close>
  c_callbacks :: objm_callbacks
  c_user_data :: nat
  c_error :: string

section \<open>Internal helpers\<close>

text \<open>What one \<open>read\<close> or \<open>write\<close> on the socket can do, for the two loops below.\<close>

lemma sock_read_cases:
  assumes "sock_read n s = (r, s')" "0 < n"
  obtains
    (failed) "r = KErr" "Fail \<in> set (rx_ev s)" "s' = s\<lparr>rx_ev := tl (rx_ev s)\<rparr>"
  | (again) "r = KIntr" "rx_ev s \<noteq> []" "s' = s\<lparr>rx_ev := tl (rx_ev s)\<rparr>"
  | (moved) k where "r = KDone (map item_byte (take k (rx s)))" "0 < k" "k \<le> n"
      "s' = s\<lparr>rx_ev := tl (rx_ev s), rx := drop k (rx s)\<rparr>"
proof -
  consider "rx_ev s \<noteq> [] \<and> hd (rx_ev s) = Intr" | "rx_ev s \<noteq> [] \<and> hd (rx_ev s) = Fail"
    | "\<not> (rx_ev s \<noteq> [] \<and> hd (rx_ev s) = Intr)" "\<not> (rx_ev s \<noteq> [] \<and> hd (rx_ev s) = Fail)" by blast
  then show ?thesis
  proof cases
    case 1
    with assms show ?thesis by (intro again) (simp_all add: sock_read_def Let_def)
  next
    case 2
    with assms hd_in_set [of "rx_ev s"] show ?thesis by (intro failed) (simp_all add: sock_read_def Let_def)
  next
    case 3
    with assms chunk_bounds [of n "rx_ev s"] show ?thesis
      by (intro moved [of "chunk (rx_ev s) n"]) (simp_all add: sock_read_def Let_def)
  qed
qed

lemma sock_write_cases:
  assumes "sock_write bs s = (r, s')" "bs \<noteq> []"
  obtains
    (failed) "r = KErr" "Fail \<in> set (tx_ev s)" "s' = s\<lparr>tx_ev := tl (tx_ev s)\<rparr>"
  | (again) "r = KIntr" "tx_ev s \<noteq> []" "s' = s\<lparr>tx_ev := tl (tx_ev s)\<rparr>"
  | (moved) k where "r = KDone (take k bs)" "0 < k" "k \<le> length bs"
      "s' = s\<lparr>tx_ev := tl (tx_ev s), tx := tx s @ map Plain (take k bs)\<rparr>"
proof -
  consider "tx_ev s \<noteq> [] \<and> hd (tx_ev s) = Intr" | "tx_ev s \<noteq> [] \<and> hd (tx_ev s) = Fail"
    | "\<not> (tx_ev s \<noteq> [] \<and> hd (tx_ev s) = Intr)" "\<not> (tx_ev s \<noteq> [] \<and> hd (tx_ev s) = Fail)" by blast
  then show ?thesis
  proof cases
    case 1
    with assms show ?thesis by (intro again) (simp_all add: sock_write_def Let_def)
  next
    case 2
    with assms hd_in_set [of "tx_ev s"] show ?thesis by (intro failed) (simp_all add: sock_write_def Let_def)
  next
    case 3
    with assms chunk_bounds [of "length bs" "tx_ev s"] show ?thesis
      by (intro moved [of "chunk (tx_ev s) (length bs)"]) (simp_all add: sock_write_def Let_def)
  qed
qed

text \<open>\<open>send_all\<close>: the bytes still to be sent are the argument of the loop.\<close>

function send_all :: "bytes \<Rightarrow> 'a os_scheme \<Rightarrow> bool \<times> 'a os_scheme" where
  "send_all buf s =
     (if buf = [] then (True, s)
      else case sock_write buf s of
             (KErr, s') \<Rightarrow> (False, s')
           | (KIntr, s') \<Rightarrow> send_all buf s'
           | (KDone out, s') \<Rightarrow> send_all (drop (length out) buf) s')"
  by pat_completeness auto
termination
proof (relation "measure (\<lambda>(buf, s). length buf + length (tx_ev s))", goal_cases)
  case (2 buf s x s')
  then have "sock_write buf s = (KIntr, s')" "buf \<noteq> []" by auto
  then show ?case by (cases rule: sock_write_cases) auto
next
  case (3 buf s x s' out)
  then have "sock_write buf s = (KDone out, s')" "buf \<noteq> []" by auto
  then show ?case by (cases rule: sock_write_cases) (auto simp: diff_less add_less_le_mono)
qed simp

function recv_all :: "nat \<Rightarrow> 'a os_scheme \<Rightarrow> bytes option \<times> 'a os_scheme" where
  "recv_all remaining s =
     (if remaining = 0 then (Some [], s)
      else case sock_read remaining s of
             (KErr, s') \<Rightarrow> (None, s')
           | (KIntr, s') \<Rightarrow> recv_all remaining s'
           | (KDone got, s') \<Rightarrow>
               if got = [] then (None, s')
               else case recv_all (remaining - length got) s' of
                      (None, s'') \<Rightarrow> (None, s'')
                    | (Some rest, s'') \<Rightarrow> (Some (got @ rest), s''))"
  by pat_completeness auto
termination
proof (relation "measure (\<lambda>(n, s). n + length (rx_ev s))", goal_cases)
  case (2 n s x s')
  then have "sock_read n s = (KIntr, s')" "0 < n" by auto
  then show ?case by (cases rule: sock_read_cases) auto
next
  case (3 n s x s' got)
  then have *: "sock_read n s = (KDone got, s')" "0 < n" "got \<noteq> []" by auto
  from *(1,2) show ?case
  proof (cases rule: sock_read_cases)
    case (moved k)
    with *(3) have "0 < length got" "length got \<le> n" "length (rx_ev s') \<le> length (rx_ev s)" by auto
    then have "n - length got + length (rx_ev s') < n + length (rx_ev s)" by linarith
    then show ?thesis by simp
  qed simp_all
qed simp

declare send_all.simps [simp del] recv_all.simps [simp del]

definition send_fd :: "int \<Rightarrow> 'a os_scheme \<Rightarrow> bool \<times> 'a os_scheme" where
  "send_fd fd_to_send s = sock_sendmsg_fd 0x58 fd_to_send s"

definition recv_fd :: "'a os_scheme \<Rightarrow> int \<times> 'a os_scheme" where
  "recv_fd s =
     (case sock_recvmsg_fd 1 s of
        ((None, _), s') \<Rightarrow> (-1, s')
      | ((Some _, None), s') \<Rightarrow> (-1, s')
      | ((Some _, Some fd), s') \<Rightarrow> (fd, s'))"

definition set_error :: "string \<Rightarrow> objm_connection \<Rightarrow> objm_connection" where
  "set_error msg conn = conn\<lparr>c_error := snprintf_buf 256 msg\<rparr>"

fun show_nat :: "nat \<Rightarrow> string" where
  "show_nat n = (if n < 10 then [char_of (48 + n)] else show_nat (n div 10) @ [char_of (48 + n mod 10)])"

declare show_nat.simps [simp del]

definition zero_params :: objm_params where
  "zero_params = \<lparr>p_version = OBJM_PROTO_UNSET, p_capabilities = 0, p_max_pipeline = 0,
                  p_backend_parallelism = 0\<rparr>"

definition zero_callbacks :: objm_callbacks where
  "zero_callbacks = \<lparr>on_send_ready = 0, on_response = 0, on_error = 0, on_close = 0\<rparr>"

section \<open>Client\<close>

definition objm_client_create ::
    "int \<Rightarrow> objm_version \<Rightarrow> 'a os_scheme \<Rightarrow> objm_connection option \<times> 'a os_scheme" where
  "objm_client_create fd version s =
     (let (f, s) = fault s
      in (if f then None
          else Some \<lparr>c_fd = fd, c_version = version,
                     c_params = zero_params\<lparr>p_version := version, p_capabilities := 0, p_max_pipeline := 1\<rparr>,
                     c_is_server = False, c_next_request_id = 1, c_pending = [],
                     c_callbacks = zero_callbacks, c_user_data = 0, c_error = []\<rparr>, s))"

definition magic :: bytes where
  "magic = bytes_of_string ''OBJM''"

definition hello_msg :: "objm_hello \<Rightarrow> bytes" where
  "hello_msg hello =
     magic @ [OBJM_VERSION_2] @ put_be 2 (unat (h_capabilities hello)) @ put_be 2 (unat (h_max_pipeline hello))"

definition ack_msg :: "objm_params \<Rightarrow> bytes" where
  "ack_msg params =
     magic @ [OBJM_VERSION_2] @ put_be 2 (unat (p_capabilities params)) @
     put_be 2 (unat (p_max_pipeline params)) @ [p_backend_parallelism params]"

text \<open>
  The result is the negotiated \<open>*params\<close>, \<open>None\<close> for \<open>-1\<close>. The array of pending responses is a list;
  when its allocation fails the source returns \<open>-1\<close> with the capacity set and the array \<open>NULL\<close>, which the
  empty list stands for: a caller that went on with such a connection would use the null pointer, and
  the callers in the repository give the connection up.
\<close>

definition objm_client_hello ::
    "objm_connection \<Rightarrow> objm_hello \<Rightarrow> 'a os_scheme \<Rightarrow> objm_params option \<times> objm_connection \<times> 'a os_scheme" where
  "objm_client_hello conn hello s =
     (if c_version conn \<noteq> OBJM_PROTO_V2 then (None, conn, s)
      else case send_all (hello_msg hello) s of
        (False, s) \<Rightarrow> (None, set_error ''Failed to send HELLO'' conn, s)
      | (True, s) \<Rightarrow>
        (case recv_all 10 s of
           (None, s) \<Rightarrow> (None, set_error ''Failed to receive HELLO_ACK'' conn, s)
         | (Some ack, s) \<Rightarrow>
             if take 4 ack \<noteq> magic then (None, set_error ''Invalid HELLO_ACK magic'' conn, s)
             else if ack ! 4 \<noteq> OBJM_VERSION_2 then (None, set_error ''Version mismatch'' conn, s)
             else
               let params = \<lparr>p_version = OBJM_PROTO_V2,
                             p_capabilities = of_nat (get_be (field 5 2 ack)),
                             p_max_pipeline = of_nat (get_be (field 7 2 ack)),
                             p_backend_parallelism = ack ! 9\<rparr>;
                   conn = conn\<lparr>c_params := params\<rparr>
               in if p_capabilities params AND OBJM_CAP_OOO_REPLIES \<noteq> 0
                  then let (f, s) = fault s
                       in if f then (None, set_error ''Failed to allocate pending response buffer''
                                             (conn\<lparr>c_pending := []\<rparr>), s)
                          else (Some params, conn\<lparr>c_pending := replicate (unat (p_max_pipeline params)) None\<rparr>, s)
                  else (Some params, conn, s)))"

definition request_msg :: "objm_version \<Rightarrow> objm_request \<Rightarrow> bytes" where
  "request_msg version req =
     (if version = OBJM_PROTO_V1
      then rq_mode req # put_be 2 (unat (rq_uri_len req))
      else OBJM_MSG_REQUEST # put_be 4 (unat (rq_id req)) @ [rq_flags req, rq_mode req] @
           put_be 2 (unat (rq_uri_len req)))"

definition objm_client_send_request ::
    "objm_connection \<Rightarrow> objm_request \<Rightarrow> 'a os_scheme \<Rightarrow> bool \<times> objm_connection \<times> 'a os_scheme" where
  "objm_client_send_request conn req s =
     (let err = (if c_version conn = OBJM_PROTO_V1 then ''Failed to send V1 request''
                 else ''Failed to send V2 request'')
      in case send_all (request_msg (c_version conn) req) s of
           (False, s) \<Rightarrow> (False, set_error err conn, s)
         | (True, s) \<Rightarrow>
             (case send_all (take (unat (rq_uri_len req)) (rq_uri req)) s of
                (False, s) \<Rightarrow> (False, set_error err conn, s)
              | (True, s) \<Rightarrow> (True, conn, s)))"

text \<open>The fixed part of a response, parsed into a fresh \<open>objm_response_t\<close>.\<close>

definition parse_response_v1 :: "bytes \<Rightarrow> objm_response" where
  "parse_response_v1 header =
     \<lparr>rs_request_id = 0, rs_status = header ! 0, rs_fd = -1,
      rs_content_len = of_nat (get_be (field 1 8 header)), rs_metadata = None,
      rs_metadata_len = of_nat (get_be (field 9 2 header)), rs_error_msg = None\<rparr>"

definition parse_response_v2 :: "bytes \<Rightarrow> objm_response" where
  "parse_response_v2 header =
     \<lparr>rs_request_id = of_nat (get_be (field 1 4 header)), rs_status = header ! 5, rs_fd = -1,
      rs_content_len = of_nat (get_be (field 6 8 header)), rs_metadata = None,
      rs_metadata_len = of_nat (get_be (field 14 2 header)), rs_error_msg = None\<rparr>"

definition recv_response_header ::
    "objm_connection \<Rightarrow> 'a os_scheme \<Rightarrow> objm_response option \<times> objm_connection \<times> 'a os_scheme" where
  "recv_response_header conn s =
     (if c_version conn = OBJM_PROTO_V1 then
        (case recv_all 11 s of
           (None, s) \<Rightarrow> (None, set_error ''Failed to receive V1 response header'' conn, s)
         | (Some header, s) \<Rightarrow> (Some (parse_response_v1 header), conn, s))
      else
        (case recv_all 16 s of
           (None, s) \<Rightarrow> (None, set_error ''Failed to receive V2 response header'' conn, s)
         | (Some header, s) \<Rightarrow>
             if header ! 0 \<noteq> OBJM_MSG_RESPONSE
             then (None, set_error (''Unexpected message type: '' @ show_nat (unat (header ! 0))) conn, s)
             else (Some (parse_response_v2 header), conn, s)))"

definition recv_response_metadata ::
    "objm_response \<Rightarrow> objm_connection \<Rightarrow> 'a os_scheme \<Rightarrow> objm_response option \<times> objm_connection \<times> 'a os_scheme" where
  "recv_response_metadata r conn s =
     (if 0 < rs_metadata_len r then
        let (f, s) = fault s
        in if f then (None, conn, s)
           else case recv_all (unat (rs_metadata_len r)) s of
                  (None, s) \<Rightarrow> (None, set_error ''Failed to receive metadata'' conn, s)
                | (Some m, s) \<Rightarrow> (Some (r\<lparr>rs_metadata := Some m\<rparr>), conn, s)
      else (Some r, conn, s))"

definition recv_response_fd ::
    "objm_response \<Rightarrow> objm_connection \<Rightarrow> 'a os_scheme \<Rightarrow> objm_response option \<times> objm_connection \<times> 'a os_scheme" where
  "recv_response_fd r conn s =
     (if rs_status r = OBJM_STATUS_OK \<and> rs_content_len r = 0 then
        let (fd, s) = recv_fd s
        in if fd < 0 then (None, set_error ''Failed to receive file descriptor'' conn, s)
           else (Some (r\<lparr>rs_fd := fd\<rparr>), conn, s)
      else (Some r, conn, s))"

definition objm_client_recv_response ::
    "objm_connection \<Rightarrow> 'a os_scheme \<Rightarrow> objm_response option \<times> objm_connection \<times> 'a os_scheme" where
  "objm_client_recv_response conn s =
     (let (f, s) = fault s
      in if f then (None, conn, s)
         else case recv_response_header conn s of
                (None, conn, s) \<Rightarrow> (None, conn, s)
              | (Some r, conn, s) \<Rightarrow>
                  (case recv_response_metadata r conn s of
                     (None, conn, s) \<Rightarrow> (None, conn, s)
                   | (Some r, conn, s) \<Rightarrow> recv_response_fd r conn s))"

definition objm_response_free :: "objm_response \<Rightarrow> 'a os_scheme \<Rightarrow> 'a os_scheme" where
  "objm_response_free resp s = (if 0 \<le> rs_fd resp then sys_close (rs_fd resp) s else s)"

text \<open>
  What the loops do: \<open>recv_all\<close> takes exactly the requested bytes from the stream or
  fails, and it fails only after an error event or when the stream is too short;
  \<open>send_all\<close> appends exactly its bytes unless an error event occurs. Short counts and
  interruptions make no difference.
\<close>

lemma recv_all_0 [simp]: "recv_all 0 s = (Some [], s)"
  by (simp add: recv_all.simps)

lemma send_all_Nil [simp]: "send_all [] s = (True, s)"
  by (simp add: send_all.simps)

lemma recv_all_shape:
  "recv_all n s = (r, s') \<Longrightarrow>
     \<exists>k ev. s' = s\<lparr>rx := drop k (rx s), rx_ev := ev\<rparr> \<and> set ev \<subseteq> set (rx_ev s) \<and>
       (case r of Some bs \<Rightarrow> k = n \<and> n \<le> length (rx s) \<and> bs = map item_byte (take n (rx s))
        | None \<Rightarrow> Fail \<in> set (rx_ev s) \<or> length (rx s) < n)"
proof (induction n s arbitrary: r s' rule: recv_all.induct)
  case (1 n s)
  note eq = recv_all.simps [of n s]
  show ?case
  proof (cases "n = 0")
    case True
    with "1.prems" show ?thesis
      by (intro exI [of _ 0] exI [of _ "rx_ev s"]) auto
  next
    case False
    obtain q s1 where rd: "sock_read n s = (q, s1)" by (cases "sock_read n s") auto
    from False have pos: "0 < n" by simp
    have tl: "set (tl (rx_ev s)) \<subseteq> set (rx_ev s)" by (cases "rx_ev s") auto
    from rd pos show ?thesis
    proof (cases rule: sock_read_cases)
      case failed
      with rd False "1.prems" tl show ?thesis
        by (intro exI [of _ 0] exI [of _ "tl (rx_ev s)"]) (auto simp: eq)
    next
      case again
      then have "recv_all n s1 = (r, s')" using rd False "1.prems" by (simp add: eq)
      from "1.IH"(1) [OF False rd [symmetric] again(1) this] obtain k ev where
        "s' = s1\<lparr>rx := drop k (rx s1), rx_ev := ev\<rparr>" "set ev \<subseteq> set (rx_ev s1)"
        "case r of Some bs \<Rightarrow> k = n \<and> n \<le> length (rx s1) \<and> bs = map item_byte (take n (rx s1))
         | None \<Rightarrow> Fail \<in> set (rx_ev s1) \<or> length (rx s1) < n" by blast
      with again(3) tl show ?thesis
        by (intro exI [of _ k] exI [of _ ev]) (auto split: option.splits)
    next
      case (moved k)
      let ?got = "map item_byte (take k (rx s))"
      show ?thesis
      proof (cases "rx s = []")
        case True
        with moved rd False "1.prems" tl show ?thesis
          by (intro exI [of _ k] exI [of _ "tl (rx_ev s)"]) (auto simp: eq)
      next
        case ne: False
        then have got: "?got \<noteq> []" using moved(2) by simp
        obtain q2 s2 where rest: "recv_all (n - length ?got) s1 = (q2, s2)"
          by (cases "recv_all (n - length ?got) s1") auto
        from got rest moved(1) rd False "1.prems" have r: "s' = s2" "r = map_option ((@) ?got) q2"
          by (auto simp: eq split: option.splits)
        from "1.IH"(2) [OF False rd [symmetric] moved(1) got rest] obtain k2 ev where
          IH: "s2 = s1\<lparr>rx := drop k2 (rx s1), rx_ev := ev\<rparr>" "set ev \<subseteq> set (rx_ev s1)"
          "case q2 of Some bs \<Rightarrow> k2 = n - length ?got \<and> n - length ?got \<le> length (rx s1) \<and>
                        bs = map item_byte (take (n - length ?got) (rx s1))
           | None \<Rightarrow> Fail \<in> set (rx_ev s1) \<or> length (rx s1) < n - length ?got" by blast
        show ?thesis
        proof (cases q2)
          case None
          with IH r moved tl show ?thesis
            by (intro exI [of _ "k2 + k"] exI [of _ ev]) (auto simp: min_def split: if_splits)
        next
          case (Some bs)
          with IH moved have le: "k \<le> length (rx s)" by (auto simp: min_def split: if_splits)
          then have "take n (rx s) = take k (rx s) @ take (n - k) (drop k (rx s))"
            using moved(3) by (metis le_add_diff_inverse take_add)
          with Some le IH r moved tl show ?thesis
            by (intro exI [of _ n] exI [of _ ev]) (auto simp: min_def)
        qed
      qed
    qed
  qed
qed

lemma send_all_shape:
  "send_all buf s = (r, s') \<Longrightarrow>
     \<exists>k ev. s' = s\<lparr>tx := tx s @ map Plain (take k buf), tx_ev := ev\<rparr> \<and> set ev \<subseteq> set (tx_ev s) \<and>
       (if r then length buf \<le> k else Fail \<in> set (tx_ev s))"
proof (induction buf s arbitrary: r s' rule: send_all.induct)
  case (1 buf s)
  note eq = send_all.simps [of buf s]
  show ?case
  proof (cases "buf = []")
    case True
    with "1.prems" show ?thesis
      by (intro exI [of _ 0] exI [of _ "tx_ev s"]) auto
  next
    case False
    obtain q s1 where wr: "sock_write buf s = (q, s1)" by (cases "sock_write buf s") auto
    have tl: "set (tl (tx_ev s)) \<subseteq> set (tx_ev s)" by (cases "tx_ev s") auto
    from wr False show ?thesis
    proof (cases rule: sock_write_cases)
      case failed
      with wr False "1.prems" tl show ?thesis
        by (intro exI [of _ 0] exI [of _ "tl (tx_ev s)"]) (auto simp: eq)
    next
      case again
      then have "send_all buf s1 = (r, s')" using wr False "1.prems" by (simp add: eq)
      from "1.IH"(1) [OF False wr [symmetric] again(1) this] obtain k ev where
        "s' = s1\<lparr>tx := tx s1 @ map Plain (take k buf), tx_ev := ev\<rparr>" "set ev \<subseteq> set (tx_ev s1)"
        "if r then length buf \<le> k else Fail \<in> set (tx_ev s1)" by blast
      with again(3) tl show ?thesis
        by (intro exI [of _ k] exI [of _ ev]) (auto split: if_splits)
    next
      case (moved k)
      then have "send_all (drop (length (take k buf)) buf) s1 = (r, s')"
        using wr False "1.prems" by (simp add: eq)
      from "1.IH"(2) [OF False wr [symmetric] moved(1) this] obtain k2 ev where
        IH: "s' = s1\<lparr>tx := tx s1 @ map Plain (take k2 (drop (length (take k buf)) buf)), tx_ev := ev\<rparr>"
        "set ev \<subseteq> set (tx_ev s1)"
        "if r then length (drop (length (take k buf)) buf) \<le> k2 else Fail \<in> set (tx_ev s1)"
        by blast
      note IH = IH [unfolded length_take min_absorb2 [OF moved(3)]]
      have "take (k + k2) buf = take k buf @ take k2 (drop k buf)" by (simp add: take_add)
      with IH moved(4) tl show ?thesis
        by (intro exI [of _ "k + k2"] exI [of _ ev]) (auto split: if_splits)
    qed
  qed
qed

text \<open>The forms in which the message proofs use these two facts.\<close>

lemma recv_all_ok:
  assumes "n \<le> length (rx s)" "link_ok s"
  obtains ev where "recv_all n s = (Some (map item_byte (take n (rx s))), s\<lparr>rx := drop n (rx s), rx_ev := ev\<rparr>)"
    "Fail \<notin> set ev"
proof -
  obtain r s' where r: "recv_all n s = (r, s')" by (cases "recv_all n s") auto
  from recv_all_shape [OF this] obtain k ev where
    s': "s' = s\<lparr>rx := drop k (rx s), rx_ev := ev\<rparr>" and ev: "set ev \<subseteq> set (rx_ev s)"
    and c: "case r of Some bs \<Rightarrow> k = n \<and> n \<le> length (rx s) \<and> bs = map item_byte (take n (rx s))
            | None \<Rightarrow> Fail \<in> set (rx_ev s) \<or> length (rx s) < n" by blast
  from c assms have "r = Some (map item_byte (take n (rx s)))" "k = n"
    by (simp_all add: link_ok_def split: option.splits)
  moreover from ev assms have "Fail \<notin> set ev" by (auto simp: link_ok_def)
  ultimately show ?thesis using r s' by (intro that) simp_all
qed

lemma send_all_ok:
  assumes "link_ok s"
  obtains ev where "send_all buf s = (True, s\<lparr>tx := tx s @ map Plain buf, tx_ev := ev\<rparr>)" "Fail \<notin> set ev"
proof -
  obtain r s' where r: "send_all buf s = (r, s')" by (cases "send_all buf s") auto
  from send_all_shape [OF this] obtain k ev where
    s': "s' = s\<lparr>tx := tx s @ map Plain (take k buf), tx_ev := ev\<rparr>" and ev: "set ev \<subseteq> set (tx_ev s)"
    and c: "if r then length buf \<le> k else Fail \<in> set (tx_ev s)" by blast
  from c assms have "r" "take k buf = buf" by (simp_all add: link_ok_def split: if_splits)
  moreover from ev assms have "Fail \<notin> set ev" by (auto simp: link_ok_def)
  ultimately show ?thesis using r s' by (intro that) simp_all
qed

lemma recv_all_ev: "recv_all n s = (r, s') \<Longrightarrow> set (rx_ev s') \<subseteq> set (rx_ev s)"
  using recv_all_shape by fastforce

lemma send_all_ev: "send_all buf s = (r, s') \<Longrightarrow> set (tx_ev s') \<subseteq> set (tx_ev s)"
  using send_all_shape by fastforce

lemma recv_all_Some:
  assumes "recv_all n s = (Some bs, s')"
  shows "n \<le> length (rx s)" "bs = map item_byte (take n (rx s))" "length bs = n" "rx s' = drop n (rx s)"
    "tx s' = tx s" "fds s' = fds s" "faults s' = faults s"
  using recv_all_shape [OF assms] by auto

section \<open>Waiting for one response\<close>

lemma recv_all_shrinks: "recv_all n s = (Some bs, s') \<Longrightarrow> length (rx s) = length (rx s') + n"
  by (simp add: recv_all_Some)

lemma recv_response_header_shrinks:
  "recv_response_header conn s = (Some r, conn', s') \<Longrightarrow>
     length (rx s') < length (rx s) \<and> conn' = conn"
  by (auto simp: recv_response_header_def dest!: recv_all_shrinks
      split: if_splits prod.splits option.splits)

lemma recv_response_metadata_shrinks:
  "recv_response_metadata r conn s = (Some r', conn', s') \<Longrightarrow> length (rx s') \<le> length (rx s) \<and> conn' = conn"
  by (auto simp: recv_response_metadata_def Let_def dest!: recv_all_shrinks elim!: fault_frame
      split: if_splits prod.splits option.splits)

lemma recv_fd_shrinks: "recv_fd s = (fd, s') \<Longrightarrow> length (rx s') \<le> length (rx s)"
  by (auto simp: recv_fd_def sock_recvmsg_fd_def install_fd_def Let_def elim!: fault_frame
      split: if_splits prod.splits option.splits item.splits)

lemma recv_response_fd_shrinks:
  "recv_response_fd r conn s = (Some r', conn', s') \<Longrightarrow> length (rx s') \<le> length (rx s) \<and> conn' = conn"
  by (auto simp: recv_response_fd_def Let_def dest: recv_fd_shrinks split: if_splits prod.splits)

lemma objm_client_recv_response_shrinks:
  assumes "objm_client_recv_response conn s = (Some r, conn', s')"
  shows "length (rx s') < length (rx s)" "conn' = conn"
proof -
  from assms obtain s0 r1 s1 r2 s2 where
    "fault s = (False, s0)" and h: "recv_response_header conn s0 = (Some r1, conn, s1)"
    and m: "recv_response_metadata r1 conn s1 = (Some r2, conn, s2)"
    and f: "recv_response_fd r2 conn s2 = (Some r, conn', s')"
    by (auto simp: objm_client_recv_response_def Let_def split: prod.splits if_splits option.splits
        dest: recv_response_header_shrinks recv_response_metadata_shrinks)
  then have "rx s0 = rx s" by (auto elim: fault_frame)
  with recv_response_header_shrinks [OF h] recv_response_metadata_shrinks [OF m]
    recv_response_fd_shrinks [OF f]
  show "length (rx s') < length (rx s)" "conn' = conn" by simp_all
qed

text \<open>The \<open>while (1)\<close> loop of \<open>objm_client_recv_response_for\<close>.\<close>

function recv_for_loop ::
    "objm_connection \<Rightarrow> u32 \<Rightarrow> 'a os_scheme \<Rightarrow> objm_response option \<times> objm_connection \<times> 'a os_scheme" where
  "recv_for_loop conn request_id s =
     (case objm_client_recv_response conn s of
        (None, conn', s') \<Rightarrow> (None, conn', s')
      | (Some r, conn', s') \<Rightarrow>
          if rs_request_id r = request_id then (Some r, conn', s')
          else if unat (rs_request_id r) < length (c_pending conn')
          then recv_for_loop (conn'\<lparr>c_pending := (c_pending conn')[unat (rs_request_id r) := Some r]\<rparr>)
                 request_id s'
          else recv_for_loop conn' request_id (objm_response_free r s'))"
  by pat_completeness auto
termination
  by (relation "measure (\<lambda>(conn, i, s). length (rx s))")
     (auto dest!: sym [of "(_, _, _)"] objm_client_recv_response_shrinks(1)
       simp: objm_response_free_def sys_close_simps)

declare recv_for_loop.simps [simp del]

definition objm_client_recv_response_for ::
    "objm_connection \<Rightarrow> u32 \<Rightarrow> 'a os_scheme \<Rightarrow> objm_response option \<times> objm_connection \<times> 'a os_scheme" where
  "objm_client_recv_response_for conn request_id s =
     (if c_version conn \<noteq> OBJM_PROTO_V2 then (None, conn, s)
      else if unat request_id < length (c_pending conn) \<and> c_pending conn ! unat request_id \<noteq> None
      then (c_pending conn ! unat request_id,
            conn\<lparr>c_pending := (c_pending conn)[unat request_id := None]\<rparr>, s)
      else recv_for_loop conn request_id s)"

definition objm_client_close ::
    "objm_connection \<Rightarrow> u8 \<Rightarrow> 'a os_scheme \<Rightarrow> bool \<times> 'a os_scheme" where
  "objm_client_close conn reason s =
     (if c_version conn = OBJM_PROTO_V2 then
        (case send_all [OBJM_MSG_CLOSE, reason] s of
           (False, s) \<Rightarrow> (False, s)
         | (True, s) \<Rightarrow>
             (case recv_all 6 s of
                (None, s) \<Rightarrow> (False, s)
              | (Some ack, s) \<Rightarrow> (ack ! 0 = OBJM_MSG_CLOSE_ACK, s)))
      else (True, s))"

fun free_pending :: "objm_response option list \<Rightarrow> 'a os_scheme \<Rightarrow> 'a os_scheme" where
  "free_pending [] s = s"
| "free_pending (None # rs) s = free_pending rs s"
| "free_pending (Some r # rs) s = free_pending rs (objm_response_free r s)"

definition objm_client_destroy :: "objm_connection \<Rightarrow> 'a os_scheme \<Rightarrow> 'a os_scheme" where
  "objm_client_destroy conn s = free_pending (c_pending conn) s"

section \<open>Server\<close>

definition objm_server_create :: "int \<Rightarrow> 'a os_scheme \<Rightarrow> objm_connection option \<times> 'a os_scheme" where
  "objm_server_create fd s =
     (let (f, s) = fault s
      in (if f then None
          else Some \<lparr>c_fd = fd, c_version = OBJM_PROTO_UNSET, c_params = zero_params,
                     c_is_server = True, c_next_request_id = 0, c_pending = [],
                     c_callbacks = zero_callbacks, c_user_data = 0, c_error = []\<rparr>, s))"

definition negotiate :: "bytes \<Rightarrow> objm_hello \<Rightarrow> objm_params" where
  "negotiate hello_bytes hello =
     (let client_caps = of_nat (get_be (field 5 2 hello_bytes));
          client_pipeline = of_nat (get_be (field 7 2 hello_bytes))
      in \<lparr>p_version = OBJM_PROTO_V2,
          p_capabilities = client_caps AND h_capabilities hello,
          p_max_pipeline = (if client_pipeline < h_max_pipeline hello then client_pipeline
                            else h_max_pipeline hello),
          p_backend_parallelism = h_backend_parallelism hello\<rparr>)"

definition objm_server_handshake ::
    "objm_connection \<Rightarrow> objm_hello \<Rightarrow> 'a os_scheme \<Rightarrow> objm_params option \<times> objm_connection \<times> 'a os_scheme" where
  "objm_server_handshake conn hello s =
     (if \<not> c_is_server conn then (None, conn, s)
      else case sock_peek s of
        (None, s) \<Rightarrow> (None, set_error ''Failed to peek first byte'' conn, s)
      | (Some first_byte, s) \<Rightarrow>
          if first_byte = byte_of_char (CHR ''O'') then
            (case recv_all 9 s of
               (None, s) \<Rightarrow> (None, set_error ''Failed to receive HELLO'' conn, s)
             | (Some hello_bytes, s) \<Rightarrow>
                 if take 4 hello_bytes \<noteq> magic \<or> hello_bytes ! 4 \<noteq> OBJM_VERSION_2
                 then (None, set_error ''Invalid HELLO message'' conn, s)
                 else
                   let params = negotiate hello_bytes hello; conn = conn\<lparr>c_params := params\<rparr>
                   in (case send_all (ack_msg params) s of
                         (False, s) \<Rightarrow> (None, set_error ''Failed to send HELLO_ACK'' conn, s)
                       | (True, s) \<Rightarrow> (Some params, conn\<lparr>c_version := OBJM_PROTO_V2\<rparr>, s)))
          else
            let params = \<lparr>p_version = OBJM_PROTO_V1, p_capabilities = 0, p_max_pipeline = 1,
                          p_backend_parallelism = 1\<rparr>
            in (Some params, conn\<lparr>c_version := OBJM_PROTO_V1, c_params := params\<rparr>, s))"

datatype recv_request_result = RecvRequest objm_request | RecvClose | RecvError

text \<open>The common tail of both versions: the length check, the buffer and the URI bytes.\<close>

definition recv_uri ::
    "objm_request \<Rightarrow> objm_connection \<Rightarrow> 'a os_scheme \<Rightarrow> recv_request_result \<times> objm_connection \<times> 'a os_scheme" where
  "recv_uri r conn s =
     (if unat (rq_uri_len r) > OBJM_MAX_URI_LEN then (RecvError, set_error ''URI too long'' conn, s)
      else let (f, s) = fault s
           in if f then (RecvError, conn, s)
              else case recv_all (unat (rq_uri_len r)) s of
                     (None, s) \<Rightarrow> (RecvError, conn, s)
                   | (Some uri, s) \<Rightarrow> (RecvRequest (r\<lparr>rq_uri := uri\<rparr>), conn, s))"

definition objm_server_recv_request ::
    "objm_connection \<Rightarrow> 'a os_scheme \<Rightarrow> recv_request_result \<times> objm_connection \<times> 'a os_scheme" where
  "objm_server_recv_request conn s =
     (let (f, s) = fault s
      in if f then (RecvError, conn, s)
         else if c_version conn = OBJM_PROTO_V1 then
           (case recv_all 3 s of
              (None, s) \<Rightarrow> (RecvError, conn, s)
            | (Some header, s) \<Rightarrow>
                recv_uri \<lparr>rq_id = 0, rq_flags = 0, rq_mode = header ! 0, rq_uri = [],
                          rq_uri_len = of_nat (get_be (field 1 2 header))\<rparr> conn s)
         else
           (case recv_all 9 s of
              (None, s) \<Rightarrow> (RecvError, conn, s)
            | (Some header, s) \<Rightarrow>
                if header ! 0 = OBJM_MSG_CLOSE then (RecvClose, conn, s)
                else if header ! 0 \<noteq> OBJM_MSG_REQUEST
                then (RecvError, set_error (''Unexpected message type: '' @ show_nat (unat (header ! 0))) conn, s)
                else recv_uri \<lparr>rq_id = of_nat (get_be (field 1 4 header)), rq_flags = header ! 5,
                               rq_mode = header ! 6, rq_uri = [],
                               rq_uri_len = of_nat (get_be (field 7 2 header))\<rparr> conn s))"

definition response_header :: "objm_version \<Rightarrow> objm_response \<Rightarrow> bytes" where
  "response_header version resp =
     (if version = OBJM_PROTO_V1
      then rs_status resp # put_be 8 (unat (rs_content_len resp)) @ put_be 2 (unat (rs_metadata_len resp))
      else OBJM_MSG_RESPONSE # put_be 4 (unat (rs_request_id resp)) @ [rs_status resp] @
           put_be 8 (unat (rs_content_len resp)) @ put_be 2 (unat (rs_metadata_len resp)))"

definition objm_server_send_response ::
    "objm_connection \<Rightarrow> objm_response \<Rightarrow> 'a os_scheme \<Rightarrow> bool \<times> 'a os_scheme" where
  "objm_server_send_response conn resp s =
     (case send_all (response_header (c_version conn) resp) s of
        (False, s) \<Rightarrow> (False, s)
      | (True, s) \<Rightarrow>
          (case (if 0 < rs_metadata_len resp \<and> rs_metadata resp \<noteq> None
                 then send_all (take (unat (rs_metadata_len resp)) (the (rs_metadata resp))) s
                 else (True, s)) of
             (False, s) \<Rightarrow> (False, s)
           | (True, s) \<Rightarrow>
               if rs_status resp = OBJM_STATUS_OK \<and> 0 \<le> rs_fd resp then send_fd (rs_fd resp) s
               else (True, s)))"

text \<open>\<open>error_msg\<close> may be \<open>NULL\<close>. The buffer has room for the entry, so the store is in
  bounds; the outer \<open>None\<close> would be a store out of bounds.\<close>

definition objm_server_send_error ::
    "objm_connection \<Rightarrow> u32 \<Rightarrow> u8 \<Rightarrow> string option \<Rightarrow> 'a os_scheme \<Rightarrow> (bool \<times> 'a os_scheme) option" where
  "objm_server_send_error conn request_id status error_msg s =
     (let resp = \<lparr>rs_request_id = request_id, rs_status = status, rs_fd = -1, rs_content_len = 0,
                  rs_metadata = None, rs_metadata_len = 0, rs_error_msg = None\<rparr>
      in case error_msg of
           None \<Rightarrow> Some (objm_server_send_response conn resp s)
         | Some msg \<Rightarrow>
             (case objm_metadata_create (length msg + 10) s of
                (None, s) \<Rightarrow> Some (objm_server_send_response conn resp s)
              | (Some buf, s) \<Rightarrow>
                  do { (m, len) \<leftarrow> objm_metadata_add (Some buf) 0 0xFF (bytes_of_string msg) (length msg);
                       Some (objm_server_send_response conn
                               (resp\<lparr>rs_metadata := m, rs_metadata_len := of_nat len\<rparr>) s) }))"

definition objm_server_send_close_ack ::
    "objm_connection \<Rightarrow> u32 \<Rightarrow> 'a os_scheme \<Rightarrow> bool \<times> 'a os_scheme" where
  "objm_server_send_close_ack conn outstanding s =
     (if c_version conn \<noteq> OBJM_PROTO_V2 then (False, s)
      else send_all (OBJM_MSG_CLOSE_ACK # 0 # put_be 4 (unat outstanding)) s)"

section \<open>Common utilities\<close>

definition objm_get_params :: "objm_connection \<Rightarrow> objm_params" where
  "objm_get_params conn = c_params conn"

definition objm_get_fd :: "objm_connection option \<Rightarrow> int" where
  "objm_get_fd conn = (case conn of None \<Rightarrow> -1 | Some c \<Rightarrow> c_fd c)"

definition objm_has_capability :: "objm_connection \<Rightarrow> u16 \<Rightarrow> bool" where
  "objm_has_capability conn capability \<longleftrightarrow> p_capabilities (c_params conn) AND capability \<noteq> 0"

definition objm_set_callbacks ::
    "objm_connection \<Rightarrow> objm_callbacks option \<Rightarrow> nat \<Rightarrow> objm_connection" where
  "objm_set_callbacks conn callbacks user_data =
     conn\<lparr>c_callbacks := (case callbacks of Some cb \<Rightarrow> cb | None \<Rightarrow> zero_callbacks),
          c_user_data := user_data\<rparr>"

end
