(* ===== verification/Framing.thy ===== *)
theory Framing
  imports Objm_Prelude
begin

text \<open>
  The contract of a message layer: a receiver that, whenever its input starts with the
  encoding of a valid message, returns that message and leaves the rest of the input. From
  it follow the properties of whole message sequences (order, no loss, no merging), proved
  once here and obtained for the protocol by interpretation.
\<close>

section \<open>Receiving several messages\<close>

fun recv_many :: "('s \<Rightarrow> 'm option \<times> 's) \<Rightarrow> nat \<Rightarrow> 's \<Rightarrow> 'm list \<times> 's" where
  "recv_many recv 0 s = ([], s)"
| "recv_many recv (Suc n) s =
     (case recv s of
        (None, s') \<Rightarrow> ([], s')
      | (Some m, s') \<Rightarrow> (case recv_many recv n s' of (ms, s'') \<Rightarrow> (m # ms, s'')))"

locale framing =
  fixes enc :: "'m \<Rightarrow> 'b list"
    and valid :: "'m \<Rightarrow> bool"
    and input :: "'s \<Rightarrow> 'b list"
    and ready :: "'s \<Rightarrow> bool"
    and recv :: "'s \<Rightarrow> 'm option \<times> 's"
  assumes recv_enc:
    "ready s \<Longrightarrow> valid m \<Longrightarrow> input s = enc m @ rest \<Longrightarrow>
       \<exists>s'. recv s = (Some m, s') \<and> ready s' \<and> input s' = rest"
begin

lemma recv_many_enc:
  assumes "\<forall>m \<in> set ms. valid m" "ready s" "input s = concat (map enc ms) @ rest"
  shows "\<exists>s'. recv_many recv (length ms) s = (ms, s') \<and> ready s' \<and> input s' = rest"
  using assms
proof (induction ms arbitrary: s)
  case Nil
  then show ?case by simp
next
  case (Cons m ms)
  then have "ready s" "valid m" "input s = enc m @ concat (map enc ms) @ rest" by simp_all
  from recv_enc [OF this] obtain s1 where
    s1: "recv s = (Some m, s1)" "ready s1" "input s1 = concat (map enc ms) @ rest" by blast
  with Cons.IH [of s1] Cons.prems obtain s2 where
    "recv_many recv (length ms) s1 = (ms, s2)" "ready s2" "input s2 = rest" by auto
  with s1 show ?case by simp
qed

text \<open>No encoding is a proper prefix of another one: a stream parses in one way only.\<close>

lemma enc_prefix_free:
  assumes "valid m" "valid m'" "ready s" "input s = enc m @ rest" "enc m @ rest = enc m' @ rest'"
  shows "m = m' \<and> rest = rest'"
proof -
  from recv_enc [of s m rest] assms obtain s1 where "recv s = (Some m, s1)" "input s1 = rest" by auto
  moreover from recv_enc [of s m' rest'] assms obtain s2 where
    "recv s = (Some m', s2)" "input s2 = rest'" by auto
  ultimately show ?thesis by auto
qed

end

end
