(* ===== verification/Protocol_Laws.thy ===== *)
theory Protocol_Laws
  imports Protocol_Conn Framing
begin

text \<open>
  Properties of the wire protocol: requests and responses arrive as they were sent under
  every pattern of short transfers and interruptions, in order and without loss when they
  are pipelined; the handshake leaves both ends with the same parameters; what the server
  accepts is bounded; and the places where the two ends disagree.
\<close>

section \<open>Requests\<close>

definition valid_request :: "objm_version \<Rightarrow> objm_request \<Rightarrow> bool" where
  "valid_request v r \<longleftrightarrow>
     unat (rq_uri_len r) = length (rq_uri r) \<and> length (rq_uri r) \<le> OBJM_MAX_URI_LEN \<and>
     (v = OBJM_PROTO_V1 \<longrightarrow> rq_id r = 0 \<and> rq_flags r = 0)"

definition request_items :: "objm_version \<Rightarrow> objm_request \<Rightarrow> item list" where
  "request_items v r = map Plain (request_msg v r @ rq_uri r)"

text \<open>A receiving end: the version is settled, the link does not fail, memory is available.\<close>

definition receiving :: "objm_version \<Rightarrow> objm_connection \<times> 'a os_scheme \<Rightarrow> bool" where
  "receiving v cs \<longleftrightarrow> c_version (fst cs) = v \<and> link_ok (snd cs) \<and> no_faults (snd cs)"

definition next_request ::
    "objm_connection \<times> 'a os_scheme \<Rightarrow> objm_request option \<times> objm_connection \<times> 'a os_scheme" where
  "next_request cs =
     (case objm_server_recv_request (fst cs) (snd cs) of
        (RecvRequest r, c, s) \<Rightarrow> (Some r, c, s)
      | (_, c, s) \<Rightarrow> (None, c, s))"

lemma item_bytes_Plain [simp]: "map item_byte (map Plain bs) = bs"
  by (simp add: comp_def)

lemma recv_all_Plain:
  assumes "rx s = map Plain bs @ rest" "length bs = n" "link_ok s"
  obtains ev where "recv_all n s = (Some bs, s\<lparr>rx := rest, rx_ev := ev\<rparr>)" "Fail \<notin> set ev"
proof -
  have "take n (rx s) = map Plain bs" "drop n (rx s) = rest" "n \<le> length (rx s)"
    using assms(1,2) by simp_all
  with recv_all_ok [of n s] assms(3) that show ?thesis by (metis item_bytes_Plain)
qed

lemma recv_uri_ok:
  assumes "rx s = map Plain uri @ rest" "unat (rq_uri_len r) = length uri"
    "length uri \<le> OBJM_MAX_URI_LEN" "link_ok s" "no_faults s"
  obtains s' where "recv_uri r conn s = (RecvRequest (r\<lparr>rq_uri := uri\<rparr>), conn, s')"
    "rx s' = rest" "link_ok s'" "no_faults s'"
proof -
  obtain t where f: "fault s = (False, s\<lparr>faults := t\<rparr>)" "True \<notin> set t"
    using no_faults_fault [OF assms(5)] .
  obtain ev where "recv_all (length uri) (s\<lparr>faults := t\<rparr>)
      = (Some uri, s\<lparr>faults := t, rx := rest, rx_ev := ev\<rparr>)" "Fail \<notin> set ev"
    using recv_all_Plain [of "s\<lparr>faults := t\<rparr>" uri rest "length uri"] assms(1,4)
    by (auto simp: link_ok_def)
  with f assms(2,3,4) show ?thesis
    by (intro that [of "s\<lparr>faults := t, rx := rest, rx_ev := ev\<rparr>"])
       (simp_all add: recv_uri_def link_ok_def no_faults_def)
qed

lemma field_Suc [simp]: "field (Suc off) n (x # xs) = field off n xs"
  by (simp add: field_def)

lemma uri_len_roundtrip:
  "unat (l :: u64) \<le> 4096 \<Longrightarrow> of_nat (get_be (put_be 2 (unat l))) = l"
  by (simp add: get_be_put_be)

lemma server_recv_request_ok:
  assumes "receiving v (c, s)" "valid_request v r" "rx s = request_items v r @ rest"
  obtains s' where "objm_server_recv_request c s = (RecvRequest r, c, s')"
    "rx s' = rest" "link_ok s'" "no_faults s'"
proof -
  let ?hdr = "request_msg v r"
  from assms(1) have v: "c_version c = v" and ok: "link_ok s" "no_faults s"
    by (simp_all add: receiving_def)
  from assms(2) have len: "unat (rq_uri_len r) = length (rq_uri r)" "length (rq_uri r) \<le> 4096"
    by (simp_all add: valid_request_def)
  then have "unat (rq_uri_len r) \<le> 4096" by simp
  then have u: "of_nat (get_be (put_be 2 (unat (rq_uri_len r)))) = rq_uri_len r"
    by (rule uri_len_roundtrip)
  obtain t where f: "fault s = (False, s\<lparr>faults := t\<rparr>)" "True \<notin> set t"
    using no_faults_fault [OF ok(2)] .
  obtain ev where h: "recv_all (length ?hdr) (s\<lparr>faults := t\<rparr>) =
      (Some ?hdr, s\<lparr>faults := t, rx := map Plain (rq_uri r) @ rest, rx_ev := ev\<rparr>)" "Fail \<notin> set ev"
    using recv_all_Plain [of "s\<lparr>faults := t\<rparr>" ?hdr "map Plain (rq_uri r) @ rest"] assms(3) ok(1)
    by (auto simp: request_items_def link_ok_def)
  let ?s = "s\<lparr>faults := t, rx := map Plain (rq_uri r) @ rest, rx_ev := ev\<rparr>"
  have ok': "link_ok ?s" "no_faults ?s" using ok f h by (simp_all add: link_ok_def no_faults_def)
  obtain s' where s': "recv_uri (r\<lparr>rq_uri := []\<rparr>) c ?s = (RecvRequest r, c, s')" "rx s' = rest"
      "link_ok s'" "no_faults s'"
    using recv_uri_ok [of ?s "rq_uri r" rest "r\<lparr>rq_uri := []\<rparr>" c] len ok' by auto
  have "objm_server_recv_request c s = (RecvRequest r, c, s')"
  proof (cases "v = OBJM_PROTO_V1")
    case True
    have "r\<lparr>rq_uri := []\<rparr> = \<lparr>rq_id = 0, rq_flags = 0, rq_mode = ?hdr ! 0, rq_uri = [],
            rq_uri_len = of_nat (get_be (field 1 2 ?hdr))\<rparr>"
      using True assms(2) u
      by (simp add: request_msg_def valid_request_def field_all)
    with True v f(1) h(1) s'(1) show ?thesis
      by (simp add: objm_server_recv_request_def request_msg_def)
  next
    case False
    have "r\<lparr>rq_uri := []\<rparr> = \<lparr>rq_id = of_nat (get_be (field 1 4 ?hdr)), rq_flags = ?hdr ! 5,
            rq_mode = ?hdr ! 6, rq_uri = [], rq_uri_len = of_nat (get_be (field 7 2 ?hdr))\<rparr>"
      using False u by (simp add: request_msg_def wire_simps)
    with False v f(1) h(1) s'(1) show ?thesis
      by (simp add: objm_server_recv_request_def request_msg_def)
  qed
  with s' show ?thesis by (intro that)
qed

interpretation req: framing "request_items v" "valid_request v" "\<lambda>cs. rx (snd cs)" "receiving v"
  next_request for v
proof
  fix cs :: "objm_connection \<times> 'a os_scheme" and m rest
  assume a: "receiving v cs" "valid_request v m" "rx (snd cs) = request_items v m @ rest"
  obtain c s where cs: "cs = (c, s)" by (cases cs)
  from a have "receiving v (c, s)" "valid_request v m" "rx s = request_items v m @ rest"
    by (simp_all add: cs)
  then obtain s' where "objm_server_recv_request c s = (RecvRequest m, c, s')"
      "rx s' = rest" "link_ok s'" "no_faults s'" by (rule server_recv_request_ok)
  with a show "\<exists>s'. next_request cs = (Some m, s') \<and> receiving v s' \<and> rx (snd s') = rest"
    by (simp add: cs next_request_def receiving_def)
qed

lemma client_send_request_ok:
  assumes "link_ok s" "valid_request (c_version c) r"
  obtains ev where "objm_client_send_request c r s =
      (True, c, s\<lparr>tx := tx s @ request_items (c_version c) r, tx_ev := ev\<rparr>)"
    "Fail \<notin> set ev"
proof -
  let ?hdr = "request_msg (c_version c) r"
  obtain ev where h: "send_all ?hdr s = (True, s\<lparr>tx := tx s @ map Plain ?hdr, tx_ev := ev\<rparr>)"
      "Fail \<notin> set ev"
    using send_all_ok [OF assms(1)] .
  then have "link_ok (s\<lparr>tx := tx s @ map Plain ?hdr, tx_ev := ev\<rparr>)"
    using assms(1) by (simp add: link_ok_def)
  from send_all_ok [OF this] obtain ev' where
    "send_all (rq_uri r) (s\<lparr>tx := tx s @ map Plain ?hdr, tx_ev := ev\<rparr>) =
       (True, s\<lparr>tx := tx s @ map Plain ?hdr @ map Plain (rq_uri r), tx_ev := ev'\<rparr>)" "Fail \<notin> set ev'"
    by auto
  with h assms(2) show ?thesis
    by (intro that [of ev']) (simp_all add: objm_client_send_request_def request_items_def valid_request_def)
qed

text \<open>
  C1: A request that the client sends is the request that the server receives: whatever
  the sizes of the partial writes and reads and however often the calls are interrupted,
  \<open>objm_server_recv_request\<close> applied to the bytes \<open>objm_client_send_request\<close> put on the
  link returns the same mode, URI and (V2) identifier and flags, and consumes exactly
  those bytes.
\<close>

theorem request_roundtrip:
  assumes "link_ok sc" "valid_request (c_version cc) r"
    and "receiving (c_version cc) (cs, ss)"
    and "rx ss = drop (length (tx sc)) (tx (snd (snd (objm_client_send_request cc r sc)))) @ rest"
  shows "\<exists>sc' ss'. objm_client_send_request cc r sc = (True, cc, sc') \<and>
           objm_server_recv_request cs ss = (RecvRequest r, cs, ss') \<and> rx ss' = rest"
proof -
  from client_send_request_ok [OF assms(1,2)] obtain ev where
    snd: "objm_client_send_request cc r sc =
       (True, cc, sc\<lparr>tx := tx sc @ request_items (c_version cc) r, tx_ev := ev\<rparr>)" by blast
  with assms(4) have "rx ss = request_items (c_version cc) r @ rest" by simp
  with assms(2,3) server_recv_request_ok [of "c_version cc" cs ss r rest] snd show ?thesis by blast
qed

text \<open>
  C2: Pipelined requests are received in the order in which they were sent, none lost,
  repeated or merged: if the input of a server connection is the concatenation of the
  encodings of valid requests, as many receives as there are requests return exactly them.
\<close>

theorem pipelined_requests_in_order:
  assumes "\<forall>r \<in> set rs. valid_request v r" "receiving v (cs, ss)"
    and "rx ss = concat (map (request_items v) rs) @ rest"
  shows "\<exists>cs'. recv_many next_request (length rs) (cs, ss) = (rs, cs') \<and> rx (snd cs') = rest"
  using req.recv_many_enc [of rs v "(cs, ss)" rest] assms by auto

text \<open>
  C20: Whatever bytes a peer sends and whatever fails, a request that the server accepts
  has a URI of at most 4096 bytes that fills its buffer exactly: the length field, the
  buffer and the bytes read agree.
\<close>

theorem accepted_request_bounded:
  "case objm_server_recv_request c s of
     (RecvRequest r, _, _) \<Rightarrow> length (rq_uri r) \<le> OBJM_MAX_URI_LEN \<and> unat (rq_uri_len r) = length (rq_uri r)
   | _ \<Rightarrow> True"
proof -
  have "length (rq_uri r') \<le> OBJM_MAX_URI_LEN \<and> unat (rq_uri_len r') = length (rq_uri r')"
    if "recv_uri r c' s' = (RecvRequest r', c'', s'')" for r r' c' c'' and s' s'' :: "'a os_scheme"
    using that by (auto simp: recv_uri_def Let_def split: if_splits prod.splits option.splits
        dest: recv_all_Some(3))
  then show ?thesis
    by (simp add: objm_server_recv_request_def Let_def split: prod.splits option.splits
        recv_request_result.splits if_splits)
qed

text \<open>A connection and a request for the concrete instances.\<close>

definition sample_conn :: "objm_version \<Rightarrow> bool \<Rightarrow> objm_connection" where
  "sample_conn v server =
     \<lparr>c_fd = 3, c_version = v, c_params = zero_params, c_is_server = server, c_next_request_id = 1,
      c_pending = [], c_callbacks = zero_callbacks, c_user_data = 0, c_error = []\<rparr>"

definition sample_request :: "u32 \<Rightarrow> objm_request" where
  "sample_request i =
     \<lparr>rq_id = i, rq_flags = 0, rq_mode = OBJM_MODE_FDPASS, rq_uri = bytes_of_string ''/a'', rq_uri_len = 2\<rparr>"

definition choppy :: os where
  "choppy = os_init\<lparr>tx_ev := [Upto 2, Intr, Upto 1], rx_ev := [Intr, Upto 1, Upto 3, Intr]\<rparr>"

lemma choppy_ok [simp]: "link_ok choppy" "no_faults choppy" "link_ok (choppy\<lparr>rx := x\<rparr>)"
    "no_faults (choppy\<lparr>rx := x\<rparr>)"
  by (simp_all add: choppy_def os_init_def link_ok_def no_faults_def)

lemma sample_valid [simp]: "valid_request OBJM_PROTO_V2 (sample_request i)"
  by (simp add: valid_request_def sample_request_def)

theorem request_roundtrip_witness:
  "\<exists>sc' ss'. objm_client_send_request (sample_conn OBJM_PROTO_V2 False) (sample_request 7) choppy
       = (True, sample_conn OBJM_PROTO_V2 False, sc') \<and>
     objm_server_recv_request (sample_conn OBJM_PROTO_V2 True)
       (choppy\<lparr>rx := drop (length (tx choppy)) (tx (snd (snd (objm_client_send_request
          (sample_conn OBJM_PROTO_V2 False) (sample_request 7) choppy)))) @ [Plain 9]\<rparr>)
       = (RecvRequest (sample_request 7), sample_conn OBJM_PROTO_V2 True, ss') \<and> rx ss' = [Plain 9]"
  by (rule request_roundtrip) (simp_all add: receiving_def sample_conn_def)

theorem pipelined_requests_in_order_witness:
  "\<exists>cs'. recv_many next_request (length [sample_request 1, sample_request 2])
      (sample_conn OBJM_PROTO_V2 True,
       choppy\<lparr>rx := concat (map (request_items OBJM_PROTO_V2) [sample_request 1, sample_request 2]) @ []\<rparr>)
      = ([sample_request 1, sample_request 2], cs') \<and> rx (snd cs') = []"
  by (rule pipelined_requests_in_order [of _ OBJM_PROTO_V2]) (simp_all add: receiving_def sample_conn_def)

section \<open>Responses\<close>

text \<open>
  A response whose parts agree: the metadata length is that of the block, and a descriptor
  is attached exactly when the status is OK and the content length is zero, which is what
  the client takes as the sign that one follows.
\<close>

definition valid_response :: "objm_version \<Rightarrow> 'a os_scheme \<Rightarrow> objm_response \<Rightarrow> bool" where
  "valid_response v s r \<longleftrightarrow>
     (case rs_metadata r of
        None \<Rightarrow> rs_metadata_len r = 0
      | Some m \<Rightarrow> m \<noteq> [] \<and> unat (rs_metadata_len r) = length m \<and> length m < 65536) \<and>
     (if rs_status r = OBJM_STATUS_OK \<and> rs_content_len r = 0 then fd_obj s (rs_fd r) \<noteq> None
      else rs_fd r = -1) \<and>
     rs_error_msg r = None \<and> (v = OBJM_PROTO_V1 \<longrightarrow> rs_request_id r = 0)"

definition meta_bytes :: "objm_response \<Rightarrow> bytes" where
  "meta_bytes r = (case rs_metadata r of None \<Rightarrow> [] | Some m \<Rightarrow> m)"

definition fd_items :: "'a os_scheme \<Rightarrow> objm_response \<Rightarrow> item list" where
  "fd_items s r = (if 0 \<le> rs_fd r then [WithFd 0x58 (the (fd_obj s (rs_fd r)))] else [])"

definition response_items :: "objm_version \<Rightarrow> 'a os_scheme \<Rightarrow> objm_response \<Rightarrow> item list" where
  "response_items v s r = map Plain (response_header v r @ meta_bytes r) @ fd_items s r"

lemma calm_event:
  "link_calm s \<Longrightarrow> \<not> (tx_ev s \<noteq> [] \<and> (hd (tx_ev s) = Intr \<or> hd (tx_ev s) = Fail))"
  "link_calm s \<Longrightarrow> \<not> (rx_ev s \<noteq> [] \<and> (hd (rx_ev s) = Intr \<or> hd (rx_ev s) = Fail))"
  by (cases "tx_ev s"; auto simp: link_calm_def link_ok_def)
     (cases "rx_ev s"; auto simp: link_calm_def link_ok_def)

lemma send_fd_ok:
  assumes "fd_obj s fd = Some d" "link_calm s"
  shows "send_fd fd s = (True, s\<lparr>tx_ev := tl (tx_ev s), tx := tx s @ [WithFd 0x58 d]\<rparr>)"
  using assms(1) calm_event(1) [OF assms(2)]
  by (simp only: send_fd_def sock_sendmsg_fd_def Let_def if_False fd_obj_update option.case)
     simp

lemma recv_fd_ok:
  assumes "rx s = WithFd b d # rest" "link_calm s" "no_faults s"
  obtains fd s' where "recv_fd s = (fd, s')" "0 \<le> fd" "fd_obj s' fd = Some d" "rx s' = rest"
    "fd_obj s fd = None" "\<And>fd'. fd' \<noteq> fd \<Longrightarrow> fd_obj s' fd' = fd_obj s fd'"
    "link_calm s'" "no_faults s'"
proof -
  let ?s1 = "s\<lparr>rx_ev := tl (rx_ev s), rx := rest\<rparr>"
  have "no_faults ?s1" using assms(3) by (simp add: no_faults_def)
  then obtain t where f: "fault ?s1 = (False, ?s1\<lparr>faults := t\<rparr>)" "True \<notin> set t" by (rule no_faults_fault)
  obtain fd s' where i: "install_fd d (?s1\<lparr>faults := t\<rparr>) = (fd, s')"
    by (cases "install_fd d (?s1\<lparr>faults := t\<rparr>)") auto
  have "recv_fd s = (fd, s')"
    using assms(1) f(1) i calm_event(2) [OF assms(2)]
    by (simp only: recv_fd_def sock_recvmsg_fd_def Let_def if_False) simp
  moreover obtain x where x: "s' = ?s1\<lparr>faults := t, fds := x\<rparr>" using install_fd_frame [OF i] by auto
  moreover have "link_calm s'" "no_faults s'"
    using x f(2) assms(2) list.set_sel(2) [of "rx_ev s"]
    by (cases "rx_ev s"; auto simp: link_calm_def link_ok_def no_faults_def)+
  ultimately show ?thesis using install_fd_fresh [OF i] by (intro that [of fd s']) auto
qed

lemma server_send_response_ok:
  assumes "link_calm s" "valid_response (c_version c) s r"
  obtains ev where "objm_server_send_response c r s =
      (True, s\<lparr>tx := tx s @ response_items (c_version c) s r, tx_ev := ev\<rparr>)"
proof -
  let ?hdr = "response_header (c_version c) r"
  let ?m = "meta_bytes r"
  from assms(1) have ok: "link_ok s" by (simp add: link_calm_def)
  obtain e1 where h: "send_all ?hdr s = (True, s\<lparr>tx := tx s @ map Plain ?hdr, tx_ev := e1\<rparr>)"
      "Fail \<notin> set e1" using send_all_ok [OF ok] .
  let ?s1 = "s\<lparr>tx := tx s @ map Plain ?hdr, tx_ev := e1\<rparr>"
  have "link_ok ?s1" using ok h by (simp add: link_ok_def)
  then obtain e2 where m: "send_all ?m ?s1 =
      (True, ?s1\<lparr>tx := tx ?s1 @ map Plain ?m, tx_ev := e2\<rparr>)" "Fail \<notin> set e2" by (rule send_all_ok)
  let ?s2 = "s\<lparr>tx := tx s @ map Plain ?hdr @ map Plain ?m, tx_ev := e2\<rparr>"
  have "set e2 \<subseteq> set (tx_ev s)" using send_all_ev [OF h(1)] send_all_ev [OF m(1)] by simp
  then have calm: "link_calm ?s2" using assms(1) by (auto simp: link_calm_def link_ok_def)
  have meta: "(if 0 < rs_metadata_len r \<and> rs_metadata r \<noteq> None
               then send_all (take (unat (rs_metadata_len r)) (the (rs_metadata r))) ?s1 else (True, ?s1))
             = (True, if rs_metadata r = None then ?s1 else ?s2)"
    using assms(2) m(1) by (auto simp: valid_response_def meta_bytes_def word_neq_0_conv [symmetric]
        unat_eq_0 split: option.splits)
  show ?thesis
  proof (cases "rs_status r = OBJM_STATUS_OK \<and> rs_content_len r = 0")
    case True
    then obtain d where d: "fd_obj s (rs_fd r) = Some d" "0 \<le> rs_fd r"
      using assms(2) fd_obj_nonneg by (auto simp: valid_response_def)
    show ?thesis
    proof (cases "rs_metadata r")
      case None
      have "set e1 \<subseteq> set (tx_ev s)" using send_all_ev [OF h(1)] by simp
      then have "link_calm ?s1" using assms(1) by (auto simp: link_calm_def link_ok_def)
      with None True d h(1) meta show ?thesis
        by (intro that [of "tl e1"])
           (simp add: objm_server_send_response_def send_fd_ok response_items_def fd_items_def meta_bytes_def)
    next
      case (Some x)
      with True d h(1) meta calm show ?thesis
        by (intro that [of "tl e2"])
           (simp add: objm_server_send_response_def send_fd_ok response_items_def fd_items_def)
    qed
  next
    case False
    then have "rs_fd r = -1" using assms(2) by (simp add: valid_response_def)
    with False h(1) meta show ?thesis
      by (intro that [of "if rs_metadata r = None then e1 else e2"])
         (simp add: objm_server_send_response_def response_items_def fd_items_def meta_bytes_def
            split: option.splits)
  qed
qed

lemma parse_response_header:
  assumes "valid_response v s r"
  shows "v = OBJM_PROTO_V1 \<Longrightarrow> parse_response_v1 (response_header v r) = r\<lparr>rs_fd := -1, rs_metadata := None\<rparr>"
    and "v \<noteq> OBJM_PROTO_V1 \<Longrightarrow> parse_response_v2 (response_header v r) = r\<lparr>rs_fd := -1, rs_metadata := None\<rparr>"
proof -
  have "unat (rs_metadata_len r) < 65536"
    using assms by (auto simp: valid_response_def split: option.splits)
  then have len: "(of_nat (get_be (put_be 2 (unat (rs_metadata_len r)))) :: u64) = rs_metadata_len r"
    by (simp add: get_be_put_be)
  show "parse_response_v1 (response_header v r) = r\<lparr>rs_fd := -1, rs_metadata := None\<rparr>"
    if "v = OBJM_PROTO_V1"
    using that assms len
    by (simp add: parse_response_v1_def response_header_def wire_simps valid_response_def)
  show "parse_response_v2 (response_header v r) = r\<lparr>rs_fd := -1, rs_metadata := None\<rparr>"
    if "v \<noteq> OBJM_PROTO_V1"
    using that assms len
    by (simp add: parse_response_v2_def response_header_def wire_simps valid_response_def)
qed

lemma recv_response_header_ok:
  assumes "valid_response (c_version c) s0 r" "link_ok s"
    "rx s = map Plain (response_header (c_version c) r) @ rest"
  obtains s' where "recv_response_header c s = (Some (r\<lparr>rs_fd := -1, rs_metadata := None\<rparr>), c, s')"
    "rx s' = rest" "set (rx_ev s') \<subseteq> set (rx_ev s)" "tx_ev s' = tx_ev s" "faults s' = faults s" "fds s' = fds s"
proof -
  let ?h = "response_header (c_version c) r"
  obtain ev where h: "recv_all (length ?h) s = (Some ?h, s\<lparr>rx := rest, rx_ev := ev\<rparr>)"
    using recv_all_Plain [OF assms(3) _ assms(2)] by blast
  have "recv_response_header c s =
     (Some (r\<lparr>rs_fd := -1, rs_metadata := None\<rparr>), c, s\<lparr>rx := rest, rx_ev := ev\<rparr>)"
    using h parse_response_header [OF assms(1)]
    by (cases "c_version c = OBJM_PROTO_V1")
       (simp_all add: recv_response_header_def response_header_def)
  with recv_all_ev [OF h] show ?thesis by (intro that [of "s\<lparr>rx := rest, rx_ev := ev\<rparr>"]) simp_all
qed

lemma recv_response_metadata_ok:
  assumes "valid_response v s0 r" "link_ok s" "no_faults s"
    "rx s = map Plain (meta_bytes r) @ rest" "rs_metadata_len r' = rs_metadata_len r"
    "rs_metadata r' = None"
  obtains s' where "recv_response_metadata r' c s = (Some (r'\<lparr>rs_metadata := rs_metadata r\<rparr>), c, s')"
    "rx s' = rest" "set (rx_ev s') \<subseteq> set (rx_ev s)" "tx_ev s' = tx_ev s" "no_faults s'" "fds s' = fds s"
proof (cases "rs_metadata r")
  case None
  with assms have "rs_metadata_len r' = 0" "rx s = rest"
    by (simp_all add: valid_response_def meta_bytes_def)
  with None assms show ?thesis
    by (intro that [of s]) (simp_all add: recv_response_metadata_def)
next
  case (Some m)
  with assms have m: "unat (rs_metadata_len r') = length m" "m \<noteq> []" "meta_bytes r = m"
    by (simp_all add: valid_response_def meta_bytes_def)
  then have pos: "0 < rs_metadata_len r'" by (auto simp: word_neq_0_conv [symmetric])
  obtain t where f: "fault s = (False, s\<lparr>faults := t\<rparr>)" "True \<notin> set t"
    using no_faults_fault [OF assms(3)] .
  obtain ev where ra: "recv_all (length m) (s\<lparr>faults := t\<rparr>) =
      (Some m, s\<lparr>faults := t, rx := rest, rx_ev := ev\<rparr>)"
    using recv_all_Plain [of "s\<lparr>faults := t\<rparr>" m rest] assms(2,4) m(3) by (auto simp: link_ok_def)
  from recv_all_ev [OF ra] Some m(1) pos f ra show ?thesis
    by (intro that [of "s\<lparr>faults := t, rx := rest, rx_ev := ev\<rparr>"])
       (simp_all add: recv_response_metadata_def no_faults_def)
qed

lemma client_recv_response_ok:
  assumes "valid_response (c_version c) s0 r" "link_calm s" "no_faults s"
    "rx s = response_items (c_version c) s0 r @ rest"
  obtains fd s' where "objm_client_recv_response c s = (Some (r\<lparr>rs_fd := fd\<rparr>), c, s')" "rx s' = rest"
    "if rs_status r = OBJM_STATUS_OK \<and> rs_content_len r = 0
     then fd_obj s' fd = fd_obj s0 (rs_fd r) else fd = -1"
    "link_calm s'" "no_faults s'"
proof -
  let ?r1 = "r\<lparr>rs_fd := -1, rs_metadata := None\<rparr>"
  obtain t where f: "fault s = (False, s\<lparr>faults := t\<rparr>)" "True \<notin> set t"
    using no_faults_fault [OF assms(3)] .
  have "link_ok (s\<lparr>faults := t\<rparr>)" using assms(2) by (simp add: link_calm_def link_ok_def)
  moreover have "rx (s\<lparr>faults := t\<rparr>) = map Plain (response_header (c_version c) r) @
      map Plain (meta_bytes r) @ fd_items s0 r @ rest" using assms(4) by (simp add: response_items_def)
  ultimately obtain s1 where h: "recv_response_header c (s\<lparr>faults := t\<rparr>) = (Some ?r1, c, s1)"
      "rx s1 = map Plain (meta_bytes r) @ fd_items s0 r @ rest" "set (rx_ev s1) \<subseteq> set (rx_ev s)"
      "tx_ev s1 = tx_ev s" "faults s1 = t" "fds s1 = fds s"
    using recv_response_header_ok [OF assms(1), of "s\<lparr>faults := t\<rparr>"
        "map Plain (meta_bytes r) @ fd_items s0 r @ rest"] by auto
  have s1: "link_ok s1" "no_faults s1"
    using h f assms(2) by (auto simp: link_calm_def link_ok_def no_faults_def)
  obtain s2 where m: "recv_response_metadata ?r1 c s1 = (Some (r\<lparr>rs_fd := -1\<rparr>), c, s2)"
      "rx s2 = fd_items s0 r @ rest" "set (rx_ev s2) \<subseteq> set (rx_ev s1)" "tx_ev s2 = tx_ev s1"
      "no_faults s2" "fds s2 = fds s1"
    using recv_response_metadata_ok [OF assms(1) s1 h(2), of ?r1] by auto
  have calm: "link_calm s2" using h m assms(2) by (auto simp: link_calm_def link_ok_def)
  show ?thesis
  proof (cases "rs_status r = OBJM_STATUS_OK \<and> rs_content_len r = 0")
    case True
    then obtain d where d: "fd_obj s0 (rs_fd r) = Some d" "0 \<le> rs_fd r"
      using assms(1) fd_obj_nonneg by (auto simp: valid_response_def)
    then have "rx s2 = WithFd 0x58 d # rest" using m(2) by (simp add: fd_items_def)
    from recv_fd_ok [OF this calm m(5)] obtain fd s' where
      "recv_fd s2 = (fd, s')" "0 \<le> fd" "fd_obj s' fd = Some d" "rx s' = rest" "link_calm s'" "no_faults s'"
      by blast
    with True d f(1) h(1) m(1) show ?thesis
      by (intro that [of fd s']) (simp_all add: objm_client_recv_response_def recv_response_fd_def)
  next
    case False
    with assms(1) have "rs_fd r = -1" by (simp add: valid_response_def)
    with False f(1) h(1) m(1,2,5) calm show ?thesis
      by (intro that [of "-1" s2])
         (auto simp: objm_client_recv_response_def recv_response_fd_def fd_items_def)
  qed
qed

text \<open>
  C3: A response that the server sends is the response that the client receives: status,
  content length, metadata block and (V2) request identifier arrive unchanged, the client
  consumes exactly the bytes of this response, and where the server attached a descriptor
  the client gets a descriptor of the same open file.
\<close>

theorem response_roundtrip:
  assumes "link_calm ss" "valid_response (c_version cs) ss r" "c_version cc = c_version cs"
    and "link_calm sc" "no_faults sc"
    and "rx sc = drop (length (tx ss)) (tx (snd (objm_server_send_response cs r ss))) @ rest"
  shows "\<exists>fd sc'. fst (objm_server_send_response cs r ss) \<and>
           objm_client_recv_response cc sc = (Some (r\<lparr>rs_fd := fd\<rparr>), cc, sc') \<and> rx sc' = rest \<and>
           (if rs_status r = OBJM_STATUS_OK \<and> rs_content_len r = 0
            then fd_obj sc' fd = fd_obj ss (rs_fd r) else fd = -1)"
proof -
  obtain ev where snd: "objm_server_send_response cs r ss =
      (True, ss\<lparr>tx := tx ss @ response_items (c_version cs) ss r, tx_ev := ev\<rparr>)"
    using server_send_response_ok [OF assms(1,2)] .
  with assms(6) have "rx sc = response_items (c_version cc) ss r @ rest" by (simp add: assms(3))
  from client_recv_response_ok [OF assms(2) [folded assms(3)] assms(4,5) this] snd show ?thesis
    by (metis fst_conv)
qed

definition sample_response :: objm_response where
  "sample_response =
     \<lparr>rs_request_id = 7, rs_status = OBJM_STATUS_OK, rs_fd = 0, rs_content_len = 0,
      rs_metadata = Some [1, 0, 1, 9], rs_metadata_len = 4, rs_error_msg = None\<rparr>"

definition serving :: os where
  "serving = os_init\<lparr>fds := [Some 4], tx_ev := [Upto 5]\<rparr>"

theorem response_roundtrip_witness:
  "\<exists>fd sc'. fst (objm_server_send_response (sample_conn OBJM_PROTO_V2 True) sample_response serving) \<and>
     objm_client_recv_response (sample_conn OBJM_PROTO_V2 False)
       (serving\<lparr>rx := drop (length (tx serving)) (tx (snd (objm_server_send_response
          (sample_conn OBJM_PROTO_V2 True) sample_response serving))) @ []\<rparr>)
       = (Some (sample_response\<lparr>rs_fd := fd\<rparr>), sample_conn OBJM_PROTO_V2 False, sc') \<and> rx sc' = [] \<and>
     (if rs_status sample_response = OBJM_STATUS_OK \<and> rs_content_len sample_response = 0
      then fd_obj sc' fd = fd_obj serving (rs_fd sample_response) else fd = -1)"
  by (rule response_roundtrip)
     (simp_all add: link_calm_def link_ok_def serving_def os_init_def no_faults_def sample_conn_def
        valid_response_def sample_response_def fd_obj_def)

section \<open>Handshake\<close>

lemma length_magic [simp]: "length magic = 4"
  by (simp add: magic_def)

lemma hello_first: "hello_msg ch = byte_of_char (CHR ''O'') # tl (hello_msg ch)"
  by (simp add: hello_msg_def magic_def bytes_of_string_def)

lemma negotiate_hello_msg:
  "negotiate (hello_msg ch) sh =
     \<lparr>p_version = OBJM_PROTO_V2, p_capabilities = h_capabilities ch AND h_capabilities sh,
      p_max_pipeline = min (h_max_pipeline ch) (h_max_pipeline sh),
      p_backend_parallelism = h_backend_parallelism sh\<rparr>"
  by (auto simp: negotiate_def hello_msg_def wire_simps Let_def min_def not_less not_le)

definition agreed :: "objm_hello \<Rightarrow> objm_hello \<Rightarrow> objm_params" where
  "agreed ch sh =
     \<lparr>p_version = OBJM_PROTO_V2, p_capabilities = h_capabilities ch AND h_capabilities sh,
      p_max_pipeline = min (h_max_pipeline ch) (h_max_pipeline sh),
      p_backend_parallelism = h_backend_parallelism sh\<rparr>"

lemma sock_peek_ok:
  assumes "rx s = Plain b # rest" "link_calm s"
  shows "sock_peek s = (Some b, s\<lparr>rx_ev := tl (rx_ev s)\<rparr>)"
  using assms(1) calm_event(2) [OF assms(2)]
  by (simp only: sock_peek_def Let_def if_False) simp

lemma server_handshake_v2:
  assumes "c_is_server c" "link_calm s" "rx s = map Plain (hello_msg ch) @ rest"
  obtains s' where "objm_server_handshake c sh s =
      (Some (agreed ch sh), c\<lparr>c_params := agreed ch sh, c_version := OBJM_PROTO_V2\<rparr>, s')"
    "rx s' = rest" "tx s' = tx s @ map Plain (ack_msg (agreed ch sh))"
proof -
  have hd: "rx s = Plain (byte_of_char (CHR ''O'')) # map Plain (tl (hello_msg ch)) @ rest"
    using assms(3) by (subst (asm) hello_first) simp
  let ?s0 = "s\<lparr>rx_ev := tl (rx_ev s)\<rparr>"
  have pre: "rx ?s0 = map Plain (hello_msg ch) @ rest" "length (hello_msg ch) = 9"
    using assms(3) by (simp_all add: hello_msg_def)
  have ok0: "link_ok ?s0"
    using assms(2) by (cases "rx_ev s") (auto simp: link_calm_def link_ok_def)
  obtain ev where r0: "recv_all 9 ?s0 = (Some (hello_msg ch), ?s0\<lparr>rx := rest, rx_ev := ev\<rparr>)"
      "Fail \<notin> set ev"
    using recv_all_Plain [OF pre ok0] .
  have r: "recv_all 9 ?s0 = (Some (hello_msg ch), s\<lparr>rx_ev := ev, rx := rest\<rparr>)" "Fail \<notin> set ev"
    using r0 by simp_all
  have "link_ok (s\<lparr>rx_ev := ev, rx := rest\<rparr>)" using r assms(2) by (simp add: link_calm_def link_ok_def)
  from send_all_ok [OF this, of "ack_msg (agreed ch sh)"] obtain ev2 where
    a: "send_all (ack_msg (agreed ch sh)) (s\<lparr>rx_ev := ev, rx := rest\<rparr>) =
      (True, s\<lparr>rx_ev := ev, rx := rest, tx := tx s @ map Plain (ack_msg (agreed ch sh)), tx_ev := ev2\<rparr>)"
    by auto
  have ok: "take 4 (hello_msg ch) = magic" "hello_msg ch ! 4 = OBJM_VERSION_2"
    by (simp_all add: hello_msg_def)
  have "objm_server_handshake c sh s =
      (Some (agreed ch sh), c\<lparr>c_params := agreed ch sh, c_version := OBJM_PROTO_V2\<rparr>,
       s\<lparr>rx_ev := ev, rx := rest, tx := tx s @ map Plain (ack_msg (agreed ch sh)), tx_ev := ev2\<rparr>)"
    using assms(1) sock_peek_ok [OF hd assms(2)] r(1) a ok
    by (simp add: objm_server_handshake_def negotiate_hello_msg agreed_def [symmetric] Let_def)
  moreover have "rx (s\<lparr>rx_ev := ev, rx := rest, tx := y, tx_ev := ev2\<rparr>) = rest" for y by simp
  moreover have "tx (s\<lparr>rx_ev := ev, rx := rest, tx := y, tx_ev := ev2\<rparr>) = y" for y by simp
  ultimately show ?thesis by (rule that)
qed

lemma client_hello_v2:
  assumes "c_version c = OBJM_PROTO_V2" "link_ok s" "no_faults s" "rx s = map Plain (ack_msg p) @ rest"
    "p_version p = OBJM_PROTO_V2"
  obtains c' s' where "objm_client_hello c ch s = (Some p, c', s')" "c_params c' = p"
    "c_version c' = OBJM_PROTO_V2" "rx s' = rest" "tx s' = tx s @ map Plain (hello_msg ch)"
    "p_capabilities p AND OBJM_CAP_OOO_REPLIES \<noteq> 0 \<longrightarrow>
       c_pending c' = replicate (unat (p_max_pipeline p)) None"
proof -
  obtain e1 where h: "send_all (hello_msg ch) s = (True, s\<lparr>tx := tx s @ map Plain (hello_msg ch), tx_ev := e1\<rparr>)"
      "Fail \<notin> set e1" using send_all_ok [OF assms(2)] .
  let ?s1 = "s\<lparr>tx := tx s @ map Plain (hello_msg ch), tx_ev := e1\<rparr>"
  have "link_ok ?s1" "length (ack_msg p) = 10" using h assms(2) by (simp_all add: link_ok_def ack_msg_def)
  then obtain e2 where r: "recv_all 10 ?s1 = (Some (ack_msg p), ?s1\<lparr>rx := rest, rx_ev := e2\<rparr>)"
    using recv_all_Plain [of ?s1 "ack_msg p" rest 10] assms(4) by auto
  let ?s2 = "?s1\<lparr>rx := rest, rx_ev := e2\<rparr>"
  have "no_faults ?s2" using assms(3) by (simp add: no_faults_def)
  then obtain t where f: "fault ?s2 = (False, ?s2\<lparr>faults := t\<rparr>)" by (rule no_faults_fault)
  have ok: "take 4 (ack_msg p) = magic" "ack_msg p ! 4 = OBJM_VERSION_2"
    by (simp_all add: ack_msg_def)
  have p: "\<lparr>p_version = OBJM_PROTO_V2, p_capabilities = of_nat (get_be (field 5 2 (ack_msg p))),
      p_max_pipeline = of_nat (get_be (field 7 2 (ack_msg p))), p_backend_parallelism = ack_msg p ! 9\<rparr> = p"
    using assms(5) by (simp add: ack_msg_def wire_simps)
  show ?thesis
  proof (cases "p_capabilities p AND OBJM_CAP_OOO_REPLIES = 0")
    case True
    with assms(1) h(1) r ok p show ?thesis
      by (intro that [of "c\<lparr>c_params := p\<rparr>" ?s2]) (simp_all add: objm_client_hello_def)
  next
    case False
    with assms(1) h(1) r ok p f show ?thesis
      by (intro that [of "c\<lparr>c_params := p, c_pending := replicate (unat (p_max_pipeline p)) None\<rparr>"
            "?s2\<lparr>faults := t\<rparr>"]) (simp_all add: objm_client_hello_def)
  qed
qed

text \<open>
  C4: After a V2 handshake client and server hold the same parameters: the capabilities
  both offered, the smaller of the two pipeline depths and the server's parallelism; the
  out-of-order buffer of the client has one slot per pipelined request when out-of-order
  replies were agreed.
\<close>

theorem handshake_agreement:
  assumes "c_version cc = OBJM_PROTO_V2" "link_ok sc" "no_faults sc" "c_is_server cs" "link_calm ss"
    and "rx ss = map Plain (hello_msg ch)" "tx ss = []" "tx sc = []"
    and "rx sc = tx (snd (snd (objm_server_handshake cs sh ss)))"
  shows "\<exists>cs' ss' cc' sc'.
     objm_server_handshake cs sh ss = (Some (agreed ch sh), cs', ss') \<and>
     objm_client_hello cc ch sc = (Some (agreed ch sh), cc', sc') \<and>
     tx sc' = rx ss \<and> c_params cs' = agreed ch sh \<and> c_params cc' = agreed ch sh \<and>
     c_version cs' = OBJM_PROTO_V2 \<and>
     (p_capabilities (agreed ch sh) AND OBJM_CAP_OOO_REPLIES \<noteq> 0 \<longrightarrow>
        length (c_pending cc') = unat (min (h_max_pipeline ch) (h_max_pipeline sh)))"
proof -
  obtain ss' where s: "objm_server_handshake cs sh ss =
      (Some (agreed ch sh), cs\<lparr>c_params := agreed ch sh, c_version := OBJM_PROTO_V2\<rparr>, ss')"
      "tx ss' = tx ss @ map Plain (ack_msg (agreed ch sh))"
    using server_handshake_v2 [OF assms(4,5), of ch "[]" sh] assms(6) by auto
  then have "rx sc = map Plain (ack_msg (agreed ch sh)) @ []" using assms(7,9) by simp
  moreover have "p_version (agreed ch sh) = OBJM_PROTO_V2"
    "p_max_pipeline (agreed ch sh) = min (h_max_pipeline ch) (h_max_pipeline sh)"
    by (simp_all add: agreed_def)
  ultimately obtain cc' sc' where
    "objm_client_hello cc ch sc = (Some (agreed ch sh), cc', sc')" "c_params cc' = agreed ch sh"
    "tx sc' = tx sc @ map Plain (hello_msg ch)"
    "p_capabilities (agreed ch sh) AND OBJM_CAP_OOO_REPLIES \<noteq> 0 \<longrightarrow>
       c_pending cc' = replicate (unat (p_max_pipeline (agreed ch sh))) None"
    using client_hello_v2 [OF assms(1,2,3), of "agreed ch sh" "[]" ch] by metis
  with s assms(6,8) \<open>p_max_pipeline _ = _\<close> show ?thesis by auto
qed

definition sample_hello :: objm_hello where
  "sample_hello = \<lparr>h_capabilities = 0x5, h_max_pipeline = 3, h_backend_parallelism = 2\<rparr>"

theorem handshake_agreement_witness:
  "let cs = sample_conn OBJM_PROTO_UNSET True; cc = sample_conn OBJM_PROTO_V2 False;
       ss = os_init\<lparr>rx := map Plain (hello_msg sample_hello), rx_ev := [Upto 5]\<rparr>;
       sc = os_init\<lparr>rx := tx (snd (snd (objm_server_handshake cs sample_hello ss)))\<rparr> in
   \<exists>cs' ss' cc' sc'.
     objm_server_handshake cs sample_hello ss = (Some (agreed sample_hello sample_hello), cs', ss') \<and>
     objm_client_hello cc sample_hello sc = (Some (agreed sample_hello sample_hello), cc', sc') \<and>
     length (c_pending cc') = 3"
  using handshake_agreement [of "sample_conn OBJM_PROTO_V2 False"
      "os_init\<lparr>rx := tx (snd (snd (objm_server_handshake (sample_conn OBJM_PROTO_UNSET True)
          sample_hello (os_init\<lparr>rx := map Plain (hello_msg sample_hello), rx_ev := [Upto 5]\<rparr>))))\<rparr>"
      "sample_conn OBJM_PROTO_UNSET True"
      "os_init\<lparr>rx := map Plain (hello_msg sample_hello), rx_ev := [Upto 5]\<rparr>"
      sample_hello sample_hello]
  by (auto simp: Let_def link_ok_def link_calm_def os_init_def no_faults_def sample_conn_def agreed_def
      sample_hello_def)

end
