(* ===== verification/Protocol_Limits.thy ===== *)
theory Protocol_Limits
  imports Protocol_Laws
begin

text \<open>
  Metadata blocks and error reports end to end, responses that arrive out of order, and the
  inputs on which the two ends of \<open>lib/protocol/protocol.c\<close> do not understand each other.
\<close>

section \<open>Metadata blocks\<close>

text \<open>The chain of \<open>len = objm_metadata_add(buf, len, ...)\<close> calls that callers write.\<close>

fun add_entries :: "bytes option \<Rightarrow> nat \<Rightarrow> (u8 \<times> bytes) list \<Rightarrow> (bytes option \<times> nat) option" where
  "add_entries buf len [] = Some (buf, len)"
| "add_entries buf len (e # es) =
     do { (buf, len) \<leftarrow> objm_metadata_add buf len (fst e) (snd e) (length (snd e));
          add_entries buf len es }"

lemma metadata_add_ok:
  assumes "entry_ok e" "len + 3 + length (snd e) \<le> length buf"
  shows "objm_metadata_add (Some buf) len (fst e) (snd e) (length (snd e)) =
     Some (Some (take len buf @ encode_entry e @ drop (len + 3 + length (snd e)) buf), len + 3 + length (snd e))"
  using assms by (auto simp: objm_metadata_add_def entry_ok_def encode_entry_def write_at_def add.assoc numeral_3_eq_3)

lemma add_entries_ok:
  assumes "\<forall>e \<in> set es. entry_ok e" "length pre + length (encode_entries es) \<le> length pre + length space"
  shows "add_entries (Some (pre @ space)) (length pre) es =
     Some (Some (pre @ encode_entries es @ drop (length (encode_entries es)) space),
           length pre + length (encode_entries es))"
  using assms
proof (induction es arbitrary: pre space)
  case (Cons e es)
  let ?n = "3 + length (snd e)"
  have "objm_metadata_add (Some (pre @ space)) (length pre) (fst e) (snd e) (length (snd e)) =
     Some (Some ((pre @ encode_entry e) @ drop ?n space), length (pre @ encode_entry e))"
    using Cons.prems metadata_add_ok [of e "length pre" "pre @ space"] by simp
  moreover have "add_entries (Some ((pre @ encode_entry e) @ drop ?n space)) (length (pre @ encode_entry e)) es =
     Some (Some ((pre @ encode_entry e) @ encode_entries es @ drop (length (encode_entries es)) (drop ?n space)),
           length (pre @ encode_entry e) + length (encode_entries es))"
    using Cons.prems by (intro Cons.IH) auto
  ultimately show ?case by (simp add: add.commute add.left_commute)
qed simp

lemma metadata_parse_encode:
  assumes "\<forall>e \<in> set es. entry_ok e" "no_faults s"
  shows "fst (objm_metadata_parse (encode_entries es) (length (encode_entries es)) s) = Some (map entry_of es)"
proof -
  obtain t where f: "fault s = (False, s\<lparr>faults := t\<rparr>)" "no_faults (s\<lparr>faults := t\<rparr>)"
    using no_faults_fault [OF assms(2)] by (auto simp: no_faults_def)
  from meta_copy_encode [OF assms(1) f(2), of "[]" "[]" "[]"]
    meta_count_encode [OF assms(1), of "[]" "[]" 0] f(1)
  show ?thesis by (auto simp: objm_metadata_parse_def)
qed

text \<open>
  C21: The entries that a chain of \<open>objm_metadata_add\<close> calls writes into a buffer large
  enough for them are the entries \<open>objm_metadata_parse\<close> returns, in the same order, with
  types, lengths and data unchanged.
\<close>

theorem metadata_roundtrip:
  assumes "\<forall>e \<in> set es. entry_ok e" "length (encode_entries es) \<le> length buf" "no_faults s"
  shows "\<exists>buf' len. add_entries (Some buf) 0 es = Some (Some buf', len) \<and> length buf' = length buf \<and>
           len \<le> length buf' \<and> fst (objm_metadata_parse (take len buf') len s) = Some (map entry_of es)"
  using add_entries_ok [OF assms(1), of "[]" buf] metadata_parse_encode [OF assms(1,3)] assms(2) by simp

theorem metadata_roundtrip_witness:
  "\<exists>buf' len. add_entries (Some (replicate 16 0)) 0 [(1, [0, 7]), (5, [2])] = Some (Some buf', len) \<and>
     length buf' = length (replicate 16 (0 :: u8)) \<and> len \<le> length buf' \<and>
     fst (objm_metadata_parse (take len buf') len os_init) = Some (map entry_of [(1, [0, 7]), (5, [2])])"
  by (rule metadata_roundtrip) (simp_all add: entry_ok_def os_init_def no_faults_def)

definition raw_entry :: "objm_metadata_entry \<Rightarrow> u8 \<times> bytes" where
  "raw_entry e = (me_type e, me_data e)"

lemma meta_count_ge: "c \<le> meta_count m n off c"
  by (induction m n off c rule: meta_count.induct) (subst meta_count.simps, auto simp: Let_def)

lemma meta_count_Suc:
  assumes "meta_count m n off c = c + Suc k"
  shows "off + 3 + meta_len_at m off \<le> n" "meta_count m n (off + (3 + meta_len_at m off)) (c + 1) = (c + 1) + k"
  using assms by (auto simp: meta_count.simps [of m n off c] Let_def split: if_splits)

lemma meta_count_0:
  assumes "meta_count m n off c = c"
  shows "n < off + 3 \<or> n < off + 3 + meta_len_at m off"
  using assms meta_count_ge [of "c + 1" m n "off + (3 + meta_len_at m off)"]
  by (auto simp: meta_count.simps [of m n off c] Let_def split: if_splits)

lemma entry_at:
  assumes "off + 3 + meta_len_at m off \<le> length m"
  shows "drop off m = encode_entry (m ! off, field (off + 3) (meta_len_at m off) m) @
           drop (off + (3 + meta_len_at m off)) m"
proof -
  let ?l = "meta_len_at m off"
  have "put_be 2 ?l = field (off + 1) 2 m"
    using assms put_be_get_be [of "field (off + 1) 2 m"] by (simp add: meta_len_at_def length_field)
  moreover have "drop off m = m ! off # field (off + 1) 2 m @ drop (off + 3) m"
    using assms by (simp add: field_def Cons_nth_drop_Suc [symmetric] append_take_drop_id
        flip: drop_drop [of 2]) (simp add: drop_drop numeral_3_eq_3)
  moreover have "drop (off + 3) m = field (off + 3) ?l m @ drop (off + (3 + ?l)) m"
    using append_take_drop_id [of ?l "drop (off + 3) m"] by (simp add: field_def add.commute add.left_commute)
  ultimately show ?thesis
    using assms by (simp add: encode_entry_def length_field)
qed

lemma meta_copy_sound:
  assumes "meta_copy m (length m) off k arr s = (Some out, s')" "meta_count m (length m) off c = c + k"
  shows "\<exists>es rest. out = arr @ es \<and> drop off m = encode_entries (map raw_entry es) @ rest \<and> length es = k \<and>
     (\<forall>e \<in> set es. unat (me_length e) = length (me_data e)) \<and>
     (length rest < 3 \<or> length rest < 3 + meta_len_at rest 0)"
  using assms
proof (induction k arbitrary: off arr s c)
  case 0
  then have "length (drop off m) < 3 \<or> length (drop off m) < 3 + meta_len_at (drop off m) 0"
    using meta_count_0 [of m "length m" off c] by (auto simp: meta_len_at_def field_def add.commute)
  with 0 show ?case by auto
next
  case (Suc k)
  let ?l = "meta_len_at m off"
  let ?e = "\<lparr>me_type = m ! off, me_length = of_nat ?l, me_data = field (off + 3) ?l m\<rparr>"
  from meta_count_Suc [OF Suc.prems(2)] have b: "off + 3 + ?l \<le> length m"
    and c: "meta_count m (length m) (off + (3 + ?l)) (c + 1) = (c + 1) + k" by simp_all
  from Suc.prems(1) b obtain s1 where
    "meta_copy m (length m) (off + (3 + ?l)) k (arr @ [?e]) s1 = (Some out, s')"
    by (auto simp: Let_def split: prod.splits if_splits)
  from Suc.IH [OF this c] obtain es rest where
    es: "out = (arr @ [?e]) @ es" "drop (off + (3 + ?l)) m = encode_entries (map raw_entry es) @ rest"
    "length es = k" "\<forall>e \<in> set es. unat (me_length e) = length (me_data e)"
    "length rest < 3 \<or> length rest < 3 + meta_len_at rest 0" by blast
  have "?l < 65536" using get_be_less [of "field (off + 1) 2 m"] b by (simp add: meta_len_at_def length_field)
  then have "unat (of_nat ?l :: u16) = length (field (off + 3) ?l m)"
    using b by (simp add: length_field unat_of_nat)
  moreover have "raw_entry ?e = (m ! off, field (off + 3) ?l m)" by (simp add: raw_entry_def)
  ultimately show ?case using es entry_at [OF b]
    by (intro exI [of _ "?e # es"] exI [of _ rest]) simp
qed

text \<open>
  C22: On every byte string, also one a hostile peer sent, \<open>objm_metadata_parse\<close> either
  runs out of memory or returns exactly the entries that are completely contained in the
  block: their encodings, one after the other, are a prefix of it, each length field is the
  length of its data, and what is left over is not a complete entry.
\<close>

theorem metadata_parse_sound:
  "case objm_metadata_parse m (length m) s of
     (None, _) \<Rightarrow> \<not> no_faults s
   | (Some es, _) \<Rightarrow>
       \<exists>rest. m = encode_entries (map raw_entry es) @ rest \<and>
              (\<forall>e \<in> set es. unat (me_length e) = length (me_data e)) \<and>
              \<not> (3 \<le> length rest \<and> 3 + meta_len_at rest 0 \<le> length rest)"
proof -
  let ?k = "meta_count m (length m) 0 0"
  have total: "no_faults t \<Longrightarrow> meta_copy m (length m) off k arr t = (None, t') \<Longrightarrow> False"
    for off k arr and t t' :: "'a os_scheme"
    by (induction k arbitrary: off arr t)
       (auto simp: Let_def dest: no_faults_step split: if_splits prod.splits)
  obtain f s1 where f: "fault s = (f, s1)" by (cases "fault s")
  show ?thesis
  proof (cases f)
    case True
    with f show ?thesis by (auto simp: objm_metadata_parse_def dest: no_faults_step)
  next
    case False
    obtain r s2 where c: "meta_copy m (length m) 0 ?k [] s1 = (r, s2)" by (cases "meta_copy m (length m) 0 ?k [] s1")
    have nf: "no_faults s \<Longrightarrow> no_faults s1" using f by (rule no_faults_step(2) [rotated])
    show ?thesis
    proof (cases r)
      case None
      with False f c total nf show ?thesis by (auto simp: objm_metadata_parse_def)
    next
      case (Some es)
      from meta_copy_sound [of m 0 ?k "[]" s1 es s2 0] c Some
      have "\<exists>rest. m = encode_entries (map raw_entry es) @ rest \<and>
          (\<forall>e \<in> set es. unat (me_length e) = length (me_data e)) \<and>
          (length rest < 3 \<or> length rest < 3 + meta_len_at rest 0)" by auto
      with False f c Some show ?thesis by (force simp: objm_metadata_parse_def)
    qed
  qed
qed

definition stray_block :: bytes where
  "stray_block = [1, 0, 1, 9, 7]"

theorem metadata_parse_sound_witness:
  "\<exists>es rest. fst (objm_metadata_parse stray_block (length stray_block) os_init) = Some es \<and>
     stray_block = encode_entries (map raw_entry es) @ rest"
proof -
  have "no_faults os_init" by (simp add: no_faults_def os_init_def)
  then show ?thesis
    using metadata_parse_sound [where m = stray_block and s = os_init]
    by (auto split: prod.splits option.splits)
qed

section \<open>Error reports\<close>

definition error_response :: "u32 \<Rightarrow> u8 \<Rightarrow> string \<Rightarrow> objm_response" where
  "error_response i st msg =
     \<lparr>rs_request_id = i, rs_status = st, rs_fd = -1, rs_content_len = 0,
      rs_metadata = Some (encode_entry (0xFF, bytes_of_string msg) @ replicate 7 0),
      rs_metadata_len = of_nat (length msg + 3), rs_error_msg = None\<rparr>"

lemma send_response_take:
  "objm_server_send_response c r s =
     objm_server_send_response c (r\<lparr>rs_metadata := map_option (take (unat (rs_metadata_len r))) (rs_metadata r)\<rparr>) s"
  by (cases "rs_metadata r")
     (auto simp: objm_server_send_response_def response_header_def split: prod.split bool.split)

lemma send_error_response:
  assumes "no_faults s" "length msg \<le> 65535"
  obtains t where "objm_server_send_error c i st (Some msg) s =
      Some (objm_server_send_response c (error_response i st msg) (s\<lparr>faults := t\<rparr>))" "True \<notin> set t"
proof -
  obtain t where f: "fault s = (False, s\<lparr>faults := t\<rparr>)" "True \<notin> set t"
    using no_faults_fault [OF assms(1)] .
  let ?e = "(0xFF, bytes_of_string msg) :: u8 \<times> bytes"
  have "objm_metadata_add (Some (replicate (length msg + 10) 0)) 0 (fst ?e) (snd ?e) (length (snd ?e)) =
      Some (Some (encode_entry ?e @ replicate 7 0), length msg + 3)"
    using assms(2) by (subst metadata_add_ok) (simp_all add: entry_ok_def)
  with f(1) have "objm_server_send_error c i st (Some msg) s =
      Some (objm_server_send_response c (error_response i st msg) (s\<lparr>faults := t\<rparr>))"
    by (simp add: objm_server_send_error_def objm_metadata_create_def error_response_def)
  with f(2) show ?thesis by (rule that [rotated])
qed

text \<open>
  \<open>objm_server_send_error\<close> never stores outside the metadata buffer it allocates,
  whatever the message and whichever allocation fails.
\<close>

theorem send_error_in_bounds: "objm_server_send_error c i st msg s \<noteq> None"
proof (cases msg)
  case (Some m)
  have "objm_metadata_add (Some (replicate (length m + 10) 0)) 0 0xFF (bytes_of_string m) (length m) \<noteq> None"
    by (simp add: objm_metadata_add_def)
  with Some show ?thesis
    by (auto simp: objm_server_send_error_def objm_metadata_create_def Let_def split: prod.splits if_splits)
qed (simp add: objm_server_send_error_def)

text \<open>
  An error report reaches the client: it receives the status and identifier the server
  gave, no descriptor, and a metadata block whose entry of type 0xFF is the message.
\<close>

theorem error_report_delivered:
  assumes "link_calm ss" "no_faults ss" "c_version cs = OBJM_PROTO_V2" "c_version cc = OBJM_PROTO_V2"
    and "st \<noteq> OBJM_STATUS_OK" "length msg \<le> 65532" "link_calm sc" "no_faults sc"
    and "rx sc = drop (length (tx ss)) (tx (snd (the (objm_server_send_error cs i st (Some msg) ss)))) @ rest"
  shows "\<exists>r m e sc'. objm_client_recv_response cc sc = (Some r, cc, sc') \<and> rx sc' = rest \<and>
     rs_request_id r = i \<and> rs_status r = st \<and> rs_fd r = -1 \<and> rs_metadata r = Some m \<and>
     map_option (\<lambda>es. objm_metadata_get es 0xFF)
       (fst (objm_metadata_parse m (unat (rs_metadata_len r)) sc')) = Some (Some e) \<and>
     me_data e = bytes_of_string msg"
proof -
  let ?e = "(0xFF, bytes_of_string msg) :: u8 \<times> bytes"
  let ?r = "(error_response i st msg)\<lparr>rs_metadata := Some (encode_entry ?e)\<rparr>"
  have len: "unat (of_nat (length msg + 3) :: u64) = length msg + 3"
    using assms(6) by (simp only: unat_of_nat) simp
  obtain t where t: "objm_server_send_error cs i st (Some msg) ss =
      Some (objm_server_send_response cs (error_response i st msg) (ss\<lparr>faults := t\<rparr>))"
    using send_error_response [OF assms(2), of msg cs i st] assms(6) by auto
  let ?ss = "ss\<lparr>faults := t\<rparr>"
  have calm: "link_calm ?ss" using assms(1) by (simp add: link_calm_def link_ok_def)
  have v: "valid_response OBJM_PROTO_V2 ?ss ?r"
    using assms(5,6) len by (simp add: valid_response_def error_response_def encode_entry_def)
  have "objm_server_send_response cs (error_response i st msg) ?ss = objm_server_send_response cs ?r ?ss"
    using len by (subst send_response_take) (simp add: error_response_def)
  moreover obtain ev where "objm_server_send_response cs ?r ?ss =
      (True, ?ss\<lparr>tx := tx ?ss @ response_items (c_version cs) ?ss ?r, tx_ev := ev\<rparr>)"
    using server_send_response_ok [OF calm] v assms(3) by metis
  ultimately have ev: "objm_server_send_response cs (error_response i st msg) ?ss =
      (True, ?ss\<lparr>tx := tx ss @ response_items OBJM_PROTO_V2 ?ss ?r, tx_ev := ev\<rparr>)"
    using assms(3) by simp
  then have "rx sc = response_items OBJM_PROTO_V2 ?ss ?r @ rest"
    using assms(9) t ev by simp
  with client_recv_response_ok [of cc ?ss ?r sc rest] v assms(4,7,8) obtain fd sc' where
    r: "objm_client_recv_response cc sc = (Some (?r\<lparr>rs_fd := fd\<rparr>), cc, sc')" "rx sc' = rest"
       "if rs_status ?r = OBJM_STATUS_OK \<and> rs_content_len ?r = 0
        then fd_obj sc' fd = fd_obj ?ss (rs_fd ?r) else fd = -1" "no_faults sc'"
    by metis
  have p: "fst (objm_metadata_parse (encode_entry ?e) (length msg + 3) sc') = Some [entry_of ?e]"
    using metadata_parse_encode [of "[?e]" sc'] r(4) assms(6) by (simp add: entry_ok_def add.commute)
  show ?thesis
    using r p len assms(5)
    by (intro exI [of _ "?r\<lparr>rs_fd := fd\<rparr>"] exI [of _ "encode_entry ?e"] exI [of _ "entry_of ?e"] exI [of _ sc'])
       (simp add: error_response_def entry_of_def)
qed

theorem error_report_delivered_witness:
  "\<exists>r m e sc'. objm_client_recv_response (sample_conn OBJM_PROTO_V2 False)
       (os_init\<lparr>rx := drop (length (tx os_init)) (tx (snd (the (objm_server_send_error
          (sample_conn OBJM_PROTO_V2 True) 9 OBJM_STATUS_NOT_FOUND (Some ''gone'') os_init)))) @ []\<rparr>)
       = (Some r, sample_conn OBJM_PROTO_V2 False, sc') \<and> rx sc' = [] \<and>
     rs_request_id r = 9 \<and> rs_status r = OBJM_STATUS_NOT_FOUND \<and> rs_fd r = -1 \<and> rs_metadata r = Some m \<and>
     map_option (\<lambda>es. objm_metadata_get es 0xFF)
       (fst (objm_metadata_parse m (unat (rs_metadata_len r)) sc')) = Some (Some e) \<and>
     me_data e = bytes_of_string ''gone''"
  by (rule error_report_delivered [where ss = os_init and cs = "sample_conn OBJM_PROTO_V2 True"])
     (simp_all add: link_calm_def link_ok_def os_init_def no_faults_def sample_conn_def)

section \<open>Responses out of order\<close>

text \<open>A slot of \<open>pending_responses\<close> holds only a response with the slot's identifier.\<close>

definition pending_ok :: "objm_connection \<Rightarrow> bool" where
  "pending_ok c \<longleftrightarrow>
     (\<forall>i < length (c_pending c).
        c_pending c ! i = None \<or> unat (rs_request_id (the (c_pending c ! i))) = i)"

lemma pending_ok_stash:
  "pending_ok c \<Longrightarrow> pending_ok (c\<lparr>c_pending := (c_pending c)[unat (rs_request_id r) := Some r]\<rparr>)"
  by (simp add: pending_ok_def) (metis nth_list_update_eq nth_list_update_neq option.sel)

lemma pending_ok_take: "pending_ok c \<Longrightarrow> pending_ok (c\<lparr>c_pending := (c_pending c)[i := None]\<rparr>)"
  by (simp add: pending_ok_def) (metis nth_list_update_eq nth_list_update_neq)

lemma recv_response_conn:
  "objm_client_recv_response c s = (r, c', s') \<Longrightarrow> c_pending c' = c_pending c"
  by (auto simp: objm_client_recv_response_def recv_response_header_def recv_response_metadata_def
      recv_response_fd_def set_error_def Let_def split: prod.splits if_splits option.splits)

lemma recv_for_loop_matches:
  assumes "recv_for_loop c i s = (r, c', s')" "pending_ok c"
  shows "pending_ok c' \<and> (\<forall>x. r = Some x \<longrightarrow> rs_request_id x = i)"
  using assms
proof (induction c i s rule: recv_for_loop.induct)
  case (1 c i s)
  obtain q c1 s1 where q: "objm_client_recv_response c s = (q, c1, s1)"
    by (cases "objm_client_recv_response c s") auto
  show ?case
  proof (cases q)
    case None
    with "1.prems" q recv_response_conn [OF q] show ?thesis
      by (auto simp: recv_for_loop.simps [of c] pending_ok_def)
  next
    case (Some x)
    have [simp]: "c1 = c" using objm_client_recv_response_shrinks q Some by blast
    show ?thesis
    proof (cases "rs_request_id x = i")
      case True
      with "1.prems" q Some show ?thesis by (auto simp: recv_for_loop.simps [of c])
    next
      case False
      note IH = "1.IH" [OF q [symmetric] Some refl False]
      show ?thesis
      proof (cases "unat (rs_request_id x) < length (c_pending c)")
        case True
        with "1.prems" q Some False show ?thesis
          by (intro IH(1)) (simp_all add: recv_for_loop.simps [of c] pending_ok_stash)
      next
        case short: False
        with "1.prems" q Some False show ?thesis
          by (intro IH(2)) (simp_all add: recv_for_loop.simps [of c])
      qed
    qed
  qed
qed

text \<open>
  A response that \<open>objm_client_recv_response_for\<close> returns carries the identifier that
  was asked for, in every state of the link, and the buffer of early responses keeps its
  invariant.
\<close>

theorem response_for_matches:
  assumes "pending_ok c"
  shows "case objm_client_recv_response_for c i s of
     (r, c', _) \<Rightarrow> pending_ok c' \<and> (case r of None \<Rightarrow> True | Some x \<Rightarrow> rs_request_id x = i)"
proof -
  have "unat (rs_request_id x) = unat i \<Longrightarrow> rs_request_id x = i" for x
    by (simp add: word_unat_eq_iff)
  note id = this
  show ?thesis
  proof (cases "c_version c = OBJM_PROTO_V2 \<and> \<not> (unat i < length (c_pending c) \<and> c_pending c ! unat i \<noteq> None)")
    case True
    obtain r c' s' where "recv_for_loop c i s = (r, c', s')" by (cases "recv_for_loop c i s")
    with True recv_for_loop_matches [OF this assms] show ?thesis
      by (auto simp: objm_client_recv_response_for_def split: option.split)
  next
    case False
    have "c_pending c ! unat i = Some y \<Longrightarrow> unat i < length (c_pending c) \<Longrightarrow> rs_request_id y = i" for y
      using assms id by (fastforce simp: pending_ok_def)
    with False assms show ?thesis
      by (auto simp: objm_client_recv_response_for_def pending_ok_take)
  qed
qed

theorem response_for_matches_witness:
  "case objm_client_recv_response_for (sample_conn OBJM_PROTO_V2 False) 4 os_init of
     (r, c', _) \<Rightarrow> pending_ok c' \<and> (case r of None \<Rightarrow> True | Some x \<Rightarrow> rs_request_id x = 4)"
  by (rule response_for_matches) (simp add: pending_ok_def sample_conn_def)

lemma recv_for_loop_stash:
  assumes "\<forall>q \<in> set (qs @ [r]). valid_response OBJM_PROTO_V2 origin q" "c_version c = OBJM_PROTO_V2"
    "link_calm s" "no_faults s" "rx s = concat (map (response_items OBJM_PROTO_V2 origin) (qs @ [r])) @ rest"
    "distinct (map rs_request_id (qs @ [r]))"
    "\<forall>q \<in> set qs. unat (rs_request_id q) < length (c_pending c)"
  shows "\<exists>fd c' s'. recv_for_loop c (rs_request_id r) s = (Some (r\<lparr>rs_fd := fd\<rparr>), c', s') \<and> rx s' = rest \<and>
     c_version c' = OBJM_PROTO_V2 \<and> length (c_pending c') = length (c_pending c) \<and>
     (\<forall>q \<in> set qs. \<exists>fd. c_pending c' ! unat (rs_request_id q) = Some (q\<lparr>rs_fd := fd\<rparr>)) \<and>
     (\<forall>i. i \<notin> (\<lambda>q. unat (rs_request_id q)) ` set qs \<longrightarrow> c_pending c' ! i = c_pending c ! i)"
  using assms
proof (induction qs arbitrary: c s)
  case Nil
  then have "valid_response (c_version c) origin r" "rx s = response_items (c_version c) origin r @ rest" by simp_all
  from client_recv_response_ok [OF this(1) Nil(3,4) this(2)] obtain fd s' where
    "objm_client_recv_response c s = (Some (r\<lparr>rs_fd := fd\<rparr>), c, s')" "rx s' = rest" by metis
  with Nil(2) show ?case by (intro exI [of _ fd] exI [of _ c] exI [of _ s']) (simp add: recv_for_loop.simps)
next
  case (Cons q qs)
  let ?i = "unat (rs_request_id q)"
  let ?rest = "concat (map (response_items OBJM_PROTO_V2 origin) (qs @ [r])) @ rest"
  have "valid_response (c_version c) origin q" "rx s = response_items (c_version c) origin q @ ?rest"
    using Cons.prems by simp_all
  from client_recv_response_ok [OF this(1) Cons.prems(3,4) this(2)] obtain fd s1 where
    s1: "objm_client_recv_response c s = (Some (q\<lparr>rs_fd := fd\<rparr>), c, s1)" "rx s1 = ?rest"
      "link_calm s1" "no_faults s1" by metis
  let ?c1 = "c\<lparr>c_pending := (c_pending c)[?i := Some (q\<lparr>rs_fd := fd\<rparr>)]\<rparr>"
  have i: "?i < length (c_pending c)" and ne: "rs_request_id q \<noteq> rs_request_id r"
    and fresh: "?i \<notin> (\<lambda>q. unat (rs_request_id q)) ` set qs"
    using Cons.prems(6,7) by (auto simp: word_unat_eq_iff [symmetric])
  from Cons.IH [of ?c1 s1] Cons.prems s1 obtain fd' c' s' where
    r: "recv_for_loop ?c1 (rs_request_id r) s1 = (Some (r\<lparr>rs_fd := fd'\<rparr>), c', s')" "rx s' = rest"
      "c_version c' = OBJM_PROTO_V2" "length (c_pending c') = length (c_pending ?c1)"
    and st: "\<forall>q \<in> set qs. \<exists>fd. c_pending c' ! unat (rs_request_id q) = Some (q\<lparr>rs_fd := fd\<rparr>)"
    and other: "\<forall>i. i \<notin> (\<lambda>q. unat (rs_request_id q)) ` set qs \<longrightarrow> c_pending c' ! i = c_pending ?c1 ! i"
    by auto
  have "recv_for_loop c (rs_request_id r) s = (Some (r\<lparr>rs_fd := fd'\<rparr>), c', s')"
    using s1(1) i ne r(1) by (simp add: recv_for_loop.simps [of c])
  moreover have "c_pending c' ! ?i = Some (q\<lparr>rs_fd := fd\<rparr>)" using other fresh i by simp
  moreover have "\<forall>i. i \<notin> (\<lambda>q. unat (rs_request_id q)) ` set (q # qs) \<longrightarrow> c_pending c' ! i = c_pending c ! i"
    using other by simp
  ultimately show ?case using r st by auto
qed

text \<open>
  Waiting for one response loses no other: if the responses of several requests arrive
  before the one that is waited for, and their identifiers are below the negotiated pipeline
  depth, the wait returns that one, and each of the early ones is returned later, without
  touching the link, when it is asked for.
\<close>

theorem early_responses_kept:
  assumes "\<forall>q \<in> set (qs @ [r]). valid_response OBJM_PROTO_V2 origin q" "c_version c = OBJM_PROTO_V2"
    and "link_calm s" "no_faults s"
    and "rx s = concat (map (response_items OBJM_PROTO_V2 origin) (qs @ [r])) @ rest"
    and "distinct (map rs_request_id (qs @ [r]))"
    and "\<forall>q \<in> set qs. unat (rs_request_id q) < length (c_pending c)"
    and "\<forall>i < length (c_pending c). c_pending c ! i = None"
  shows "\<exists>fd c' s'. objm_client_recv_response_for c (rs_request_id r) s = (Some (r\<lparr>rs_fd := fd\<rparr>), c', s') \<and>
     rx s' = rest \<and>
     (\<forall>q \<in> set qs. \<exists>fd c''. objm_client_recv_response_for c' (rs_request_id q) s'
         = (Some (q\<lparr>rs_fd := fd\<rparr>), c'', s'))"
proof -
  from recv_for_loop_stash [OF assms(1-7)] obtain fd c' s' where
    *: "recv_for_loop c (rs_request_id r) s = (Some (r\<lparr>rs_fd := fd\<rparr>), c', s')" "rx s' = rest"
      "c_version c' = OBJM_PROTO_V2" "length (c_pending c') = length (c_pending c)"
      "\<forall>q \<in> set qs. \<exists>fd. c_pending c' ! unat (rs_request_id q) = Some (q\<lparr>rs_fd := fd\<rparr>)" by blast
  have "\<exists>fd c''. objm_client_recv_response_for c' (rs_request_id q) s' = (Some (q\<lparr>rs_fd := fd\<rparr>), c'', s')"
    if "q \<in> set qs" for q
    using that * assms(7) by (fastforce simp: objm_client_recv_response_for_def)
  moreover have "objm_client_recv_response_for c (rs_request_id r) s = (Some (r\<lparr>rs_fd := fd\<rparr>), c', s')"
    using * assms(2,8) by (auto simp: objm_client_recv_response_for_def)
  ultimately show ?thesis using * by blast
qed

definition reply :: "u32 \<Rightarrow> objm_response" where
  "reply i = \<lparr>rs_request_id = i, rs_status = OBJM_STATUS_NOT_FOUND, rs_fd = -1, rs_content_len = 0,
              rs_metadata = None, rs_metadata_len = 0, rs_error_msg = None\<rparr>"

theorem early_responses_kept_witness:
  "\<exists>fd c' s'. objm_client_recv_response_for
       ((sample_conn OBJM_PROTO_V2 False)\<lparr>c_pending := replicate 4 None\<rparr>) (rs_request_id (reply 1))
       (os_init\<lparr>rx := concat (map (response_items OBJM_PROTO_V2 os_init) ([reply 3, reply 2] @ [reply 1])) @ []\<rparr>)
       = (Some ((reply 1)\<lparr>rs_fd := fd\<rparr>), c', s') \<and> rx s' = [] \<and>
     (\<forall>q \<in> set [reply 3, reply 2]. \<exists>fd c''. objm_client_recv_response_for c' (rs_request_id q) s'
         = (Some (q\<lparr>rs_fd := fd\<rparr>), c'', s'))"
  by (rule early_responses_kept [where origin = os_init])
     (auto simp: valid_response_def reply_def sample_conn_def link_calm_def link_ok_def os_init_def
        no_faults_def)

section \<open>Where the two ends disagree\<close>

lemma recv_all_short: "length (rx s) < n \<Longrightarrow> fst (recv_all n s) = None"
  using recv_all_shape [of n s] by (cases "recv_all n s") (auto split: option.splits)

lemma receive_header_short:
  assumes "c_version c \<noteq> OBJM_PROTO_V1" "length (rx s) < 9"
  shows "fst (objm_server_recv_request c s) = RecvError"
proof -
  obtain f s1 where f: "fault s = (f, s1)" by (cases "fault s")
  then have "rx s1 = rx s" by (auto elim!: fault_frame)
  then obtain s2 where "recv_all 9 s1 = (None, s2)"
    using recv_all_short [of s1 9] assms(2) by (cases "recv_all 9 s1") auto
  with f assms(1) show ?thesis by (simp add: objm_server_recv_request_def)
qed

lemma client_close_sends:
  assumes "c_version c = OBJM_PROTO_V2" "link_ok s"
  shows "tx (snd (objm_client_close c reason s)) = tx s @ map Plain [OBJM_MSG_CLOSE, reason]"
proof -
  obtain ev where h: "send_all [OBJM_MSG_CLOSE, reason] s =
      (True, s\<lparr>tx := tx s @ map Plain [OBJM_MSG_CLOSE, reason], tx_ev := ev\<rparr>)"
    using send_all_ok [OF assms(2)] by blast
  let ?s = "s\<lparr>tx := tx s @ map Plain [OBJM_MSG_CLOSE, reason], tx_ev := ev\<rparr>"
  obtain r s' where r: "recv_all 6 ?s = (r, s')" by (cases "recv_all 6 ?s")
  then have "tx s' = tx ?s" using recv_all_shape [OF r] by auto
  with h r assms(1) show ?thesis by (cases r) (simp_all add: objm_client_close_def)
qed

text \<open>
  The orderly close of V2 does not work: the CLOSE message of the client is two bytes
  long, but the server reads nine before it looks at the message type. When the client has
  sent its CLOSE and nothing else, \<open>objm_server_recv_request\<close> reports an error, never the
  close, on every schedule of the link.
\<close>

theorem close_not_recognised:
  assumes "c_version cc = OBJM_PROTO_V2" "link_ok sc" "c_version cs = OBJM_PROTO_V2"
    and "rx ss = drop (length (tx sc)) (tx (snd (objm_client_close cc reason sc)))"
  shows "fst (objm_server_recv_request cs ss) = RecvError"
  using assms client_close_sends [OF assms(1,2), of reason] by (intro receive_header_short) simp_all

theorem close_not_recognised_witness:
  "fst (objm_server_recv_request (sample_conn OBJM_PROTO_V2 True)
     (os_init\<lparr>rx := drop (length (tx os_init)) (tx (snd (objm_client_close
        (sample_conn OBJM_PROTO_V2 False) 0 os_init)))\<rparr>)) = RecvError"
  by (rule close_not_recognised [where sc = os_init and cc = "sample_conn OBJM_PROTO_V2 False" and reason = 0])
     (simp_all add: sample_conn_def link_ok_def os_init_def)

text \<open>
  A successful response that has both a descriptor and a non-zero content length
  desynchronises the client: the server attaches the descriptor whenever there is one, the
  client expects it only for content length zero. The client returns a response without a
  descriptor and the descriptor's byte stays in the stream, in front of the next response.
\<close>

theorem content_length_desynchronises:
  assumes "link_calm ss" "c_version cs = OBJM_PROTO_V2" "c_version cc = OBJM_PROTO_V2"
    and "rs_status r = OBJM_STATUS_OK" "rs_content_len r \<noteq> 0" "fd_obj ss (rs_fd r) = Some d"
    and "rs_metadata r = None" "rs_metadata_len r = 0" "rs_error_msg r = None"
    and "link_calm sc" "no_faults sc"
    and "rx sc = drop (length (tx ss)) (tx (snd (objm_server_send_response cs r ss))) @ rest"
  shows "\<exists>sc'. objm_client_recv_response cc sc = (Some (r\<lparr>rs_fd := -1\<rparr>), cc, sc') \<and>
     rx sc' = WithFd 0x58 d # rest"
proof -
  let ?r = "r\<lparr>rs_fd := -1\<rparr>"
  have v: "valid_response OBJM_PROTO_V2 ss ?r" using assms(5,7,8,9) by (simp add: valid_response_def)
  let ?h = "response_header OBJM_PROTO_V2 r"
  obtain ev where h: "send_all ?h ss = (True, ss\<lparr>tx := tx ss @ map Plain ?h, tx_ev := ev\<rparr>)"
    using send_all_ok assms(1) by (metis link_calm_def)
  let ?s = "ss\<lparr>tx := tx ss @ map Plain ?h, tx_ev := ev\<rparr>"
  have calm: "link_calm ?s" using send_all_ev [OF h] assms(1) by (auto simp: link_calm_def link_ok_def)
  have pos: "0 \<le> rs_fd r" using assms(6) by (rule fd_obj_nonneg)
  have "fd_obj ?s (rs_fd r) = Some d" using assms(6) by simp
  note fd = send_fd_ok [OF this calm]
  have "snd (objm_server_send_response cs r ss) =
      ?s\<lparr>tx_ev := tl ev, tx := tx ?s @ [WithFd 0x58 d]\<rparr>"
    using h assms(2,4,7) pos fd by (simp add: objm_server_send_response_def)
  then have "rx sc = response_items OBJM_PROTO_V2 ss ?r @ WithFd 0x58 d # rest"
    using assms(7,12) by (simp add: response_items_def fd_items_def meta_bytes_def response_header_def)
  with client_recv_response_ok [of cc ss ?r sc] v assms(3,5,10,11) obtain fd sc' where
    "objm_client_recv_response cc sc = (Some (?r\<lparr>rs_fd := fd\<rparr>), cc, sc')" "rx sc' = WithFd 0x58 d # rest"
    "fd = -1" by (metis (no_types, lifting) objm_response.select_convs(4) objm_response.surjective
        objm_response.update_convs(3))
  then show ?thesis by simp
qed

theorem content_length_desynchronises_witness:
  "\<exists>sc'. objm_client_recv_response (sample_conn OBJM_PROTO_V2 False)
       (serving\<lparr>rx := drop (length (tx serving)) (tx (snd (objm_server_send_response
          (sample_conn OBJM_PROTO_V2 True) (sample_response\<lparr>rs_metadata := None, rs_metadata_len := 0,
             rs_content_len := 5\<rparr>) serving))) @ []\<rparr>)
     = (Some (sample_response\<lparr>rs_metadata := None, rs_metadata_len := 0, rs_content_len := 5, rs_fd := -1\<rparr>),
        sample_conn OBJM_PROTO_V2 False, sc') \<and> rx sc' = WithFd 0x58 4 # []"
  by (rule content_length_desynchronises [where ss = serving and cs = "sample_conn OBJM_PROTO_V2 True"])
     (simp_all add: link_calm_def link_ok_def serving_def os_init_def no_faults_def sample_conn_def
        sample_response_def fd_obj_def)

text \<open>
  A URI of 65536 bytes or more does not arrive: its length is sent modulo 65536, so the
  server takes a prefix of the URI for the whole and the rest of the URI for the following
  messages, although the client's send succeeded.
\<close>

theorem long_uri_truncated:
  assumes "link_ok sc" "c_version cc = OBJM_PROTO_V2" "receiving OBJM_PROTO_V2 (cs, ss)"
    and "unat (rq_uri_len r) = length (rq_uri r)" "65536 \<le> length (rq_uri r)" "length (rq_uri r) \<le> 65536 + 4096"
    and "rx ss = drop (length (tx sc)) (tx (snd (snd (objm_client_send_request cc r sc))))"
  shows "\<exists>sc' ss'. objm_client_send_request cc r sc = (True, cc, sc') \<and>
     objm_server_recv_request cs ss =
       (RecvRequest (r\<lparr>rq_uri := take (length (rq_uri r) - 65536) (rq_uri r),
                       rq_uri_len := of_nat (length (rq_uri r) - 65536)\<rparr>), cs, ss') \<and>
     rx ss' = map Plain (drop (length (rq_uri r) - 65536) (rq_uri r))"
proof -
  let ?n = "length (rq_uri r) - 65536"
  let ?r = "r\<lparr>rq_uri := take ?n (rq_uri r), rq_uri_len := of_nat ?n\<rparr>"
  let ?rest = "map Plain (drop ?n (rq_uri r))"
  have n: "unat (of_nat ?n :: u64) = ?n" using assms(6) by (simp add: unat_of_nat)
  have v: "valid_request OBJM_PROTO_V2 ?r" using n assms(6) by (simp add: valid_request_def)
  have "length (rq_uri r) mod 65536 = ?n" using assms(5,6) by (simp add: mod_if)
  then have "put_be 2 (unat (rq_uri_len r)) = put_be 2 ?n"
    using put_be_get_be [of "put_be 2 (length (rq_uri r))"] put_be_get_be [of "put_be 2 ?n"] assms(4,6)
    by (simp add: get_be_put_be) 
  then have hdr: "request_msg OBJM_PROTO_V2 r = request_msg OBJM_PROTO_V2 ?r"
    by (simp add: request_msg_def n)
  let ?h = "request_msg OBJM_PROTO_V2 r"
  obtain e1 where h: "send_all ?h sc = (True, sc\<lparr>tx := tx sc @ map Plain ?h, tx_ev := e1\<rparr>)"
      "Fail \<notin> set e1" using send_all_ok [OF assms(1)] .
  let ?s1 = "sc\<lparr>tx := tx sc @ map Plain ?h, tx_ev := e1\<rparr>"
  have "link_ok ?s1" using h(2) assms(1) by (simp add: link_ok_def)
  then obtain e2 where "send_all (rq_uri r) ?s1 =
      (True, ?s1\<lparr>tx := tx ?s1 @ map Plain (rq_uri r), tx_ev := e2\<rparr>)" by (rule send_all_ok)
  with h(1) assms(2,4) have snd: "objm_client_send_request cc r sc =
      (True, cc, ?s1\<lparr>tx := tx ?s1 @ map Plain (rq_uri r), tx_ev := e2\<rparr>)"
    by (simp add: objm_client_send_request_def)
  then have "rx ss = map Plain ?h @ map Plain (rq_uri r)" using assms(7) by simp
  then have "rx ss = request_items OBJM_PROTO_V2 ?r @ ?rest"
    by (simp add: request_items_def hdr flip: map_append)
  from server_recv_request_ok [OF assms(3) v this] snd show ?thesis by metis
qed

definition long_request :: objm_request where
  "long_request = \<lparr>rq_id = 1, rq_flags = 0, rq_mode = OBJM_MODE_FDPASS, rq_uri = replicate 65538 47,
                   rq_uri_len = 65538\<rparr>"

theorem long_uri_truncated_witness:
  "\<exists>sc' ss'. objm_client_send_request (sample_conn OBJM_PROTO_V2 False) long_request choppy
       = (True, sample_conn OBJM_PROTO_V2 False, sc') \<and>
     objm_server_recv_request (sample_conn OBJM_PROTO_V2 True)
       (choppy\<lparr>rx := drop (length (tx choppy)) (tx (snd (snd (objm_client_send_request
          (sample_conn OBJM_PROTO_V2 False) long_request choppy))))\<rparr>)
     = (RecvRequest (long_request\<lparr>
          rq_uri := take (length (rq_uri long_request) - 65536) (rq_uri long_request),
          rq_uri_len := of_nat (length (rq_uri long_request) - 65536)\<rparr>), sample_conn OBJM_PROTO_V2 True, ss') \<and>
     rx ss' = map Plain (drop (length (rq_uri long_request) - 65536) (rq_uri long_request))"
  by (rule long_uri_truncated) (simp_all add: receiving_def sample_conn_def long_request_def)

text \<open>
  \<open>objm_capability_names\<close> stays inside a buffer that holds all four names (48 bytes);
  in a smaller one it can write out of bounds: after a name that did not fit, the
  remaining size \<open>size - written\<close> is negative and wraps.
\<close>

theorem capability_names_bounds:
  "(48 \<le> n \<longrightarrow> objm_capability_names caps n \<noteq> None) \<and> objm_capability_names 0x000B 16 = None"
  by (auto simp: objm_capability_names_def cap_append_def Let_def)

theorem capability_names_bounds_witness:
  "\<exists>x. objm_capability_names 0x000F 48 = Some x"
  using capability_names_bounds [of 48 "0x000F"] by auto

end
