(* ===== verification/Index_Core.thy ===== *)
theory Index_Core
  imports Complex_Main Posix
begin

text \<open>
  Index entries of \<open>lib/index/index.c\<close>: hashing, the life cycle of an entry, its cached
  descriptor and the references that lookups hand out.

  Entries are heap objects shared by the global index, the backend indexes and callers, so
  the state is a \<open>world\<close>: the process state and a heap from addresses to entries. Addresses
  are not reused; a freed address maps to \<open>None\<close>. An operation that follows a pointer to a
  freed entry, undefined behaviour in C, has the outer result \<open>None\<close>, and so has a chain
  walk that does not end. Atomic operations are sequential here. Counts of references are
  unbounded integers: they are bounded by the number of live references.
\<close>

section \<open>Data\<close>

abbreviation INDEX_FLAG_EPHEMERAL :: u32 where "INDEX_FLAG_EPHEMERAL \<equiv> 0x01"
abbreviation INDEX_FLAG_PERSISTENT :: u32 where "INDEX_FLAG_PERSISTENT \<equiv> 0x02"
abbreviation INDEX_FLAG_PINNED :: u32 where "INDEX_FLAG_PINNED \<equiv> 0x04"
abbreviation INDEX_VERSION :: u16 where "INDEX_VERSION \<equiv> 1"

type_synonym addr = nat

record index_entry =
  ie_uri :: string
  ie_uri_hash :: u64
  ie_backend_id :: u32
  ie_backend_path :: "string option"     \<comment> \<open>\<open>None\<close>: \<open>NULL\<close>\<close>
  ie_fd :: int
  ie_fd_refcount :: int
  ie_fd_generation :: int
  ie_size_bytes :: u64
  ie_mtime :: u64
  ie_flags :: u32
  ie_access_count :: u64
  ie_last_access :: u64
  ie_hotness_score :: real
  ie_entry_refcount :: int
  ie_next :: "addr option"

record fd_ref =
  fr_entry :: "addr option"
  fr_fd :: int
  fr_generation :: int

record world = os +
  heap :: "addr \<Rightarrow> index_entry option"
  next_addr :: addr

definition upd_entry :: "addr \<Rightarrow> (index_entry \<Rightarrow> index_entry) \<Rightarrow> 'a world_scheme \<Rightarrow> 'a world_scheme option" where
  "upd_entry a f w = (case heap w a of None \<Rightarrow> None | Some e \<Rightarrow> Some (w\<lparr>heap := (heap w)(a \<mapsto> f e)\<rparr>))"

section \<open>Hashing\<close>

definition fnv_step :: "u64 \<Rightarrow> char \<Rightarrow> u64" where
  "fnv_step hash c = (hash XOR of_char c) * 1099511628211"

definition index_hash_string :: "string \<Rightarrow> u64" where
  "index_hash_string str = foldl fnv_step 14695981039346656037 str"

definition index_next_power_of_2 :: "u64 \<Rightarrow> u64" where
  "index_next_power_of_2 n =
     (let n = n - 1;
          n = n OR drop_bit 1 n;
          n = n OR drop_bit 2 n;
          n = n OR drop_bit 4 n;
          n = n OR drop_bit 8 n;
          n = n OR drop_bit 16 n;
          n = n OR drop_bit 32 n
      in n + 1)"

section \<open>Life cycle of an entry\<close>

text \<open>Both \<open>strdup\<close> calls are made before either result is tested.\<close>

definition index_entry_create ::
    "string \<Rightarrow> u32 \<Rightarrow> string \<Rightarrow> 'a world_scheme \<Rightarrow> addr option \<times> 'a world_scheme" where
  "index_entry_create uri backend_id backend_path w =
     (let (f1, w) = fault w
      in if f1 then (None, w)
         else let (f2, w) = fault w; (f3, w) = fault w
              in if f2 \<or> f3 then (None, w)
                 else (Some (next_addr w),
                       w\<lparr>next_addr := Suc (next_addr w),
                         heap := (heap w)(next_addr w \<mapsto>
                           \<lparr>ie_uri = uri, ie_uri_hash = index_hash_string uri,
                            ie_backend_id = backend_id, ie_backend_path = Some backend_path,
                            ie_fd = -1, ie_fd_refcount = 0, ie_fd_generation = 0,
                            ie_size_bytes = 0, ie_mtime = 0, ie_flags = 0, ie_access_count = 0,
                            ie_last_access = 0, ie_hotness_score = 0, ie_entry_refcount = 1,
                            ie_next = None\<rparr>)\<rparr>))"

definition index_entry_get :: "addr \<Rightarrow> 'a world_scheme \<Rightarrow> 'a world_scheme option" where
  "index_entry_get a w = upd_entry a (\<lambda>e. e\<lparr>ie_entry_refcount := ie_entry_refcount e + 1\<rparr>) w"

definition index_entry_put :: "addr \<Rightarrow> 'a world_scheme \<Rightarrow> 'a world_scheme option" where
  "index_entry_put a w =
     (case heap w a of
        None \<Rightarrow> None
      | Some e \<Rightarrow>
          if ie_entry_refcount e = 1
          then let w = (if 0 \<le> ie_fd e then sys_close (ie_fd e) w else w)
               in Some (w\<lparr>heap := (heap w)(a := None)\<rparr>)
          else upd_entry a (\<lambda>e. e\<lparr>ie_entry_refcount := ie_entry_refcount e - 1\<rparr>) w)"

text \<open>
  The compare-and-swap of the new descriptor cannot lose a race in a sequential run: the
  field is still \<open>-1\<close> unless it was another negative number.
\<close>

definition index_entry_open_fd :: "addr \<Rightarrow> 'a world_scheme \<Rightarrow> (bool \<times> 'a world_scheme) option" where
  "index_entry_open_fd a w =
     (case heap w a of
        None \<Rightarrow> None
      | Some e \<Rightarrow>
          if 0 \<le> ie_fd e then Some (True, w)
          else case ie_backend_path e of
                 None \<Rightarrow> Some (False, w)
               | Some path \<Rightarrow>
                   let (fd, w) = sys_open O_RDONLY path w
                   in if fd < 0 then Some (False, w)
                      else if ie_fd e = -1
                      then map_option (Pair True) (upd_entry a (\<lambda>e. e\<lparr>ie_fd := fd\<rparr>) w)
                      else Some (True, sys_close fd w))"

definition index_entry_close_fd :: "addr \<Rightarrow> 'a world_scheme \<Rightarrow> 'a world_scheme option" where
  "index_entry_close_fd a w =
     (case heap w a of
        None \<Rightarrow> None
      | Some e \<Rightarrow>
          if 0 < ie_fd_refcount e then Some w
          else let w' = w\<lparr>heap := (heap w)(a \<mapsto> e\<lparr>ie_fd := -1\<rparr>)\<rparr>
               in if 0 \<le> ie_fd e
                  then upd_entry a (\<lambda>e. e\<lparr>ie_fd_generation := ie_fd_generation e + 1\<rparr>)
                         (sys_close (ie_fd e) w')
                  else Some w')"

text \<open>\<open>get_monotonic_us\<close> reads the clock of the state.\<close>

definition index_entry_record_access :: "addr \<Rightarrow> 'a world_scheme \<Rightarrow> 'a world_scheme option" where
  "index_entry_record_access a w =
     upd_entry a (\<lambda>e. e\<lparr>ie_access_count := ie_access_count e + 1, ie_last_access := clock w\<rparr>) w"

text \<open>
  The score over the reals, without the rounding of \<open>float\<close> and \<open>double\<close>. The age is a
  difference of unsigned 64-bit numbers. With a half-life of zero the quotient is minus
  infinity, whose exponential is zero, or not a number (\<open>None\<close>) for an age of zero.
\<close>

definition time_factor :: "u64 \<Rightarrow> u32 \<Rightarrow> real option" where
  "time_factor age_us decay_halflife =
     (let age_secs = real (unat age_us) / 1000000
      in if decay_halflife = 0 then (if age_us = 0 then None else Some 0)
         else Some (exp (- 0.693 * age_secs / real (unat decay_halflife))))"

definition index_calculate_hotness :: "index_entry option \<Rightarrow> u64 \<Rightarrow> u32 \<Rightarrow> real option" where
  "index_calculate_hotness entry current_time decay_halflife =
     (case entry of
        None \<Rightarrow> Some 0
      | Some e \<Rightarrow>
          if ie_last_access e = 0 then Some 0
          else do {
            tf \<leftarrow> time_factor (current_time - ie_last_access e) decay_halflife;
            let af = real (unat (ie_access_count e)) / 1000;
            let af = (if af > 1 then 1 else af);
            let hotness = 0.7 * tf + 0.3 * af;
            Some (if hotness > 1 then 1 else hotness)
          })"

section \<open>Descriptor references\<close>

text \<open>In a sequential run the descriptor read again after the increment is still valid.\<close>

definition fd_ref_acquire :: "fd_ref \<Rightarrow> 'a world_scheme \<Rightarrow> (int \<times> fd_ref \<times> 'a world_scheme) option" where
  "fd_ref_acquire r w =
     (case fr_entry r of
        None \<Rightarrow> Some (-1, r, w)
      | Some a \<Rightarrow>
          do {
            e \<leftarrow> heap w a;
            if 0 \<le> ie_fd e then
              do { w \<leftarrow> upd_entry a (\<lambda>e. e\<lparr>ie_fd_refcount := ie_fd_refcount e + 1\<rparr>) w;
                   Some (ie_fd e, r\<lparr>fr_fd := ie_fd e, fr_generation := ie_fd_generation e\<rparr>, w) }
            else
              do { (ok, w) \<leftarrow> index_entry_open_fd a w;
                   if \<not> ok then Some (-1, r, w)
                   else do { w \<leftarrow> upd_entry a (\<lambda>e. e\<lparr>ie_fd_refcount := ie_fd_refcount e + 1\<rparr>) w;
                             e \<leftarrow> heap w a;
                             Some (ie_fd e, r\<lparr>fr_fd := ie_fd e, fr_generation := ie_fd_generation e\<rparr>, w) } } })"

definition fd_ref_release :: "fd_ref \<Rightarrow> 'a world_scheme \<Rightarrow> (fd_ref \<times> 'a world_scheme) option" where
  "fd_ref_release r w =
     (case fr_entry r of
        None \<Rightarrow> Some (r, w)
      | Some a \<Rightarrow>
          do {
            w \<leftarrow> (if 0 \<le> fr_fd r
                  then upd_entry a (\<lambda>e. e\<lparr>ie_fd_refcount := ie_fd_refcount e - 1\<rparr>) (sys_close (fr_fd r) w)
                  else Some w);
            w \<leftarrow> index_entry_put a w;
            Some (r\<lparr>fr_entry := None, fr_fd := -1\<rparr>, w) })"

definition fd_ref_dup :: "fd_ref \<Rightarrow> 'a world_scheme \<Rightarrow> int \<times> 'a world_scheme" where
  "fd_ref_dup r w = (if fr_fd r < 0 then (-1, w) else sys_dup (fr_fd r) w)"

section \<open>Laws\<close>

lemma fd_obj_heap [simp]:
  "fd_obj (w\<lparr>heap := h\<rparr>) fd = fd_obj w fd" "fd_obj (w\<lparr>next_addr := n\<rparr>) fd = fd_obj w fd"
  by (simp_all add: fd_obj_def)

lemma fd_obj_neg [simp]: "fd < 0 \<Longrightarrow> fd_obj s fd = None"
  by (simp add: fd_obj_def)

lemma fault_heap [frame_simps]:
  "fault w = (b, w') \<Longrightarrow> heap w' = heap w" "fault w = (b, w') \<Longrightarrow> next_addr w' = next_addr w"
  by (auto elim!: fault_frame)

lemma sys_close_heap [simp]: "heap (sys_close fd w) = heap w" "next_addr (sys_close fd w) = next_addr w"
  by (rule sys_close_frame [of fd w], simp)+

lemma upd_entry_Some [heap_simps]:
  "heap w a = Some e \<Longrightarrow> upd_entry a f w = Some (w\<lparr>heap := (heap w)(a \<mapsto> f e)\<rparr>)"
  by (simp add: upd_entry_def)

lemma upd_entry_iff:
  "upd_entry a f w = Some w' \<longleftrightarrow> (\<exists>e. heap w a = Some e \<and> w' = w\<lparr>heap := (heap w)(a \<mapsto> f e)\<rparr>)"
  by (auto simp: upd_entry_def split: option.splits)

lemma install_fd_heap [frame_simps]:
  assumes "install_fd d w = (fd, w')" shows "heap w' = heap w" "next_addr w' = next_addr w"
  using assms by (auto simp: install_fd_def Let_def)

lemma sys_open_heap [frame_simps]:
  assumes "sys_open acc path w = (fd, w')" shows "heap w' = heap w" "next_addr w' = next_addr w"
  using assms by (auto simp: sys_open_def new_ofd_def install_fd_def Let_def
      split: prod.splits if_splits option.splits elim!: fault_frame)

lemma sys_dup_heap [frame_simps]:
  assumes "sys_dup x w = (fd, w')" shows "heap w' = heap w" "next_addr w' = next_addr w"
  using assms by (auto simp: sys_dup_def install_fd_def Let_def
      split: prod.splits if_splits option.splits elim!: fault_frame)

end
