(* ===== verification/Index_Tables.thy ===== *)
theory Index_Tables
  imports Index_Core "HOL-Library.Monad_Syntax"
begin

text \<open>
  The two hash tables of \<open>lib/index/index.c\<close>: the global index from URIs to entries and the
  index of one backend. Both chain their entries through the single field \<open>next\<close> of the
  entry. A table is a record passed to and returned from its operations; the entries live in
  the heap of the world. The locks of the writers have no counterpart in a sequential run.
  Sizes and counters are 64-bit words; an index of the bucket array is checked, and out of
  bounds is the outer \<open>None\<close>.
\<close>

section \<open>Collision chains\<close>

text \<open>
  The walk from a pointer along \<open>next\<close> to the first entry with the hash and the URI, with
  the place that points to it: \<open>None\<close> for the bucket, \<open>Some p\<close> for the field \<open>next\<close> of
  the entry \<open>p\<close>.
\<close>

definition entry_matches :: "u64 \<Rightarrow> string \<Rightarrow> index_entry \<Rightarrow> bool" where
  "entry_matches hash uri e \<longleftrightarrow> ie_uri_hash e = hash \<and> ie_uri e = uri"

partial_function (option) chain_locate ::
    "(addr \<Rightarrow> index_entry option) \<Rightarrow> u64 \<Rightarrow> string \<Rightarrow> addr option \<Rightarrow> addr option
       \<Rightarrow> (addr option \<times> addr) option option" where
  "chain_locate h hash uri prev p =
     (case p of
        None \<Rightarrow> Some None
      | Some a \<Rightarrow>
          (case h a of
             None \<Rightarrow> None
           | Some e \<Rightarrow>
               if entry_matches hash uri e then Some (Some (prev, a))
               else chain_locate h hash uri (Some a) (ie_next e)))"

definition bucket_at :: "addr option list \<Rightarrow> nat \<Rightarrow> addr option option" where
  "bucket_at buckets b = (if b < length buckets then Some (buckets ! b) else None)"

definition bucket_of :: "u64 \<Rightarrow> u64 \<Rightarrow> nat" where
  "bucket_of num_buckets hash = unat (hash AND (num_buckets - 1))"

text \<open>\<open>atomic_store(prev_next, next)\<close>.\<close>

definition store_next ::
    "nat \<Rightarrow> addr option \<Rightarrow> addr option \<Rightarrow> addr option list \<Rightarrow> 'a world_scheme
       \<Rightarrow> (addr option list \<times> 'a world_scheme) option" where
  "store_next b prev nxt buckets w =
     (case prev of
        None \<Rightarrow> Some (buckets[b := nxt], w)
      | Some p \<Rightarrow> map_option (Pair buckets) (upd_entry p (\<lambda>e. e\<lparr>ie_next := nxt\<rparr>) w))"

text \<open>The loop that releases the entries of one bucket, and the loop over the buckets.\<close>

partial_function (option) put_chain :: "addr option \<Rightarrow> 'a world_scheme \<Rightarrow> 'a world_scheme option" where
  "put_chain p w =
     (case p of
        None \<Rightarrow> Some w
      | Some a \<Rightarrow>
          (case heap w a of
             None \<Rightarrow> None
           | Some e \<Rightarrow>
               (case index_entry_put a w of
                  None \<Rightarrow> None
                | Some w' \<Rightarrow> put_chain (ie_next e) w')))"

fun put_buckets :: "addr option list \<Rightarrow> 'a world_scheme \<Rightarrow> 'a world_scheme option" where
  "put_buckets [] w = Some w"
| "put_buckets (p # ps) w = do { w \<leftarrow> put_chain p w; put_buckets ps w }"

section \<open>The global index\<close>

record global_index =
  gi_buckets :: "addr option list"
  gi_num_buckets :: u64
  gi_num_entries :: u64
  gi_max_open_fds :: u64
  gi_num_open_fds :: u64
  gi_stat_lookups :: u64
  gi_stat_hits :: u64
  gi_stat_misses :: u64
  gi_stat_fd_cache_hits :: u64
  gi_stat_fd_opens :: u64
  gi_stat_fd_closes :: u64
  gi_stat_fd_evictions :: u64

definition global_index_create :: "u64 \<Rightarrow> u64 \<Rightarrow> 'a world_scheme \<Rightarrow> global_index option \<times> 'a world_scheme" where
  "global_index_create num_buckets max_open_fds w =
     (let (f, w) = fault w
      in if f then (None, w)
         else let n = index_next_power_of_2 num_buckets; (f, w) = fault w
              in if f then (None, w)
                 else (Some \<lparr>gi_buckets = replicate (unat n) None, gi_num_buckets = n, gi_num_entries = 0,
                             gi_max_open_fds = max_open_fds, gi_num_open_fds = 0, gi_stat_lookups = 0,
                             gi_stat_hits = 0, gi_stat_misses = 0, gi_stat_fd_cache_hits = 0,
                             gi_stat_fd_opens = 0, gi_stat_fd_closes = 0, gi_stat_fd_evictions = 0\<rparr>, w))"

definition global_index_destroy :: "global_index \<Rightarrow> 'a world_scheme \<Rightarrow> 'a world_scheme option" where
  "global_index_destroy idx w = put_buckets (gi_buckets idx) w"

text \<open>The descriptor of a hit: read-write when possible, else read-only, else \<open>-1\<close>.\<close>

definition open_for_lookup :: "string option \<Rightarrow> 'a world_scheme \<Rightarrow> int \<times> 'a world_scheme" where
  "open_for_lookup backend_path w =
     (case backend_path of
        None \<Rightarrow> (-1, w)
      | Some path \<Rightarrow>
          let (fd, w) = sys_open O_RDWR path w
          in if fd < 0 then sys_open O_RDONLY path w else (fd, w))"

definition global_index_lookup ::
    "global_index \<Rightarrow> string \<Rightarrow> 'a world_scheme \<Rightarrow> (fd_ref option \<times> global_index \<times> 'a world_scheme) option" where
  "global_index_lookup idx uri w =
     do {
       let idx = idx\<lparr>gi_stat_lookups := gi_stat_lookups idx + 1\<rparr>;
       let hash = index_hash_string uri;
       p \<leftarrow> bucket_at (gi_buckets idx) (bucket_of (gi_num_buckets idx) hash);
       found \<leftarrow> chain_locate (heap w) hash uri None p;
       case found of
         None \<Rightarrow> Some (None, idx\<lparr>gi_stat_misses := gi_stat_misses idx + 1\<rparr>, w)
       | Some (_, a) \<Rightarrow>
           do {
             w \<leftarrow> index_entry_get a w;
             e \<leftarrow> heap w a;
             let (fd, w) = open_for_lookup (ie_backend_path e) w;
             w \<leftarrow> index_entry_record_access a w;
             w \<leftarrow> (if 0 \<le> fd then upd_entry a (\<lambda>e. e\<lparr>ie_fd_refcount := ie_fd_refcount e + 1\<rparr>) w else Some w);
             Some (Some \<lparr>fr_entry = Some a, fr_fd = fd, fr_generation = 0\<rparr>,
                   idx\<lparr>gi_stat_hits := gi_stat_hits idx + 1\<rparr>, w)
           }
     }"

definition global_index_insert ::
    "global_index \<Rightarrow> addr \<Rightarrow> 'a world_scheme \<Rightarrow> (bool \<times> global_index \<times> 'a world_scheme) option" where
  "global_index_insert idx a w =
     do {
       e \<leftarrow> heap w a;
       let b = bucket_of (gi_num_buckets idx) (ie_uri_hash e);
       p \<leftarrow> bucket_at (gi_buckets idx) b;
       found \<leftarrow> chain_locate (heap w) (ie_uri_hash e) (ie_uri e) None p;
       case found of
         Some _ \<Rightarrow> Some (False, idx, w)
       | None \<Rightarrow>
           do {
             w \<leftarrow> upd_entry a (\<lambda>e. e\<lparr>ie_next := p\<rparr>) w;
             Some (True, idx\<lparr>gi_buckets := (gi_buckets idx)[b := Some a],
                             gi_num_entries := gi_num_entries idx + 1\<rparr>, w)
           }
     }"

definition global_index_remove ::
    "global_index \<Rightarrow> string \<Rightarrow> 'a world_scheme \<Rightarrow> (bool \<times> global_index \<times> 'a world_scheme) option" where
  "global_index_remove idx uri w =
     do {
       let hash = index_hash_string uri;
       let b = bucket_of (gi_num_buckets idx) hash;
       p \<leftarrow> bucket_at (gi_buckets idx) b;
       found \<leftarrow> chain_locate (heap w) hash uri None p;
       case found of
         None \<Rightarrow> Some (False, idx, w)
       | Some (prev, a) \<Rightarrow>
           do {
             e \<leftarrow> heap w a;
             (buckets, w) \<leftarrow> store_next b prev (ie_next e) (gi_buckets idx) w;
             w \<leftarrow> upd_entry a (\<lambda>e. e\<lparr>ie_fd := -1\<rparr>) w;
             let (idx, w) =
               (if 0 \<le> ie_fd e then (idx\<lparr>gi_num_open_fds := gi_num_open_fds idx - 1\<rparr>, sys_close (ie_fd e) w)
                else (idx, w));
             w \<leftarrow> index_entry_put a w;
             Some (True, idx\<lparr>gi_buckets := buckets, gi_num_entries := gi_num_entries idx - 1\<rparr>, w)
           }
     }"

text \<open>The result of \<open>strdup\<close> is stored unchecked: it may leave \<open>NULL\<close> in the entry.\<close>

definition global_index_update_backend ::
    "global_index \<Rightarrow> string \<Rightarrow> u32 \<Rightarrow> string \<Rightarrow> 'a world_scheme
       \<Rightarrow> (bool \<times> global_index \<times> 'a world_scheme) option" where
  "global_index_update_backend idx uri backend_id backend_path w =
     do {
       (found, idx, w) \<leftarrow> global_index_lookup idx uri w;
       case found of
         None \<Rightarrow> Some (False, idx, w)
       | Some r \<Rightarrow>
           do {
             a \<leftarrow> fr_entry r;
             e \<leftarrow> heap w a;
             w \<leftarrow> upd_entry a (\<lambda>e. e\<lparr>ie_fd := -1\<rparr>) w;
             (idx, w) \<leftarrow>
               (if 0 \<le> ie_fd e
                then do { w \<leftarrow> upd_entry a (\<lambda>e. e\<lparr>ie_fd_generation := ie_fd_generation e + 1\<rparr>)
                                 (sys_close (ie_fd e) w);
                          Some (idx\<lparr>gi_num_open_fds := gi_num_open_fds idx - 1\<rparr>, w) }
                else Some (idx, w));
             let (f, w) = fault w;
             w \<leftarrow> upd_entry a (\<lambda>e. e\<lparr>ie_backend_path := (if f then None else Some backend_path),
                                    ie_backend_id := backend_id\<rparr>) w;
             (r, w) \<leftarrow> fd_ref_release r w;
             Some (True, idx, w)
           }
     }"

record index_stats =
  is_num_entries :: u64
  is_num_open_fds :: u64
  is_lookups :: u64
  is_hits :: u64
  is_misses :: u64
  is_fd_cache_hits :: u64
  is_fd_opens :: u64
  is_fd_closes :: u64
  is_fd_evictions :: u64
  is_hit_rate :: real
  is_fd_cache_rate :: real

definition global_index_get_stats :: "global_index \<Rightarrow> index_stats" where
  "global_index_get_stats idx =
     \<lparr>is_num_entries = gi_num_entries idx, is_num_open_fds = gi_num_open_fds idx,
      is_lookups = gi_stat_lookups idx, is_hits = gi_stat_hits idx, is_misses = gi_stat_misses idx,
      is_fd_cache_hits = gi_stat_fd_cache_hits idx, is_fd_opens = gi_stat_fd_opens idx,
      is_fd_closes = gi_stat_fd_closes idx, is_fd_evictions = gi_stat_fd_evictions idx,
      is_hit_rate = (if 0 < gi_stat_lookups idx
                     then real (unat (gi_stat_hits idx)) / real (unat (gi_stat_lookups idx)) else 0),
      is_fd_cache_rate = (if 0 < gi_stat_fd_opens idx
                     then real (unat (gi_stat_fd_cache_hits idx)) / real (unat (gi_stat_fd_opens idx)) else 0)\<rparr>"

section \<open>The index of a backend\<close>

record backend_index =
  bi_backend_id :: u32
  bi_buckets :: "addr option list"
  bi_num_buckets :: u64
  bi_num_entries :: u64
  bi_index_file_path :: "string option"
  bi_persist_enabled :: bool
  bi_dirty :: bool
  bi_stat_lookups :: u64
  bi_stat_hits :: u64

text \<open>The result of \<open>strdup\<close> is not tested: persistence can be enabled without a path.\<close>

definition backend_index_create ::
    "u32 \<Rightarrow> string option \<Rightarrow> u64 \<Rightarrow> 'a world_scheme \<Rightarrow> backend_index option \<times> 'a world_scheme" where
  "backend_index_create backend_id index_file_path num_buckets w =
     (let (f, w) = fault w
      in if f then (None, w)
         else let n = index_next_power_of_2 num_buckets;
                  (path, w) = (case index_file_path of
                                 None \<Rightarrow> (None, w)
                               | Some p \<Rightarrow> let (f, w) = fault w in (if f then None else Some p, w));
                  (f, w) = fault w
              in if f then (None, w)
                 else (Some \<lparr>bi_backend_id = backend_id, bi_buckets = replicate (unat n) None,
                             bi_num_buckets = n, bi_num_entries = 0, bi_index_file_path = path,
                             bi_persist_enabled = (index_file_path \<noteq> None), bi_dirty = False,
                             bi_stat_lookups = 0, bi_stat_hits = 0\<rparr>, w))"

definition backend_index_destroy :: "backend_index \<Rightarrow> 'a world_scheme \<Rightarrow> 'a world_scheme option" where
  "backend_index_destroy idx w = put_buckets (bi_buckets idx) w"

definition backend_index_insert ::
    "backend_index \<Rightarrow> addr \<Rightarrow> 'a world_scheme \<Rightarrow> (backend_index \<times> 'a world_scheme) option" where
  "backend_index_insert idx a w =
     do {
       e \<leftarrow> heap w a;
       let b = bucket_of (bi_num_buckets idx) (ie_uri_hash e);
       w \<leftarrow> index_entry_get a w;
       old_head \<leftarrow> bucket_at (bi_buckets idx) b;
       w \<leftarrow> upd_entry a (\<lambda>e. e\<lparr>ie_next := old_head\<rparr>) w;
       Some (idx\<lparr>bi_buckets := (bi_buckets idx)[b := Some a], bi_num_entries := bi_num_entries idx + 1,
                 bi_dirty := True\<rparr>, w)
     }"

definition backend_index_lookup ::
    "backend_index \<Rightarrow> string \<Rightarrow> 'a world_scheme \<Rightarrow> (addr option \<times> backend_index) option" where
  "backend_index_lookup idx uri w =
     do {
       let idx = idx\<lparr>bi_stat_lookups := bi_stat_lookups idx + 1\<rparr>;
       let hash = index_hash_string uri;
       p \<leftarrow> bucket_at (bi_buckets idx) (bucket_of (bi_num_buckets idx) hash);
       found \<leftarrow> chain_locate (heap w) hash uri None p;
       case found of
         None \<Rightarrow> Some (None, idx)
       | Some (_, a) \<Rightarrow> Some (Some a, idx\<lparr>bi_stat_hits := bi_stat_hits idx + 1\<rparr>)
     }"

definition backend_index_remove ::
    "backend_index \<Rightarrow> string \<Rightarrow> 'a world_scheme \<Rightarrow> (bool \<times> backend_index \<times> 'a world_scheme) option" where
  "backend_index_remove idx uri w =
     do {
       let hash = index_hash_string uri;
       let b = bucket_of (bi_num_buckets idx) hash;
       p \<leftarrow> bucket_at (bi_buckets idx) b;
       found \<leftarrow> chain_locate (heap w) hash uri None p;
       case found of
         None \<Rightarrow> Some (False, idx, w)
       | Some (prev, a) \<Rightarrow>
           do {
             e \<leftarrow> heap w a;
             (buckets, w) \<leftarrow> store_next b prev (ie_next e) (bi_buckets idx) w;
             w \<leftarrow> index_entry_put a w;
             Some (True, idx\<lparr>bi_buckets := buckets, bi_num_entries := bi_num_entries idx - 1,
                             bi_dirty := True\<rparr>, w)
           }
     }"

end
