(* ===== verification/Index_Chains.thy ===== *)
theory Index_Chains
  imports Index_Tables "HOL-Library.Multiset"
begin

text \<open>
  The shape of the hash tables: the list of entries a chain holds, what the walks of
  \<open>Index_Tables\<close> do on a chain, the invariant of a table and the map from URIs to entries
  that it represents.
\<close>

section \<open>Lists of entries in the heap\<close>

type_synonym entry_heap = "addr \<Rightarrow> index_entry option"

fun chain :: "entry_heap \<Rightarrow> addr option \<Rightarrow> addr list \<Rightarrow> bool" where
  "chain h p [] \<longleftrightarrow> p = None"
| "chain h p (a # as) \<longleftrightarrow> p = Some a \<and> (case h a of None \<Rightarrow> False | Some e \<Rightarrow> chain h (ie_next e) as)"

lemma chain_Cons_Some: "chain h (Some a) as \<longleftrightarrow> (\<exists>e bs. as = a # bs \<and> h a = Some e \<and> chain h (ie_next e) bs)"
  by (cases as) (auto split: option.splits)

lemma chain_None [simp]: "chain h None as \<longleftrightarrow> as = []"
  by (cases as) auto

lemma chain_unique: "chain h p as \<Longrightarrow> chain h p bs \<Longrightarrow> as = bs"
proof (induction as arbitrary: p bs)
  case (Cons a as)
  then show ?case by (cases bs) (auto split: option.splits)
qed simp

lemma chain_ConsE:
  assumes "chain h p (a # as)"
  obtains e where "p = Some a" "h a = Some e" "chain h (ie_next e) as"
  using assms by (auto split: option.splits)

lemma chain_suffix: "chain h p (xs @ a # ys) \<Longrightarrow> chain h (Some a) (a # ys)"
proof (induction xs arbitrary: p)
  case (Cons x xs)
  from Cons.prems have "chain h p (x # xs @ a # ys)" by simp
  then show ?case by (rule chain_ConsE) (rule Cons.IH)
qed simp

lemma chain_distinct: "chain h p as \<Longrightarrow> distinct as"
proof (induction as arbitrary: p)
  case (Cons a as)
  have "a \<notin> set as"
  proof
    assume "a \<in> set as"
    then obtain xs ys where "as = xs @ a # ys" by (auto simp: in_set_conv_decomp)
    with Cons.prems chain_suffix [of h p "a # xs" a ys] have "chain h (Some a) (a # as)" "chain h (Some a) (a # ys)"
      by auto
    from chain_unique [OF this] \<open>as = xs @ a # ys\<close> show False by simp
  qed
  with Cons show ?case by (auto split: option.splits)
qed simp

lemma chain_live: "chain h p as \<Longrightarrow> a \<in> set as \<Longrightarrow> \<exists>e. h a = Some e"
  by (induction as arbitrary: p) (auto split: option.splits)

text \<open>Two heaps that agree on the links and keys of a set of entries.\<close>

definition same_links :: "entry_heap \<Rightarrow> entry_heap \<Rightarrow> addr set \<Rightarrow> bool" where
  "same_links h h' A \<longleftrightarrow>
     (\<forall>a \<in> A. \<forall>e. h a = Some e \<longrightarrow>
        (\<exists>e'. h' a = Some e' \<and> ie_next e' = ie_next e \<and> ie_uri e' = ie_uri e \<and> ie_uri_hash e' = ie_uri_hash e))"

lemma same_links_refl [simp]: "same_links h h A"
  by (auto simp: same_links_def)

lemma same_links_trans: "same_links h h' A \<Longrightarrow> same_links h' h'' A \<Longrightarrow> same_links h h'' A"
  unfolding same_links_def by (metis)

lemma same_links_mono: "same_links h h' A \<Longrightarrow> B \<subseteq> A \<Longrightarrow> same_links h h' B"
  by (auto simp: same_links_def)

lemma same_links_upd [intro]:
  assumes "h a = Some e" "ie_next e' = ie_next e" "ie_uri e' = ie_uri e" "ie_uri_hash e' = ie_uri_hash e"
  shows "same_links h (h(a \<mapsto> e')) A"
  using assms by (auto simp: same_links_def)

lemma same_links_fresh [intro]: "a \<notin> A \<Longrightarrow> same_links h (h(a := x)) A"
  by (auto simp: same_links_def)

lemma same_links_chain: "chain h p as \<Longrightarrow> same_links h h' (set as) \<Longrightarrow> chain h' p as"
proof (induction as arbitrary: p)
  case (Cons a as)
  then obtain e where e: "h a = Some e" "p = Some a" "chain h (ie_next e) as" by (auto split: option.splits)
  with Cons.prems(2) obtain e' where "h' a = Some e'" "ie_next e' = ie_next e" by (auto simp: same_links_def)
  moreover have "chain h' (ie_next e) as" using Cons.IH e(3) Cons.prems(2) by (auto simp: same_links_def)
  ultimately show ?case using e by simp
qed simp

section \<open>Walks\<close>

fun locate_in :: "entry_heap \<Rightarrow> u64 \<Rightarrow> string \<Rightarrow> addr option \<Rightarrow> addr list \<Rightarrow> (addr option \<times> addr) option" where
  "locate_in h hash uri prev [] = None"
| "locate_in h hash uri prev (a # as) =
     (if entry_matches hash uri (the (h a)) then Some (prev, a) else locate_in h hash uri (Some a) as)"

lemma chain_locate_chain:
  "chain h p as \<Longrightarrow> chain_locate h hash uri prev p = Some (locate_in h hash uri prev as)"
proof (induction as arbitrary: p prev)
  case Nil
  then show ?case by (subst chain_locate.simps) simp
next
  case (Cons a as)
  then show ?case by (subst chain_locate.simps) (auto split: option.splits)
qed

lemma locate_in_None:
  "locate_in h hash uri prev as = None \<longleftrightarrow> (\<forall>a \<in> set as. \<not> entry_matches hash uri (the (h a)))"
  by (induction as arbitrary: prev) auto

lemma locate_in_Some:
  "locate_in h hash uri prev as = Some (q, a) \<Longrightarrow>
     \<exists>ys zs. as = ys @ a # zs \<and> entry_matches hash uri (the (h a)) \<and> q = (if ys = [] then prev else Some (last ys))"
proof (induction as arbitrary: prev)
  case (Cons b as)
  show ?case
  proof (cases "entry_matches hash uri (the (h b))")
    case True
    with Cons.prems show ?thesis by (auto intro: exI [of _ "[]"])
  next
    case False
    with Cons.prems Cons.IH [of "Some b"] obtain ys zs where
      "as = ys @ a # zs" "entry_matches hash uri (the (h a))" "q = (if ys = [] then Some b else Some (last ys))"
      by auto
    then show ?thesis by (intro exI [of _ "b # ys"] exI [of _ zs]) auto
  qed
qed simp

lemma chain_append_unlink:
  assumes "chain h p (ys @ a # zs)" "ys \<noteq> []" "h (last ys) = Some l" "h a = Some e"
  shows "chain (h(last ys \<mapsto> l\<lparr>ie_next := ie_next e\<rparr>)) p (ys @ zs)"
  using assms
proof (induction ys arbitrary: p)
  case (Cons y ys)
  from Cons.prems(1) have "chain h p (y # ys @ a # zs)" by simp
  then obtain d where d: "h y = Some d" "p = Some y" "chain h (ie_next d) (ys @ a # zs)"
    by (rule chain_ConsE)
  show ?case
  proof (cases "ys = []")
    case True
    have "distinct (y # ys @ a # zs)" using chain_distinct [OF Cons.prems(1)] by simp
    then have "same_links h (h(y \<mapsto> l\<lparr>ie_next := ie_next e\<rparr>)) (set zs)" by (intro same_links_fresh) simp
    moreover have "chain h (ie_next e) zs" using True d(3) Cons.prems(4) by simp
    ultimately have "chain (h(y \<mapsto> l\<lparr>ie_next := ie_next e\<rparr>)) (ie_next e) zs"
      by (rule same_links_chain [rotated])
    with True d(2) show ?thesis by (simp add: fun_upd_def)
  next
    case False
    have "y \<noteq> last ys" using chain_distinct [OF Cons.prems(1)] last_in_set [OF False] by auto
    moreover have "chain (h(last ys \<mapsto> l\<lparr>ie_next := ie_next e\<rparr>)) (ie_next d) (ys @ zs)"
      using Cons.IH [OF d(3) False] Cons.prems(3,4) False by (simp add: fun_upd_def)
    ultimately show ?thesis using False d(1,2) by (simp add: fun_upd_def)
  qed
qed simp

section \<open>Tables\<close>

definition uri_of :: "entry_heap \<Rightarrow> addr \<Rightarrow> string" where
  "uri_of h a = ie_uri (the (h a))"

definition table :: "entry_heap \<Rightarrow> u64 \<Rightarrow> addr option list \<Rightarrow> addr list list \<Rightarrow> bool" where
  "table h n buckets L \<longleftrightarrow>
     (\<exists>k < 64. n = 2 ^ k) \<and> length buckets = unat n \<and> length L = unat n \<and>
     (\<forall>b < unat n. chain h (buckets ! b) (L ! b)) \<and>
     (\<forall>b < unat n. \<forall>a \<in> set (L ! b).
        ie_uri_hash (the (h a)) = index_hash_string (uri_of h a) \<and> bucket_of n (ie_uri_hash (the (h a))) = b) \<and>
     distinct (map (uri_of h) (concat L))"

definition table_map :: "entry_heap \<Rightarrow> addr list list \<Rightarrow> string \<Rightarrow> addr option" where
  "table_map h L = map_of (map (\<lambda>a. (uri_of h a, a)) (concat L))"

lemma tableD:
  assumes "table h n buckets L"
  shows "\<exists>k < 64. n = 2 ^ k" "length buckets = unat n" "length L = unat n"
    "b < unat n \<Longrightarrow> chain h (buckets ! b) (L ! b)"
    "b < unat n \<Longrightarrow> a \<in> set (L ! b) \<Longrightarrow> ie_uri_hash (the (h a)) = index_hash_string (uri_of h a)"
    "b < unat n \<Longrightarrow> a \<in> set (L ! b) \<Longrightarrow> bucket_of n (ie_uri_hash (the (h a))) = b"
    "distinct (map (uri_of h) (concat L))"
  using assms unfolding table_def by blast+

lemma tableI:
  assumes "\<exists>k < 64. n = 2 ^ k" "length buckets = unat n" "length L = unat n"
    "\<And>b. b < unat n \<Longrightarrow> chain h (buckets ! b) (L ! b)"
    "\<And>b a. b < unat n \<Longrightarrow> a \<in> set (L ! b) \<Longrightarrow>
       ie_uri_hash (the (h a)) = index_hash_string (uri_of h a) \<and> bucket_of n (ie_uri_hash (the (h a))) = b"
    "distinct (map (uri_of h) (concat L))"
  shows "table h n buckets L"
  unfolding table_def using assms by blast

lemma unat_pow2: "k < 64 \<Longrightarrow> unat (2 ^ k :: u64) = 2 ^ k"
proof -
  assume "k < 64"
  then have "(2 :: nat) ^ k < 2 ^ 64" by (intro power_strict_increasing) auto
  moreover have "(2 ^ k :: u64) = of_nat (2 ^ k)" by simp
  ultimately show ?thesis by (simp only: unat_of_nat) simp
qed

lemma bucket_of_less:
  assumes "n = 2 ^ k" "k < 64" shows "bucket_of n hash < unat n"
proof -
  have "hash AND (n - 1) = take_bit k hash"
    using assms by (simp add: take_bit_eq_mask mask_eq_exp_minus_1)
  moreover have "unat (take_bit k hash) < 2 ^ k"
    by (simp add: unsigned_take_bit_eq)
  moreover have "unat n = 2 ^ k" using assms by (simp add: unat_pow2)
  ultimately show ?thesis by (simp add: bucket_of_def)
qed

lemma table_bucket: "table h n buckets L \<Longrightarrow> bucket_of n hash < unat n"
  by (auto simp: table_def intro: bucket_of_less)

lemma table_chain:
  assumes "table h n buckets L"
  shows "bucket_at buckets (bucket_of n hash) = Some (buckets ! bucket_of n hash)"
    "chain h (buckets ! bucket_of n hash) (L ! bucket_of n hash)"
  using table_bucket [OF assms, of hash] assms by (auto simp: table_def bucket_at_def)

lemma table_mem: "a \<in> set (concat L) \<longleftrightarrow> (\<exists>b < length L. a \<in> set (L ! b))"
  by (auto simp: set_conv_nth [of L])

lemma table_live: "table h n buckets L \<Longrightarrow> a \<in> set (concat L) \<Longrightarrow> \<exists>e. h a = Some e"
  unfolding table_mem by (auto simp: table_def intro: chain_live)

lemma table_map_iff:
  assumes "table h n buckets L"
  shows "table_map h L uri = Some a \<longleftrightarrow> a \<in> set (concat L) \<and> uri_of h a = uri"
proof -
  have "distinct (map fst (map (\<lambda>a. (uri_of h a, a)) (concat L)))"
    using assms by (simp add: table_def comp_def)
  from map_of_eq_Some_iff [OF this] show ?thesis by (auto simp: table_map_def)
qed

lemma table_map_None:
  assumes "table h n buckets L"
  shows "table_map h L uri = None \<longleftrightarrow> (\<forall>a \<in> set (concat L). uri_of h a \<noteq> uri)"
  using table_map_iff [OF assms, of uri] by (metis not_None_eq)

lemma table_map_bucket:
  assumes "table h n buckets L" "table_map h L uri = Some a"
  shows "a \<in> set (L ! bucket_of n (index_hash_string uri))" "entry_matches (index_hash_string uri) uri (the (h a))"
proof -
  from assms(2) have "a \<in> set (concat L)" and uri: "uri_of h a = uri"
    by (simp_all add: table_map_iff [OF assms(1)])
  then obtain b where b: "b < unat n" "a \<in> set (L ! b)"
    unfolding table_mem tableD(3) [OF assms(1)] by blast
  from tableD(5,6) [OF assms(1) b] b(2) uri show "a \<in> set (L ! bucket_of n (index_hash_string uri))"
    "entry_matches (index_hash_string uri) uri (the (h a))"
    by (simp_all add: entry_matches_def uri_of_def)
qed

text \<open>The walk of every operation: it ends, and it finds the entry of the map.\<close>

lemma table_locate:
  fixes uri
  assumes "table h n buckets L"
  defines "b \<equiv> bucket_of n (index_hash_string uri)"
  shows "case table_map h L uri of
     None \<Rightarrow> chain_locate h (index_hash_string uri) uri None (buckets ! b) = Some None
   | Some a \<Rightarrow> \<exists>ys zs. L ! b = ys @ a # zs \<and>
       chain_locate h (index_hash_string uri) uri None (buckets ! b)
         = Some (Some (if ys = [] then None else Some (last ys), a))"
proof -
  have b: "b < unat n" using table_bucket [OF assms(1)] by (simp add: b_def)
  have c: "chain_locate h (index_hash_string uri) uri None (buckets ! b) =
      Some (locate_in h (index_hash_string uri) uri None (L ! b))"
    using table_chain [OF assms(1)] chain_locate_chain by (simp add: b_def)
  have mem: "a \<in> set (concat L)" if "a \<in> set (L ! b)" for a
    using that b assms(1) unfolding table_mem by (auto simp: table_def)
  show ?thesis
  proof (cases "locate_in h (index_hash_string uri) uri None (L ! b)")
    case None
    have "table_map h L uri = None"
    proof (rule ccontr)
      assume "table_map h L uri \<noteq> None"
      then obtain a where "table_map h L uri = Some a" by auto
      from table_map_bucket [OF assms(1) this] None show False
        by (auto simp: locate_in_None b_def)
    qed
    with None c show ?thesis by simp
  next
    case (Some x)
    obtain q a where x: "x = (q, a)" by (cases x)
    with locate_in_Some [of h "index_hash_string uri" uri None "L ! b" q a] Some obtain ys zs where
      *: "L ! b = ys @ a # zs" "entry_matches (index_hash_string uri) uri (the (h a))"
        "q = (if ys = [] then None else Some (last ys))" by auto
    then have "table_map h L uri = Some a"
      using mem [of a] table_map_iff [OF assms(1)] by (auto simp: entry_matches_def uri_of_def)
    with * c Some x show ?thesis by auto
  qed
qed

lemma same_links_uri:
  "same_links h h' A \<Longrightarrow> a \<in> A \<Longrightarrow> h a = Some e \<Longrightarrow>
     uri_of h' a = uri_of h a \<and> ie_uri_hash (the (h' a)) = ie_uri_hash (the (h a))"
  unfolding same_links_def uri_of_def by (metis option.sel)

lemma table_same_links:
  assumes "table h n buckets L" "same_links h h' (set (concat L))"
  shows "table h' n buckets L" "table_map h' L = table_map h L"
proof -
  have k: "uri_of h' a = uri_of h a" "ie_uri_hash (the (h' a)) = ie_uri_hash (the (h a))"
    if "a \<in> set (concat L)" for a
    using same_links_uri [OF assms(2) that] table_live [OF assms(1) that] by auto
  have m: "map (uri_of h') (concat L) = map (uri_of h) (concat L)"
    using k by (intro map_cong) auto
  have mem: "a \<in> set (concat L)" if "b < unat n" "a \<in> set (L ! b)" for a b
    using that assms(1) unfolding table_mem by (auto simp: table_def)
  then have sub: "set (L ! b) \<subseteq> set (concat L)" if "b < unat n" for b using that by blast
  have ch: "chain h' (buckets ! b) (L ! b)" if "b < unat n" for b
    using same_links_chain [OF tableD(4) [OF assms(1) that] same_links_mono [OF assms(2) sub [OF that]]] .
  have keys: "ie_uri_hash (the (h' a)) = index_hash_string (uri_of h' a) \<and> bucket_of n (ie_uri_hash (the (h' a))) = b"
    if "b < unat n" "a \<in> set (L ! b)" for a b
    using tableD(5,6) [OF assms(1) that] k [OF mem [OF that]] by metis
  have "distinct (map (uri_of h') (concat L))" using tableD(7) [OF assms(1)] by (simp only: m)
  then show "table h' n buckets L"
    by (intro tableI tableD(1-3) [OF assms(1)] keys ch)
  show "table_map h' L = table_map h L"
    unfolding table_map_def by (rule arg_cong [of _ _ map_of], rule map_cong) (simp_all add: k)
qed

section \<open>Linking and unlinking\<close>

lemma mset_concat_update:
  "b < length L \<Longrightarrow> mset (concat (L[b := xs])) + mset (L ! b) = mset (concat L) + mset xs"
proof (induction L arbitrary: b)
  case (Cons y L)
  then show ?case by (cases b) (auto simp: add.left_commute add.assoc)
qed simp

lemma table_disjoint:
  "table h n buckets L \<Longrightarrow> b < unat n \<Longrightarrow> b' < unat n \<Longrightarrow> a \<in> set (L ! b) \<Longrightarrow> a \<in> set (L ! b') \<Longrightarrow> b = b'"
  using tableD(6) by metis

text \<open>Insertion at the head of a bucket.\<close>

lemma table_insert:
  assumes t: "table h n buckets L" and e: "h a = Some e" "ie_uri_hash e = index_hash_string (ie_uri e)"
    and new: "a \<notin> set (concat L)" "table_map h L (ie_uri e) = None"
    and e': "h' a = Some e'" "ie_next e' = buckets ! bucket_of n (ie_uri_hash e)" "ie_uri e' = ie_uri e"
      "ie_uri_hash e' = ie_uri_hash e"
    and same: "same_links h h' (set (concat L))"
  defines "b \<equiv> bucket_of n (ie_uri_hash e)"
  shows "table h' n (buckets[b := Some a]) (L[b := a # L ! b])"
    "table_map h' (L[b := a # L ! b]) = (table_map h L)(ie_uri e \<mapsto> a)"
proof -
  let ?L = "L[b := a # L ! b]"
  have b: "b < unat n" using table_bucket [OF t] by (simp add: b_def)
  note t' = table_same_links [OF t same]
  have len: "length L = unat n" "length buckets = unat n" using tableD [OF t] by simp_all
  have uri: "uri_of h' a = ie_uri e" using e' by (simp add: uri_of_def)
  have "mset (concat ?L) + mset (L ! b) = mset (concat L) + mset (a # L ! b)"
    using mset_concat_update [of b L "a # L ! b"] b len by simp
  then have ms: "mset (concat ?L) = mset (a # concat L)" by simp
  then have set: "set (concat ?L) = insert a (set (concat L))" by (metis list.set(2) set_mset_mset)
  have fresh: "ie_uri e \<notin> uri_of h' ` set (concat L)"
    using new(2) table_map_None [OF t'(1), of "ie_uri e"] t'(2) by fastforce
  have "distinct (map (uri_of h') (a # concat L))"
    using fresh tableD(7) [OF t'(1)] uri by simp
  moreover have "mset (map (uri_of h') (concat ?L)) = mset (map (uri_of h') (a # concat L))"
    using ms by simp
  ultimately have d: "distinct (map (uri_of h') (concat ?L))" by (metis mset_eq_imp_distinct_iff)
  have ch: "chain h' ((buckets[b := Some a]) ! i) (?L ! i)" if "i < unat n" for i
    using that b len e' tableD(4) [OF t'(1)] by (cases "i = b") (simp_all add: b_def)
  have keys: "ie_uri_hash (the (h' x)) = index_hash_string (uri_of h' x) \<and> bucket_of n (ie_uri_hash (the (h' x))) = i"
    if "i < unat n" "x \<in> set (?L ! i)" for i x
  proof (cases "i = b \<and> x = a")
    case True
    with e e' uri show ?thesis by (simp add: b_def)
  next
    case False
    with that b len have "x \<in> set (L ! i)" by (cases "i = b") simp_all
    with tableD(5,6) [OF t'(1) that(1)] show ?thesis by simp
  qed
  show t2: "table h' n (buckets[b := Some a]) ?L"
    by (intro tableI tableD(1) [OF t] ch keys d) (use len in simp_all)
  show "table_map h' ?L = (table_map h L)(ie_uri e \<mapsto> a)"
  proof
    fix u
    have "table_map h' ?L u = Some x \<longleftrightarrow> ((table_map h' L)(ie_uri e \<mapsto> a)) u = Some x" for x
    proof -
      define C where "C = set (concat L)"
      have "table_map h' ?L u = Some x \<longleftrightarrow> (x = a \<or> x \<in> C) \<and> uri_of h' x = u"
        by (simp only: table_map_iff [OF t2] set insert_iff C_def)
      moreover have "table_map h' L u = Some x \<longleftrightarrow> x \<in> C \<and> uri_of h' x = u"
        by (simp only: table_map_iff [OF t'(1)] C_def)
      moreover have "x \<in> C \<Longrightarrow> uri_of h' x \<noteq> ie_uri e" using fresh by (metis C_def image_eqI)
      ultimately show ?thesis using uri by (cases "u = ie_uri e") auto
    qed
    then show "table_map h' ?L u = ((table_map h L)(ie_uri e \<mapsto> a)) u"
      unfolding t'(2) by (metis not_None_eq)
  qed
qed

text \<open>Unlinking an entry by a store to the place that points to it.\<close>

lemma table_unlink:
  assumes t: "table (heap w) n buckets L" and b: "b < unat n" and split: "L ! b = ys @ a # zs"
    and e: "heap w a = Some e"
  obtains buckets' w' where
    "store_next b (if ys = [] then None else Some (last ys)) (ie_next e) buckets w = Some (buckets', w')"
    "table (heap w') n buckets' (L[b := ys @ zs])"
    "table_map (heap w') (L[b := ys @ zs]) = (table_map (heap w) L)(uri_of (heap w) a := None)"
    "heap w' a = Some e" "a \<notin> set (concat (L[b := ys @ zs]))"
    "\<exists>x. w' = w\<lparr>heap := x\<rparr>" "next_addr w' = next_addr w"
    "\<And>x y. heap w x = Some y \<Longrightarrow> \<exists>y'. heap w' x = Some y' \<and> y' = y\<lparr>ie_next := ie_next y'\<rparr>"
    "\<And>x. heap w x = None \<Longrightarrow> heap w' x = None"
proof -
  let ?L = "L[b := ys @ zs]" and ?h = "heap w"
  note len = tableD(2,3) [OF t]
  have c: "chain ?h (buckets ! b) (ys @ a # zs)" using tableD(4) [OF t b] split by simp
  then have dist: "distinct (ys @ a # zs)" by (rule chain_distinct)
  have "mset (concat ?L) + mset (L ! b) = mset (concat L) + mset (ys @ zs)"
    using mset_concat_update [of b L "ys @ zs"] b len by simp
  then have ms: "mset (a # concat ?L) = mset (concat L)" using split by simp
  have dm: "distinct (map (uri_of ?h) (a # concat ?L))"
    using tableD(7) [OF t] ms by (metis mset_eq_imp_distinct_iff mset_map)
  have dl: "distinct (a # concat ?L)" using distinct_map [THEN iffD1, OF dm] by blast
  have set: "insert a (set (concat ?L)) = set (concat L)" using ms by (metis list.set(2) set_mset_mset)
  define prev where "prev = (if ys = [] then None else Some (last ys))"
  have "\<exists>buckets' w'. store_next b prev (ie_next e) buckets w = Some (buckets', w') \<and>
     length buckets' = unat n \<and> chain (heap w') (buckets' ! b) (ys @ zs) \<and>
     (\<forall>i < unat n. i \<noteq> b \<longrightarrow> chain (heap w') (buckets' ! i) (L ! i)) \<and> (\<exists>x. w' = w\<lparr>heap := x\<rparr>) \<and>
     (\<forall>x y. ?h x = Some y \<longrightarrow> (\<exists>y'. heap w' x = Some y' \<and> y' = y\<lparr>ie_next := ie_next y'\<rparr>)) \<and>
     (\<forall>x. ?h x = None \<longrightarrow> heap w' x = None) \<and> heap w' a = Some e"
  proof (cases "ys = []")
    case True
    have ch: "chain ?h (ie_next e) zs" using c True e by simp
    show ?thesis
    proof (intro exI conjI)
      show "store_next b prev (ie_next e) buckets w = Some (buckets[b := ie_next e], w)"
        using True by (simp add: store_next_def prev_def)
      show "chain ?h (buckets[b := ie_next e] ! b) (ys @ zs)" using ch True b len by simp
      show "\<forall>i < unat n. i \<noteq> b \<longrightarrow> chain ?h (buckets[b := ie_next e] ! i) (L ! i)" using tableD(4) [OF t] by simp
      show "w = w\<lparr>heap := ?h\<rparr>" by simp
    qed (use len e in simp_all)
  next
    case False
    then obtain l where l: "?h (last ys) = Some l" using chain_live [OF c, of "last ys"] by auto
    let ?w = "w\<lparr>heap := ?h(last ys \<mapsto> l\<lparr>ie_next := ie_next e\<rparr>)\<rparr>"
    have "store_next b prev (ie_next e) buckets w = Some (buckets, ?w)"
      using False l by (simp add: store_next_def prev_def upd_entry_def)
    moreover have "chain (heap ?w) (buckets ! b) (ys @ zs)"
      using chain_append_unlink [OF c False l e] by simp
    moreover have "chain (heap ?w) (buckets ! i) (L ! i)" if "i < unat n" "i \<noteq> b" for i
    proof -
      have "last ys \<notin> set (L ! i)" using table_disjoint [OF t b that(1)] that(2) split last_in_set [OF False] by auto
      then have "same_links ?h (heap ?w) (set (L ! i))" using same_links_fresh by simp
      with tableD(4) [OF t that(1)] show ?thesis by (rule same_links_chain)
    qed
    moreover have "last ys \<noteq> a" using dist False last_in_set [of ys] by auto
    ultimately show ?thesis using e l len by (intro exI [of _ buckets] exI [of _ ?w]) auto
  qed
  then obtain buckets' w' where s: "store_next b prev (ie_next e) buckets w = Some (buckets', w')"
    and l': "length buckets' = unat n" and cb: "chain (heap w') (buckets' ! b) (ys @ zs)"
    and co: "\<forall>i < unat n. i \<noteq> b \<longrightarrow> chain (heap w') (buckets' ! i) (L ! i)" and w': "\<exists>x. w' = w\<lparr>heap := x\<rparr>"
    and k: "\<forall>x y. ?h x = Some y \<longrightarrow> (\<exists>y'. heap w' x = Some y' \<and> y' = y\<lparr>ie_next := ie_next y'\<rparr>)"
    and no: "\<forall>x. ?h x = None \<longrightarrow> heap w' x = None" and ea: "heap w' a = Some e" by blast
  have key: "uri_of (heap w') x = uri_of ?h x \<and> ie_uri_hash (the (heap w' x)) = ie_uri_hash (the (?h x))"
    if "?h x = Some y" for x y
  proof -
    from k that obtain y' where "heap w' x = Some y'" "y' = y\<lparr>ie_next := ie_next y'\<rparr>" by blast
    then have "ie_uri y' = ie_uri y" "ie_uri_hash y' = ie_uri_hash y"
      by (metis index_entry.simps(1) index_entry.surjective index_entry.update_convs(15),
          metis index_entry.simps(2) index_entry.surjective index_entry.update_convs(15))
    with that \<open>heap w' x = Some y'\<close> show ?thesis by (simp add: uri_of_def)
  qed
  have sub: "x \<in> set (L ! i)" if "i < unat n" "x \<in> set (?L ! i)" for x i
    using that b len split by (cases "i = b") auto
  have live: "\<exists>y. ?h x = Some y" if "x \<in> set (concat L)" for x using table_live [OF t that] .
  have mem: "x \<in> set (concat L)" if "i < unat n" "x \<in> set (L ! i)" for x i
    using that len unfolding table_mem by auto
  have kk: "ie_uri_hash (the (heap w' x)) = index_hash_string (uri_of (heap w') x) \<and>
      bucket_of n (ie_uri_hash (the (heap w' x))) = i" if i: "i < unat n" "x \<in> set (?L ! i)" for x i
    using tableD(5,6) [OF t i(1) sub [OF i]] live [OF mem [OF i(1) sub [OF i]]] key by fastforce
  have "map (uri_of (heap w')) (concat ?L) = map (uri_of ?h) (concat ?L)"
    using live set key by (intro map_cong) (auto, blast)
  then have "distinct (map (uri_of (heap w')) (concat ?L))" using dm by (metis distinct.simps(2) list.simps(9))
  moreover have "chain (heap w') (buckets' ! i) (?L ! i)" if "i < unat n" for i
    using that b len cb co by (cases "i = b") auto
  ultimately have t2: "table (heap w') n buckets' ?L"
    by (intro tableI tableD(1) [OF t] l' kk) (use len in simp_all)
  have m: "table_map (heap w') ?L = (table_map ?h L)(uri_of ?h a := None)"
  proof
    fix u
    define C D where "C = set (concat L)" and "D = set (concat ?L)"
    have D: "C = insert a D" "a \<notin> D" using set dl by (simp_all add: C_def D_def del: set_concat)
    have "uri_of ?h a \<notin> uri_of ?h ` D" using dm by (simp add: D_def del: set_concat)
    then have ne: "x \<in> D \<Longrightarrow> uri_of ?h x \<noteq> uri_of ?h a" for x by (metis image_eqI)
    have eq: "x \<in> D \<Longrightarrow> uri_of (heap w') x = uri_of ?h x" for x
      using live [of x] key D by (metis C_def insertCI)
    have i1: "table_map (heap w') ?L u = Some x \<longleftrightarrow> x \<in> D \<and> uri_of (heap w') x = u" for x
      by (simp only: table_map_iff [OF t2] D_def)
    have i2: "table_map ?h L u = Some x \<longleftrightarrow> x \<in> C \<and> uri_of ?h x = u" for x
      by (simp only: table_map_iff [OF t] C_def)
    have "table_map (heap w') ?L u = Some x \<longleftrightarrow> ((table_map ?h L)(uri_of ?h a := None)) u = Some x" for x
      using i1 [of x] i2 [of x] ne [of x] eq [of x] D by (cases "u = uri_of ?h a") auto
    then show "table_map (heap w') ?L u = ((table_map ?h L)(uri_of ?h a := None)) u" by (metis not_None_eq)
  qed
  from w' have na: "next_addr w' = next_addr w" by auto
  from dl have nin: "a \<notin> set (concat ?L)" by simp
  show ?thesis
    by (rule that [OF s [unfolded prev_def] t2 m ea nin w' na]) (use k no in blast)+
qed

section \<open>The map a table represents\<close>

definition table_rep :: "u64 \<Rightarrow> addr option list \<Rightarrow> u64 \<Rightarrow> entry_heap \<Rightarrow> (string \<Rightarrow> addr option) \<Rightarrow> bool" where
  "table_rep n buckets cnt h m \<longleftrightarrow>
     (\<exists>L. table h n buckets L \<and> m = table_map h L \<and> cnt = of_nat (length (concat L)))"

text \<open>The URI of an entry whose stored hash is that of its URI, as \<open>index_entry_create\<close> leaves it.\<close>

definition entry_key :: "entry_heap \<Rightarrow> addr \<Rightarrow> string option" where
  "entry_key h a =
     (case h a of
        Some e \<Rightarrow> if ie_uri_hash e = index_hash_string (ie_uri e) then Some (ie_uri e) else None
      | None \<Rightarrow> None)"

lemma entry_key_Some: "entry_key h a = Some u \<longleftrightarrow>
    (\<exists>e. h a = Some e \<and> ie_uri e = u \<and> ie_uri_hash e = index_hash_string u)"
  by (auto simp: entry_key_def split: option.splits)

lemma entry_key_upd:
  assumes "h a = Some e" "ie_uri e' = ie_uri e" "ie_uri_hash e' = ie_uri_hash e"
  shows "entry_key (h(a \<mapsto> e')) = entry_key h"
  using assms by (auto simp: entry_key_def fun_eq_iff)

lemma rep_same:
  assumes "table_rep n buckets cnt h m" "\<And>A. same_links h h' A"
  shows "table_rep n buckets cnt h' m"
proof -
  from assms(1) obtain L where "table h n buckets L" "m = table_map h L" "cnt = of_nat (length (concat L))"
    by (auto simp: table_rep_def)
  with table_same_links [OF this(1) assms(2)] show ?thesis by (auto simp: table_rep_def intro!: exI [of _ L])
qed

lemma rep_entry:
  assumes "table_rep n buckets cnt h m" "m u = Some a"
  obtains e where "h a = Some e" "ie_uri e = u" "ie_uri_hash e = index_hash_string u"
proof -
  from assms(1) obtain L where t: "table h n buckets L" "m = table_map h L" by (auto simp: table_rep_def)
  with assms(2) have "a \<in> set (concat L)" by (simp only: table_map_iff)
  from table_live [OF t(1) this] table_map_bucket(2) [OF t(1), of u a] assms(2) t(2) that show ?thesis
    by (auto simp: entry_matches_def)
qed

lemma rep_ran_fresh:
  assumes "table_rep n buckets cnt h m" "h a = None" shows "a \<notin> ran m"
proof
  assume "a \<in> ran m"
  then obtain u where "m u = Some a" by (auto simp: ran_def)
  from rep_entry [OF assms(1) this] assms(2) show False by auto
qed

lemma rep_empty:
  assumes "k < 64" shows "table_rep (2 ^ k) (replicate (unat (2 ^ k :: u64)) None) 0 h Map.empty"
  unfolding table_rep_def
proof (intro exI conjI)
  let ?L = "replicate (unat (2 ^ k :: u64)) []"
  show "table h (2 ^ k) (replicate (unat (2 ^ k :: u64)) None) ?L" using assms by (intro tableI) auto
  show "Map.empty = table_map h ?L" by (simp add: table_map_def)
qed simp

lemma rep_walk:
  fixes u
  assumes "table_rep n buckets cnt h m"
  defines "b \<equiv> bucket_of n (index_hash_string u)"
  shows "bucket_at buckets b = Some (buckets ! b)"
    "m u = None \<Longrightarrow> chain_locate h (index_hash_string u) u None (buckets ! b) = Some None"
    "m u = Some a \<Longrightarrow> \<exists>q. chain_locate h (index_hash_string u) u None (buckets ! b) = Some (Some (q, a))"
proof -
  from assms(1) obtain L where t: "table h n buckets L" "m = table_map h L" by (auto simp: table_rep_def)
  show "bucket_at buckets b = Some (buckets ! b)" using table_chain(1) [OF t(1)] by (simp add: b_def)
  show "m u = None \<Longrightarrow> chain_locate h (index_hash_string u) u None (buckets ! b) = Some None"
    "m u = Some a \<Longrightarrow> \<exists>q. chain_locate h (index_hash_string u) u None (buckets ! b) = Some (Some (q, a))"
    using table_locate [OF t(1), of u] t(2) by (auto simp: b_def)
qed

lemma rep_insert:
  assumes r: "table_rep n buckets cnt h m" and e: "h a = Some e" "ie_uri_hash e = index_hash_string (ie_uri e)"
    and new: "m (ie_uri e) = None" "a \<notin> ran m"
    and e': "ie_next e' = buckets ! bucket_of n (ie_uri_hash e)" "ie_uri e' = ie_uri e" "ie_uri_hash e' = ie_uri_hash e"
  shows "table_rep n (buckets[bucket_of n (ie_uri_hash e) := Some a]) (cnt + 1) (h(a \<mapsto> e')) (m(ie_uri e \<mapsto> a))"
proof -
  define b where "b = bucket_of n (ie_uri_hash e)"
  from r obtain L where t: "table h n buckets L" and m: "m = table_map h L" and c: "cnt = of_nat (length (concat L))"
    by (auto simp: table_rep_def)
  have nin: "a \<notin> set (concat L)"
    using new(2) table_map_iff [OF t, of "uri_of h a" a] m by (auto simp: ran_def simp del: set_concat)
  have ti: "table (h(a \<mapsto> e')) n (buckets[b := Some a]) (L[b := a # L ! b])"
    "table_map (h(a \<mapsto> e')) (L[b := a # L ! b]) = m(ie_uri e \<mapsto> a)"
    unfolding b_def m using table_insert [OF t e nin _ _ _ _ _ same_links_fresh [OF nin], of "Some e'" e'] e' new(1) m
    by simp_all
  have "b < length L" using table_bucket [OF t] tableD(3) [OF t] by (simp add: b_def)
  from mset_concat_update [OF this, of "a # L ! b"]
  have "mset (concat (L[b := a # L ! b])) = mset (a # concat L)" by simp
  then have "length (concat (L[b := a # L ! b])) = Suc (length (concat L))" by (metis length_Cons size_mset)
  then show ?thesis
    using ti c by (auto simp: table_rep_def b_def intro!: exI [of _ "L[b := a # L ! b]"])
qed

text \<open>Unlinking, followed by an arbitrary change of the unlinked entry.\<close>

lemma rep_unlink:
  assumes "table_rep n buckets cnt (heap w) m" "m u = Some a" "heap w a = Some e"
  obtains prev buckets' w' where
    "chain_locate (heap w) (index_hash_string u) u None (buckets ! bucket_of n (index_hash_string u)) = Some (Some (prev, a))"
    "store_next (bucket_of n (index_hash_string u)) prev (ie_next e) buckets w = Some (buckets', w')"
    "\<And>x. table_rep n buckets' (cnt - 1) ((heap w')(a := x)) (m(u := None))"
    "heap w' a = Some e" "\<exists>x. w' = w\<lparr>heap := x\<rparr>"
    "\<And>x y. heap w x = Some y \<Longrightarrow> \<exists>y'. heap w' x = Some y' \<and> y' = y\<lparr>ie_next := ie_next y'\<rparr>"
    "\<And>x. heap w x = None \<Longrightarrow> heap w' x = None"
proof -
  from assms(1) obtain L where t: "table (heap w) n buckets L"
    and m: "m = table_map (heap w) L" and c: "cnt = of_nat (length (concat L))" by (auto simp: table_rep_def)
  define b where "b = bucket_of n (index_hash_string u)"
  have b: "b < unat n" using table_bucket [OF t] by (simp add: b_def)
  from table_locate [OF t, of u] assms(2) m obtain ys zs where split: "L ! b = ys @ a # zs" and
    walk: "chain_locate (heap w) (index_hash_string u) u None (buckets ! b) =
       Some (Some (if ys = [] then None else Some (last ys), a))" by (auto simp: b_def)
  have u: "uri_of (heap w) a = u" using assms(2) m table_map_iff [OF t] by simp
  obtain bs w1 where
    st: "store_next b (if ys = [] then None else Some (last ys)) (ie_next e) buckets w = Some (bs, w1)"
    and t1: "table (heap w1) n bs (L[b := ys @ zs])"
    and m1: "table_map (heap w1) (L[b := ys @ zs]) = (table_map (heap w) L)(uri_of (heap w) a := None)"
    and e1: "heap w1 a = Some e" "a \<notin> set (concat (L[b := ys @ zs]))" "\<exists>x. w1 = w\<lparr>heap := x\<rparr>"
    and k1: "\<And>x y. heap w x = Some y \<Longrightarrow> \<exists>y'. heap w1 x = Some y' \<and> y' = y\<lparr>ie_next := ie_next y'\<rparr>"
    and n1: "\<And>x. heap w x = None \<Longrightarrow> heap w1 x = None"
    by (rule table_unlink [OF t b split assms(3)]) blast
  have "mset (concat (L[b := ys @ zs])) + mset (L ! b) = mset (concat L) + mset (ys @ zs)"
    using mset_concat_update [of b L "ys @ zs"] b tableD(3) [OF t] by simp
  then have "mset (a # concat (L[b := ys @ zs])) = mset (concat L)" using split by simp
  then have "length (concat L) = Suc (length (concat (L[b := ys @ zs])))" by (metis length_Cons size_mset)
  then have cnt: "cnt - 1 = of_nat (length (concat (L[b := ys @ zs])))" using c by simp
  have "table_rep n bs (cnt - 1) ((heap w1)(a := x)) (m(u := None))" for x
    using table_same_links [OF t1 same_links_fresh [OF e1(2)], of x] cnt m1 m u
    by (auto simp: table_rep_def intro!: exI [of _ "L[b := ys @ zs]"])
  then show ?thesis by (rule that [OF walk [unfolded b_def] st [unfolded b_def] _ e1(1,3) k1 n1])
qed

end
