(* ===== verification/Index_Laws.thy ===== *)
theory Index_Laws
  imports Index_Chains
begin

text \<open>
  The contract of the two hash tables: each represents a finite map from URIs to entries,
  and lookup, insertion and removal are the operations of that map. The contract is a locale,
  met by the global index and by the index of a backend as long as an entry is linked into
  one of them only. The last section shows what happens to an entry that is linked into both.
\<close>

section \<open>The interface of an index of URIs\<close>

text \<open>
  \<open>rep i w m\<close>: the index \<open>i\<close> in the state \<open>w\<close> represents the map \<open>m\<close>. \<open>key w a\<close>: the
  URI of the entry at \<open>a\<close>, when there is one.
\<close>

locale uri_index =
  fixes rep :: "'i \<Rightarrow> 'w \<Rightarrow> (string \<Rightarrow> addr option) \<Rightarrow> bool"
    and key :: "'w \<Rightarrow> addr \<Rightarrow> string option"
    and look :: "'i \<Rightarrow> string \<Rightarrow> 'w \<Rightarrow> (addr option \<times> 'i \<times> 'w) option"
    and ins :: "'i \<Rightarrow> addr \<Rightarrow> 'w \<Rightarrow> ('i \<times> 'w) option"
    and del :: "'i \<Rightarrow> string \<Rightarrow> 'w \<Rightarrow> (bool \<times> 'i \<times> 'w) option"
  assumes look_law: "rep i w m \<Longrightarrow>
      \<exists>i' w'. look i u w = Some (m u, i', w') \<and> rep i' w' m \<and> key w' = key w"
    and ins_law: "rep i w m \<Longrightarrow> key w a = Some u \<Longrightarrow> m u = None \<Longrightarrow> a \<notin> ran m \<Longrightarrow>
      \<exists>i' w'. ins i a w = Some (i', w') \<and> rep i' w' (m(u \<mapsto> a)) \<and> key w' = key w"
    and del_law: "rep i w m \<Longrightarrow>
      \<exists>i' w'. del i u w = Some (m u \<noteq> None, i', w') \<and> rep i' w' (m(u := None)) \<and>
        (\<forall>a. m u \<noteq> Some a \<longrightarrow> key w' a = key w a)"
begin

text \<open>A series of insertions, and what it represents.\<close>

fun ins_all :: "'i \<Rightarrow> addr list \<Rightarrow> 'w \<Rightarrow> ('i \<times> 'w) option" where
  "ins_all i [] w = Some (i, w)"
| "ins_all i (a # as) w = do { (i, w) \<leftarrow> ins i a w; ins_all i as w }"

lemma ins_all_rep:
  assumes "rep i w m" "distinct as" "set as \<inter> ran m = {}" "list_all2 (\<lambda>a u. key w a = Some u) as us"
    "distinct us" "set us \<inter> dom m = {}"
  shows "\<exists>i' w'. ins_all i as w = Some (i', w') \<and> rep i' w' (m ++ map_of (zip us as)) \<and> key w' = key w"
  using assms
proof (induction as arbitrary: i w m us)
  case Nil
  then show ?case by simp
next
  case (Cons a as)
  from Cons.prems(4) obtain u vs where us: "us = u # vs" "key w a = Some u"
      "list_all2 (\<lambda>a u. key w a = Some u) as vs" by (auto simp: list_all2_Cons1)
  with Cons.prems have "m u = None" "a \<notin> ran m" by auto
  from ins_law [OF Cons.prems(1) us(2) this] obtain i1 w1 where
    1: "ins i a w = Some (i1, w1)" "rep i1 w1 (m(u \<mapsto> a))" "key w1 = key w" by blast
  have "ran (m(u \<mapsto> a)) \<subseteq> insert a (ran m)" by (auto simp: ran_def)
  then have "set as \<inter> ran (m(u \<mapsto> a)) = {}" using Cons.prems(2,3) by auto
  moreover have "set vs \<inter> dom (m(u \<mapsto> a)) = {}" "distinct vs" using Cons.prems(5,6) us by auto
  moreover have "distinct as" "list_all2 (\<lambda>a u. key w1 a = Some u) as vs" using Cons.prems(2) us(3) 1(3) by simp_all
  ultimately obtain i' w' where
    2: "ins_all i1 as w1 = Some (i', w')" "rep i' w' (m(u \<mapsto> a) ++ map_of (zip vs as))" "key w' = key w1"
    using Cons.IH [OF 1(2)] by blast
  have "u \<notin> dom (map_of (zip vs as))" using Cons.prems(5) us by (auto dest: map_of_SomeD set_zip_leftD)
  then have "m(u \<mapsto> a) ++ map_of (zip vs as) = m ++ (map_of (zip vs as))(u \<mapsto> a)"
    by (auto simp: fun_eq_iff map_add_def split: option.splits)
  moreover have "map_of (zip us (a # as)) = (map_of (zip vs as))(u \<mapsto> a)" by (simp only: us) simp
  ultimately have "rep i' w' (m ++ map_of (zip us (a # as)))" using 2(2) by (simp only:)
  moreover have "ins_all i (a # as) w = Some (i', w')" using 1(1) 2(1) by simp
  moreover have "key w' = key w" using 1(3) 2(3) by simp
  ultimately show ?case by blast
qed

lemma look_after_ins_all:
  assumes "rep i w Map.empty" "distinct as" "list_all2 (\<lambda>a u. key w a = Some u) as us" "distinct us"
  shows "\<exists>i' w'. ins_all i as w = Some (i', w') \<and>
     (\<forall>k < length as. map_option fst (look i' (us ! k) w') = Some (Some (as ! k)))"
proof -
  from ins_all_rep [OF assms(1,2) _ assms(3,4)] obtain i' w' where
    r: "ins_all i as w = Some (i', w')" "rep i' w' (map_of (zip us as))" by auto
  have len: "length us = length as" using assms(3) by (simp add: list_all2_lengthD)
  have "map_option fst (look i' (us ! k) w') = Some (Some (as ! k))" if "k < length as" for k
    using look_law [OF r(2), of "us ! k"] map_of_zip_nth [OF len assms(4) that] by auto
  with r(1) show ?thesis by blast
qed

lemma look_after_del:
  assumes "rep i w m"
  shows "\<exists>i' w'. del i u w = Some (m u \<noteq> None, i', w') \<and>
     map_option fst (look i' v w') = Some (if v = u then None else m v)"
proof -
  from del_law [OF assms] obtain i' w' where
    "del i u w = Some (m u \<noteq> None, i', w')" "rep i' w' (m(u := None))" by blast
  with look_law [OF this(2), of v] show ?thesis by auto
qed

end

section \<open>The global index\<close>

abbreviation gi_rep :: "global_index \<Rightarrow> entry_heap \<Rightarrow> (string \<Rightarrow> addr option) \<Rightarrow> bool" where
  "gi_rep idx \<equiv> table_rep (gi_num_buckets idx) (gi_buckets idx) (gi_num_entries idx)"

text \<open>Descriptors of a lookup.\<close>

lemma open_for_lookup_frame:
  assumes "open_for_lookup p w = (fd, w')"
  shows "heap w' = heap w" "next_addr w' = next_addr w" "clock w' = clock w" "dir w' = dir w"
    "inodes w' = inodes w" "tx w' = tx w" "rx w' = rx w" "is_dir w' = is_dir w"
  using assms
  by (auto simp: open_for_lookup_def Let_def split: option.splits prod.splits if_splits elim!: sys_open_frame)

lemma open_for_lookup_fds:
  assumes "open_for_lookup p w = (fd, w')"
  shows "0 \<le> fd \<Longrightarrow> \<exists>d path. fd_obj w fd = None \<and> fd_obj w' fd = Some d \<and> p = Some path \<and>
           dir w path = Some (of_ino (ofds w' d)) \<and> of_off (ofds w' d) = 0"
    and "fd' \<noteq> fd \<Longrightarrow> fd_obj w' fd' = fd_obj w fd'"
proof -
  have *: "(0 \<le> fd \<longrightarrow> (\<exists>d path. fd_obj w fd = None \<and> fd_obj w' fd = Some d \<and> p = Some path \<and>
           dir w path = Some (of_ino (ofds w' d)) \<and> of_off (ofds w' d) = 0)) \<and>
     (\<forall>fd'. fd' \<noteq> fd \<longrightarrow> fd_obj w' fd' = fd_obj w fd')"
  proof (cases p)
    case None
    with assms show ?thesis by (auto simp: open_for_lookup_def)
  next
    case (Some path)
    obtain fd1 w1 where o1: "sys_open O_RDWR path w = (fd1, w1)" by (cases "sys_open O_RDWR path w")
    note r1 = sys_open_result [OF o1]
    show ?thesis
    proof (cases "fd1 < 0")
      case False
      with assms Some o1 have "fd = fd1" "w' = w1" by (auto simp: open_for_lookup_def)
      with r1 False Some show ?thesis by fastforce
    next
      case True
      then have f1: "fd1 = -1" by (rule r1(3))
      have same: "fd_obj w1 x = fd_obj w x" for x using r1(2) [of x] f1 by (cases "x = -1") (auto simp: fd_obj_def)
      have d1: "dir w1 = dir w" by (rule sys_open_frame [OF o1]) simp
      from True assms Some o1 have o2: "sys_open O_RDONLY path w1 = (fd, w')" by (auto simp: open_for_lookup_def)
      from sys_open_result [OF o2] same d1 Some show ?thesis by fastforce
    qed
  qed
  then show "0 \<le> fd \<Longrightarrow> \<exists>d path. fd_obj w fd = None \<and> fd_obj w' fd = Some d \<and> p = Some path \<and>
           dir w path = Some (of_ino (ofds w' d)) \<and> of_off (ofds w' d) = 0"
    and "fd' \<noteq> fd \<Longrightarrow> fd_obj w' fd' = fd_obj w fd'" by blast+
qed

definition touched :: "index_entry \<Rightarrow> int \<Rightarrow> u64 \<Rightarrow> index_entry" where
  "touched e fd now =
     e\<lparr>ie_entry_refcount := ie_entry_refcount e + 1, ie_access_count := ie_access_count e + 1,
       ie_last_access := now, ie_fd_refcount := ie_fd_refcount e + (if 0 \<le> fd then 1 else 0)\<rparr>"

lemma touched_key [simp]:
  "ie_next (touched e fd now) = ie_next e" "ie_uri (touched e fd now) = ie_uri e"
  "ie_uri_hash (touched e fd now) = ie_uri_hash e" "ie_fd (touched e fd now) = ie_fd e"
  "ie_backend_path (touched e fd now) = ie_backend_path e"
  "ie_entry_refcount (touched e fd now) = ie_entry_refcount e + 1"
  "ie_fd_refcount (touched e fd now) = ie_fd_refcount e + (if 0 \<le> fd then 1 else 0)"
  by (simp_all add: touched_def)

lemma lookup_miss:
  assumes "gi_rep idx (heap w) m" "m u = None"
  shows "global_index_lookup idx u w =
    Some (None, idx\<lparr>gi_stat_lookups := gi_stat_lookups idx + 1, gi_stat_misses := gi_stat_misses idx + 1\<rparr>, w)"
  using rep_walk(1) [OF assms(1), of u] rep_walk(2) [OF assms(1), of u] assms(2)
  by (simp add: global_index_lookup_def)

lemma lookup_hit:
  assumes "gi_rep idx (heap w) m" "m u = Some a" "heap w a = Some e"
  obtains fd w1 where
    "open_for_lookup (ie_backend_path e) (w\<lparr>heap := (heap w)(a \<mapsto> e\<lparr>ie_entry_refcount := ie_entry_refcount e + 1\<rparr>)\<rparr>)
       = (fd, w1)"
    "global_index_lookup idx u w = Some (Some \<lparr>fr_entry = Some a, fr_fd = fd, fr_generation = 0\<rparr>,
       idx\<lparr>gi_stat_lookups := gi_stat_lookups idx + 1, gi_stat_hits := gi_stat_hits idx + 1\<rparr>,
       w1\<lparr>heap := (heap w)(a \<mapsto> touched e fd (clock w))\<rparr>)"
proof -
  let ?w0 = "w\<lparr>heap := (heap w)(a \<mapsto> e\<lparr>ie_entry_refcount := ie_entry_refcount e + 1\<rparr>)\<rparr>"
  obtain fd w1 where o: "open_for_lookup (ie_backend_path e) ?w0 = (fd, w1)"
    by (cases "open_for_lookup (ie_backend_path e) ?w0")
  have f: "heap w1 = (heap w)(a \<mapsto> e\<lparr>ie_entry_refcount := ie_entry_refcount e + 1\<rparr>)" "clock w1 = clock w"
    using open_for_lookup_frame [OF o] by simp_all
  obtain q where "chain_locate (heap w) (index_hash_string u) u None
      (gi_buckets idx ! bucket_of (gi_num_buckets idx) (index_hash_string u)) = Some (Some (q, a))"
    using rep_walk(3) [OF assms(1,2)] by blast
  with rep_walk(1) [OF assms(1), of u] assms(3) o f have
    "global_index_lookup idx u w = Some (Some \<lparr>fr_entry = Some a, fr_fd = fd, fr_generation = 0\<rparr>,
       idx\<lparr>gi_stat_lookups := gi_stat_lookups idx + 1, gi_stat_hits := gi_stat_hits idx + 1\<rparr>,
       w1\<lparr>heap := (heap w)(a \<mapsto> touched e fd (clock w))\<rparr>)"
    by (simp add: global_index_lookup_def index_entry_get_def index_entry_record_access_def upd_entry_def
        touched_def)
  with o show ?thesis by (rule that)
qed

lemma lookup_rep:
  assumes "gi_rep idx (heap w) m" "m u = Some a"
  obtains e fd idx' w' where "heap w a = Some e"
    "global_index_lookup idx u w = Some (Some \<lparr>fr_entry = Some a, fr_fd = fd, fr_generation = 0\<rparr>, idx', w')"
    "gi_rep idx' (heap w') m" "heap w' = (heap w)(a \<mapsto> touched e fd (clock w))"
    "next_addr w' = next_addr w" "dir w' = dir w" "inodes w' = inodes w"
    "gi_stat_hits idx' = gi_stat_hits idx + 1"
    "0 \<le> fd \<Longrightarrow> fd_obj w fd = None \<and> (\<exists>d path. fd_obj w' fd = Some d \<and> ie_backend_path e = Some path \<and>
       dir w path = Some (of_ino (ofds w' d)) \<and> of_off (ofds w' d) = 0)"
    "\<And>x. x \<noteq> fd \<Longrightarrow> fd_obj w' x = fd_obj w x"
proof -
  obtain e where e: "heap w a = Some e" using rep_entry [OF assms] by blast
  let ?w0 = "w\<lparr>heap := (heap w)(a \<mapsto> e\<lparr>ie_entry_refcount := ie_entry_refcount e + 1\<rparr>)\<rparr>"
  obtain fd w1 where o: "open_for_lookup (ie_backend_path e) ?w0 = (fd, w1)"
    and l: "global_index_lookup idx u w = Some (Some \<lparr>fr_entry = Some a, fr_fd = fd, fr_generation = 0\<rparr>,
       idx\<lparr>gi_stat_lookups := gi_stat_lookups idx + 1, gi_stat_hits := gi_stat_hits idx + 1\<rparr>,
       w1\<lparr>heap := (heap w)(a \<mapsto> touched e fd (clock w))\<rparr>)"
    using lookup_hit [OF assms e] .
  let ?w' = "w1\<lparr>heap := (heap w)(a \<mapsto> touched e fd (clock w))\<rparr>"
  note fr = open_for_lookup_frame [OF o] and fo = open_for_lookup_fds [OF o]
  have fw: "fd_obj ?w0 x = fd_obj w x" "fd_obj ?w' x = fd_obj w1 x" for x by simp_all
  have rep: "gi_rep (idx\<lparr>gi_stat_lookups := gi_stat_lookups idx + 1, gi_stat_hits := gi_stat_hits idx + 1\<rparr>)
      (heap ?w') m"
    using rep_same [OF assms(1), of "heap ?w'"] same_links_upd [of "heap w" a e] e by simp
  have fds: "0 \<le> fd \<Longrightarrow> fd_obj w fd = None \<and> (\<exists>d path. fd_obj ?w' fd = Some d \<and> ie_backend_path e = Some path \<and>
       dir w path = Some (of_ino (ofds ?w' d)) \<and> of_off (ofds ?w' d) = 0)" "x \<noteq> fd \<Longrightarrow> fd_obj ?w' x = fd_obj w x" for x
    using fo fw by auto
  show ?thesis by (rule that [OF e l rep]) (use fr fds in simp_all)
qed

text \<open>Insertion.\<close>

lemma insert_new:
  assumes "gi_rep idx (heap w) m" "entry_key (heap w) a = Some u" "m u = None" "a \<notin> ran m"
  obtains e idx' where "heap w a = Some e" "ie_uri e = u" "gi_num_entries idx' = gi_num_entries idx + 1"
    "global_index_insert idx a w = Some (True, idx', w\<lparr>heap := (heap w)(a \<mapsto>
       e\<lparr>ie_next := gi_buckets idx ! bucket_of (gi_num_buckets idx) (index_hash_string u)\<rparr>)\<rparr>)"
    "gi_rep idx' ((heap w)(a \<mapsto>
       e\<lparr>ie_next := gi_buckets idx ! bucket_of (gi_num_buckets idx) (index_hash_string u)\<rparr>)) (m(u \<mapsto> a))"
proof -
  from assms(2) obtain e where e: "heap w a = Some e" "ie_uri e = u" "ie_uri_hash e = index_hash_string u"
    by (auto simp: entry_key_Some)
  let ?b = "bucket_of (gi_num_buckets idx) (index_hash_string u)"
  let ?idx = "idx\<lparr>gi_buckets := (gi_buckets idx)[?b := Some a], gi_num_entries := gi_num_entries idx + 1\<rparr>"
  have "global_index_insert idx a w =
      Some (True, ?idx, w\<lparr>heap := (heap w)(a \<mapsto> e\<lparr>ie_next := gi_buckets idx ! ?b\<rparr>)\<rparr>)"
    using rep_walk(1,2) [OF assms(1), of u] assms(3) e by (simp add: global_index_insert_def upd_entry_def Let_def)
  moreover have "gi_rep ?idx ((heap w)(a \<mapsto> e\<lparr>ie_next := gi_buckets idx ! ?b\<rparr>)) (m(u \<mapsto> a))"
    using rep_insert [OF assms(1) e(1), of "e\<lparr>ie_next := gi_buckets idx ! ?b\<rparr>"] e assms(3,4) by simp
  ultimately show ?thesis using e by (intro that [of e ?idx]) simp_all
qed

lemma insert_duplicate:
  assumes "gi_rep idx (heap w) m" "entry_key (heap w) a = Some u" "m u = Some a'"
  shows "global_index_insert idx a w = Some (False, idx, w)"
proof -
  from assms(2) obtain e where e: "heap w a = Some e" "ie_uri e = u" "ie_uri_hash e = index_hash_string u"
    by (auto simp: entry_key_Some)
  with rep_walk(1) [OF assms(1), of u] rep_walk(3) [OF assms(1,3)] show ?thesis
    by (auto simp: global_index_insert_def Let_def)
qed

text \<open>Removal.\<close>

definition put_result :: "index_entry \<Rightarrow> index_entry option" where
  "put_result e = (if ie_entry_refcount e = 1 then None else Some (e\<lparr>ie_entry_refcount := ie_entry_refcount e - 1\<rparr>))"

lemma entry_put_heap:
  assumes "heap w a = Some e"
  obtains w' where "index_entry_put a w = Some w'" "heap w' = (heap w)(a := put_result e)" "next_addr w' = next_addr w"
    "ie_fd e < 0 \<Longrightarrow> w' = w\<lparr>heap := (heap w)(a := put_result e)\<rparr>"
proof (cases "ie_entry_refcount e = 1")
  case True
  let ?w = "if 0 \<le> ie_fd e then sys_close (ie_fd e) w else w"
  from True assms show ?thesis
    by (intro that [of "?w\<lparr>heap := (heap ?w)(a := None)\<rparr>"]) (auto simp: index_entry_put_def put_result_def)
next
  case False
  with assms show ?thesis
    by (intro that [of "w\<lparr>heap := (heap w)(a := put_result e)\<rparr>"])
       (auto simp: index_entry_put_def upd_entry_def put_result_def)
qed

lemma remove_miss:
  assumes "gi_rep idx (heap w) m" "m u = None"
  shows "global_index_remove idx u w = Some (False, idx, w)"
  using rep_walk(1,2) [OF assms(1), of u] assms(2) by (simp add: global_index_remove_def Let_def)

lemma remove_hit:
  assumes "gi_rep idx (heap w) m" "m u = Some a" "heap w a = Some e"
  obtains idx' w' where "global_index_remove idx u w = Some (True, idx', w')"
    "gi_rep idx' (heap w') (m(u := None))" "heap w' a = put_result (e\<lparr>ie_fd := -1\<rparr>)"
    "\<And>x y. x \<noteq> a \<Longrightarrow> heap w x = Some y \<Longrightarrow> \<exists>y'. heap w' x = Some y' \<and> y' = y\<lparr>ie_next := ie_next y'\<rparr>"
    "\<And>x. heap w x = None \<Longrightarrow> heap w' x = None"
    "\<And>fd. fd_obj w' fd = (if fd = ie_fd e then None else fd_obj w fd)"
    "gi_num_entries idx' = gi_num_entries idx - 1"
proof -
  let ?b = "bucket_of (gi_num_buckets idx) (index_hash_string u)" and ?e = "e\<lparr>ie_fd := -1\<rparr>"
  obtain prev bs w1 where
    walk: "chain_locate (heap w) (index_hash_string u) u None (gi_buckets idx ! ?b) = Some (Some (prev, a))"
    and st: "store_next ?b prev (ie_next e) (gi_buckets idx) w = Some (bs, w1)"
    and rep: "\<And>x. table_rep (gi_num_buckets idx) bs (gi_num_entries idx - 1) ((heap w1)(a := x)) (m(u := None))"
    and e1: "heap w1 a = Some e" "\<exists>x. w1 = w\<lparr>heap := x\<rparr>"
    and k1: "\<And>x y. heap w x = Some y \<Longrightarrow> \<exists>y'. heap w1 x = Some y' \<and> y' = y\<lparr>ie_next := ie_next y'\<rparr>"
    and n1: "\<And>x. heap w x = None \<Longrightarrow> heap w1 x = None"
    by (rule rep_unlink [OF assms]) blast
  define w2 where "w2 = w1\<lparr>heap := (heap w1)(a \<mapsto> ?e)\<rparr>"
  define w3 where "w3 = (if 0 \<le> ie_fd e then sys_close (ie_fd e) w2 else w2)"
  have h3: "heap w3 = (heap w1)(a \<mapsto> ?e)" by (simp add: w3_def w2_def)
  then have "heap w3 a = Some ?e" by simp
  then obtain w4 where p: "index_entry_put a w3 = Some w4" "heap w4 = (heap w3)(a := put_result ?e)"
    "ie_fd ?e < 0 \<Longrightarrow> w4 = w3\<lparr>heap := (heap w3)(a := put_result ?e)\<rparr>"
    using entry_put_heap [of w3 a ?e] by blast
  let ?idx = "(if 0 \<le> ie_fd e then idx\<lparr>gi_num_open_fds := gi_num_open_fds idx - 1\<rparr> else idx)
     \<lparr>gi_buckets := bs, gi_num_entries := gi_num_entries idx - 1\<rparr>"
  have h4: "heap w4 = (heap w1)(a := put_result ?e)" using p(2) h3(1) by simp
  have "fd_obj w1 fd = fd_obj w fd" for fd using e1(2) by auto
  then have "fd_obj w3 fd = (if fd = ie_fd e then None else fd_obj w fd)" for fd
    by (auto simp: w3_def w2_def fd_obj_close)
  then have f4: "fd_obj w4 fd = (if fd = ie_fd e then None else fd_obj w fd)" for fd
    using p(3) by simp
  have rem: "global_index_remove idx u w = Some (True, ?idx, w4)"
    using rep_walk(1) [OF assms(1), of u] walk assms(3) st e1(1) p(1)
    by (auto simp: global_index_remove_def Let_def upd_entry_def w3_def w2_def)
  have rep4: "gi_rep ?idx (heap w4) (m(u := None))" using rep [of "put_result ?e"] by (simp add: h4)
  show ?thesis
  proof (rule that [OF rem rep4])
    show "\<exists>y'. heap w4 x = Some y' \<and> y' = y\<lparr>ie_next := ie_next y'\<rparr>" if "x \<noteq> a" "heap w x = Some y" for x y
      using k1 [OF that(2)] that(1) h4 by simp
    show "heap w4 x = None" if "heap w x = None" for x
      using n1 [OF that] that assms(3) h4 by (cases "x = a") simp_all
  qed (use h4 f4 in simp_all)
qed

lemma next_only_key:
  assumes "heap w x = Some y \<Longrightarrow> \<exists>y'. heap w' x = Some y' \<and> y' = y\<lparr>ie_next := ie_next y'\<rparr>"
    "heap w x = None \<Longrightarrow> heap w' x = None" "\<And>z. heap w x = Some z \<Longrightarrow> z = y"
  shows "entry_key (heap w') x = entry_key (heap w) x"
proof (cases "heap w x")
  case (Some z)
  with assms obtain y' where "heap w' x = Some y'" "y' = y\<lparr>ie_next := ie_next y'\<rparr>" "z = y" by blast
  moreover have "ie_uri (y\<lparr>ie_next := n\<rparr>) = ie_uri y" "ie_uri_hash (y\<lparr>ie_next := n\<rparr>) = ie_uri_hash y" for n by simp_all
  ultimately have "ie_uri y' = ie_uri z" "ie_uri_hash y' = ie_uri_hash z" by metis+
  with Some \<open>heap w' x = Some y'\<close> show ?thesis by (simp add: entry_key_def)
qed (use assms in \<open>simp add: entry_key_def\<close>)

definition gi_look ::
    "global_index \<Rightarrow> string \<Rightarrow> 'a world_scheme \<Rightarrow> (addr option \<times> global_index \<times> 'a world_scheme) option" where
  "gi_look idx u w =
     map_option (\<lambda>(r, idx, w). (Option.bind r fr_entry, idx, w)) (global_index_lookup idx u w)"

definition gi_ins ::
    "global_index \<Rightarrow> addr \<Rightarrow> 'a world_scheme \<Rightarrow> (global_index \<times> 'a world_scheme) option" where
  "gi_ins idx a w = Option.bind (global_index_insert idx a w) (\<lambda>(ok, idx, w). if ok then Some (idx, w) else None)"

interpretation gi: uri_index "\<lambda>idx (w :: 'a world_scheme). gi_rep idx (heap w)" "\<lambda>w. entry_key (heap w)"
  gi_look gi_ins global_index_remove
proof
  fix idx and w :: "'a world_scheme" and m u
  assume r: "gi_rep idx (heap w) m"
  show "\<exists>i' w'. gi_look idx u w = Some (m u, i', w') \<and> gi_rep i' (heap w') m \<and> entry_key (heap w') = entry_key (heap w)"
  proof (cases "m u")
    case None
    with r lookup_miss [OF r None] show ?thesis by (simp add: gi_look_def)
  next
    case (Some a)
    obtain e fd idx' w' where e: "heap w a = Some e"
      and l: "global_index_lookup idx u w = Some (Some \<lparr>fr_entry = Some a, fr_fd = fd, fr_generation = 0\<rparr>, idx', w')"
      and r': "gi_rep idx' (heap w') m" and h: "heap w' = (heap w)(a \<mapsto> touched e fd (clock w))"
      using lookup_rep [OF r Some] by metis
    from entry_key_upd [of "heap w" a e "touched e fd (clock w)", OF e] h have "entry_key (heap w') = entry_key (heap w)" by simp
    with l r' Some show ?thesis by (simp add: gi_look_def)
  qed
next
  fix idx and w :: "'a world_scheme" and m a u
  assume a: "gi_rep idx (heap w) m" "entry_key (heap w) a = Some u" "m u = None" "a \<notin> ran m"
  obtain e idx' where e: "heap w a = Some e"
    and i: "global_index_insert idx a w = Some (True, idx', w\<lparr>heap := (heap w)(a \<mapsto>
       e\<lparr>ie_next := gi_buckets idx ! bucket_of (gi_num_buckets idx) (index_hash_string u)\<rparr>)\<rparr>)"
      "gi_rep idx' ((heap w)(a \<mapsto>
       e\<lparr>ie_next := gi_buckets idx ! bucket_of (gi_num_buckets idx) (index_hash_string u)\<rparr>)) (m(u \<mapsto> a))"
    using insert_new [OF a] by metis
  then show "\<exists>i' w'. gi_ins idx a w = Some (i', w') \<and> gi_rep i' (heap w') (m(u \<mapsto> a)) \<and>
      entry_key (heap w') = entry_key (heap w)"
    by (simp add: gi_ins_def entry_key_upd [of "heap w" a e, OF e])
next
  fix idx and w :: "'a world_scheme" and m u
  assume r: "gi_rep idx (heap w) m"
  show "\<exists>i' w'. global_index_remove idx u w = Some (m u \<noteq> None, i', w') \<and> gi_rep i' (heap w') (m(u := None)) \<and>
      (\<forall>a. m u \<noteq> Some a \<longrightarrow> entry_key (heap w') a = entry_key (heap w) a)"
  proof (cases "m u")
    case None
    then have "m(u := None) = m" by auto
    with None r remove_miss [OF r None] show ?thesis by simp
  next
    case (Some a)
    obtain e where e: "heap w a = Some e" using rep_entry [OF r Some] by blast
    obtain idx' w' where l: "global_index_remove idx u w = Some (True, idx', w')"
      and r': "gi_rep idx' (heap w') (m(u := None))"
      and k: "\<And>x y. x \<noteq> a \<Longrightarrow> heap w x = Some y \<Longrightarrow> \<exists>y'. heap w' x = Some y' \<and> y' = y\<lparr>ie_next := ie_next y'\<rparr>"
      and n: "\<And>x. heap w x = None \<Longrightarrow> heap w' x = None"
      by (rule remove_hit [OF r Some e]) blast
    have "entry_key (heap w') x = entry_key (heap w) x" if "x \<noteq> a" for x
      by (rule next_only_key [where y = "the (heap w x)"]) (use k [OF that] n in auto)
    with l r' Some show ?thesis by auto
  qed
qed

section \<open>The index of a backend\<close>

abbreviation bi_rep :: "backend_index \<Rightarrow> entry_heap \<Rightarrow> (string \<Rightarrow> addr option) \<Rightarrow> bool" where
  "bi_rep idx \<equiv> table_rep (bi_num_buckets idx) (bi_buckets idx) (bi_num_entries idx)"

definition bi_look ::
    "backend_index \<Rightarrow> string \<Rightarrow> 'a world_scheme \<Rightarrow> (addr option \<times> backend_index \<times> 'a world_scheme) option" where
  "bi_look idx u w = map_option (\<lambda>(r, idx). (r, idx, w)) (backend_index_lookup idx u w)"

lemma backend_insert_rep:
  assumes "bi_rep idx (heap w) m" "entry_key (heap w) a = Some u" "m u = None" "a \<notin> ran m"
  obtains e idx' where "heap w a = Some e" "bi_num_entries idx' = bi_num_entries idx + 1" "bi_dirty idx'"
    "backend_index_insert idx a w = Some (idx', w\<lparr>heap := (heap w)(a \<mapsto>
       e\<lparr>ie_entry_refcount := ie_entry_refcount e + 1,
         ie_next := bi_buckets idx ! bucket_of (bi_num_buckets idx) (index_hash_string u)\<rparr>)\<rparr>)"
    "bi_rep idx' ((heap w)(a \<mapsto>
       e\<lparr>ie_entry_refcount := ie_entry_refcount e + 1,
         ie_next := bi_buckets idx ! bucket_of (bi_num_buckets idx) (index_hash_string u)\<rparr>)) (m(u \<mapsto> a))"
proof -
  from assms(2) obtain e where e: "heap w a = Some e" "ie_uri e = u" "ie_uri_hash e = index_hash_string u"
    by (auto simp: entry_key_Some)
  let ?b = "bucket_of (bi_num_buckets idx) (index_hash_string u)"
  let ?e = "e\<lparr>ie_entry_refcount := ie_entry_refcount e + 1, ie_next := bi_buckets idx ! ?b\<rparr>"
  let ?idx = "idx\<lparr>bi_buckets := (bi_buckets idx)[?b := Some a], bi_num_entries := bi_num_entries idx + 1,
     bi_dirty := True\<rparr>"
  have "backend_index_insert idx a w = Some (?idx, w\<lparr>heap := (heap w)(a \<mapsto> ?e)\<rparr>)"
    using rep_walk(1) [OF assms(1), of u] e
    by (simp add: backend_index_insert_def index_entry_get_def upd_entry_def Let_def)
  moreover have "bi_rep ?idx ((heap w)(a \<mapsto> ?e)) (m(u \<mapsto> a))"
    using rep_insert [OF assms(1) e(1), of ?e] e assms(3,4) by simp
  ultimately show ?thesis using e by (intro that [of e ?idx]) simp_all
qed

lemma backend_remove_hit:
  assumes "bi_rep idx (heap w) m" "m u = Some a" "heap w a = Some e"
  obtains idx' w' where "backend_index_remove idx u w = Some (True, idx', w')"
    "bi_rep idx' (heap w') (m(u := None))" "heap w' a = put_result e"
    "\<And>x y. x \<noteq> a \<Longrightarrow> heap w x = Some y \<Longrightarrow> \<exists>y'. heap w' x = Some y' \<and> y' = y\<lparr>ie_next := ie_next y'\<rparr>"
    "\<And>x. heap w x = None \<Longrightarrow> heap w' x = None"
proof -
  let ?b = "bucket_of (bi_num_buckets idx) (index_hash_string u)"
  obtain prev bs w1 where
    walk: "chain_locate (heap w) (index_hash_string u) u None (bi_buckets idx ! ?b) = Some (Some (prev, a))"
    and st: "store_next ?b prev (ie_next e) (bi_buckets idx) w = Some (bs, w1)"
    and rep: "\<And>x. table_rep (bi_num_buckets idx) bs (bi_num_entries idx - 1) ((heap w1)(a := x)) (m(u := None))"
    and e1: "heap w1 a = Some e"
    and k1: "\<And>x y. heap w x = Some y \<Longrightarrow> \<exists>y'. heap w1 x = Some y' \<and> y' = y\<lparr>ie_next := ie_next y'\<rparr>"
    and n1: "\<And>x. heap w x = None \<Longrightarrow> heap w1 x = None"
    by (rule rep_unlink [OF assms]) blast
  obtain w2 where p: "index_entry_put a w1 = Some w2" "heap w2 = (heap w1)(a := put_result e)"
    using entry_put_heap [OF e1] by blast
  let ?idx = "idx\<lparr>bi_buckets := bs, bi_num_entries := bi_num_entries idx - 1, bi_dirty := True\<rparr>"
  have "backend_index_remove idx u w = Some (True, ?idx, w2)"
    using rep_walk(1) [OF assms(1), of u] walk assms(3) st p(1) by (auto simp: backend_index_remove_def Let_def)
  moreover have "bi_rep ?idx (heap w2) (m(u := None))" using rep [of "put_result e"] by (simp add: p)
  ultimately show ?thesis
  proof (rule that)
    show "\<exists>y'. heap w2 x = Some y' \<and> y' = y\<lparr>ie_next := ie_next y'\<rparr>" if "x \<noteq> a" "heap w x = Some y" for x y
      using k1 [OF that(2)] that(1) p(2) by simp
    show "heap w2 x = None" if "heap w x = None" for x
      using n1 [OF that] that assms(3) p(2) by (cases "x = a") simp_all
  qed (simp add: p)
qed

interpretation bi: uri_index "\<lambda>idx (w :: 'a world_scheme). bi_rep idx (heap w)" "\<lambda>w. entry_key (heap w)"
  bi_look backend_index_insert backend_index_remove
proof
  fix idx and w :: "'a world_scheme" and m u
  assume r: "bi_rep idx (heap w) m"
  show "\<exists>i' w'. bi_look idx u w = Some (m u, i', w') \<and> bi_rep i' (heap w') m \<and> entry_key (heap w') = entry_key (heap w)"
    using r rep_walk [OF r, of u] by (cases "m u") (auto simp: bi_look_def backend_index_lookup_def Let_def)
next
  fix idx and w :: "'a world_scheme" and m a u
  assume a: "bi_rep idx (heap w) m" "entry_key (heap w) a = Some u" "m u = None" "a \<notin> ran m"
  obtain e idx' where e: "heap w a = Some e"
    and i: "backend_index_insert idx a w = Some (idx', w\<lparr>heap := (heap w)(a \<mapsto>
       e\<lparr>ie_entry_refcount := ie_entry_refcount e + 1,
         ie_next := bi_buckets idx ! bucket_of (bi_num_buckets idx) (index_hash_string u)\<rparr>)\<rparr>)"
      "bi_rep idx' ((heap w)(a \<mapsto>
       e\<lparr>ie_entry_refcount := ie_entry_refcount e + 1,
         ie_next := bi_buckets idx ! bucket_of (bi_num_buckets idx) (index_hash_string u)\<rparr>)) (m(u \<mapsto> a))"
    by (rule backend_insert_rep [OF a]) blast
  then show "\<exists>i' w'. backend_index_insert idx a w = Some (i', w') \<and>
      bi_rep i' (heap w') (m(u \<mapsto> a)) \<and> entry_key (heap w') = entry_key (heap w)"
    by (simp add: entry_key_upd [of "heap w" a e, OF e])
next
  fix idx and w :: "'a world_scheme" and m u
  assume r: "bi_rep idx (heap w) m"
  show "\<exists>i' w'. backend_index_remove idx u w = Some (m u \<noteq> None, i', w') \<and> bi_rep i' (heap w') (m(u := None)) \<and>
      (\<forall>a. m u \<noteq> Some a \<longrightarrow> entry_key (heap w') a = entry_key (heap w) a)"
  proof (cases "m u")
    case None
    then have "m(u := None) = m" by auto
    with None r rep_walk(1,2) [OF r, of u] show ?thesis by (simp add: backend_index_remove_def Let_def)
  next
    case (Some a)
    obtain e where e: "heap w a = Some e" using rep_entry [OF r Some] by blast
    obtain idx' w' where l: "backend_index_remove idx u w = Some (True, idx', w')"
      and r': "bi_rep idx' (heap w') (m(u := None))"
      and k: "\<And>x y. x \<noteq> a \<Longrightarrow> heap w x = Some y \<Longrightarrow> \<exists>y'. heap w' x = Some y' \<and> y' = y\<lparr>ie_next := ie_next y'\<rparr>"
      and n: "\<And>x. heap w x = None \<Longrightarrow> heap w' x = None"
      by (rule backend_remove_hit [OF r Some e]) blast
    have "entry_key (heap w') x = entry_key (heap w) x" if "x \<noteq> a" for x
      by (rule next_only_key [where y = "the (heap w x)"]) (use k [OF that] n in auto)
    with l r' Some show ?thesis by auto
  qed
qed

section \<open>New entries\<close>

definition new_entry :: "string \<Rightarrow> u32 \<Rightarrow> string \<Rightarrow> index_entry" where
  "new_entry uri i path =
     \<lparr>ie_uri = uri, ie_uri_hash = index_hash_string uri, ie_backend_id = i, ie_backend_path = Some path,
      ie_fd = -1, ie_fd_refcount = 0, ie_fd_generation = 0, ie_size_bytes = 0, ie_mtime = 0, ie_flags = 0,
      ie_access_count = 0, ie_last_access = 0, ie_hotness_score = 0, ie_entry_refcount = 1, ie_next = None\<rparr>"

lemma new_entry_simps [simp]:
  "ie_uri (new_entry u i p) = u" "ie_uri_hash (new_entry u i p) = index_hash_string u"
  "ie_backend_id (new_entry u i p) = i" "ie_backend_path (new_entry u i p) = Some p"
  "ie_entry_refcount (new_entry u i p) = 1" "ie_fd (new_entry u i p) = -1"
  by (simp_all add: new_entry_def)

lemma entry_create_ok:
  assumes "no_faults w"
  obtains f where "index_entry_create uri i path w =
      (Some (next_addr w), w\<lparr>faults := f, next_addr := Suc (next_addr w),
         heap := (heap w)(next_addr w \<mapsto> new_entry uri i path)\<rparr>)" "True \<notin> set f"
proof -
  obtain f1 where 1: "fault w = (False, w\<lparr>faults := f1\<rparr>)" "True \<notin> set f1" using no_faults_fault [OF assms] .
  then have "no_faults (w\<lparr>faults := f1\<rparr>)" by (simp add: no_faults_def)
  then obtain f2 where 2: "fault (w\<lparr>faults := f1\<rparr>) = (False, w\<lparr>faults := f2\<rparr>)" "True \<notin> set f2"
    using no_faults_fault [of "w\<lparr>faults := f1\<rparr>"] by auto
  then have "no_faults (w\<lparr>faults := f2\<rparr>)" by (simp add: no_faults_def)
  then obtain f3 where 3: "fault (w\<lparr>faults := f2\<rparr>) = (False, w\<lparr>faults := f3\<rparr>)" "True \<notin> set f3"
    using no_faults_fault [of "w\<lparr>faults := f2\<rparr>"] by auto
  show ?thesis using that [OF _ 3(2)] 1(1) 2(1) 3(1) by (simp add: index_entry_create_def new_entry_def)
qed

lemma rep_alloc:
  assumes "table_rep n buckets cnt h m" "h a = None"
  shows "table_rep n buckets cnt (h(a \<mapsto> e)) m"
  by (rule rep_same [OF assms(1)]) (use assms(2) in \<open>auto simp: same_links_def\<close>)

end
