(* ===== verification/Index_Props.thy ===== *)
theory Index_Props
  imports Index_Laws
begin

text \<open>
  The properties of \<open>lib/index/index.c\<close>: sizes and scores, the global index and the backend
  index as maps from URIs, the balance of references, and the two places where sharing goes
  wrong.
\<close>

section \<open>Sizes\<close>

text \<open>\<open>x\<close> has a bit set wherever \<open>m\<close> has one among the next \<open>w\<close> positions.\<close>

definition smeared :: "u64 \<Rightarrow> nat \<Rightarrow> u64 \<Rightarrow> bool" where
  "smeared m w x \<longleftrightarrow> (\<forall>i. bit x i \<longleftrightarrow> (\<exists>j < w. bit m (i + j)))"

lemma smear_step: "smeared m w x \<Longrightarrow> smeared m (w + w) (x OR drop_bit w x)"
proof -
  assume s: "smeared m w x"
  have "(\<exists>j < w. bit m (i + j)) \<or> (\<exists>j < w. bit m (w + i + j)) \<longleftrightarrow> (\<exists>j < w + w. bit m (i + j))" for i
  proof
    assume "(\<exists>j < w. bit m (i + j)) \<or> (\<exists>j < w. bit m (w + i + j))"
    then show "\<exists>j < w + w. bit m (i + j)"
    proof
      assume "\<exists>j < w. bit m (w + i + j)"
      then obtain j where "j < w" "bit m (i + (w + j))" by (auto simp: add.commute add.left_commute)
      then show ?thesis by (intro exI [of _ "w + j"]) simp
    qed (auto intro: trans_less_add1)
  next
    assume "\<exists>j < w + w. bit m (i + j)"
    then obtain j where j: "j < w + w" "bit m (i + j)" by blast
    show "(\<exists>j < w. bit m (i + j)) \<or> (\<exists>j < w. bit m (w + i + j))"
    proof (cases "j < w")
      case False
      with j have "j - w < w" "bit m (w + i + (j - w))" by (simp_all add: add.commute)
      then show ?thesis by blast
    qed (use j in blast)
  qed
  with s show ?thesis by (simp add: smeared_def bit_or_iff bit_drop_bit_eq)
qed

lemma smeared_mask:
  assumes "smeared m 64 x"
  shows "\<exists>k \<le> 64. x = mask k \<and> unat m < 2 ^ k \<and> (if m = 0 then k = 0 else 2 ^ k \<le> 2 * unat m)"
proof (cases "m = 0")
  case True
  with assms have "x = mask 0" by (intro bit_eqI) (simp add: smeared_def)
  with True show ?thesis by (intro exI [of _ 0]) simp
next
  case False
  define S where "S = {j. bit m j}"
  have S: "finite S" "S \<noteq> {}" using False by (auto simp: S_def finite_bit_word bit_eq_iff)
  define t where "t = Max S"
  have t: "bit m t" and top: "bit m j \<Longrightarrow> j \<le> t" for j
    using Max_in [OF S] Max_ge [OF S(1)] by (auto simp: t_def S_def)
  have t64: "t < 64" using bit_imp_le_length [OF t] by simp
  have "bit x i \<longleftrightarrow> i < 64 \<and> i < Suc t" for i
  proof
    assume "bit x i"
    then obtain j where "bit m (i + j)" using assms by (auto simp: smeared_def)
    with top have "i + j \<le> t" by blast
    with t64 show "i < 64 \<and> i < Suc t" by simp
  next
    assume "i < 64 \<and> i < Suc t"
    then have "t - i < 64" "bit m (i + (t - i))" using t t64 by simp_all
    with assms show "bit x i" unfolding smeared_def by blast
  qed
  then have x: "x = mask (Suc t)" by (intro bit_eqI) (auto simp: bit_mask_iff)
  have "take_bit (Suc t) m = m"
    using top by (intro bit_eqI) (auto simp: bit_take_bit_iff less_Suc_eq_le)
  then have "unat m < 2 ^ Suc t"
    by (metis of_nat_less_iff take_bit_nat_less_exp unsigned_take_bit_eq)
  moreover have "odd (unat m div 2 ^ t)" using t by (simp add: bit_iff_odd [symmetric] bit_unsigned_iff)
  then have "1 \<le> unat m div 2 ^ t" by (metis even_zero less_one linorder_not_le)
  then have "2 ^ t \<le> unat m" by (metis div_less less_one linorder_not_le)
  ultimately show ?thesis using x t64 False by (intro exI [of _ "Suc t"]) simp
qed

lemma next_power_of_2_spec:
  assumes n: "1 \<le> unat n" "unat n \<le> 2 ^ 63"
  shows "\<exists>k < 64. index_next_power_of_2 n = 2 ^ k \<and> unat n \<le> 2 ^ k \<and> 2 ^ k < 2 * unat n"
proof -
  let ?m = "n - 1"
  have m: "unat ?m = unat n - 1" using n unat_sub [of 1 n] by (simp add: word_le_nat_alt)
  have "smeared ?m 1 ?m" by (simp add: smeared_def)
  from smear_step [OF this] have "smeared ?m 2 (?m OR drop_bit 1 ?m)" by (simp add: numeral_2_eq_2)
  note s = smear_step [OF smear_step [OF smear_step [OF smear_step [OF smear_step [OF this]]]], simplified]
  from smeared_mask [OF s] obtain k where
    k: "k \<le> 64" "index_next_power_of_2 n = mask k + 1" "unat ?m < 2 ^ k" "if ?m = 0 then k = 0 else 2 ^ k \<le> 2 * unat ?m"
    by (auto simp: index_next_power_of_2_def Let_def)
  have "k < 64"
  proof (rule ccontr)
    assume "\<not> k < 64"
    with k(1) have "k = 64" by simp
    with k(4) n m show False by (cases "?m = 0") auto
  qed
  moreover have "index_next_power_of_2 n = 2 ^ k" using k(2) by (simp add: mask_eq_exp_minus_1)
  moreover have "unat n \<le> 2 ^ k" using k(3) m n by linarith
  moreover have "2 ^ k < 2 * unat n"
  proof (cases "?m = 0")
    case True
    with k(4) n show ?thesis by simp
  qed (use k(4) m n in auto)
  ultimately show "\<exists>k < 64. index_next_power_of_2 n = 2 ^ k \<and> unat n \<le> 2 ^ k \<and> 2 ^ k < 2 * unat n" by blast
qed

text \<open>
  \<open>index_next_power_of_2\<close> returns, for every size from 1 to 2^63, the smallest power of
  two that is not below it, so the mask of the bucket computation addresses exactly the
  allocated buckets; for size 0 it returns 0.
\<close>

theorem next_power_of_2_correct:
  "index_next_power_of_2 0 = 0 \<and>
   (1 \<le> unat n \<and> unat n \<le> 2 ^ 63 \<longrightarrow>
      (\<exists>k < 64. index_next_power_of_2 n = 2 ^ k \<and> unat n \<le> 2 ^ k \<and> 2 ^ k < 2 * unat n))"
  using next_power_of_2_spec [of n] by (simp add: index_next_power_of_2_def)

theorem next_power_of_2_correct_witness:
  "\<exists>k < 64. index_next_power_of_2 1000 = 2 ^ k \<and> unat (1000 :: u64) \<le> 2 ^ k \<and> 2 ^ k < 2 * unat (1000 :: u64)"
  using next_power_of_2_correct [of 1000] by simp

section \<open>Hotness\<close>

text \<open>
  The hotness score of an entry lies between 0 and 1; it is not a number exactly for an
  entry accessed at the current instant under a half-life of zero. Of two entries the one
  accessed more recently and at least as often is at least as hot.
\<close>

theorem hotness_bounded_monotone:
  "(case index_calculate_hotness (Some e) now hl of
      None \<Rightarrow> ie_last_access e \<noteq> 0 \<and> ie_last_access e = now \<and> hl = 0
    | Some x \<Rightarrow> 0 \<le> x \<and> x \<le> 1 \<and>
        (\<forall>e' x'. index_calculate_hotness (Some e') now hl = Some x' \<and> ie_last_access e \<noteq> 0 \<and>
           now - ie_last_access e \<le> now - ie_last_access e' \<and> ie_access_count e' \<le> ie_access_count e \<longrightarrow> x' \<le> x))"
proof (cases "index_calculate_hotness (Some e) now hl")
  case None
  then show ?thesis
    by (auto simp: index_calculate_hotness_def time_factor_def Let_def split: if_splits)
next
  case (Some x)
  define afn where "afn k = (if real k / 1000 > 1 then 1 else real k / 1000)" for k :: nat
  define af where "af c = afn (unat c)" for c :: u64
  have "0 \<le> afn k" "afn k \<le> 1" "k' \<le> k \<Longrightarrow> afn k' \<le> afn k" for k k'
    by (auto simp: afn_def field_simps)
  then have af: "0 \<le> af c" "af c \<le> 1" "c' \<le> c \<Longrightarrow> af c' \<le> af c" for c c'
    by (simp_all add: af_def word_le_nat_alt)
  define tfn where "tfn h k = exp (- 0.693 * (real k / 1000000) / real h)" for h k :: nat
  have "0 \<le> tfn h k" "tfn h k \<le> 1" "k \<le> k' \<Longrightarrow> tfn h k' \<le> tfn h k" for h k k'
    by (simp_all add: tfn_def divide_nonneg_nonneg divide_right_mono)
  moreover have "time_factor a hl = (if hl = 0 then if a = 0 then None else Some 0 else Some (tfn (unat hl) (unat a)))" for a
    by (simp add: time_factor_def tfn_def)
  ultimately have tf: "time_factor a hl = Some t \<Longrightarrow> 0 \<le> t \<and> t \<le> 1"
    and tm: "time_factor a hl = Some t \<Longrightarrow> time_factor a' hl = Some t' \<Longrightarrow> a \<le> a' \<Longrightarrow> t' \<le> t" for a a' t t'
    by (auto simp: word_le_nat_alt split: if_splits)
  have val: "y = 0.7 * t + 0.3 * af (ie_access_count d)"
    if "index_calculate_hotness (Some d) now hl = Some y" "ie_last_access d \<noteq> 0"
      "time_factor (now - ie_last_access d) hl = Some t" for d y t
    using that tf [OF that(3)] af(1,2) [of "ie_access_count d"]
    by (auto simp: index_calculate_hotness_def af_def afn_def Let_def split: if_splits)
  have def_t: "\<exists>t. time_factor (now - ie_last_access d) hl = Some t"
    if "index_calculate_hotness (Some d) now hl = Some y" "ie_last_access d \<noteq> 0" for d y
    using that by (auto simp: index_calculate_hotness_def Let_def split: bind_splits)
  have z: "y = 0" if "index_calculate_hotness (Some d) now hl = Some y" "ie_last_access d = 0" for d y
    using that by (simp add: index_calculate_hotness_def)
  have rng: "0 \<le> x \<and> x \<le> 1"
  proof (cases "ie_last_access e = 0")
    case False
    with def_t [OF Some] obtain t where t: "time_factor (now - ie_last_access e) hl = Some t" by blast
    from val [OF Some False t] tf [OF t] af(1,2) [of "ie_access_count e"] show ?thesis by simp
  qed (use z [OF Some] in simp)
  have "x' \<le> x" if o: "index_calculate_hotness (Some e') now hl = Some x'" "ie_last_access e \<noteq> 0"
      "now - ie_last_access e \<le> now - ie_last_access e'" "ie_access_count e' \<le> ie_access_count e" for e' x'
  proof (cases "ie_last_access e' = 0")
    case False
    obtain t t' where t: "time_factor (now - ie_last_access e) hl = Some t"
      "time_factor (now - ie_last_access e') hl = Some t'" using def_t [OF Some o(2)] def_t [OF o(1) False] by blast
    from val [OF Some o(2) t(1)] val [OF o(1) False t(2)] tm [OF t o(3)] af(3) [OF o(4)] show ?thesis by simp
  qed (use z [OF o(1)] rng in simp)
  with Some rng show ?thesis by auto
qed

definition blank_entry :: index_entry where
  "blank_entry =
     \<lparr>ie_uri = ''/a'', ie_uri_hash = index_hash_string ''/a'', ie_backend_id = 0, ie_backend_path = Some ''/m/a'',
      ie_fd = -1, ie_fd_refcount = 0, ie_fd_generation = 0, ie_size_bytes = 0, ie_mtime = 0, ie_flags = 0,
      ie_access_count = 0, ie_last_access = 0, ie_hotness_score = 0, ie_entry_refcount = 1, ie_next = None\<rparr>"

theorem hotness_bounded_monotone_witness:
  "\<exists>x. index_calculate_hotness (Some (blank_entry\<lparr>ie_last_access := 5\<rparr>)) 9 60 = Some x \<and> 0 \<le> x \<and> x \<le> 1"
  using hotness_bounded_monotone [of "blank_entry\<lparr>ie_last_access := 5\<rparr>" 9 60]
  by (auto split: option.splits)

section \<open>The global index as a map\<close>



definition one_entry :: world where
  "one_entry = os.extend (os_init\<lparr>dir := [''/m/a'' \<mapsto> 7]\<rparr>) \<lparr>heap = [0 \<mapsto> blank_entry], next_addr = 1\<rparr>"

definition one_index :: global_index where
  "one_index =
     \<lparr>gi_buckets = [Some 0], gi_num_buckets = 1, gi_num_entries = 1, gi_max_open_fds = 8, gi_num_open_fds = 0,
      gi_stat_lookups = 0, gi_stat_hits = 0, gi_stat_misses = 0, gi_stat_fd_cache_hits = 0, gi_stat_fd_opens = 0,
      gi_stat_fd_closes = 0, gi_stat_fd_evictions = 0\<rparr>"

lemma one_rep: "table_rep 1 [Some 0] 1 [0 \<mapsto> blank_entry] [''/a'' \<mapsto> 0]"
  unfolding table_rep_def table_def
  by (rule exI [of _ "[[0]]"])
     (auto simp: table_map_def uri_of_def blank_entry_def bucket_of_def intro!: exI [of _ 0])

lemma one_simps [simp]:
  "heap one_entry = [0 \<mapsto> blank_entry]" "next_addr one_entry = 1" "dir one_entry = [''/m/a'' \<mapsto> 7]"
  "gi_buckets one_index = [Some 0]" "gi_num_buckets one_index = 1" "gi_num_entries one_index = 1"
  by (simp_all add: one_entry_def one_index_def os.defs os_init_def)


text \<open>
  C18: Insertion into the global index adds exactly the new URI when it is absent, without
  changing what is found for any other, and rejects a URI that is present, leaving index,
  entries and process unchanged.
\<close>

theorem global_insert_correct:
  assumes "gi_rep idx (heap w) m" "entry_key (heap w) a = Some u" "a \<notin> ran m"
  shows "if m u = None
     then \<exists>idx' w'. global_index_insert idx a w = Some (True, idx', w') \<and> gi_rep idx' (heap w') (m(u \<mapsto> a)) \<and>
            gi_num_entries idx' = gi_num_entries idx + 1 \<and> (\<forall>x. x \<noteq> a \<longrightarrow> heap w' x = heap w x)
     else global_index_insert idx a w = Some (False, idx, w)"
proof (cases "m u")
  case None
  obtain e idx' where "gi_num_entries idx' = gi_num_entries idx + 1"
    "global_index_insert idx a w = Some (True, idx', w\<lparr>heap := (heap w)(a \<mapsto>
       e\<lparr>ie_next := gi_buckets idx ! bucket_of (gi_num_buckets idx) (index_hash_string u)\<rparr>)\<rparr>)"
    "gi_rep idx' ((heap w)(a \<mapsto>
       e\<lparr>ie_next := gi_buckets idx ! bucket_of (gi_num_buckets idx) (index_hash_string u)\<rparr>)) (m(u \<mapsto> a))"
    using insert_new [OF assms(1,2) None assms(3)] by metis
  with None show ?thesis by simp
next
  case (Some a')
  with insert_duplicate [OF assms(1,2) Some] show ?thesis by simp
qed

definition two_entries :: world where
  "two_entries = one_entry\<lparr>heap := [0 \<mapsto> blank_entry,
     1 \<mapsto> blank_entry\<lparr>ie_uri := ''/b'', ie_uri_hash := index_hash_string ''/b'', ie_backend_path := Some ''/m/b''\<rparr>]\<rparr>"

lemma two_rep: "table_rep 1 [Some 0] 1 (heap two_entries) [''/a'' \<mapsto> 0]"
  by (rule rep_same [OF one_rep]) (auto simp: two_entries_def same_links_def)

lemma two_key: "entry_key (heap two_entries) 1 = Some ''/b''"
  by (simp add: entry_key_def two_entries_def)

theorem global_insert_correct_witness:
  "\<exists>idx' w'. global_index_insert one_index 1 two_entries = Some (True, idx', w') \<and>
     gi_rep idx' (heap w') [''/a'' \<mapsto> 0, ''/b'' \<mapsto> 1]"
  using global_insert_correct [of one_index two_entries "[''/a'' \<mapsto> 0]" 1 "''/b''"] two_rep two_key by auto

text \<open>
  C19: Removal from the global index removes exactly the given URI: every other lookup
  answers as before; it reports whether the URI was there, closes the entry's cached
  descriptor and no other, and drops one reference to the entry, freeing it with the last.
\<close>

theorem global_remove_correct:
  assumes "gi_rep idx (heap w) m"
  shows "\<exists>idx' w'. global_index_remove idx u w = Some (m u \<noteq> None, idx', w') \<and>
     gi_rep idx' (heap w') (m(u := None)) \<and>
     (\<forall>v. map_option fst (gi_look idx' v w') = Some (if v = u then None else m v)) \<and>
     (\<forall>a e. m u = Some a \<and> heap w a = Some e \<longrightarrow>
        heap w' a = put_result (e\<lparr>ie_fd := -1\<rparr>) \<and>
        (\<forall>fd. fd_obj w' fd = (if fd = ie_fd e then None else fd_obj w fd)))"
proof -
  have look: "map_option fst (gi_look idx' v w') = Some (if v = u then None else m v)"
    if "gi_rep idx' (heap w') (m(u := None))" for idx' v and w' :: "'a world_scheme"
    using gi.look_law [OF that, of v] by auto
  show ?thesis
  proof (cases "m u")
    case None
    then have "m(u := None) = m" by auto
    with remove_miss [OF assms None] assms look None show ?thesis by simp
  next
    case (Some a)
    obtain e where e: "heap w a = Some e" using rep_entry [OF assms Some] by blast
    obtain idx' w' where r: "global_index_remove idx u w = Some (True, idx', w')"
      "gi_rep idx' (heap w') (m(u := None))" "heap w' a = put_result (e\<lparr>ie_fd := -1\<rparr>)"
      "\<And>fd. fd_obj w' fd = (if fd = ie_fd e then None else fd_obj w fd)"
      by (rule remove_hit [OF assms Some e]) blast
    with look [OF r(2)] Some e show ?thesis by auto
  qed
qed

theorem global_remove_correct_witness:
  "\<exists>idx' w'. global_index_remove one_index ''/a'' one_entry = Some (True, idx', w') \<and>
     gi_rep idx' (heap w') Map.empty"
  using global_remove_correct [of one_index one_entry "[''/a'' \<mapsto> 0]" "''/a''"] one_rep by auto

text \<open>
  All that is inserted into a newly created global index is found again: after the
  creation with any size from 1 to 2^63 and the insertion of any number of entries with
  different URIs, the lookup of each URI returns its entry.
\<close>

theorem global_index_finds_all:
  assumes "fst (global_index_create n k w) = Some idx" "1 \<le> unat n" "unat n \<le> 2 ^ 63"
    and "distinct as" "distinct us" "list_all2 (\<lambda>a u. entry_key (heap w') a = Some u) as us"
  shows "\<exists>idx' w''. gi.ins_all idx as w' = Some (idx', w'') \<and>
     (\<forall>i < length as. map_option fst (gi_look idx' (us ! i) w'') = Some (Some (as ! i)))"
proof -
  obtain j where j: "j < 64" "index_next_power_of_2 n = 2 ^ j"
    using next_power_of_2_spec [OF assms(2,3)] by blast
  from assms(1) have "gi_num_buckets idx = index_next_power_of_2 n" "gi_num_entries idx = 0"
    "gi_buckets idx = replicate (unat (index_next_power_of_2 n)) None"
    by (auto simp: global_index_create_def Let_def split: prod.splits if_splits)
  with rep_empty [OF j(1), of "heap w'"] j(2) have "gi_rep idx (heap w') Map.empty" by simp
  from gi.look_after_ins_all [OF this assms(4,6,5)] show ?thesis .
qed

theorem global_index_finds_all_witness:
  "\<exists>idx' w''. gi.ins_all (the (fst (global_index_create 4 8 two_entries))) [1, 0] two_entries = Some (idx', w'') \<and>
     (\<forall>i < length [1, 0 :: nat]. map_option fst (gi_look idx' ([''/b'', ''/a''] ! i) w'') = Some (Some ([1, 0] ! i)))"
  by (rule global_index_finds_all [of 4 8 two_entries])
     (auto simp: global_index_create_def Let_def fault_def two_entries_def one_entry_def os.defs os_init_def
        entry_key_def blank_entry_def)

section \<open>References\<close>

lemma release_ref:
  assumes "heap w a = Some e" "ie_entry_refcount e > 1" "fr_entry r = Some a"
  shows "fd_ref_release r w = Some (r\<lparr>fr_entry := None, fr_fd := -1\<rparr>,
     (if 0 \<le> fr_fd r then sys_close (fr_fd r) w else w)\<lparr>heap := (heap w)(a \<mapsto>
        e\<lparr>ie_fd_refcount := ie_fd_refcount e - (if 0 \<le> fr_fd r then 1 else 0),
          ie_entry_refcount := ie_entry_refcount e - 1\<rparr>)\<rparr>)"
  using assms by (simp add: fd_ref_release_def index_entry_put_def upd_entry_def)

text \<open>
  C23: A lookup followed by the release of its reference is balanced: the entry keeps its
  reference counts and its cached descriptor, only the record of the access stays, and every
  descriptor of the process is as before.
\<close>

theorem lookup_release_balanced:
  assumes "gi_rep idx (heap w) m" "m u = Some a" "heap w a = Some e" "ie_entry_refcount e \<ge> 1"
  shows "\<exists>r idx' w1 r' w2. global_index_lookup idx u w = Some (Some r, idx', w1) \<and>
     fd_ref_release r w1 = Some (r', w2) \<and>
     heap w2 = (heap w)(a \<mapsto> e\<lparr>ie_access_count := ie_access_count e + 1, ie_last_access := clock w\<rparr>) \<and>
     (\<forall>fd. fd_obj w2 fd = fd_obj w fd) \<and> gi_rep idx' (heap w2) m"
proof -
  obtain e' fd idx' w1 where l: "heap w a = Some e'"
    "global_index_lookup idx u w = Some (Some \<lparr>fr_entry = Some a, fr_fd = fd, fr_generation = 0\<rparr>, idx', w1)"
    "gi_rep idx' (heap w1) m" "heap w1 = (heap w)(a \<mapsto> touched e' fd (clock w))"
    "0 \<le> fd \<longrightarrow> fd_obj w fd = None" "\<And>x. x \<noteq> fd \<Longrightarrow> fd_obj w1 x = fd_obj w x"
    by (rule lookup_rep [OF assms(1,2)]) blast
  then have e': "e' = e" using assms(3) by simp
  let ?r = "\<lparr>fr_entry = Some a, fr_fd = fd, fr_generation = 0\<rparr>"
  let ?e = "e\<lparr>ie_access_count := ie_access_count e + 1, ie_last_access := clock w\<rparr>"
  let ?w2 = "(if 0 \<le> fd then sys_close fd w1 else w1)\<lparr>heap := (heap w)(a \<mapsto> ?e)\<rparr>"
  have "heap w1 a = Some (touched e fd (clock w))" using l(4) e' by simp
  from release_ref [OF this, of ?r] assms(4) l(4) e'
  have rel: "fd_ref_release ?r w1 = Some (?r\<lparr>fr_entry := None, fr_fd := -1\<rparr>, ?w2)"
    by (simp add: touched_def)
  have fds: "fd_obj ?w2 x = fd_obj w x" for x
    using l(5,6) by (cases "x = fd") (auto simp: fd_obj_close)
  have "gi_rep idx' (heap ?w2) m"
    by (rule rep_same [OF l(3)]) (use l(4) e' in \<open>auto simp: same_links_def\<close>)
  with l(2) rel fds show ?thesis
    by (intro exI [of _ ?r] exI [of _ idx'] exI [of _ w1] exI [of _ "?r\<lparr>fr_entry := None, fr_fd := -1\<rparr>"]
        exI [of _ ?w2]) simp
qed

theorem lookup_release_balanced_witness:
  "\<exists>r idx' w1 r' w2. global_index_lookup one_index ''/a'' one_entry = Some (Some r, idx', w1) \<and>
     fd_ref_release r w1 = Some (r', w2) \<and> (\<forall>fd. fd_obj w2 fd = fd_obj one_entry fd)"
  using lookup_release_balanced [of one_index one_entry "[''/a'' \<mapsto> 0]" "''/a''" 0 blank_entry] one_rep
  by (auto simp: blank_entry_def)

text \<open>
  A descriptor acquired from an entry's cache is not protected by its reference:
  \<open>fd_ref_release\<close> closes the cached descriptor while the entry keeps its number, so the
  next \<open>fd_ref_acquire\<close> of the entry returns a descriptor that is closed.
\<close>

theorem released_descriptor_reused:
  assumes "heap w a = Some e" "fd_obj w (ie_fd e) = Some d" "ie_entry_refcount e > 1"
    and "fr_entry r = Some a" "fr_entry r' = Some a"
  shows "\<exists>r1 w1 r2 w2 r3 w3. fd_ref_acquire r w = Some (ie_fd e, r1, w1) \<and> fd_ref_release r1 w1 = Some (r2, w2) \<and>
     fd_ref_acquire r' w2 = Some (ie_fd e, r3, w3) \<and> fd_obj w3 (ie_fd e) = None"
proof -
  have pos: "0 \<le> ie_fd e" using assms(2) by (rule fd_obj_nonneg)
  let ?r1 = "r\<lparr>fr_fd := ie_fd e, fr_generation := ie_fd_generation e\<rparr>"
  let ?w1 = "w\<lparr>heap := (heap w)(a \<mapsto> e\<lparr>ie_fd_refcount := ie_fd_refcount e + 1\<rparr>)\<rparr>"
  let ?w2 = "(sys_close (ie_fd e) ?w1)\<lparr>heap := (heap w)(a \<mapsto> e\<lparr>ie_entry_refcount := ie_entry_refcount e - 1\<rparr>)\<rparr>"
  have 1: "fd_ref_acquire r w = Some (ie_fd e, ?r1, ?w1)"
    using assms(1,4) pos by (simp add: fd_ref_acquire_def upd_entry_def)
  have 2: "fd_ref_release ?r1 ?w1 = Some (?r1\<lparr>fr_entry := None, fr_fd := -1\<rparr>, ?w2)"
    using release_ref [of ?w1 a "e\<lparr>ie_fd_refcount := ie_fd_refcount e + 1\<rparr>" ?r1] assms(3,4) pos by simp
  have "\<exists>r3 h. fd_ref_acquire r' ?w2 = Some (ie_fd e, r3, ?w2\<lparr>heap := h\<rparr>)"
    using assms(5) pos by (simp add: fd_ref_acquire_def upd_entry_def) blast
  then obtain r3 h where 3: "fd_ref_acquire r' ?w2 = Some (ie_fd e, r3, ?w2\<lparr>heap := h\<rparr>)" by blast
  have "fd_obj (?w2\<lparr>heap := h\<rparr>) (ie_fd e) = None" by (simp add: fd_obj_close)
  with 1 2 3 show ?thesis by blast
qed

theorem released_descriptor_reused_witness:
  "\<exists>r1 w1 r2 w2 r3 w3 :: world.
     fd_ref_acquire \<lparr>fr_entry = Some 0, fr_fd = -1, fr_generation = 0\<rparr>
       (one_entry\<lparr>fds := [Some 4], heap := [0 \<mapsto> blank_entry\<lparr>ie_fd := 0, ie_entry_refcount := 3\<rparr>]\<rparr>) = Some (0, r1, w1) \<and>
     fd_ref_release r1 w1 = Some (r2, w2) \<and>
     fd_ref_acquire \<lparr>fr_entry = Some 0, fr_fd = -1, fr_generation = 0\<rparr> w2 = Some (0, r3, w3) \<and> fd_obj w3 0 = None"
  using released_descriptor_reused [of
      "one_entry\<lparr>fds := [Some 4], heap := [0 \<mapsto> blank_entry\<lparr>ie_fd := 0, ie_entry_refcount := 3\<rparr>]\<rparr>" 0
      "blank_entry\<lparr>ie_fd := 0, ie_entry_refcount := 3\<rparr>" 4
      "\<lparr>fr_entry = Some 0, fr_fd = -1, fr_generation = 0\<rparr>" "\<lparr>fr_entry = Some 0, fr_fd = -1, fr_generation = 0\<rparr>"]
  by (simp add: fd_obj_def)

section \<open>Two tables, one link\<close>

text \<open>
  C32: Linking an entry into a backend index after the global index, as
  \<open>backend_create_object\<close> does, loses objects: the chain of the global index runs through
  the same \<open>next\<close> field, which the second insertion overwrites. If the new entry went in
  front of an object of the global index and the bucket of the backend index was empty, that
  object, although still held by its backend, is no longer found.
\<close>

theorem second_link_loses_object:
  assumes "gi_rep idx (heap w) m" "m u = Some a"
    and "bucket_of (gi_num_buckets idx) (index_hash_string v) = bucket_of (gi_num_buckets idx) (index_hash_string u)"
    and "gi_buckets idx ! bucket_of (gi_num_buckets idx) (index_hash_string u) = Some a"
    and "entry_key (heap w) c = Some v" "m v = None" "c \<notin> ran m"
    and "bucket_at (bi_buckets bi) (bucket_of (bi_num_buckets bi) (index_hash_string v)) = Some None"
  shows "\<exists>idx1 w1 bi' w2 idx2. global_index_insert idx c w = Some (True, idx1, w1) \<and>
     gi_rep idx1 (heap w1) (m(v \<mapsto> c)) \<and> backend_index_insert bi c w1 = Some (bi', w2) \<and>
     global_index_lookup idx1 u w2 = Some (None, idx2, w2)"
proof -
  let ?b = "bucket_of (gi_num_buckets idx) (index_hash_string u)"
  from assms(5) obtain e where e: "heap w c = Some e" "ie_uri e = v" "ie_uri_hash e = index_hash_string v"
    by (auto simp: entry_key_Some)
  have uv: "u \<noteq> v" using assms(2,6) by auto
  let ?idx = "idx\<lparr>gi_buckets := (gi_buckets idx)[?b := Some c], gi_num_entries := gi_num_entries idx + 1\<rparr>"
  let ?w1 = "w\<lparr>heap := (heap w)(c \<mapsto> e\<lparr>ie_next := Some a\<rparr>)\<rparr>"
  have ins: "global_index_insert idx c w = Some (True, ?idx, ?w1)"
    using rep_walk(1,2) [OF assms(1), of v] assms(3,4,6) e
    by (simp add: global_index_insert_def upd_entry_def Let_def)
  have rep: "gi_rep ?idx (heap ?w1) (m(v \<mapsto> c))"
    using rep_insert [OF assms(1) e(1), of "e\<lparr>ie_next := Some a\<rparr>"] e assms(3,4,6,7) by simp
  let ?w2 = "w\<lparr>heap := (heap w)(c \<mapsto> e\<lparr>ie_entry_refcount := ie_entry_refcount e + 1, ie_next := None\<rparr>)\<rparr>"
  obtain bi' where bi: "backend_index_insert bi c ?w1 = Some (bi', ?w2)"
    using assms(8) e by (simp add: backend_index_insert_def index_entry_get_def upd_entry_def Let_def)
  have "chain (heap ?w2) (Some c) [c]" by simp
  from chain_locate_chain [OF this, of "index_hash_string u" u None] e uv
  have "chain_locate (heap ?w2) (index_hash_string u) u None (Some c) = Some None"
    by (simp add: entry_matches_def)
  moreover have "bucket_at (gi_buckets ?idx) ?b = Some (Some c)"
    using rep_walk(1) [OF assms(1), of u] by (auto simp: bucket_at_def split: if_splits)
  ultimately have "\<exists>idx2. global_index_lookup ?idx u ?w2 = Some (None, idx2, ?w2)"
    by (simp add: global_index_lookup_def Let_def)
  with ins rep bi show ?thesis by blast
qed

definition empty_backend_index :: backend_index where
  "empty_backend_index =
     \<lparr>bi_backend_id = 0, bi_buckets = [None], bi_num_buckets = 1, bi_num_entries = 0, bi_index_file_path = None,
      bi_persist_enabled = False, bi_dirty = False, bi_stat_lookups = 0, bi_stat_hits = 0\<rparr>"

theorem second_link_loses_object_witness:
  "\<exists>idx1 w1 bi' w2 idx2. global_index_insert one_index 1 two_entries = Some (True, idx1, w1) \<and>
     gi_rep idx1 (heap w1) [''/a'' \<mapsto> 0, ''/b'' \<mapsto> 1] \<and>
     backend_index_insert empty_backend_index 1 w1 = Some (bi', w2) \<and>
     global_index_lookup idx1 ''/a'' w2 = Some (None, idx2, w2)"
  using second_link_loses_object [of one_index two_entries "[''/a'' \<mapsto> 0]" "''/a''" 0 "''/b''" 1 empty_backend_index]
    two_rep two_key
  by (simp add: bucket_of_def bucket_at_def empty_backend_index_def)

end
