(* ===== verification/Index_Persist.thy ===== *)
theory Index_Persist
  imports Index_Laws
begin

text \<open>
  Persistence of a backend index (\<open>backend_index_save\<close>, \<open>_load\<close>, \<open>_scan\<close> of
  \<open>lib/index/index.c\<close>): the index file, the transfer loops on files, and the scan of a
  mounted directory tree. Bytes of a variable that a failed read leaves unset, and the
  padding of the header structure, are arguments, because C leaves them indeterminate.
\<close>

section \<open>Transfers and checksum\<close>

text \<open>The table of the source has four entries; the other 252 are zero.\<close>

definition crc_table :: "nat \<Rightarrow> u32" where
  "crc_table i = (if i = 1 then 0x77073096 else if i = 2 then 0xee0e612c else if i = 3 then 0x990951ba else 0)"

definition crc_step :: "u32 \<Rightarrow> u8 \<Rightarrow> u32" where
  "crc_step crc b = drop_bit 8 crc XOR crc_table (unat ((crc XOR ucast b) AND 0xff))"

definition crc32 :: "u32 \<Rightarrow> bytes \<Rightarrow> u32" where
  "crc32 crc buf = NOT (foldl crc_step (NOT crc) buf)"

lemma file_write_cases:
  assumes "file_write fd bs s = (r, s')" "bs \<noteq> []"
  obtains
    (failed) "r = KErr" "fd_obj s fd = None \<or> Fail \<in> set (fio_ev s) \<or> (\<exists>d. fd_obj s fd = Some d \<and> of_acc (ofds s d) = O_RDONLY)"
  | (again) "r = KIntr" "fio_ev s \<noteq> []" "s' = s\<lparr>fio_ev := tl (fio_ev s)\<rparr>"
  | (moved) k d where "r = KDone (take k bs)" "0 < k" "k \<le> length bs" "fd_obj s fd = Some d"
      "s' = s\<lparr>fio_ev := tl (fio_ev s),
              inodes := (inodes s)(of_ino (ofds s d) := write_at (of_off (ofds s d)) (take k bs) (inodes s (of_ino (ofds s d)))),
              ofds := (ofds s)(d := (ofds s d)\<lparr>of_off := of_off (ofds s d) + k\<rparr>)\<rparr>"
proof (cases "fd_obj s fd")
  case None
  with assms show ?thesis by (intro failed) (auto simp: file_write_def)
next
  case (Some d)
  consider "fio_ev s \<noteq> [] \<and> hd (fio_ev s) = Intr" | "fio_ev s \<noteq> [] \<and> hd (fio_ev s) = Fail"
    | "of_acc (ofds s d) = O_RDONLY" "\<not> (fio_ev s \<noteq> [] \<and> hd (fio_ev s) = Intr)"
    | "\<not> (fio_ev s \<noteq> [] \<and> hd (fio_ev s) = Intr)" "\<not> (fio_ev s \<noteq> [] \<and> hd (fio_ev s) = Fail)"
      "of_acc (ofds s d) \<noteq> O_RDONLY" by blast
  then show ?thesis
  proof cases
    case 1
    with assms Some show ?thesis by (intro again) (simp_all add: file_write_def Let_def)
  next
    case 2
    with assms Some hd_in_set [of "fio_ev s"] show ?thesis by (intro failed) (simp_all add: file_write_def Let_def)
  next
    case 3
    with assms Some show ?thesis by (intro failed) (simp_all add: file_write_def Let_def)
  next
    case 4
    with assms Some chunk_bounds [of "length bs" "fio_ev s"] show ?thesis
      by (intro moved [of "chunk (fio_ev s) (length bs)" d]) (simp_all add: file_write_def Let_def)
  qed
qed

lemma file_read_cases:
  assumes "file_read fd n s = (r, s')" "0 < n"
  obtains
    (failed) "r = KErr" "fd_obj s fd = None \<or> Fail \<in> set (fio_ev s) \<or> (\<exists>d. fd_obj s fd = Some d \<and> of_acc (ofds s d) = O_WRONLY)"
  | (again) "r = KIntr" "fio_ev s \<noteq> []" "s' = s\<lparr>fio_ev := tl (fio_ev s)\<rparr>"
  | (moved) k d got where "r = KDone got" "0 < k" "k \<le> n" "fd_obj s fd = Some d"
      "got = take k (drop (of_off (ofds s d)) (inodes s (of_ino (ofds s d))))"
      "s' = s\<lparr>fio_ev := tl (fio_ev s),
              ofds := (ofds s)(d := (ofds s d)\<lparr>of_off := of_off (ofds s d) + length got\<rparr>)\<rparr>"
proof (cases "fd_obj s fd")
  case None
  with assms show ?thesis by (intro failed) (auto simp: file_read_def)
next
  case (Some d)
  consider "fio_ev s \<noteq> [] \<and> hd (fio_ev s) = Intr" | "fio_ev s \<noteq> [] \<and> hd (fio_ev s) = Fail"
    | "of_acc (ofds s d) = O_WRONLY" "\<not> (fio_ev s \<noteq> [] \<and> hd (fio_ev s) = Intr)"
    | "\<not> (fio_ev s \<noteq> [] \<and> hd (fio_ev s) = Intr)" "\<not> (fio_ev s \<noteq> [] \<and> hd (fio_ev s) = Fail)"
      "of_acc (ofds s d) \<noteq> O_WRONLY" by blast
  then show ?thesis
  proof cases
    case 1
    with assms Some show ?thesis by (intro again) (simp_all add: file_read_def Let_def)
  next
    case 2
    with assms Some hd_in_set [of "fio_ev s"] show ?thesis by (intro failed) (simp_all add: file_read_def Let_def)
  next
    case 3
    with assms Some show ?thesis by (intro failed) (simp_all add: file_read_def Let_def)
  next
    case 4
    with assms Some chunk_bounds [of n "fio_ev s"] show ?thesis
      by (intro moved [of _ "chunk (fio_ev s) n" d]) (auto simp: file_read_def Let_def)
  qed
qed

function write_all :: "int \<Rightarrow> bytes \<Rightarrow> 'a os_scheme \<Rightarrow> bool \<times> 'a os_scheme" where
  "write_all fd buf s =
     (if buf = [] then (True, s)
      else case file_write fd buf s of
             (KErr, s') \<Rightarrow> (False, s')
           | (KIntr, s') \<Rightarrow> write_all fd buf s'
           | (KDone out, s') \<Rightarrow> write_all fd (drop (length out) buf) s')"
  by pat_completeness auto
termination
proof (relation "measure (\<lambda>(fd, buf, s). length buf + length (fio_ev s))", goal_cases)
  case (2 fd buf s x s')
  then have "file_write fd buf s = (KIntr, s')" "buf \<noteq> []" by auto
  then show ?case by (cases rule: file_write_cases) auto
next
  case (3 fd buf s x s' out)
  then have "file_write fd buf s = (KDone out, s')" "buf \<noteq> []" by auto
  then show ?case by (cases rule: file_write_cases) (auto simp: diff_less add_less_le_mono)
qed simp

text \<open>\<open>read_all\<close>: the bytes stored in the buffer and whether the result is not \<open>-1\<close>.\<close>

function read_all :: "int \<Rightarrow> nat \<Rightarrow> 'a os_scheme \<Rightarrow> (bytes \<times> bool) \<times> 'a os_scheme" where
  "read_all fd cnt s =
     (if cnt = 0 then (([], True), s)
      else case file_read fd cnt s of
             (KErr, s') \<Rightarrow> (([], False), s')
           | (KIntr, s') \<Rightarrow> read_all fd cnt s'
           | (KDone got, s') \<Rightarrow>
               if got = [] then (([], True), s')
               else case read_all fd (cnt - length got) s' of
                      ((rest, ok), s'') \<Rightarrow> ((got @ rest, ok), s''))"
  by pat_completeness auto
termination
proof (relation "measure (\<lambda>(fd, n, s). n + length (fio_ev s))", goal_cases)
  case (2 fd n s x s')
  then have "file_read fd n s = (KIntr, s')" "0 < n" by auto
  then show ?case by (cases rule: file_read_cases) auto
next
  case (3 fd n s x s' got)
  then have *: "file_read fd n s = (KDone got, s')" "0 < n" "got \<noteq> []" by auto
  from *(1,2) show ?case
  proof (cases rule: file_read_cases)
    case (moved k d g)
    with *(3) have "0 < length got" "length got \<le> n" "length (fio_ev s') \<le> length (fio_ev s)" by auto
    then have "n - length got + length (fio_ev s') < n + length (fio_ev s)" by linarith
    then show ?thesis by simp
  qed simp_all
qed simp

declare write_all.simps [simp del] read_all.simps [simp del]

definition read_exact :: "int \<Rightarrow> nat \<Rightarrow> 'a os_scheme \<Rightarrow> bytes option \<times> 'a os_scheme" where
  "read_exact fd n s =
     (case read_all fd n s of ((bs, ok), s) \<Rightarrow> (if ok \<and> length bs = n then Some bs else None, s))"

section \<open>The index file\<close>

definition INDEX_MAGIC :: bytes where
  "INDEX_MAGIC = bytes_of_string ''OBJIDX''"

text \<open>The header structure: 12 bytes, 4 bytes of padding, two 64-bit fields.\<close>

definition index_header :: "u32 \<Rightarrow> backend_index \<Rightarrow> bytes" where
  "index_header pad idx =
     INDEX_MAGIC @ put_le 2 (unat INDEX_VERSION) @ put_le 4 (unat (bi_backend_id idx)) @ put_le 4 (unat pad) @
     put_le 8 (unat (bi_num_entries idx)) @ put_le 8 (unat (bi_num_buckets idx))"

text \<open>The seven writes of an entry. Lengths are cut to 16 bits; results are not looked at.
  \<open>strlen(NULL)\<close> is the outer \<open>None\<close>.\<close>

definition write_entry :: "int \<Rightarrow> index_entry \<Rightarrow> 'a os_scheme \<Rightarrow> 'a os_scheme option" where
  "write_entry fd e s =
     (case ie_backend_path e of
        None \<Rightarrow> None
      | Some path \<Rightarrow>
          let uri_len = (of_nat (length (ie_uri e)) :: u16); path_len = (of_nat (length path) :: u16);
              (_, s) = write_all fd (put_le 2 (unat uri_len)) s;
              (_, s) = write_all fd (take (unat uri_len) (bytes_of_string (ie_uri e))) s;
              (_, s) = write_all fd (put_le 2 (unat path_len)) s;
              (_, s) = write_all fd (take (unat path_len) (bytes_of_string path)) s;
              (_, s) = write_all fd (put_le 8 (unat (ie_size_bytes e))) s;
              (_, s) = write_all fd (put_le 8 (unat (ie_mtime e))) s;
              (_, s) = write_all fd (put_le 4 (unat (ie_flags e))) s
          in Some s)"

partial_function (option) save_chain :: "int \<Rightarrow> addr option \<Rightarrow> 'a world_scheme \<Rightarrow> 'a world_scheme option" where
  "save_chain fd p w =
     (case p of
        None \<Rightarrow> Some w
      | Some a \<Rightarrow>
          (case heap w a of
             None \<Rightarrow> None
           | Some e \<Rightarrow> (case write_entry fd e w of None \<Rightarrow> None | Some w \<Rightarrow> save_chain fd (ie_next e) w)))"

fun save_buckets :: "int \<Rightarrow> addr option list \<Rightarrow> 'a world_scheme \<Rightarrow> 'a world_scheme option" where
  "save_buckets fd [] w = Some w"
| "save_buckets fd (p # ps) w = do { w \<leftarrow> save_chain fd p w; save_buckets fd ps w }"

definition tmp_path :: "string \<Rightarrow> string" where
  "tmp_path path = snprintf_buf 4096 (path @ ''.tmp'')"

definition backend_index_save ::
    "u32 \<Rightarrow> backend_index \<Rightarrow> 'a world_scheme \<Rightarrow> (bool \<times> backend_index \<times> 'a world_scheme) option" where
  "backend_index_save pad idx w =
     (if \<not> bi_persist_enabled idx then Some (False, idx, w)
      else do {
        path \<leftarrow> bi_index_file_path idx;
        let (fd, w) = sys_open_creat O_WRONLY (tmp_path path) w;
        if fd < 0 then Some (False, idx, w)
        else
          let (ok, w) = write_all fd (index_header pad idx) w
          in if \<not> ok then Some (False, idx, sys_unlink (tmp_path path) (sys_close fd w))
             else do {
               w \<leftarrow> save_buckets fd (bi_buckets idx) w;
               let (ok, w) = sys_rename (tmp_path path) path (sys_close fd w);
               if \<not> ok then Some (False, idx, sys_unlink (tmp_path path) w)
               else Some (True, idx\<lparr>bi_dirty := False\<rparr>, w)
             }
      })"

text \<open>A variable of \<open>n\<close> bytes after a read: what was read, then what it held before.\<close>

definition filled :: "nat \<Rightarrow> bytes \<Rightarrow> bytes \<Rightarrow> bytes" where
  "filled n got junk = take n (got @ drop (length got) junk)"

text \<open>
  The loop of \<open>backend_index_load\<close>; \<open>left\<close> counts the iterations the header asks for. The
  entry keeps the reference of its creation besides the one the index takes.
\<close>

fun load_loop ::
    "bytes \<Rightarrow> int \<Rightarrow> nat \<Rightarrow> nat \<Rightarrow> backend_index \<Rightarrow> 'a world_scheme \<Rightarrow> (nat \<times> backend_index \<times> 'a world_scheme) option" where
  "load_loop junk fd 0 loaded idx w = Some (loaded, idx, w)"
| "load_loop junk fd (Suc left) loaded idx w =
     (case read_exact fd 2 w of
        (None, w) \<Rightarrow> Some (loaded, idx, w)
      | (Some l, w) \<Rightarrow>
          (case fault w of
             (True, w) \<Rightarrow> Some (loaded, idx, w)
           | (False, w) \<Rightarrow>
               (case read_exact fd (get_le l) w of
                  (None, w) \<Rightarrow> Some (loaded, idx, w)
                | (Some uri, w) \<Rightarrow>
                    (case read_exact fd 2 w of
                       (None, w) \<Rightarrow> Some (loaded, idx, w)
                     | (Some l, w) \<Rightarrow>
                         (case fault w of
                            (True, w) \<Rightarrow> Some (loaded, idx, w)
                          | (False, w) \<Rightarrow>
                              (case read_exact fd (get_le l) w of
                                 (None, w) \<Rightarrow> Some (loaded, idx, w)
                               | (Some path, w) \<Rightarrow>
                                   (case index_entry_create (c_str (string_of_bytes uri)) (bi_backend_id idx)
                                           (c_str (string_of_bytes path)) w of
                                      (None, w) \<Rightarrow> Some (loaded, idx, w)
                                    | (Some a, w) \<Rightarrow>
                                        let ((sz, _), w) = read_all fd 8 w;
                                            ((mt, _), w) = read_all fd 8 w;
                                            ((fl, _), w) = read_all fd 4 w
                                        in do {
                                          w \<leftarrow> upd_entry a (\<lambda>e. e\<lparr>ie_size_bytes := of_nat (get_le (filled 8 sz junk)),
                                                                  ie_mtime := of_nat (get_le (filled 8 mt junk)),
                                                                  ie_flags := of_nat (get_le (filled 4 fl junk))\<rparr>) w;
                                          (idx, w) \<leftarrow> backend_index_insert idx a w;
                                          load_loop junk fd left (loaded + 1) idx w
                                        })))))))"

text \<open>\<open>None\<close> inside: the result \<open>-1\<close>.\<close>

definition backend_index_load ::
    "bytes \<Rightarrow> backend_index \<Rightarrow> 'a world_scheme \<Rightarrow> (nat option \<times> backend_index \<times> 'a world_scheme) option" where
  "backend_index_load junk idx w =
     (if \<not> bi_persist_enabled idx then Some (None, idx, w)
      else do {
        path \<leftarrow> bi_index_file_path idx;
        let (fd, w) = sys_open O_RDONLY path w;
        if fd < 0 then Some (None, idx, w)
        else
          case read_exact fd 32 w of
            (None, w) \<Rightarrow> Some (None, idx, sys_close fd w)
          | (Some hdr, w) \<Rightarrow>
              if take 6 hdr \<noteq> INDEX_MAGIC then Some (None, idx, sys_close fd w)
              else if of_nat (get_le (field 6 2 hdr)) \<noteq> INDEX_VERSION then Some (None, idx, sys_close fd w)
              else do {
                (loaded, idx, w) \<leftarrow> load_loop junk fd (get_le (field 16 8 hdr)) 0 idx w;
                Some (Some loaded, idx\<lparr>bi_dirty := False\<rparr>, sys_close fd w)
              }
      })"

section \<open>Scanning a mount point\<close>

text \<open>
  \<open>readdir\<close> delivers the names of a directory in an order the system chooses: the function
  \<open>listing\<close> is a parameter, \<open>None\<close> where \<open>opendir\<close> fails. The nested calls of
  \<open>scan_dir_recursive\<close> are a stack of directories with the names still to come; \<open>visit\<close> is
  what happens to a regular file, given its path and its inode.
\<close>

partial_function (option) walk_tree ::
    "(string \<Rightarrow> string list option) \<Rightarrow> (string \<Rightarrow> nat \<Rightarrow> 's \<times> 'a world_scheme \<Rightarrow> ('s \<times> 'a world_scheme) option)
       \<Rightarrow> (string \<times> string list) list \<Rightarrow> 's \<times> 'a world_scheme \<Rightarrow> ('s \<times> 'a world_scheme) option" where
  "walk_tree listing visit stack st =
     (case stack of
        [] \<Rightarrow> Some st
      | (dir_path, names) # rest \<Rightarrow>
          (case names of
             [] \<Rightarrow> walk_tree listing visit rest st
           | d_name # names \<Rightarrow>
               if d_name = ''.'' \<or> d_name = ''..''
               then walk_tree listing visit ((dir_path, names) # rest) st
               else
                 let full_path = snprintf_buf 2048 (dir_path @ ''/'' @ d_name)
                 in if is_dir (snd st) full_path
                    then (case listing full_path of
                            None \<Rightarrow> walk_tree listing visit ((dir_path, names) # rest) st
                          | Some ns \<Rightarrow> walk_tree listing visit ((full_path, ns) # (dir_path, names) # rest) st)
                    else (case dir (snd st) full_path of
                            None \<Rightarrow> walk_tree listing visit ((dir_path, names) # rest) st
                          | Some ino \<Rightarrow>
                              (case visit full_path ino st of
                                 None \<Rightarrow> None
                               | Some st \<Rightarrow> walk_tree listing visit ((dir_path, names) # rest) st))))"

definition scan_tree ::
    "(string \<Rightarrow> string list option) \<Rightarrow> (string \<Rightarrow> nat \<Rightarrow> 's \<times> 'a world_scheme \<Rightarrow> ('s \<times> 'a world_scheme) option)
       \<Rightarrow> string \<Rightarrow> 's \<times> 'a world_scheme \<Rightarrow> ('s \<times> 'a world_scheme) option" where
  "scan_tree listing visit mount st =
     (case listing mount of None \<Rightarrow> Some st | Some ns \<Rightarrow> walk_tree listing visit [(mount, ns)] st)"

text \<open>The state of \<open>backend_index_scan\<close>; \<open>sc_progress\<close> collects the counts passed to the callback.\<close>

record scan_state =
  sc_idx :: backend_index
  sc_count :: nat
  sc_progress :: "nat list"

definition scan_file ::
    "bool \<Rightarrow> nat \<Rightarrow> string \<Rightarrow> nat \<Rightarrow> scan_state \<times> 'a world_scheme \<Rightarrow> (scan_state \<times> 'a world_scheme) option" where
  "scan_file cb base_len full_path ino s =
     (case s of (st, w) \<Rightarrow>
        if base_len > length full_path then None
        else case index_entry_create (drop base_len full_path) (bi_backend_id (sc_idx st)) full_path w of
               (None, w) \<Rightarrow> Some (st, w)
             | (Some a, w) \<Rightarrow>
                 do {
                   w \<leftarrow> upd_entry a (\<lambda>e. e\<lparr>ie_size_bytes := of_nat (length (inodes w ino)),
                                           ie_flags := INDEX_FLAG_PERSISTENT\<rparr>) w;
                   (idx, w) \<leftarrow> backend_index_insert (sc_idx st) a w;
                   w \<leftarrow> index_entry_put a w;
                   let cnt = sc_count st + 1;
                   Some (\<lparr>sc_idx = idx, sc_count = cnt,
                          sc_progress = (if cb \<and> cnt mod 100 = 0 then sc_progress st @ [cnt] else sc_progress st)\<rparr>, w)
                 })"

definition backend_index_scan ::
    "(string \<Rightarrow> string list option) \<Rightarrow> bool \<Rightarrow> backend_index \<Rightarrow> string \<Rightarrow> 'a world_scheme
       \<Rightarrow> (nat \<times> nat list \<times> backend_index \<times> 'a world_scheme) option" where
  "backend_index_scan listing cb idx mount_path w =
     do {
       (st, w) \<leftarrow> scan_tree listing (scan_file cb (length mount_path)) mount_path
                    (\<lparr>sc_idx = idx, sc_count = 0, sc_progress = []\<rparr>, w);
       Some (sc_count st, (if cb then sc_progress st @ [sc_count st] else sc_progress st), sc_idx st, w)
     }"

end
