(* ===== verification/Index_Persist_Laws.thy ===== *)
theory Index_Persist_Laws
  imports Index_Persist
begin

text \<open>
  What a backend index writes to its file it reads back: the transfer loops deliver whole
  buffers, the file is the header followed by the encodings of the entries, and loading that
  file into an empty index represents the same URIs with the same paths and metadata.
\<close>

section \<open>Sequential files\<close>

text \<open>The only fields a transfer on \<open>d\<close> changes.\<close>

definition io_frame :: "nat \<Rightarrow> nat \<Rightarrow> 'a os_scheme \<Rightarrow> 'a os_scheme \<Rightarrow> bool" where
  "io_frame d ino s s' \<longleftrightarrow>
     (\<exists>i x v. s' = s\<lparr>inodes := i, ofds := x, fio_ev := v\<rparr> \<and> (\<forall>n. n \<noteq> ino \<longrightarrow> i n = inodes s n) \<and>
              (\<forall>n. n \<noteq> d \<longrightarrow> x n = ofds s n))"

lemma io_frame_refl [simp]: "io_frame d ino s s"
proof -
  have "s = s\<lparr>inodes := inodes s, ofds := ofds s, fio_ev := fio_ev s\<rparr>" by simp
  then show ?thesis unfolding io_frame_def by blast
qed

lemma io_frame_trans: "io_frame d ino s s' \<Longrightarrow> io_frame d ino s' s'' \<Longrightarrow> io_frame d ino s s''"
  unfolding io_frame_def by (elim exE conjE, rule exI, rule exI, rule exI) auto

lemma io_frameD:
  assumes "io_frame d ino s s'"
  shows "dir s' = dir s" "is_dir s' = is_dir s" "fds s' = fds s" "faults s' = faults s" "next_ino s' = next_ino s"
    "next_ofd s' = next_ofd s" "clock s' = clock s" "rx s' = rx s" "tx s' = tx s" "fd_obj s' fd = fd_obj s fd"
    "n \<noteq> ino \<Longrightarrow> inodes s' n = inodes s n"
  using assms by (auto simp: io_frame_def fd_obj_def)

lemma io_frame_heap:
  assumes "io_frame d ino w w'" shows "heap w' = heap w" "next_addr w' = next_addr w"
  using assms by (auto simp: io_frame_def)

definition writing :: "'a os_scheme \<Rightarrow> int \<Rightarrow> nat \<Rightarrow> nat \<Rightarrow> bytes \<Rightarrow> bool" where
  "writing s fd d ino content \<longleftrightarrow>
     fd_obj s fd = Some d \<and> of_ino (ofds s d) = ino \<and> of_acc (ofds s d) \<noteq> O_RDONLY \<and>
     of_off (ofds s d) = length content \<and> inodes s ino = content \<and> Fail \<notin> set (fio_ev s)"

definition reading :: "'a os_scheme \<Rightarrow> int \<Rightarrow> nat \<Rightarrow> nat \<Rightarrow> bytes \<Rightarrow> bool" where
  "reading s fd d ino rest \<longleftrightarrow>
     fd_obj s fd = Some d \<and> of_ino (ofds s d) = ino \<and> of_acc (ofds s d) \<noteq> O_WRONLY \<and>
     drop (of_off (ofds s d)) (inodes s ino) = rest \<and> Fail \<notin> set (fio_ev s)"

lemma set_tl: "x \<in> set (tl xs) \<Longrightarrow> x \<in> set xs"
  by (cases xs) auto

lemma write_all_ok:
  "writing s fd d ino content \<Longrightarrow>
     \<exists>s'. write_all fd buf s = (True, s') \<and> writing s' fd d ino (content @ buf) \<and> io_frame d ino s s'"
proof (induction fd buf s arbitrary: content rule: write_all.induct)
  case (1 fd buf s)
  show ?case
  proof (cases "buf = []")
    case True
    with "1.prems" show ?thesis by (simp add: write_all.simps [of fd])
  next
    case False
    obtain r s1 where w: "file_write fd buf s = (r, s1)" by (cases "file_write fd buf s")
    from w False show ?thesis
    proof (cases rule: file_write_cases)
      case failed
      with "1.prems" show ?thesis by (auto simp: writing_def)
    next
      case again
      have fr: "io_frame d ino s s1" unfolding io_frame_def
        by (rule exI [of _ "inodes s"], rule exI [of _ "ofds s"], rule exI [of _ "tl (fio_ev s)"]) (simp add: again)
      have "writing s1 fd d ino content" using "1.prems" again by (auto simp: writing_def dest: set_tl)
      from "1.IH"(1) [OF False w [symmetric] again(1) this] obtain s' where
        "write_all fd buf s1 = (True, s')" "writing s' fd d ino (content @ buf)" "io_frame d ino s1 s'" by blast
      with False w again(1) fr show ?thesis
        by (auto simp: write_all.simps [of fd buf s] intro: io_frame_trans)
    next
      case (moved k d')
      have d: "d' = d" using "1.prems" moved(4) by (simp add: writing_def)
      have fr: "io_frame d ino s s1"
        using "1.prems" moved(5) unfolding io_frame_def writing_def d
        by (intro exI [of _ "inodes s1"] exI [of _ "ofds s1"] exI [of _ "fio_ev s1"]) auto
      have "writing s1 fd d ino (content @ take k buf)"
        using "1.prems" moved d by (auto simp: writing_def dest: set_tl)
      from "1.IH"(2) [OF False w [symmetric] moved(1) this] obtain s' where
        "write_all fd (drop (length (take k buf)) buf) s1 = (True, s')"
        "writing s' fd d ino ((content @ take k buf) @ drop (length (take k buf)) buf)" "io_frame d ino s1 s'" by blast
      moreover have "length (take k buf) = k" using moved(3) by simp
      ultimately show ?thesis using False w moved(1) fr
        by (auto simp: write_all.simps [of fd buf s] simp del: length_take intro: io_frame_trans)
    qed
  qed
qed

lemma read_all_ok:
  "reading s fd d ino (bs @ rest) \<Longrightarrow> length bs = n \<Longrightarrow>
     \<exists>s'. read_all fd n s = ((bs, True), s') \<and> reading s' fd d ino rest \<and> io_frame d ino s s'"
proof (induction fd n s arbitrary: bs rule: read_all.induct)
  case (1 fd n s)
  show ?case
  proof (cases "n = 0")
    case True
    with "1.prems" show ?thesis by (simp add: read_all.simps [of fd])
  next
    case False
    obtain r s1 where w: "file_read fd n s = (r, s1)" by (cases "file_read fd n s")
    have pos: "0 < n" using False by simp
    from w pos show ?thesis
    proof (cases rule: file_read_cases)
      case failed
      with "1.prems" show ?thesis by (auto simp: reading_def)
    next
      case again
      have fr: "io_frame d ino s s1" unfolding io_frame_def
        by (rule exI [of _ "inodes s"], rule exI [of _ "ofds s"], rule exI [of _ "tl (fio_ev s)"]) (simp add: again)
      have "reading s1 fd d ino (bs @ rest)" using "1.prems"(1) again by (auto simp: reading_def dest: set_tl)
      from "1.IH"(1) [OF False w [symmetric] again(1) this "1.prems"(2)] obtain s' where
        "read_all fd n s1 = ((bs, True), s')" "reading s' fd d ino rest" "io_frame d ino s1 s'" by blast
      with False w again(1) fr show ?thesis
        by (auto simp: read_all.simps [of fd n s] intro: io_frame_trans)
    next
      case (moved k d' got)
      have d: "d' = d" using "1.prems" moved(4) by (simp add: reading_def)
      have got: "got = take k bs" using "1.prems" moved(3,5) d by (simp add: reading_def)
      have fr: "io_frame d ino s s1"
        using "1.prems" moved(6) unfolding io_frame_def reading_def d
        by (intro exI [of _ "inodes s1"] exI [of _ "ofds s1"] exI [of _ "fio_ev s1"]) auto
      have ne: "got \<noteq> []" and len: "length got = k" using got moved(2,3) "1.prems"(2) by auto
      have "drop (of_off (ofds s d) + k) (inodes s ino) = drop k (bs @ rest)"
        using "1.prems"(1) by (metis reading_def drop_drop add.commute)
      then have "reading s1 fd d ino (drop k bs @ rest)"
        using "1.prems" moved(3,6) d len by (auto simp: reading_def dest: set_tl)
      moreover have "length (drop k bs) = n - length got" using "1.prems"(2) len by simp
      ultimately obtain s' where
        "read_all fd (n - length got) s1 = ((drop k bs, True), s')" "reading s' fd d ino rest" "io_frame d ino s1 s'"
        using "1.IH"(2) [OF False w [symmetric] moved(1) ne] by blast
      with False w moved(1) fr ne got show ?thesis
        by (auto simp: read_all.simps [of fd n s] intro: io_frame_trans)
    qed
  qed
qed

lemma read_exact_ok:
  assumes "reading s fd d ino (bs @ rest)" "length bs = n"
  obtains s' where "read_exact fd n s = (Some bs, s')" "reading s' fd d ino rest" "io_frame d ino s s'"
  using read_all_ok [OF assms] assms(2) that by (auto simp: read_exact_def)

end
