(* ===== verification/Index_File.thy ===== *)
theory Index_File
  imports Index_Persist_Laws Index_Props
begin

text \<open>
  The round trip of a backend index through its file: what \<open>backend_index_save\<close> writes is the
  header and the entries, bucket by bucket, and \<open>backend_index_load\<close> rebuilds from it an index
  with the same URIs, paths, sizes, times and flags.
\<close>

section \<open>Saving\<close>

definition entry_bytes :: "index_entry \<Rightarrow> bytes" where
  "entry_bytes e =
     put_le 2 (length (ie_uri e)) @ bytes_of_string (ie_uri e) @
     put_le 2 (length (the (ie_backend_path e))) @ bytes_of_string (the (ie_backend_path e)) @
     put_le 8 (unat (ie_size_bytes e)) @ put_le 8 (unat (ie_mtime e)) @ put_le 4 (unat (ie_flags e))"

text \<open>An entry that the file format can hold: strings without NUL, of lengths below 65536.\<close>

definition storable :: "index_entry \<Rightarrow> bool" where
  "storable e \<longleftrightarrow> length (ie_uri e) < 65536 \<and> CHR 0x00 \<notin> set (ie_uri e) \<and>
     (\<exists>p. ie_backend_path e = Some p \<and> length p < 65536 \<and> CHR 0x00 \<notin> set p)"

lemma storableE:
  assumes "storable e"
  obtains p where "ie_backend_path e = Some p" "length p < 65536" "CHR 0x00 \<notin> set p"
    "length (ie_uri e) < 65536" "CHR 0x00 \<notin> set (ie_uri e)"
  using assms unfolding storable_def by blast

lemma unat_len16: "n < 65536 \<Longrightarrow> unat (of_nat n :: u16) = n"
  by (simp add: unat_of_nat take_bit_nat_eq_self)

lemma write_entry_ok:
  assumes "writing w fd d ino content" "storable e"
  obtains w' where "write_entry fd e w = Some w'" "writing w' fd d ino (content @ entry_bytes e)" "io_frame d ino w w'"
proof -
  obtain p where p: "ie_backend_path e = Some p" "length p < 65536" "CHR 0x00 \<notin> set p"
    "length (ie_uri e) < 65536" "CHR 0x00 \<notin> set (ie_uri e)" using storableE [OF assms(2)] .
  obtain w1 where 1: "write_all fd (put_le 2 (length (ie_uri e))) w = (True, w1)"
      "writing w1 fd d ino (content @ put_le 2 (length (ie_uri e)))" "io_frame d ino w w1"
    using write_all_ok [OF assms(1)] by blast
  obtain w2 where 2: "write_all fd (bytes_of_string (ie_uri e)) w1 = (True, w2)"
      "writing w2 fd d ino ((content @ put_le 2 (length (ie_uri e))) @ bytes_of_string (ie_uri e))" "io_frame d ino w1 w2"
    using write_all_ok [OF 1(2)] by blast
  obtain w3 where 3: "write_all fd (put_le 2 (length p)) w2 = (True, w3)"
      "writing w3 fd d ino (((content @ put_le 2 (length (ie_uri e))) @ bytes_of_string (ie_uri e)) @ put_le 2 (length p))"
      "io_frame d ino w2 w3"
    using write_all_ok [OF 2(2)] by blast
  obtain w4 where 4: "write_all fd (bytes_of_string p) w3 = (True, w4)"
      "writing w4 fd d ino ((((content @ put_le 2 (length (ie_uri e))) @ bytes_of_string (ie_uri e)) @ put_le 2 (length p)) @ bytes_of_string p)"
      "io_frame d ino w3 w4"
    using write_all_ok [OF 3(2)] by blast
  obtain w5 where 5: "write_all fd (put_le 8 (unat (ie_size_bytes e))) w4 = (True, w5)" "writing w5 fd d ino
      (((((content @ put_le 2 (length (ie_uri e))) @ bytes_of_string (ie_uri e)) @ put_le 2 (length p)) @ bytes_of_string p) @
        put_le 8 (unat (ie_size_bytes e)))" "io_frame d ino w4 w5"
    using write_all_ok [OF 4(2)] by blast
  obtain w6 where 6: "write_all fd (put_le 8 (unat (ie_mtime e))) w5 = (True, w6)" "writing w6 fd d ino
      ((((((content @ put_le 2 (length (ie_uri e))) @ bytes_of_string (ie_uri e)) @ put_le 2 (length p)) @ bytes_of_string p) @
        put_le 8 (unat (ie_size_bytes e))) @ put_le 8 (unat (ie_mtime e)))" "io_frame d ino w5 w6"
    using write_all_ok [OF 5(2)] by blast
  obtain w7 where 7: "write_all fd (put_le 4 (unat (ie_flags e))) w6 = (True, w7)" "writing w7 fd d ino
      (((((((content @ put_le 2 (length (ie_uri e))) @ bytes_of_string (ie_uri e)) @ put_le 2 (length p)) @ bytes_of_string p) @
        put_le 8 (unat (ie_size_bytes e))) @ put_le 8 (unat (ie_mtime e))) @ put_le 4 (unat (ie_flags e)))" "io_frame d ino w6 w7"
    using write_all_ok [OF 6(2)] by blast
  have "write_entry fd e w = Some w7"
    using 1(1) 2(1) 3(1) 4(1) 5(1) 6(1) 7(1) p by (simp add: write_entry_def unat_len16)
  moreover have "writing w7 fd d ino (content @ entry_bytes e)" using 7(2) p(1) by (simp add: entry_bytes_def)
  moreover have "io_frame d ino w w7"
    using 1(3) 2(3) 3(3) 4(3) 5(3) 6(3) 7(3) by (blast intro: io_frame_trans)
  ultimately show ?thesis by (rule that)
qed

abbreviation chain_bytes :: "entry_heap \<Rightarrow> addr list \<Rightarrow> bytes" where
  "chain_bytes h as \<equiv> concat (map (\<lambda>a. entry_bytes (the (h a))) as)"

lemma save_chain_ok:
  assumes "writing w fd d ino content" "chain (heap w) p as" "\<And>a. a \<in> set as \<Longrightarrow> storable (the (heap w a))"
  shows "\<exists>w'. save_chain fd p w = Some w' \<and> writing w' fd d ino (content @ chain_bytes (heap w) as) \<and> io_frame d ino w w'"
  using assms
proof (induction as arbitrary: w p content)
  case Nil
  then show ?case by (subst save_chain.simps) simp
next
  case (Cons a as)
  then obtain e where e: "p = Some a" "heap w a = Some e" "chain (heap w) (ie_next e) as" by (auto split: option.splits)
  have "storable e" using Cons.prems(3) [of a] e(2) by simp
  from write_entry_ok [OF Cons.prems(1) this] obtain w1 where
    1: "write_entry fd e w = Some w1" "writing w1 fd d ino (content @ entry_bytes e)" "io_frame d ino w w1" by blast
  have h: "heap w1 = heap w" using io_frame_heap [OF 1(3)] by simp
  obtain w' where 2: "save_chain fd (ie_next e) w1 = Some w'"
      "writing w' fd d ino ((content @ entry_bytes e) @ chain_bytes (heap w) as)" "io_frame d ino w1 w'"
    using Cons.IH [OF 1(2), of "ie_next e"] e(3) Cons.prems(3) unfolding h by auto
  have "save_chain fd p w = Some w'" using e 1(1) 2(1) by (subst save_chain.simps) simp
  with 2(2) e(2) io_frame_trans [OF 1(3) 2(3)] show ?case by simp
qed

lemma save_buckets_ok:
  assumes "writing w fd d ino content" "list_all2 (chain (heap w)) ps L" "\<And>a. a \<in> set (concat L) \<Longrightarrow> storable (the (heap w a))"
  shows "\<exists>w'. save_buckets fd ps w = Some w' \<and> writing w' fd d ino (content @ chain_bytes (heap w) (concat L)) \<and> io_frame d ino w w'"
  using assms
proof (induction ps arbitrary: w L content)
  case Nil
  then show ?case by simp
next
  case (Cons p ps)
  then obtain as L' where L: "L = as # L'" "chain (heap w) p as" "list_all2 (chain (heap w)) ps L'" by (auto simp: list_all2_Cons1)
  have "\<And>a. a \<in> set as \<Longrightarrow> storable (the (heap w a))" using Cons.prems(3) L(1) by simp
  from save_chain_ok [OF Cons.prems(1) L(2) this] obtain w1 where
    1: "save_chain fd p w = Some w1" "writing w1 fd d ino (content @ chain_bytes (heap w) as)" "io_frame d ino w w1" by blast
  have h: "heap w1 = heap w" using io_frame_heap [OF 1(3)] by simp
  obtain w' where 2: "save_buckets fd ps w1 = Some w'"
      "writing w' fd d ino ((content @ chain_bytes (heap w) as) @ chain_bytes (heap w) (concat L'))" "io_frame d ino w1 w'"
    using Cons.IH [OF 1(2), of L'] L(1,3) Cons.prems(3) unfolding h by auto
  show ?case using 1(1) 2(1,2) L(1) io_frame_trans [OF 1(3) 2(3)] by simp
qed

lemma rename_ok:
  assumes "no_faults s" "dir s old = Some ino" "\<not> is_dir s new" "parent_ok s new"
  obtains f where "sys_rename old new s = (True, s\<lparr>faults := f, dir := (dir s)(old := None, new \<mapsto> ino)\<rparr>)" "True \<notin> set f"
proof -
  obtain f where "fault s = (False, s\<lparr>faults := f\<rparr>)" "True \<notin> set f" using no_faults_fault [OF assms(1)] .
  with assms(2-4) show ?thesis by (intro that [of f]) (simp_all add: sys_rename_def parent_ok_def)
qed

lemma creat_frame:
  assumes "sys_open_creat acc path s = (fd, s')"
  shows "is_dir s' = is_dir s" "fio_ev s' = fio_ev s"
  using assms by (auto simp: sys_open_creat_def fault_def new_ofd_def install_fd_def Let_def
      split: list.split_asm prod.split_asm if_split_asm option.split_asm)

text \<open>Where the file of an index can be replaced.\<close>

definition replaceable :: "string \<Rightarrow> 'a os_scheme \<Rightarrow> bool" where
  "replaceable path s \<longleftrightarrow> length (path @ ''.tmp'') < 4096 \<and> \<not> is_dir s path \<and> parent_ok s path \<and>
     (dir s (path @ ''.tmp'') = None \<longrightarrow> \<not> is_dir s (path @ ''.tmp'') \<and> parent_ok s (path @ ''.tmp''))"

lemma save_ok:
  assumes "no_faults w" "Fail \<notin> set (fio_ev w)" "bi_persist_enabled idx" "bi_index_file_path idx = Some path" "replaceable path w"
    and t: "table (heap w) (bi_num_buckets idx) (bi_buckets idx) L"
    and "\<And>a. a \<in> set (concat L) \<Longrightarrow> storable (the (heap w a))"
  obtains w' ino where "backend_index_save pad idx w = Some (True, idx\<lparr>bi_dirty := False\<rparr>, w')"
    "dir w' path = Some ino" "inodes w' ino = index_header pad idx @ chain_bytes (heap w) (concat L)"
    "heap w' = heap w" "next_addr w' = next_addr w" "no_faults w'" "Fail \<notin> set (fio_ev w')"
proof -
  let ?tmp = "path @ ''.tmp''"
  have tmp: "tmp_path path = ?tmp" using assms(5) unfolding tmp_path_def replaceable_def by (intro snprintf_buf_id) blast
  have pre: "dir w ?tmp = None \<Longrightarrow> \<not> is_dir w ?tmp \<and> parent_ok w ?tmp" using assms(5) unfolding replaceable_def by blast
  obtain fd w1 d ino where c: "sys_open_creat O_WRONLY ?tmp w = (fd, w1)" "0 \<le> fd" "fd_obj w fd = None" "fd_obj w1 fd = Some d"
    "ofds w1 d = \<lparr>of_ino = ino, of_off = 0, of_acc = O_WRONLY\<rparr>" "dir w1 = (dir w)(?tmp \<mapsto> ino)"
    "ino = (case dir w ?tmp of None \<Rightarrow> next_ino w | Some i \<Rightarrow> i)" "inodes w1 = (inodes w)(ino := [])"
    "no_faults w1" "os.more w1 = os.more w" "\<forall>x. x \<noteq> fd \<longrightarrow> fd_obj w1 x = fd_obj w x"
    using creat_ok [OF assms(1) pre, of O_WRONLY] .
  note fr = creat_frame [OF c(1)]
  have h1: "heap w1 = heap w" "next_addr w1 = next_addr w" using c(10) by (cases w; cases w1; simp)+
  have "writing w1 fd d ino []" using c(4,5,8) fr(2) assms(2) by (simp add: writing_def)
  then obtain w2 where 2: "write_all fd (index_header pad idx) w1 = (True, w2)" "writing w2 fd d ino (index_header pad idx)"
      "io_frame d ino w1 w2" using write_all_ok [of w1 fd d ino "[]" "index_header pad idx"] by auto
  have h2: "heap w2 = heap w" using io_frame_heap [OF 2(3)] h1 by simp
  have "list_all2 (chain (heap w2)) (bi_buckets idx) L"
    unfolding list_all2_conv_all_nth h2 using tableD(2,3,4) [OF t] by simp
  then obtain w3 where 3: "save_buckets fd (bi_buckets idx) w2 = Some w3"
      "writing w3 fd d ino (index_header pad idx @ chain_bytes (heap w) (concat L))" "io_frame d ino w2 w3"
    using save_buckets_ok [OF 2(2)] assms(7) unfolding h2 by blast
  have f3: "io_frame d ino w1 w3" using io_frame_trans [OF 2(3) 3(3)] .
  note fd3 = io_frameD [OF f3]
  let ?w4 = "sys_close fd w3"
  have "no_faults ?w4" "dir ?w4 ?tmp = Some ino" "\<not> is_dir ?w4 path" "parent_ok ?w4 path"
    using c(6,9) fd3 fr(1) assms(5) by (simp_all add: no_faults_def sys_close_simps replaceable_def parent_ok_def)
  from rename_ok [OF this] obtain f where r: "sys_rename ?tmp path ?w4 = (True, ?w4\<lparr>faults := f, dir := (dir ?w4)(?tmp := None, path \<mapsto> ino)\<rparr>)"
    "True \<notin> set f" .
  let ?w5 = "?w4\<lparr>faults := f, dir := (dir ?w4)(?tmp := None, path \<mapsto> ino)\<rparr>"
  have run: "backend_index_save pad idx w = Some (True, idx\<lparr>bi_dirty := False\<rparr>, ?w5)"
    using assms(3,4) c(1,2) 2(1) 3(1) r(1) by (simp add: backend_index_save_def tmp)
  show ?thesis
  proof (rule that [OF run, of ino])
    show "inodes ?w5 ino = index_header pad idx @ chain_bytes (heap w) (concat L)" "Fail \<notin> set (fio_ev ?w5)"
      using 3(2) by (simp_all add: writing_def sys_close_simps)
    show "heap ?w5 = heap w" "next_addr ?w5 = next_addr w" using h1 io_frame_heap [OF f3] by simp_all
    show "no_faults ?w5" using r(2) by (simp add: no_faults_def)
  qed simp
qed

section \<open>Loading\<close>

text \<open>The entry that is made from the bytes of \<open>e\<close>.\<close>

definition reloaded :: "index_entry \<Rightarrow> index_entry \<Rightarrow> bool" where
  "reloaded e e' \<longleftrightarrow> ie_uri e' = ie_uri e \<and> ie_backend_path e' = ie_backend_path e \<and> ie_size_bytes e' = ie_size_bytes e \<and>
     ie_mtime e' = ie_mtime e \<and> ie_flags e' = ie_flags e"

lemma filled_whole: "length got = n \<Longrightarrow> filled n got junk = got"
  by (simp add: filled_def)

lemma io_no_faults: "io_frame d ino s s' \<Longrightarrow> no_faults s \<Longrightarrow> no_faults s'"
  by (simp add: no_faults_def io_frameD(4))

lemma reading_faults [simp]:
  "reading (w\<lparr>faults := f\<rparr>) fd d ino bs = reading w fd d ino bs"
  "reading (w\<lparr>next_addr := a\<rparr>) fd d ino bs = reading w fd d ino bs"
  "reading (w\<lparr>heap := h\<rparr>) fd d ino bs = reading w fd d ino bs"
  by (simp_all add: reading_def fd_obj_def)

text \<open>The two strings of an entry, each behind its length.\<close>

lemma read_string_ok:
  assumes "reading w fd d ino (put_le 2 (length s) @ bytes_of_string s @ rest)" "length s < 65536" "no_faults w"
  obtains w1 f w2 where "read_exact fd 2 w = (Some (put_le 2 (length s)), w1)" "fault w1 = (False, w1\<lparr>faults := f\<rparr>)"
    "read_exact fd (length s) (w1\<lparr>faults := f\<rparr>) = (Some (bytes_of_string s), w2)"
    "reading w2 fd d ino rest" "no_faults w2" "heap w2 = heap w" "next_addr w2 = next_addr w"
proof -
  obtain w1 where 1: "read_exact fd 2 w = (Some (put_le 2 (length s)), w1)" "reading w1 fd d ino (bytes_of_string s @ rest)"
      "io_frame d ino w w1" using read_exact_ok [OF assms(1), of 2] by auto
  obtain f where f: "fault w1 = (False, w1\<lparr>faults := f\<rparr>)" "True \<notin> set f"
    using no_faults_fault [OF io_no_faults [OF 1(3) assms(3)]] .
  have "reading (w1\<lparr>faults := f\<rparr>) fd d ino (bytes_of_string s @ rest)" using 1(2) by simp
  then obtain w2 where 2: "read_exact fd (length s) (w1\<lparr>faults := f\<rparr>) = (Some (bytes_of_string s), w2)"
      "reading w2 fd d ino rest" "io_frame d ino (w1\<lparr>faults := f\<rparr>) w2"
    using read_exact_ok [of "w1\<lparr>faults := f\<rparr>" fd d ino "bytes_of_string s" rest "length s"] by auto
  have "no_faults w2" using io_frameD(4) [OF 2(3)] f(2) by (simp add: no_faults_def)
  with 1(1) f(1) 2(1,2) show ?thesis
    using io_frame_heap [OF 1(3)] io_frame_heap [OF 2(3)] by (intro that [of w1 f w2]) simp_all
qed

lemma get_le_len16: "n < 65536 \<Longrightarrow> get_le (put_le 2 n) = n"
  by (simp add: get_le_put_le)

text \<open>The three numbers that follow.\<close>

lemma read_tail_ok:
  assumes "reading w fd d ino (put_le 8 x @ put_le 8 y @ put_le 4 z @ rest)" "no_faults w"
  obtains w1 w2 w3 where "read_all fd 8 w = ((put_le 8 x, True), w1)" "read_all fd 8 w1 = ((put_le 8 y, True), w2)"
    "read_all fd 4 w2 = ((put_le 4 z, True), w3)" "reading w3 fd d ino rest" "no_faults w3"
    "heap w3 = heap w" "next_addr w3 = next_addr w"
proof -
  obtain w1 where 1: "read_all fd 8 w = ((put_le 8 x, True), w1)" "reading w1 fd d ino (put_le 8 y @ put_le 4 z @ rest)"
      "io_frame d ino w w1" using read_all_ok [OF assms(1), of 8] by auto
  obtain w2 where 2: "read_all fd 8 w1 = ((put_le 8 y, True), w2)" "reading w2 fd d ino (put_le 4 z @ rest)"
      "io_frame d ino w1 w2" using read_all_ok [OF 1(2), of 8] by auto
  obtain w3 where 3: "read_all fd 4 w2 = ((put_le 4 z, True), w3)" "reading w3 fd d ino rest"
      "io_frame d ino w2 w3" using read_all_ok [OF 2(2), of 4] by auto
  have fr: "io_frame d ino w w3" using 1(3) 2(3) 3(3) by (blast intro: io_frame_trans)
  show ?thesis
    by (rule that [OF 1(1) 2(1) 3(1,2) io_no_faults [OF fr assms(2)] io_frame_heap [OF fr]])
qed

lemma load_step:
  assumes "reading w fd d ino (entry_bytes e @ rest)" "storable e" "no_faults w" "bi_rep idx (heap w) m" "m (ie_uri e) = None"
    and fresh: "\<forall>a \<ge> next_addr w. heap w a = None"
  obtains idx' w' e' where "\<forall>n k. load_loop junk fd (Suc n) k idx w = load_loop junk fd n (k + 1) idx' w'"
    "reading w' fd d ino rest" "no_faults w'" "bi_rep idx' (heap w') (m(ie_uri e \<mapsto> next_addr w))"
    "next_addr w' = Suc (next_addr w)" "heap w' = (heap w)(next_addr w \<mapsto> e')" "reloaded e e'"
proof -
  obtain p where p: "ie_backend_path e = Some p" "length p < 65536" "CHR 0x00 \<notin> set p"
    "length (ie_uri e) < 65536" "CHR 0x00 \<notin> set (ie_uri e)" using storableE [OF assms(2)] .
  let ?u = "ie_uri e" and ?a = "next_addr w"
  let ?nums = "put_le 8 (unat (ie_size_bytes e)) @ put_le 8 (unat (ie_mtime e)) @ put_le 4 (unat (ie_flags e)) @ rest"
  have "reading w fd d ino (put_le 2 (length ?u) @ bytes_of_string ?u @ (put_le 2 (length p) @ bytes_of_string p @ ?nums))"
    using assms(1) p(1) by (simp add: entry_bytes_def)
  from read_string_ok [OF this p(4) assms(3)] obtain w1 f w2 where
    1: "read_exact fd 2 w = (Some (put_le 2 (length ?u)), w1)" "fault w1 = (False, w1\<lparr>faults := f\<rparr>)"
      "read_exact fd (length ?u) (w1\<lparr>faults := f\<rparr>) = (Some (bytes_of_string ?u), w2)"
      "reading w2 fd d ino (put_le 2 (length p) @ bytes_of_string p @ ?nums)" "no_faults w2" "heap w2 = heap w" "next_addr w2 = ?a" .
  from read_string_ok [OF 1(4) p(2) 1(5)] obtain w3 f' w4 where
    2: "read_exact fd 2 w2 = (Some (put_le 2 (length p)), w3)" "fault w3 = (False, w3\<lparr>faults := f'\<rparr>)"
      "read_exact fd (length p) (w3\<lparr>faults := f'\<rparr>) = (Some (bytes_of_string p), w4)"
      "reading w4 fd d ino ?nums" "no_faults w4" "heap w4 = heap w2" "next_addr w4 = next_addr w2" .
  let ?new = "new_entry ?u (bi_backend_id idx) p"
  obtain g where c: "index_entry_create ?u (bi_backend_id idx) p w4 = (Some (next_addr w4), w4\<lparr>faults := g,
      next_addr := Suc (next_addr w4), heap := (heap w4)(next_addr w4 \<mapsto> ?new)\<rparr>)" "True \<notin> set g"
    using entry_create_ok [OF 2(5)] .
  let ?w5 = "w4\<lparr>faults := g, next_addr := Suc (next_addr w4), heap := (heap w4)(next_addr w4 \<mapsto> ?new)\<rparr>"
  have "reading ?w5 fd d ino ?nums" "no_faults ?w5" using 2(4) c(2) by (simp_all add: no_faults_def)
  from read_tail_ok [OF this] obtain w6 w7 w8 where
    3: "read_all fd 8 ?w5 = ((put_le 8 (unat (ie_size_bytes e)), True), w6)" "read_all fd 8 w6 = ((put_le 8 (unat (ie_mtime e)), True), w7)"
      "read_all fd 4 w7 = ((put_le 4 (unat (ie_flags e)), True), w8)" "reading w8 fd d ino rest" "no_faults w8"
      "heap w8 = heap ?w5" "next_addr w8 = next_addr ?w5" .
  have h8: "heap w8 = (heap w)(?a \<mapsto> ?new)" "next_addr w8 = Suc ?a" using 3(6,7) 1(6,7) 2(6,7) by simp_all
  let ?e = "?new\<lparr>ie_size_bytes := ie_size_bytes e, ie_mtime := ie_mtime e, ie_flags := ie_flags e\<rparr>"
  let ?w9 = "w8\<lparr>heap := (heap w)(?a \<mapsto> ?e)\<rparr>"
  have a: "heap w ?a = None" using fresh by simp
  have "bi_rep idx (heap ?w9) m" using rep_alloc [OF assms(4) a] by simp
  moreover have "entry_key (heap ?w9) ?a = Some ?u" by (simp add: entry_key_Some)
  ultimately obtain e1 idx' where i: "heap ?w9 ?a = Some e1" "bi_num_entries idx' = bi_num_entries idx + 1" "bi_dirty idx'"
    "backend_index_insert idx ?a ?w9 = Some (idx', ?w9\<lparr>heap := (heap ?w9)(?a \<mapsto>
       e1\<lparr>ie_entry_refcount := ie_entry_refcount e1 + 1,
         ie_next := bi_buckets idx ! bucket_of (bi_num_buckets idx) (index_hash_string ?u)\<rparr>)\<rparr>)"
    "bi_rep idx' ((heap ?w9)(?a \<mapsto>
       e1\<lparr>ie_entry_refcount := ie_entry_refcount e1 + 1,
         ie_next := bi_buckets idx ! bucket_of (bi_num_buckets idx) (index_hash_string ?u)\<rparr>)) (m(?u \<mapsto> ?a))"
    using backend_insert_rep [of idx ?w9 m ?a ?u] rep_ran_fresh [OF assms(4) a] assms(5) by blast
  let ?e2 = "?e\<lparr>ie_entry_refcount := ie_entry_refcount ?e + 1, ie_next := bi_buckets idx ! bucket_of (bi_num_buckets idx) (index_hash_string ?u)\<rparr>"
  let ?w' = "w8\<lparr>heap := (heap w)(?a \<mapsto> ?e2)\<rparr>"
  have e1: "e1 = ?e" using i(1) by simp
  have up: "upd_entry ?a (\<lambda>x. x\<lparr>ie_size_bytes := ie_size_bytes e, ie_mtime := ie_mtime e, ie_flags := ie_flags e\<rparr>) w8 = Some ?w9"
    using h8 by (simp add: upd_entry_def)
  have ins: "backend_index_insert idx ?a ?w9 = Some (idx', ?w')" using i(4) unfolding e1 by simp
  have "load_loop junk fd (Suc n) k idx w = load_loop junk fd n (k + 1) idx' ?w'" for n k
    using 1(1,2,3) 2(1,2,3) c(1) 3(1,2,3) up ins p(2-5) 1(7) 2(7)
    by (simp add: get_le_len16 c_str_id filled_whole)
  moreover have "bi_rep idx' (heap ?w') (m(?u \<mapsto> ?a))" using i(5) unfolding e1 by simp
  moreover have "reloaded e ?e2" using p(1) by (simp add: reloaded_def)
  ultimately show ?thesis using 3(4,5) h8 by (intro that [of idx' ?w' ?e2]) (simp_all add: no_faults_def)
qed

text \<open>What a loop over the encodings of \<open>es\<close> leaves, in the world and in the represented map.\<close>

definition loaded_all :: "index_entry list \<Rightarrow> entry_heap \<Rightarrow> (string \<Rightarrow> addr option) \<Rightarrow> entry_heap \<Rightarrow> (string \<Rightarrow> addr option) \<Rightarrow> bool" where
  "loaded_all es h m h' m' \<longleftrightarrow>
     (\<forall>e \<in> set es. \<exists>a e'. m' (ie_uri e) = Some a \<and> h' a = Some e' \<and> reloaded e e') \<and>
     (\<forall>u. u \<notin> ie_uri ` set es \<longrightarrow> m' u = m u) \<and> (\<forall>a. h a \<noteq> None \<longrightarrow> h' a = h a)"

lemma load_loop_ok:
  assumes "reading w fd d ino (concat (map entry_bytes es) @ rest)" "\<forall>e \<in> set es. storable e \<and> m (ie_uri e) = None"
    "distinct (map ie_uri es)" "no_faults w" "bi_rep idx (heap w) m" "\<forall>a \<ge> next_addr w. heap w a = None"
  shows "\<exists>idx' w' m'. load_loop junk fd (length es) k idx w = Some (k + length es, idx', w') \<and>
     bi_rep idx' (heap w') m' \<and> loaded_all es (heap w) m (heap w') m'"
  using assms
proof (induction es arbitrary: w idx m k)
  case Nil
  then show ?case by (auto simp: loaded_all_def)
next
  case (Cons e es)
  have "reading w fd d ino (entry_bytes e @ (concat (map entry_bytes es) @ rest))" "storable e" "m (ie_uri e) = None"
    using Cons.prems(1,2) by simp_all
  then obtain idx1 w1 e1 where s: "\<forall>n k. load_loop junk fd (Suc n) k idx w = load_loop junk fd n (k + 1) idx1 w1"
    "reading w1 fd d ino (concat (map entry_bytes es) @ rest)" "no_faults w1" "bi_rep idx1 (heap w1) (m(ie_uri e \<mapsto> next_addr w))"
    "next_addr w1 = Suc (next_addr w)" "heap w1 = (heap w)(next_addr w \<mapsto> e1)" "reloaded e e1"
    using load_step [OF _ _ Cons.prems(4,5) _ Cons.prems(6)] by metis
  have "\<forall>x \<in> set es. storable x \<and> (m(ie_uri e \<mapsto> next_addr w)) (ie_uri x) = None"
  proof
    fix x assume x: "x \<in> set es"
    then have "ie_uri x \<noteq> ie_uri e" using Cons.prems(3) by (metis distinct.simps(2) image_eqI list.set_map list.simps(9))
    with Cons.prems(2) x show "storable x \<and> (m(ie_uri e \<mapsto> next_addr w)) (ie_uri x) = None" by simp
  qed
  moreover have "distinct (map ie_uri es)" using Cons.prems(3) by simp
  moreover have "\<forall>a \<ge> next_addr w1. heap w1 a = None" using Cons.prems(6) s(5,6) by simp
  ultimately obtain idx' w' m' where r: "load_loop junk fd (length es) (k + 1) idx1 w1 = Some (k + 1 + length es, idx', w')"
    "bi_rep idx' (heap w') m'" "loaded_all es (heap w1) (m(ie_uri e \<mapsto> next_addr w)) (heap w') m'"
    using Cons.IH [OF s(2) _ _ s(3,4), of "k + 1"] by blast
  have fresh: "heap w (next_addr w) = None" using Cons.prems(6) by simp
  have new: "ie_uri e \<notin> ie_uri ` set es" using Cons.prems(3) by simp
  have "m' (ie_uri e) = Some (next_addr w)" "heap w' (next_addr w) = Some e1"
    using r(3) new s(6) unfolding loaded_all_def by auto
  then have "loaded_all (e # es) (heap w) m (heap w') m'"
    using r(3) s(6,7) fresh unfolding loaded_all_def by auto
  with r(1,2) s(1) show ?case by auto
qed

lemma header_fields:
  "length (index_header pad idx) = 32" "take 6 (index_header pad idx) = INDEX_MAGIC"
  "(of_nat (get_le (field 6 2 (index_header pad idx))) :: u16) = INDEX_VERSION"
  "get_le (field 16 8 (index_header pad idx)) = unat (bi_num_entries idx)"
  by (simp_all add: index_header_def INDEX_MAGIC_def bytes_of_string_def wire_simps get_le_put_le)

lemma load_ok:
  assumes "bi_persist_enabled idx0" "bi_index_file_path idx0 = Some path" "bi_rep idx0 (heap w) Map.empty"
    "dir w path = Some ino" "inodes w ino = index_header pad idx @ concat (map entry_bytes es)"
    "unat (bi_num_entries idx) = length es" "\<forall>e \<in> set es. storable e" "distinct (map ie_uri es)"
    "no_faults w" "Fail \<notin> set (fio_ev w)" "\<forall>a \<ge> next_addr w. heap w a = None"
  obtains idx' w' m' where "backend_index_load junk idx0 w = Some (Some (length es), idx', w')" "bi_rep idx' (heap w') m'"
    "loaded_all es (heap w) Map.empty (heap w') m'"
proof -
  obtain fd w1 where o: "sys_open O_RDONLY path w = (fd, w1)" by (cases "sys_open O_RDONLY path w")
  note ok = sys_open_ok [OF assms(9,4) o]
  obtain d where d: "fd_obj w1 fd = Some d" "ofds w1 d = \<lparr>of_ino = ino, of_off = 0, of_acc = O_RDONLY\<rparr>"
    using sys_open_result(1) [OF o ok(1)] assms(4) by auto
  obtain f x n t where w1: "w1 = w\<lparr>faults := f, ofds := x, next_ofd := n, fds := t\<rparr>" using sys_open_frame [OF o] .
  have "reading w1 fd d ino (index_header pad idx @ concat (map entry_bytes es))"
    using d assms(5,10) unfolding reading_def by (simp add: w1)
  then obtain w2 where 2: "read_exact fd 32 w1 = (Some (index_header pad idx), w2)" "reading w2 fd d ino (concat (map entry_bytes es))"
    "io_frame d ino w1 w2" using read_exact_ok [of w1 fd d ino "index_header pad idx" _ 32] header_fields(1) by blast
  have h: "heap w2 = heap w" "next_addr w2 = next_addr w" using io_frame_heap [OF 2(3)] by (simp_all add: w1)
  obtain idx' w' m' where l: "load_loop junk fd (length es) 0 idx0 w2 = Some (0 + length es, idx', w')" "bi_rep idx' (heap w') m'"
     "loaded_all es (heap w) Map.empty (heap w') m'"
    using load_loop_ok [of w2 fd d ino es "[]" Map.empty idx0 junk 0] 2(2) assms(3,7,8,11) io_no_faults [OF 2(3) ok(2)] h by auto
  have "backend_index_load junk idx0 w = Some (Some (length es), idx'\<lparr>bi_dirty := False\<rparr>, sys_close fd w')"
    using assms(1,2) o ok(1) 2(1) l(1) by (simp add: backend_index_load_def header_fields assms(6))
  from that [OF this] l(2,3) show ?thesis by (simp add: sys_close_simps)
qed

section \<open>The round trip\<close>

lemma rep_table_card:
  assumes "table h n buckets L"
  shows "card (dom (table_map h L)) = length (concat L)"
proof -
  have "dom (table_map h L) = set (map (uri_of h) (concat L))"
    unfolding table_map_def dom_map_of_conv_image_fst by (simp add: image_image del: set_concat)
  with distinct_card [OF tableD(7) [OF assms]] show ?thesis by (simp del: set_concat)
qed

text \<open>
  C30: A backend index survives the trip through its file. When neither system calls nor
  transfers fail, saving an index whose entries have strings without NUL of lengths below 65536,
  and loading the file into an empty index of the same path, reports as many entries as there
  were and gives an index of the same URIs, each with the backend path, size, modification time
  and flags it had; the entries of the index that was saved are not touched.
\<close>

theorem index_file_roundtrip:
  fixes w :: "'a world_scheme"
  assumes "no_faults w" "Fail \<notin> set (fio_ev w)" "replaceable path w" "\<forall>a \<ge> next_addr w. heap w a = None"
    and idx: "bi_persist_enabled idx" "bi_index_file_path idx = Some path" "bi_rep idx (heap w) m" "card (dom m) < 2 ^ 64"
    and idx0: "bi_persist_enabled idx0" "bi_index_file_path idx0 = Some path" "bi_rep idx0 (heap w) Map.empty"
    and "\<forall>u a. m u = Some a \<longrightarrow> storable (the (heap w a))"
  shows "\<exists>w1 idx2 w2 m2. backend_index_save pad idx w = Some (True, idx\<lparr>bi_dirty := False\<rparr>, w1) \<and>
     backend_index_load junk idx0 w1 = Some (Some (card (dom m)), idx2, w2) \<and>
     bi_rep idx2 (heap w2) m2 \<and> dom m2 = dom m \<and>
     (\<forall>u a. m u = Some a \<longrightarrow> heap w2 a = heap w a \<and> (\<exists>b e'. m2 u = Some b \<and> heap w2 b = Some e' \<and> reloaded (the (heap w a)) e'))"
proof -
  obtain L where L: "table (heap w) (bi_num_buckets idx) (bi_buckets idx) L" "m = table_map (heap w) L"
    "bi_num_entries idx = of_nat (length (concat L))" using idx(3) unfolding table_rep_def by blast
  let ?es = "map (\<lambda>a. the (heap w a)) (concat L)"
  have mem: "m u = Some a \<longleftrightarrow> a \<in> set (concat L) \<and> ie_uri (the (heap w a)) = u" for u a
    using table_map_iff [OF L(1), of u a] L(2) by (simp add: uri_of_def)
  have st: "\<And>a. a \<in> set (concat L) \<Longrightarrow> storable (the (heap w a))" using assms(12) mem by blast
  obtain w1 ino where s: "backend_index_save pad idx w = Some (True, idx\<lparr>bi_dirty := False\<rparr>, w1)"
    "dir w1 path = Some ino" "inodes w1 ino = index_header pad idx @ chain_bytes (heap w) (concat L)"
    "heap w1 = heap w" "next_addr w1 = next_addr w" "no_faults w1" "Fail \<notin> set (fio_ev w1)"
    using save_ok [OF assms(1,2) idx(1,2) assms(3) L(1) st] .
  have len: "card (dom m) = length ?es" using rep_table_card [OF L(1)] L(2) by simp
  have n: "unat (bi_num_entries idx) = length ?es"
    using idx(4) len L(3) by (simp add: unat_of_nat take_bit_nat_eq_self)
  have f: "inodes w1 ino = index_header pad idx @ concat (map entry_bytes ?es)" using s(3) by (simp add: comp_def)
  have u: "map ie_uri ?es = map (uri_of (heap w)) (concat L)" by (simp add: uri_of_def)
  have d: "distinct (map ie_uri ?es)" unfolding u using tableD(7) [OF L(1)] .
  have st': "\<forall>e \<in> set ?es. storable e" using st by auto
  obtain idx2 w2 m2 where l: "backend_index_load junk idx0 w1 = Some (Some (length ?es), idx2, w2)" "bi_rep idx2 (heap w2) m2"
    "loaded_all ?es (heap w1) Map.empty (heap w2) m2"
    using load_ok [OF idx0(1,2) _ s(2) f n st' d s(6,7)] idx0(3) assms(4) s(4,5) by metis
  have new: "\<exists>b e'. m2 u = Some b \<and> heap w2 b = Some e' \<and> reloaded (the (heap w a)) e'" if "m u = Some a" for u a
  proof -
    have "the (heap w a) \<in> set ?es" "ie_uri (the (heap w a)) = u" using that mem by auto
    with l(3) show ?thesis unfolding loaded_all_def by metis
  qed
  have "heap w2 a = heap w a" if "m u = Some a" for u a
    using rep_entry [OF idx(3) that] l(3) s(4) unfolding loaded_all_def by auto
  moreover have "dom m2 = dom m"
  proof (intro set_eqI iffI)
    fix u assume "u \<in> dom m2"
    then have "u \<in> ie_uri ` set ?es" using l(3) unfolding loaded_all_def by (metis domIff)
    then show "u \<in> dom m" using mem by (auto simp del: set_concat)
  qed (use new in auto)
  ultimately show ?thesis using s(1) l(1,2) new len by auto
qed

definition file_world :: world where
  "file_world = one_entry\<lparr>is_dir := (\<lambda>p. p = ''/m'')\<rparr>"

definition file_index :: "addr option \<Rightarrow> backend_index" where
  "file_index p =
     \<lparr>bi_backend_id = 0, bi_buckets = [p], bi_num_buckets = 1, bi_num_entries = (if p = None then 0 else 1),
      bi_index_file_path = Some ''/m/.index'', bi_persist_enabled = True, bi_dirty = True,
      bi_stat_lookups = 0, bi_stat_hits = 0\<rparr>"

theorem index_file_roundtrip_witness:
  "\<exists>w1 idx2 w2 m2. backend_index_save 0 (file_index (Some 0)) file_world =
       Some (True, (file_index (Some 0))\<lparr>bi_dirty := False\<rparr>, w1) \<and>
     backend_index_load [] (file_index None) w1 = Some (Some 1, idx2, w2) \<and>
     bi_rep idx2 (heap w2) m2 \<and> dom m2 = {''/a''} \<and>
     (\<exists>b e'. m2 ''/a'' = Some b \<and> heap w2 b = Some e' \<and> reloaded blank_entry e')"
proof -
  have "no_faults file_world" "Fail \<notin> set (fio_ev file_world)" "replaceable ''/m/.index'' file_world"
    "\<forall>a \<ge> next_addr file_world. heap file_world a = None"
    by (simp_all add: file_world_def one_entry_def os.defs os_init_def no_faults_def replaceable_def parent_ok_def dirname_def)
  moreover have "bi_rep (file_index (Some 0)) (heap file_world) [''/a'' \<mapsto> 0]" "bi_rep (file_index None) (heap file_world) Map.empty"
    using one_rep rep_empty [of 0 "heap file_world"] by (simp_all add: file_index_def file_world_def)
  moreover have "storable blank_entry" by (simp add: storable_def blank_entry_def)
  moreover have "bi_persist_enabled (file_index p)" "bi_index_file_path (file_index p) = Some ''/m/.index''" for p
    by (simp_all add: file_index_def)
  moreover have h: "heap file_world 0 = Some blank_entry" by (simp add: file_world_def)
  ultimately obtain w1 idx2 w2 m2 where r:
    "backend_index_save 0 (file_index (Some 0)) file_world = Some (True, (file_index (Some 0))\<lparr>bi_dirty := False\<rparr>, w1)"
    "backend_index_load [] (file_index None) w1 = Some (Some (card (dom [''/a'' \<mapsto> 0 :: addr])), idx2, w2)"
    "bi_rep idx2 (heap w2) m2" "dom m2 = dom [''/a'' \<mapsto> 0 :: addr]"
    "\<forall>u a. [''/a'' \<mapsto> 0] u = Some a \<longrightarrow> heap w2 a = heap file_world a \<and>
       (\<exists>b e'. m2 u = Some b \<and> heap w2 b = Some e' \<and> reloaded (the (heap file_world a)) e')"
    using index_file_roundtrip [of file_world "''/m/.index''" "file_index (Some 0)" "[''/a'' \<mapsto> 0]" "file_index None" 0 "[]"]
    by (fastforce split: if_splits)
  from r(5) [rule_format, of "''/a''" 0] r(1-4) h show ?thesis by fastforce
qed

end
