(* ===== verification/Backend_Manager.thy ===== *)
theory Backend_Manager
  imports Index_Persist
begin

text \<open>
  The backend manager of \<open>lib/backend/backend.c\<close>: registration of storage backends, roles,
  and the settings and queries of a backend. The manager is a record that owns the global
  index and the array of backends, each with its own index; the entries of all indexes live
  in the heap of the world. The reader-writer locks have no counterpart in a sequential run,
  and messages to standard output are not modelled. Real-valued settings stand for \<open>double\<close>.
\<close>

section \<open>Data\<close>

datatype backend_type =
  BACKEND_TYPE_MEMORY | BACKEND_TYPE_NVME | BACKEND_TYPE_SSD | BACKEND_TYPE_HDD | BACKEND_TYPE_NETWORK

abbreviation BACKEND_FLAG_EPHEMERAL_ONLY :: u32 where "BACKEND_FLAG_EPHEMERAL_ONLY \<equiv> 0x01"
abbreviation BACKEND_FLAG_PERSISTENT :: u32 where "BACKEND_FLAG_PERSISTENT \<equiv> 0x02"
abbreviation BACKEND_FLAG_ENABLED :: u32 where "BACKEND_FLAG_ENABLED \<equiv> 0x04"
abbreviation BACKEND_FLAG_MIGRATION_SRC :: u32 where "BACKEND_FLAG_MIGRATION_SRC \<equiv> 0x10"
abbreviation BACKEND_FLAG_MIGRATION_DST :: u32 where "BACKEND_FLAG_MIGRATION_DST \<equiv> 0x20"

datatype migration_policy =
  MIGRATION_POLICY_NONE | MIGRATION_POLICY_HOTNESS | MIGRATION_POLICY_CAPACITY | MIGRATION_POLICY_HYBRID

text \<open>The strings are copies made by \<open>strdup\<close>, whose result is not tested: \<open>None\<close> is \<open>NULL\<close>.\<close>

record backend_info =
  b_id :: int
  b_type :: backend_type
  b_mount_path :: "string option"
  b_name :: "string option"
  b_flags :: u32
  b_perf_factor :: real
  b_expected_latency_us :: u64
  b_capacity_bytes :: u64
  b_used_bytes :: u64
  b_object_count :: u64
  b_high_watermark :: real
  b_low_watermark :: real
  b_migration_policy :: migration_policy
  b_hotness_threshold :: real
  b_hotness_halflife_us :: u64
  b_index :: backend_index
  b_reads :: u64
  b_writes :: u64
  b_migrations_in :: u64
  b_migrations_out :: u64

record backend_manager =
  m_global_index :: global_index
  m_backends :: "backend_info list"      \<comment> \<open>its length is \<open>num_backends\<close>\<close>
  m_max_backends :: nat
  m_default_backend_id :: int
  m_ephemeral_backend_id :: int
  m_cache_backend_id :: int
  m_cache_running :: bool
  m_cache_check_interval_us :: u64
  m_cache_threshold :: real
  m_total_objects :: u64
  m_total_bytes :: u64

record object_create_req =
  or_uri :: string
  or_backend_id :: int
  or_ephemeral :: bool
  or_size_hint :: u64
  or_flags :: u32

record object_metadata =
  om_uri :: "string option"
  om_backend_id :: int
  om_fs_path :: "string option"
  om_size_bytes :: u64
  om_mtime :: u64
  om_flags :: u32
  om_hotness :: real
  om_access_count :: u64

definition flag_set :: "u32 \<Rightarrow> u32 \<Rightarrow> bool" where
  "flag_set flags f \<longleftrightarrow> flags AND f \<noteq> 0"

definition upd_backend :: "int \<Rightarrow> (backend_info \<Rightarrow> backend_info) \<Rightarrow> backend_manager \<Rightarrow> backend_manager" where
  "upd_backend i f mgr = mgr\<lparr>m_backends := (m_backends mgr)[nat i := f (m_backends mgr ! nat i)]\<rparr>"

section \<open>Directories\<close>

text \<open>
  The loop of \<open>mkdir_p\<close> over the positions of the buffer: at a slash the prefix before it is
  created. \<open>tmp[len - 1]\<close> of an empty string is out of bounds: the outer \<open>None\<close>.
\<close>

fun mkdir_prefixes :: "string \<Rightarrow> nat list \<Rightarrow> 'a os_scheme \<Rightarrow> bool \<times> 'a os_scheme" where
  "mkdir_prefixes tmp [] s = (True, s)"
| "mkdir_prefixes tmp (i # is) s =
     (if tmp ! i = CHR ''/'' then
        (case sys_mkdir (take i tmp) s of
           (MkdirError, s) \<Rightarrow> (False, s)
         | (_, s) \<Rightarrow> mkdir_prefixes tmp is s)
      else mkdir_prefixes tmp is s)"

definition mkdir_p :: "string \<Rightarrow> 'a os_scheme \<Rightarrow> (bool \<times> 'a os_scheme) option" where
  "mkdir_p path s =
     (let tmp = snprintf_buf 1024 path
      in if tmp = [] then None
         else let tmp = (if last tmp = CHR ''/'' then butlast tmp else tmp)
              in Some (case mkdir_prefixes tmp [1..<length tmp] s of
                         (False, s) \<Rightarrow> (False, s)
                       | (True, s) \<Rightarrow>
                           (case sys_mkdir tmp s of
                              (MkdirError, s) \<Rightarrow> (False, s)
                            | (_, s) \<Rightarrow> (True, s))))"

section \<open>Types of backends\<close>

fun backend_type_name :: "backend_type \<Rightarrow> string" where
  "backend_type_name BACKEND_TYPE_MEMORY = ''memory''"
| "backend_type_name BACKEND_TYPE_NVME = ''nvme''"
| "backend_type_name BACKEND_TYPE_SSD = ''ssd''"
| "backend_type_name BACKEND_TYPE_HDD = ''hdd''"
| "backend_type_name BACKEND_TYPE_NETWORK = ''network''"

fun backend_default_perf_factor :: "backend_type \<Rightarrow> real" where
  "backend_default_perf_factor BACKEND_TYPE_MEMORY = 1"
| "backend_default_perf_factor BACKEND_TYPE_NVME = 3"
| "backend_default_perf_factor BACKEND_TYPE_SSD = 7.5"
| "backend_default_perf_factor BACKEND_TYPE_HDD = 80"
| "backend_default_perf_factor BACKEND_TYPE_NETWORK = 500"

definition backend_expected_latency :: "backend_type \<Rightarrow> u64" where
  "backend_expected_latency t = of_int \<lfloor>8 * backend_default_perf_factor t\<rfloor>"

section \<open>The manager\<close>

definition backend_manager_create ::
    "u64 \<Rightarrow> u64 \<Rightarrow> 'a world_scheme \<Rightarrow> (backend_manager option \<times> 'a world_scheme) option" where
  "backend_manager_create index_buckets max_open_fds w =
     (case fault w of
        (True, w) \<Rightarrow> Some (None, w)
      | (False, w) \<Rightarrow>
          (case global_index_create index_buckets max_open_fds w of
             (None, w) \<Rightarrow> Some (None, w)
           | (Some idx, w) \<Rightarrow>
               (case fault w of
                  (True, w) \<Rightarrow> map_option (Pair None) (global_index_destroy idx w)
                | (False, w) \<Rightarrow>
                    Some (Some \<lparr>m_global_index = idx, m_backends = [], m_max_backends = 16,
                                m_default_backend_id = -1, m_ephemeral_backend_id = -1,
                                m_cache_backend_id = -1, m_cache_running = False,
                                m_cache_check_interval_us = 5 * 1000000, m_cache_threshold = 0.7,
                                m_total_objects = 0, m_total_bytes = 0\<rparr>, w))))"

definition backend_stop_caching :: "backend_manager \<Rightarrow> backend_manager" where
  "backend_stop_caching mgr = mgr\<lparr>m_cache_running := False\<rparr>"

fun destroy_backends :: "backend_info list \<Rightarrow> 'a world_scheme \<Rightarrow> 'a world_scheme option" where
  "destroy_backends [] w = Some w"
| "destroy_backends (b # bs) w = do { w \<leftarrow> backend_index_destroy (b_index b) w; destroy_backends bs w }"

definition backend_manager_destroy :: "backend_manager \<Rightarrow> 'a world_scheme \<Rightarrow> 'a world_scheme option" where
  "backend_manager_destroy mgr w =
     do {
       let mgr = backend_stop_caching mgr;
       w \<leftarrow> destroy_backends (m_backends mgr) w;
       global_index_destroy (m_global_index mgr) w
     }"

definition strdup :: "string \<Rightarrow> 'a os_scheme \<Rightarrow> string option \<times> 'a os_scheme" where
  "strdup x s = (let (f, s) = fault s in (if f then None else Some x, s))"

definition index_path :: "string \<Rightarrow> string" where
  "index_path mount_path = snprintf_buf 512 (mount_path @ ''/.objmapper.idx'')"

definition new_backend ::
    "int \<Rightarrow> backend_type \<Rightarrow> string option \<Rightarrow> string option \<Rightarrow> u64 \<Rightarrow> u32 \<Rightarrow> backend_index \<Rightarrow> backend_info" where
  "new_backend i t mount_path name capacity flags idx =
     \<lparr>b_id = i, b_type = t, b_mount_path = mount_path, b_name = name,
      b_flags = flags OR BACKEND_FLAG_ENABLED, b_perf_factor = backend_default_perf_factor t,
      b_expected_latency_us = backend_expected_latency t, b_capacity_bytes = capacity,
      b_used_bytes = 0, b_object_count = 0, b_high_watermark = 0.85, b_low_watermark = 0.70,
      b_migration_policy = MIGRATION_POLICY_HYBRID, b_hotness_threshold = 0.5,
      b_hotness_halflife_us = 3600 * 1000000, b_index = idx, b_reads = 0, b_writes = 0,
      b_migrations_in = 0, b_migrations_out = 0\<rparr>"

text \<open>Entries that were loaded from the index file are not added to the global index.\<close>

definition backend_manager_register ::
    "bytes \<Rightarrow> backend_type \<Rightarrow> string \<Rightarrow> string \<Rightarrow> u64 \<Rightarrow> u32 \<Rightarrow> backend_manager \<Rightarrow> 'a world_scheme
       \<Rightarrow> (int \<times> backend_manager \<times> 'a world_scheme) option" where
  "backend_manager_register junk t mount_path name capacity flags mgr w =
     (if length (m_backends mgr) \<ge> m_max_backends mgr then Some (-1, mgr, w)
      else
        case fault w of
          (True, w) \<Rightarrow> Some (-1, mgr, w)
        | (False, w) \<Rightarrow>
            let (mp, w) = strdup mount_path w; (nm, w) = strdup name w;
                i = int (length (m_backends mgr))
            in (case backend_index_create (of_int i) (Some (index_path mount_path)) (256 * 1024) w of
                  (None, w) \<Rightarrow> Some (-1, mgr, w)
                | (Some idx, w) \<Rightarrow>
                    do {
                      (loaded, idx, w) \<leftarrow> backend_index_load junk idx w;
                      Some (i, mgr\<lparr>m_backends := m_backends mgr @ [new_backend i t mp nm capacity flags idx]\<rparr>, w)
                    }))"

definition backend_manager_get_backend :: "backend_manager \<Rightarrow> int \<Rightarrow> backend_info option" where
  "backend_manager_get_backend mgr backend_id =
     (if backend_id < 0 then None
      else if nat backend_id < length (m_backends mgr) then Some (m_backends mgr ! nat backend_id) else None)"

definition backend_manager_set_default :: "int \<Rightarrow> backend_manager \<Rightarrow> bool \<times> backend_manager" where
  "backend_manager_set_default backend_id mgr =
     (case backend_manager_get_backend mgr backend_id of
        None \<Rightarrow> (False, mgr)
      | Some b \<Rightarrow> if flag_set (b_flags b) BACKEND_FLAG_EPHEMERAL_ONLY then (False, mgr)
                   else (True, mgr\<lparr>m_default_backend_id := backend_id\<rparr>))"

definition backend_manager_set_ephemeral :: "int \<Rightarrow> backend_manager \<Rightarrow> bool \<times> backend_manager" where
  "backend_manager_set_ephemeral backend_id mgr =
     (case backend_manager_get_backend mgr backend_id of
        None \<Rightarrow> (False, mgr)
      | Some b \<Rightarrow> if \<not> flag_set (b_flags b) BACKEND_FLAG_EPHEMERAL_ONLY then (False, mgr)
                   else (True, mgr\<lparr>m_ephemeral_backend_id := backend_id\<rparr>))"

definition backend_manager_set_cache :: "int \<Rightarrow> backend_manager \<Rightarrow> bool \<times> backend_manager" where
  "backend_manager_set_cache backend_id mgr =
     (case backend_manager_get_backend mgr backend_id of
        None \<Rightarrow> (False, mgr)
      | Some b \<Rightarrow> if b_type b \<noteq> BACKEND_TYPE_MEMORY then (False, mgr)
                   else (True, mgr\<lparr>m_cache_backend_id := backend_id\<rparr>))"

section \<open>Caching thread\<close>

text \<open>
  One pass of \<open>cache_thread_func\<close>: whether the cache is above its high watermark, and the
  backends it walks over when it is below its low watermark. Neither branch has a body
  yet. The utilisation of a cache of capacity zero is infinite or, when unused, not a
  number, for which both comparisons fail.
\<close>

datatype utilization = Ratio real | Infinite | NotANumber

definition utilization_of :: "u64 \<Rightarrow> u64 \<Rightarrow> utilization" where
  "utilization_of used capacity =
     (if capacity \<noteq> 0 then Ratio (real (unat used) / real (unat capacity))
      else if used = 0 then NotANumber else Infinite)"

fun above :: "utilization \<Rightarrow> real \<Rightarrow> bool" where
  "above (Ratio x) m = (x > m)"
| "above Infinite m = True"
| "above NotANumber m = False"

fun below :: "utilization \<Rightarrow> real \<Rightarrow> bool" where
  "below (Ratio x) m = (x < m)"
| "below Infinite m = False"
| "below NotANumber m = False"

definition cache_thread_pass :: "backend_manager \<Rightarrow> bool \<times> int list" where
  "cache_thread_pass mgr =
     (case backend_manager_get_backend mgr (m_cache_backend_id mgr) of
        None \<Rightarrow> (False, [])
      | Some cache \<Rightarrow>
          let u = utilization_of (b_used_bytes cache) (b_capacity_bytes cache)
          in (above u (b_high_watermark cache),
              if below u (b_low_watermark cache)
              then map b_id (filter (\<lambda>b. b_id b \<noteq> m_cache_backend_id mgr \<and>
                                         \<not> flag_set (b_flags b) BACKEND_FLAG_EPHEMERAL_ONLY) (m_backends mgr))
              else []))"

definition backend_start_caching ::
    "u64 \<Rightarrow> real \<Rightarrow> backend_manager \<Rightarrow> 'a os_scheme \<Rightarrow> bool \<times> backend_manager \<times> 'a os_scheme" where
  "backend_start_caching check_interval_us cache_threshold mgr s =
     (if m_cache_running mgr then (True, mgr, s)
      else
        let mgr = mgr\<lparr>m_cache_check_interval_us := check_interval_us, m_cache_threshold := cache_threshold\<rparr>;
            (f, s) = fault s
        in if f then (False, mgr\<lparr>m_cache_running := False\<rparr>, s)
           else (True, mgr\<lparr>m_cache_running := True\<rparr>, s))"

section \<open>Queries and settings\<close>

definition backend_get_status :: "backend_manager \<Rightarrow> int \<Rightarrow> (u64 \<times> u64 \<times> u64 \<times> utilization) option" where
  "backend_get_status mgr backend_id =
     map_option (\<lambda>b. (b_capacity_bytes b, b_used_bytes b, b_object_count b,
                       utilization_of (b_used_bytes b) (b_capacity_bytes b)))
       (backend_manager_get_backend mgr backend_id)"

text \<open>The iteration of both listings is not written yet: they report no objects.\<close>

definition backend_list_objects :: "backend_manager \<Rightarrow> int \<Rightarrow> string list option" where
  "backend_list_objects mgr backend_id = map_option (\<lambda>_. []) (backend_manager_get_backend mgr backend_id)"

definition backend_get_hotness_map :: "backend_manager \<Rightarrow> int \<Rightarrow> (string \<times> real) list option" where
  "backend_get_hotness_map mgr backend_id = map_option (\<lambda>_. []) (backend_manager_get_backend mgr backend_id)"

definition backend_get_index_stats :: "backend_manager \<Rightarrow> index_stats" where
  "backend_get_index_stats mgr = global_index_get_stats (m_global_index mgr)"

definition backend_set_enabled :: "int \<Rightarrow> bool \<Rightarrow> backend_manager \<Rightarrow> bool \<times> backend_manager" where
  "backend_set_enabled backend_id enabled mgr =
     (case backend_manager_get_backend mgr backend_id of
        None \<Rightarrow> (False, mgr)
      | Some _ \<Rightarrow>
          (True, upd_backend backend_id (\<lambda>b. b\<lparr>b_flags :=
             (if enabled then b_flags b OR BACKEND_FLAG_ENABLED else b_flags b AND NOT BACKEND_FLAG_ENABLED)\<rparr>) mgr))"

definition backend_set_watermarks :: "int \<Rightarrow> real \<Rightarrow> real \<Rightarrow> backend_manager \<Rightarrow> bool \<times> backend_manager" where
  "backend_set_watermarks backend_id high low mgr =
     (if high < 0 \<or> high > 1 \<or> low < 0 \<or> low > 1 \<or> low \<ge> high then (False, mgr)
      else case backend_manager_get_backend mgr backend_id of
             None \<Rightarrow> (False, mgr)
           | Some _ \<Rightarrow> (True, upd_backend backend_id (\<lambda>b. b\<lparr>b_high_watermark := high, b_low_watermark := low\<rparr>) mgr))"

definition backend_set_migration_policy ::
    "int \<Rightarrow> migration_policy \<Rightarrow> real \<Rightarrow> backend_manager \<Rightarrow> bool \<times> backend_manager" where
  "backend_set_migration_policy backend_id policy threshold mgr =
     (case backend_manager_get_backend mgr backend_id of
        None \<Rightarrow> (False, mgr)
      | Some _ \<Rightarrow> (True, upd_backend backend_id
                       (\<lambda>b. b\<lparr>b_migration_policy := policy, b_hotness_threshold := threshold\<rparr>) mgr))"

definition backend_get_stats :: "backend_manager \<Rightarrow> int \<Rightarrow> (u64 \<times> u64 \<times> u64 \<times> u64) option" where
  "backend_get_stats mgr backend_id =
     map_option (\<lambda>b. (b_reads b, b_writes b, b_migrations_in b, b_migrations_out b))
       (backend_manager_get_backend mgr backend_id)"

end
