(* ===== verification/Backend_Ops.thy ===== *)
theory Backend_Ops
  imports Backend_Manager
begin

text \<open>
  The object operations of \<open>lib/backend/backend.c\<close>: creating, finding, deleting, scanning,
  resizing and migrating objects. They compose the operations of the global index and of the
  index of one backend with the calls on the file system. The manager is passed and returned;
  the outer \<open>None\<close> is undefined behaviour (a freed entry, a \<open>NULL\<close> mount path, a bucket out of
  bounds). The backend of an entry is stored as an unsigned and used as a signed number.
\<close>

section \<open>Creation\<close>

text \<open>The backend that a request selects, when the request passes the checks.\<close>

definition create_target :: "object_create_req \<Rightarrow> backend_manager \<Rightarrow> (int \<times> backend_info) option" where
  "create_target req mgr =
     (let backend_id = (if or_backend_id req < 0
                        then (if or_ephemeral req then m_ephemeral_backend_id mgr else m_default_backend_id mgr)
                        else or_backend_id req)
      in if backend_id < 0 then None
         else case backend_manager_get_backend mgr backend_id of
                None \<Rightarrow> None
              | Some b \<Rightarrow>
                  if \<not> flag_set (b_flags b) BACKEND_FLAG_ENABLED then None
                  else if or_ephemeral req \<and> \<not> flag_set (b_flags b) BACKEND_FLAG_EPHEMERAL_ONLY then None
                  else Some (backend_id, b))"

text \<open>The parent directories and the file itself; a negative descriptor is a failure.\<close>

definition create_backing_file :: "string \<Rightarrow> 'a os_scheme \<Rightarrow> (int \<times> 'a os_scheme) option" where
  "create_backing_file fs_path s =
     do {
       (ok, s) \<leftarrow> (if CHR ''/'' \<in> set fs_path then mkdir_p (dirname fs_path) s else Some (True, s));
       Some (if ok then sys_open_creat O_RDWR fs_path s else (-1, s))
     }"

definition request_flags :: "object_create_req \<Rightarrow> u32" where
  "request_flags req = or_flags req OR (if or_ephemeral req then INDEX_FLAG_EPHEMERAL else INDEX_FLAG_PERSISTENT)"

definition backend_create_object ::
    "object_create_req \<Rightarrow> backend_manager \<Rightarrow> 'a world_scheme
       \<Rightarrow> (fd_ref option \<times> backend_manager \<times> 'a world_scheme) option" where
  "backend_create_object req mgr w =
     (case create_target req mgr of
        None \<Rightarrow> Some (None, mgr, w)
      | Some (backend_id, b) \<Rightarrow>
          do {
            mount_path \<leftarrow> b_mount_path b;
            let fs_path = snprintf_buf 1024 (mount_path @ or_uri req);
            (fd, w) \<leftarrow> create_backing_file fs_path w;
            if fd < 0 then Some (None, mgr, w)
            else case index_entry_create (or_uri req) (of_int backend_id) fs_path w of
                (None, w) \<Rightarrow> Some (None, mgr, sys_unlink fs_path (sys_close fd w))
              | (Some a, w) \<Rightarrow>
                  do {
                    w \<leftarrow> upd_entry a (\<lambda>e. e\<lparr>ie_size_bytes := 0, ie_flags := request_flags req\<rparr>) w;
                    (ok, idx, w) \<leftarrow> global_index_insert (m_global_index mgr) a w;
                    let mgr = mgr\<lparr>m_global_index := idx\<rparr>;
                    if \<not> ok then
                      do { w \<leftarrow> index_entry_put a w;
                           Some (None, mgr, sys_unlink fs_path (sys_close fd w)) }
                    else
                      do {
                        (bidx, w) \<leftarrow> backend_index_insert (b_index b) a w;
                        let mgr = upd_backend backend_id
                              (\<lambda>b. b\<lparr>b_index := bidx, b_object_count := b_object_count b + 1,
                                    b_writes := b_writes b + 1\<rparr>) mgr;
                        let mgr = mgr\<lparr>m_total_objects := m_total_objects mgr + 1\<rparr>;
                        w \<leftarrow> upd_entry a (\<lambda>e. e\<lparr>ie_fd := fd, ie_fd_refcount := 1\<rparr>) w;
                        w \<leftarrow> index_entry_get a w;
                        Some (Some \<lparr>fr_entry = Some a, fr_fd = fd, fr_generation = 0\<rparr>, mgr, w)
                      }
                  }
          })"

section \<open>Lookup and deletion\<close>

definition manager_lookup ::
    "string \<Rightarrow> backend_manager \<Rightarrow> 'a world_scheme \<Rightarrow> (fd_ref option \<times> backend_manager \<times> 'a world_scheme) option" where
  "manager_lookup uri mgr w =
     do {
       (found, idx, w) \<leftarrow> global_index_lookup (m_global_index mgr) uri w;
       Some (found, mgr\<lparr>m_global_index := idx\<rparr>, w)
     }"

definition backend_get_object ::
    "string \<Rightarrow> backend_manager \<Rightarrow> 'a world_scheme \<Rightarrow> (fd_ref option \<times> backend_manager \<times> 'a world_scheme) option" where
  "backend_get_object uri mgr w =
     do {
       (found, mgr, w) \<leftarrow> manager_lookup uri mgr w;
       case found of
         None \<Rightarrow> Some (None, mgr, w)
       | Some r \<Rightarrow>
           do {
             a \<leftarrow> fr_entry r;
             w \<leftarrow> index_entry_record_access a w;
             e \<leftarrow> heap w a;
             let backend_id = sint (ie_backend_id e);
             let mgr = (case backend_manager_get_backend mgr backend_id of
                          None \<Rightarrow> mgr
                        | Some _ \<Rightarrow> upd_backend backend_id (\<lambda>b. b\<lparr>b_reads := b_reads b + 1\<rparr>) mgr);
             Some (Some r, mgr, w)
           }
     }"

text \<open>\<open>unlink\<close> of \<open>NULL\<close> fails with \<open>EFAULT\<close>.\<close>

definition unlink_path :: "string option \<Rightarrow> 'a os_scheme \<Rightarrow> 'a os_scheme" where
  "unlink_path p s = (case p of None \<Rightarrow> s | Some path \<Rightarrow> sys_unlink path s)"

definition release_with :: "'r \<Rightarrow> fd_ref \<Rightarrow> backend_manager \<Rightarrow> 'a world_scheme \<Rightarrow> ('r \<times> backend_manager \<times> 'a world_scheme) option" where
  "release_with res r mgr w = do { (r, w) \<leftarrow> fd_ref_release r w; Some (res, mgr, w) }"

definition backend_delete_object ::
    "string \<Rightarrow> backend_manager \<Rightarrow> 'a world_scheme \<Rightarrow> (bool \<times> backend_manager \<times> 'a world_scheme) option" where
  "backend_delete_object uri mgr w =
     do {
       (found, mgr, w) \<leftarrow> manager_lookup uri mgr w;
       case found of
         None \<Rightarrow> Some (False, mgr, w)
       | Some r \<Rightarrow>
           do {
             a \<leftarrow> fr_entry r;
             e \<leftarrow> heap w a;
             let backend_id = sint (ie_backend_id e);
             case backend_manager_get_backend mgr backend_id of
               None \<Rightarrow> release_with False r mgr w
             | Some b \<Rightarrow>
                 do {
                   let w = unlink_path (ie_backend_path e) w;
                   (_, bidx, w) \<leftarrow> backend_index_remove (b_index b) uri w;
                   let mgr = upd_backend backend_id
                         (\<lambda>b. b\<lparr>b_index := bidx, b_object_count := b_object_count b - 1,
                               b_used_bytes := b_used_bytes b - ie_size_bytes e\<rparr>) mgr;
                   (_, idx, w) \<leftarrow> global_index_remove (m_global_index mgr) uri w;
                   release_with True r
                     (mgr\<lparr>m_global_index := idx, m_total_objects := m_total_objects mgr - 1,
                          m_total_bytes := m_total_bytes mgr - ie_size_bytes e\<rparr>) w
                 }
           }
     }"

section \<open>Scanning a backend\<close>

text \<open>The body of \<open>scan_dir_recursive\<close> for one regular file, with the count of new objects.\<close>

definition scan_object ::
    "int \<Rightarrow> nat \<Rightarrow> string \<Rightarrow> nat \<Rightarrow> (backend_manager \<times> nat) \<times> 'a world_scheme
       \<Rightarrow> ((backend_manager \<times> nat) \<times> 'a world_scheme) option" where
  "scan_object backend_id mount_path_len full_path ino st =
     (case st of ((mgr, n), w) \<Rightarrow>
        if mount_path_len > length full_path then None
        else case index_entry_create (drop mount_path_len full_path) (of_int backend_id) full_path w of
               (None, w) \<Rightarrow> Some ((mgr, n), w)
             | (Some a, w) \<Rightarrow>
                 do {
                   b \<leftarrow> backend_manager_get_backend mgr backend_id;
                   let st_size = (of_nat (length (inodes w ino)) :: u64);
                   w \<leftarrow> upd_entry a (\<lambda>e. e\<lparr>ie_size_bytes := st_size,
                          ie_flags := (if flag_set (b_flags b) BACKEND_FLAG_EPHEMERAL_ONLY
                                       then INDEX_FLAG_EPHEMERAL else INDEX_FLAG_PERSISTENT)\<rparr>) w;
                   (ok, idx, w) \<leftarrow> global_index_insert (m_global_index mgr) a w;
                   let mgr = mgr\<lparr>m_global_index := idx\<rparr>;
                   (mgr, n, w) \<leftarrow>
                     (if \<not> ok then Some (mgr, n, w)
                      else do {
                        (bidx, w) \<leftarrow> backend_index_insert (b_index b) a w;
                        let mgr = upd_backend backend_id
                              (\<lambda>b. b\<lparr>b_index := bidx, b_object_count := b_object_count b + 1,
                                    b_used_bytes := b_used_bytes b + st_size\<rparr>) mgr;
                        Some (mgr\<lparr>m_total_objects := m_total_objects mgr + 1,
                                  m_total_bytes := m_total_bytes mgr + st_size\<rparr>, n + 1, w)
                      });
                   w \<leftarrow> index_entry_put a w;
                   Some ((mgr, n), w)
                 })"

text \<open>\<open>strlen\<close> of a \<open>NULL\<close> mount path is the outer \<open>None\<close>; the inner \<open>None\<close> is the result \<open>-1\<close>.\<close>

definition backend_manager_scan ::
    "(string \<Rightarrow> string list option) \<Rightarrow> int \<Rightarrow> backend_manager \<Rightarrow> 'a world_scheme
       \<Rightarrow> (nat option \<times> backend_manager \<times> 'a world_scheme) option" where
  "backend_manager_scan listing backend_id mgr w =
     (case backend_manager_get_backend mgr backend_id of
        None \<Rightarrow> Some (None, mgr, w)
      | Some b \<Rightarrow>
          if \<not> flag_set (b_flags b) BACKEND_FLAG_ENABLED then Some (None, mgr, w)
          else do {
            mount_path \<leftarrow> b_mount_path b;
            ((mgr, n), w) \<leftarrow> scan_tree listing (scan_object backend_id (length mount_path)) mount_path ((mgr, 0), w);
            Some (Some n, mgr, w)
          })"

section \<open>Metadata\<close>

definition backend_get_metadata ::
    "string \<Rightarrow> backend_manager \<Rightarrow> 'a world_scheme
       \<Rightarrow> (object_metadata option \<times> backend_manager \<times> 'a world_scheme) option" where
  "backend_get_metadata uri mgr w =
     do {
       (found, mgr, w) \<leftarrow> manager_lookup uri mgr w;
       case found of
         None \<Rightarrow> Some (None, mgr, w)
       | Some r \<Rightarrow>
           do {
             a \<leftarrow> fr_entry r;
             e \<leftarrow> heap w a;
             let (u, w) = strdup (ie_uri e) w;
             path \<leftarrow> ie_backend_path e;
             let (p, w) = strdup path w;
             release_with
               (Some \<lparr>om_uri = u, om_backend_id = sint (ie_backend_id e), om_fs_path = p,
                      om_size_bytes = ie_size_bytes e, om_mtime = ie_mtime e, om_flags = ie_flags e,
                      om_hotness = ie_hotness_score e, om_access_count = ie_access_count e\<rparr>) r mgr w
           }
     }"

definition object_metadata_free :: "object_metadata \<Rightarrow> object_metadata" where
  "object_metadata_free md =
     md\<lparr>om_uri := None, om_backend_id := 0, om_fs_path := None, om_size_bytes := 0, om_mtime := 0,
        om_flags := 0, om_hotness := 0, om_access_count := 0\<rparr>"

definition backend_update_size ::
    "string \<Rightarrow> u64 \<Rightarrow> backend_manager \<Rightarrow> 'a world_scheme \<Rightarrow> (bool \<times> backend_manager \<times> 'a world_scheme) option" where
  "backend_update_size uri new_size mgr w =
     do {
       (found, mgr, w) \<leftarrow> manager_lookup uri mgr w;
       case found of
         None \<Rightarrow> Some (False, mgr, w)
       | Some r \<Rightarrow>
           do {
             a \<leftarrow> fr_entry r;
             e \<leftarrow> heap w a;
             let backend_id = sint (ie_backend_id e);
             case backend_manager_get_backend mgr backend_id of
               None \<Rightarrow> release_with False r mgr w
             | Some b \<Rightarrow>
                 do {
                   let old_size = ie_size_bytes e;
                   w \<leftarrow> upd_entry a (\<lambda>e. e\<lparr>ie_size_bytes := new_size\<rparr>) w;
                   let mgr =
                     (if old_size < new_size
                      then (upd_backend backend_id (\<lambda>b. b\<lparr>b_used_bytes := b_used_bytes b + (new_size - old_size)\<rparr>) mgr)
                             \<lparr>m_total_bytes := m_total_bytes mgr + (new_size - old_size)\<rparr>
                      else if new_size < old_size
                      then (upd_backend backend_id (\<lambda>b. b\<lparr>b_used_bytes := b_used_bytes b - (old_size - new_size)\<rparr>) mgr)
                             \<lparr>m_total_bytes := m_total_bytes mgr - (old_size - new_size)\<rparr>
                      else mgr);
                   release_with True r mgr w
                 }
           }
     }"

section \<open>Migration\<close>

text \<open>The two backends of a migration, when it is allowed.\<close>

definition migrate_check :: "backend_manager \<Rightarrow> index_entry \<Rightarrow> int \<Rightarrow> (backend_info \<times> backend_info) option" where
  "migrate_check mgr e target_backend_id =
     (let src_backend_id = sint (ie_backend_id e); dst = backend_manager_get_backend mgr target_backend_id
      in if src_backend_id = target_backend_id then None
         else if flag_set (ie_flags e) INDEX_FLAG_EPHEMERAL \<and>
                 (case dst of None \<Rightarrow> True | Some t \<Rightarrow> \<not> flag_set (b_flags t) BACKEND_FLAG_EPHEMERAL_ONLY) then None
         else case (backend_manager_get_backend mgr src_backend_id, dst) of
                (Some sb, Some db) \<Rightarrow>
                  if \<not> flag_set (b_flags sb) BACKEND_FLAG_MIGRATION_SRC \<or>
                     \<not> flag_set (b_flags db) BACKEND_FLAG_MIGRATION_DST then None
                  else Some (sb, db)
              | _ \<Rightarrow> None)"

definition migrate_copy :: "string \<Rightarrow> fd_ref \<Rightarrow> addr \<Rightarrow> 'a world_scheme \<Rightarrow> (bool \<times> 'a world_scheme) option" where
  "migrate_copy dst_path src_ref a w =
     (case sys_open_creat O_WRONLY dst_path w of (dst_fd, w) \<Rightarrow>
        if dst_fd < 0 then do { (r, w) \<leftarrow> fd_ref_release src_ref w; Some (False, w) }
        else
          do {
            (src_fd, src_ref, w) \<leftarrow> fd_ref_acquire src_ref w;
            if src_fd < 0 then
              do { (r, w) \<leftarrow> fd_ref_release src_ref (sys_unlink dst_path (sys_close dst_fd w)); Some (False, w) }
            else
              do {
                e \<leftarrow> heap w a;
                let (copied, w) = sys_sendfile dst_fd src_fd (unat (ie_size_bytes e)) w;
                (r, w) \<leftarrow> fd_ref_release src_ref w;
                let w = sys_close dst_fd w;
                e \<leftarrow> heap w a;
                Some (if copied \<noteq> sint (ie_size_bytes e) then (False, sys_unlink dst_path w) else (True, w))
              }
          })"

definition migrate_update ::
    "string \<Rightarrow> int \<Rightarrow> int \<Rightarrow> string \<Rightarrow> addr \<Rightarrow> backend_manager \<Rightarrow> 'a world_scheme
       \<Rightarrow> (backend_manager \<times> 'a world_scheme) option" where
  "migrate_update uri src_backend_id target_backend_id dst_path a mgr w =
     do {
       sb \<leftarrow> backend_manager_get_backend mgr src_backend_id;
       (_, sidx, w) \<leftarrow> backend_index_remove (b_index sb) uri w;
       e \<leftarrow> heap w a;
       let mgr = upd_backend src_backend_id
             (\<lambda>b. b\<lparr>b_index := sidx, b_object_count := b_object_count b - 1,
                   b_used_bytes := b_used_bytes b - ie_size_bytes e,
                   b_migrations_out := b_migrations_out b + 1\<rparr>) mgr;
       let (p, w) = strdup dst_path w;
       w \<leftarrow> upd_entry a (\<lambda>e. e\<lparr>ie_backend_path := p, ie_backend_id := of_int target_backend_id\<rparr>) w;
       (_, idx, w) \<leftarrow> global_index_update_backend (m_global_index mgr) uri (of_int target_backend_id) dst_path w;
       let mgr = mgr\<lparr>m_global_index := idx\<rparr>;
       db \<leftarrow> backend_manager_get_backend mgr target_backend_id;
       (didx, w) \<leftarrow> backend_index_insert (b_index db) a w;
       e \<leftarrow> heap w a;
       let mgr = upd_backend target_backend_id
             (\<lambda>b. b\<lparr>b_index := didx, b_object_count := b_object_count b + 1,
                   b_used_bytes := b_used_bytes b + ie_size_bytes e,
                   b_migrations_in := b_migrations_in b + 1\<rparr>) mgr;
       Some (mgr, w)
     }"

definition backend_migrate_object ::
    "string \<Rightarrow> int \<Rightarrow> backend_manager \<Rightarrow> 'a world_scheme \<Rightarrow> (bool \<times> backend_manager \<times> 'a world_scheme) option" where
  "backend_migrate_object uri target_backend_id mgr w =
     do {
       (found, mgr, w) \<leftarrow> manager_lookup uri mgr w;
       case found of
         None \<Rightarrow> Some (False, mgr, w)
       | Some src_ref \<Rightarrow>
           do {
             a \<leftarrow> fr_entry src_ref;
             e \<leftarrow> heap w a;
             case migrate_check mgr e target_backend_id of
               None \<Rightarrow> release_with False src_ref mgr w
             | Some (sb, db) \<Rightarrow>
                 do {
                   mount_path \<leftarrow> b_mount_path db;
                   let dst_path = snprintf_buf 1024 (mount_path @ uri);
                   (ok, w) \<leftarrow> migrate_copy dst_path src_ref a w;
                   if \<not> ok then Some (False, mgr, w)
                   else
                     do {
                       (mgr, w) \<leftarrow> migrate_update uri (sint (ie_backend_id e)) target_backend_id dst_path a mgr w;
                       e \<leftarrow> heap w a;
                       Some (True, mgr, unlink_path (ie_backend_path e) w)
                     }
                 }
           }
     }"

section \<open>The cache\<close>

definition current_backend ::
    "string \<Rightarrow> backend_manager \<Rightarrow> 'a world_scheme \<Rightarrow> (int option \<times> backend_manager \<times> 'a world_scheme) option" where
  "current_backend uri mgr w =
     do {
       (found, mgr, w) \<leftarrow> manager_lookup uri mgr w;
       case found of
         None \<Rightarrow> Some (None, mgr, w)
       | Some r \<Rightarrow>
           do {
             a \<leftarrow> fr_entry r;
             e \<leftarrow> heap w a;
             release_with (Some (sint (ie_backend_id e))) r mgr w
           }
     }"

definition backend_cache_object ::
    "string \<Rightarrow> backend_manager \<Rightarrow> 'a world_scheme \<Rightarrow> (bool \<times> backend_manager \<times> 'a world_scheme) option" where
  "backend_cache_object uri mgr w =
     (if m_cache_backend_id mgr < 0 then Some (False, mgr, w)
      else do {
        (cur, mgr, w) \<leftarrow> current_backend uri mgr w;
        case cur of
          None \<Rightarrow> Some (False, mgr, w)
        | Some i \<Rightarrow> if i = m_cache_backend_id mgr then Some (True, mgr, w)
                     else backend_migrate_object uri (m_cache_backend_id mgr) mgr w
      })"

definition backend_evict_object ::
    "string \<Rightarrow> backend_manager \<Rightarrow> 'a world_scheme \<Rightarrow> (bool \<times> backend_manager \<times> 'a world_scheme) option" where
  "backend_evict_object uri mgr w =
     (if m_default_backend_id mgr < 0 then Some (False, mgr, w)
      else do {
        (cur, mgr, w) \<leftarrow> current_backend uri mgr w;
        case cur of
          None \<Rightarrow> Some (False, mgr, w)
        | Some i \<Rightarrow> if i \<noteq> m_cache_backend_id mgr then Some (True, mgr, w)
                     else backend_migrate_object uri (m_default_backend_id mgr) mgr w
      })"

end
