(* ===== verification/Tree_Walk.thy ===== *)
theory Tree_Walk
  imports Index_Persist
begin

text \<open>
  The recursive walk over a directory tree that both scans share: what it keeps, and when
  it does not end.
\<close>

section \<open>What a walk keeps\<close>

text \<open>One iteration of the loop, by the case it takes.\<close>

abbreviation child :: "string \<Rightarrow> string \<Rightarrow> string" where
  "child p n \<equiv> snprintf_buf 2048 (p @ ''/'' @ n)"

abbreviation dots :: "string \<Rightarrow> bool" where
  "dots n \<equiv> n = ''.'' \<or> n = ''..''"

lemma walk_step:
  "walk_tree listing visit [] st = Some st"
  "walk_tree listing visit ((p, []) # rest) st = walk_tree listing visit rest st"
  "dots n \<Longrightarrow> walk_tree listing visit ((p, n # ns) # rest) st = walk_tree listing visit ((p, ns) # rest) st"
  by (subst walk_tree.simps, simp)+

lemma walk_child:
  assumes "\<not> dots n"
  shows "is_dir (snd st) (child p n) \<Longrightarrow> listing (child p n) = None \<Longrightarrow>
           walk_tree listing visit ((p, n # ns) # rest) st = walk_tree listing visit ((p, ns) # rest) st"
    and "is_dir (snd st) (child p n) \<Longrightarrow> listing (child p n) = Some qs \<Longrightarrow>
           walk_tree listing visit ((p, n # ns) # rest) st = walk_tree listing visit ((child p n, qs) # (p, ns) # rest) st"
    and "\<not> is_dir (snd st) (child p n) \<Longrightarrow> dir (snd st) (child p n) = None \<Longrightarrow>
           walk_tree listing visit ((p, n # ns) # rest) st = walk_tree listing visit ((p, ns) # rest) st"
    and "\<not> is_dir (snd st) (child p n) \<Longrightarrow> dir (snd st) (child p n) = Some ino \<Longrightarrow>
           walk_tree listing visit ((p, n # ns) # rest) st =
             Option.bind (visit (child p n) ino st) (walk_tree listing visit ((p, ns) # rest))"
  using assms by (subst walk_tree.simps, simp add: Let_def split: option.split)+

lemma walk_tree_invariant:
  assumes "walk_tree listing visit stack st = Some st'" "P st"
    and "\<And>p ino s s'. visit p ino s = Some s' \<Longrightarrow> P s \<Longrightarrow> P s'"
  shows "P st'"
proof -
  let ?keeps = "\<lambda>v. \<forall>p ino s s'. v p ino s = Some s' \<longrightarrow> P s \<longrightarrow> P s'"
  have "?keeps visit \<longrightarrow> P st \<longrightarrow> P st'" using _ assms(1)
  proof (rule walk_tree.raw_induct [of "\<lambda>l v k s s'. ?keeps v \<longrightarrow> P s \<longrightarrow> P s'"])
    fix walk l v k s s'
    assume ih: "\<And>l v k s s'. walk l v k s = Some s' \<Longrightarrow> ?keeps v \<longrightarrow> P s \<longrightarrow> P s'"
      and "(case k of [] \<Rightarrow> Some s
            | (dir_path, []) # rest \<Rightarrow> walk l v rest s
            | (dir_path, d_name # names) # rest \<Rightarrow>
                if dots d_name then walk l v ((dir_path, names) # rest) s
                else let full_path = child dir_path d_name
                     in if is_dir (snd s) full_path
                        then case l full_path of
                               None \<Rightarrow> walk l v ((dir_path, names) # rest) s
                             | Some ns \<Rightarrow> walk l v ((full_path, ns) # (dir_path, names) # rest) s
                        else case dir (snd s) full_path of
                               None \<Rightarrow> walk l v ((dir_path, names) # rest) s
                             | Some ino \<Rightarrow>
                                 case v full_path ino s of None \<Rightarrow> None
                                 | Some s \<Rightarrow> walk l v ((dir_path, names) # rest) s) = Some s'"
    then show "?keeps v \<longrightarrow> P s \<longrightarrow> P s'"
      by (cases s) (auto simp: Let_def dest!: ih split: list.split_asm option.split_asm if_split_asm)
  qed
  with assms(2,3) show ?thesis by blast
qed

lemma scan_tree_invariant:
  assumes "scan_tree listing visit mount st = Some st'" "P st"
    and "\<And>p ino s s'. visit p ino s = Some s' \<Longrightarrow> P s \<Longrightarrow> P s'"
  shows "P st'"
  using assms(1,2) by (auto simp: scan_tree_def split: option.split_asm intro: assms(3) walk_tree_invariant)

section \<open>Divergence\<close>

text \<open>A walk that does not return: a stack that the loop comes back to, deeper each time.\<close>

lemma walk_tree_diverges:
  assumes "n \<in> set ns" "hd ns = n" "\<not> dots n" "child p n = p" "listing p = Some ns" "is_dir (snd st) p"
  shows "walk_tree listing visit ((p, ns) # rest) st = None"
proof -
  have "ns \<noteq> []" using assms(1) by auto
  then obtain ms where ns: "ns = n # ms" using assms(2) by (cases ns) auto
  have "\<not> (listing = listing \<and> (\<exists>r. (p, ns) # rest = (p, ns) # r) \<and> st = st)"
    if that: "walk_tree listing visit ((p, ns) # rest) st = Some st'" for st'
  proof (rule walk_tree.raw_induct [of "\<lambda>l v k s s'. \<not> (l = listing \<and> (\<exists>rest. k = (p, ns) # rest) \<and> s = st)", OF _ that])
    fix walk l v k s s'
    assume ih: "\<And>l v k s s'. walk l v k s = Some s' \<Longrightarrow> \<not> (l = listing \<and> (\<exists>rest. k = (p, ns) # rest) \<and> s = st)"
      and "(case k of [] \<Rightarrow> Some s
            | (dir_path, []) # rest \<Rightarrow> walk l v rest s
            | (dir_path, d_name # names) # rest \<Rightarrow>
                if dots d_name then walk l v ((dir_path, names) # rest) s
                else let full_path = child dir_path d_name
                     in if is_dir (snd s) full_path
                        then case l full_path of
                               None \<Rightarrow> walk l v ((dir_path, names) # rest) s
                             | Some ns \<Rightarrow> walk l v ((full_path, ns) # (dir_path, names) # rest) s
                        else case dir (snd s) full_path of
                               None \<Rightarrow> walk l v ((dir_path, names) # rest) s
                             | Some ino \<Rightarrow>
                                 case v full_path ino s of None \<Rightarrow> None
                                 | Some s \<Rightarrow> walk l v ((dir_path, names) # rest) s) = Some s'"
    then show "\<not> (l = listing \<and> (\<exists>rest. k = (p, ns) # rest) \<and> s = st)"
      using assms(3-6) ih [of listing v "(p, ns) # (p, ms) # rest" st s' for rest] by (auto simp: ns Let_def)
  qed
  then show ?thesis by (cases "walk_tree listing visit ((p, ns) # rest) st") auto
qed

end
