(* ===== verification/Backend_Laws.thy ===== *)
theory Backend_Laws
  imports Backend_Ops Tree_Walk
begin

text \<open>
  The invariant of the backend manager: the number of a backend is its position, at most
  sixteen are registered, watermarks are ordered, and each role is given only to a backend
  that qualifies for it. Every operation of the manager is a step of a transition relation,
  and the invariant holds in every state that steps reach from a new manager.
\<close>

section \<open>The invariant\<close>

definition backend_ok :: "backend_info \<Rightarrow> bool" where
  "backend_ok b \<longleftrightarrow> 0 \<le> b_low_watermark b \<and> b_low_watermark b < b_high_watermark b \<and> b_high_watermark b \<le> 1"

definition role :: "backend_manager \<Rightarrow> int \<Rightarrow> (backend_info \<Rightarrow> bool) \<Rightarrow> bool" where
  "role mgr i P \<longleftrightarrow> i = -1 \<or> (\<exists>b. backend_manager_get_backend mgr i = Some b \<and> P b)"

abbreviation ephemeral_only :: "backend_info \<Rightarrow> bool" where
  "ephemeral_only b \<equiv> flag_set (b_flags b) BACKEND_FLAG_EPHEMERAL_ONLY"

definition mgr_ok :: "backend_manager \<Rightarrow> bool" where
  "mgr_ok mgr \<longleftrightarrow>
     m_max_backends mgr = 16 \<and> length (m_backends mgr) \<le> 16 \<and>
     map b_id (m_backends mgr) = map int [0..<length (m_backends mgr)] \<and>
     list_all backend_ok (m_backends mgr) \<and>
     role mgr (m_default_backend_id mgr) (\<lambda>b. \<not> ephemeral_only b) \<and>
     role mgr (m_ephemeral_backend_id mgr) ephemeral_only \<and>
     role mgr (m_cache_backend_id mgr) (\<lambda>b. b_type b = BACKEND_TYPE_MEMORY)"

text \<open>What no operation changes of a backend, and what the object operations keep of a manager.\<close>

definition same_backend :: "backend_info \<Rightarrow> backend_info \<Rightarrow> bool" where
  "same_backend b b' \<longleftrightarrow>
     b_id b' = b_id b \<and> b_type b' = b_type b \<and> b_mount_path b' = b_mount_path b \<and>
     ephemeral_only b' = ephemeral_only b \<and> (backend_ok b \<longrightarrow> backend_ok b')"

definition mgr_frame :: "backend_manager \<Rightarrow> backend_manager \<Rightarrow> bool" where
  "mgr_frame mgr mgr' \<longleftrightarrow>
     m_max_backends mgr' = m_max_backends mgr \<and> m_default_backend_id mgr' = m_default_backend_id mgr \<and>
     m_ephemeral_backend_id mgr' = m_ephemeral_backend_id mgr \<and>
     m_cache_backend_id mgr' = m_cache_backend_id mgr \<and>
     list_all2 same_backend (m_backends mgr) (m_backends mgr')"

lemma same_backend_refl [simp, intro]: "same_backend b b"
  by (simp add: same_backend_def)

lemma same_backend_trans: "same_backend a b \<Longrightarrow> same_backend b c \<Longrightarrow> same_backend a c"
  by (simp add: same_backend_def)

lemma mgr_frame_refl [simp, intro]: "mgr_frame mgr mgr"
  by (simp add: mgr_frame_def list_all2_refl)

lemma mgr_frame_trans [trans]:
  assumes "mgr_frame a b" "mgr_frame b c" shows "mgr_frame a c"
proof -
  have "list_all2 same_backend (m_backends a) (m_backends b)" "list_all2 same_backend (m_backends b) (m_backends c)"
    using assms by (simp_all add: mgr_frame_def)
  then have "list_all2 same_backend (m_backends a) (m_backends c)"
    by (rule list_all2_trans [OF same_backend_trans, rotated 2]) assumption+
  with assms show ?thesis by (simp add: mgr_frame_def)
qed

lemma mgr_frame_fields [simp]:
  "mgr_frame mgr (mgr'\<lparr>m_global_index := x\<rparr>) = mgr_frame mgr mgr'"
  "mgr_frame mgr (mgr'\<lparr>m_total_objects := n\<rparr>) = mgr_frame mgr mgr'"
  "mgr_frame mgr (mgr'\<lparr>m_total_bytes := n\<rparr>) = mgr_frame mgr mgr'"
  "mgr_frame mgr (mgr'\<lparr>m_cache_running := c\<rparr>) = mgr_frame mgr mgr'"
  "mgr_frame mgr (mgr'\<lparr>m_cache_threshold := t\<rparr>) = mgr_frame mgr mgr'"
  "mgr_frame mgr (mgr'\<lparr>m_cache_check_interval_us := n\<rparr>) = mgr_frame mgr mgr'"
  by (simp_all add: mgr_frame_def)

lemma mgr_frame_upd:
  assumes "mgr_frame mgr mgr'" "\<And>b. same_backend b (f b)"
  shows "mgr_frame mgr (upd_backend i f mgr')"
proof -
  have "list_all2 same_backend (m_backends mgr') (m_backends (upd_backend i f mgr'))"
  proof (rule list_all2_all_nthI)
    fix k assume "k < length (m_backends mgr')"
    then show "same_backend (m_backends mgr' ! k) (m_backends (upd_backend i f mgr') ! k)"
      using assms(2) by (cases "k = nat i") (simp_all add: upd_backend_def)
  qed (simp add: upd_backend_def)
  then have "mgr_frame mgr' (upd_backend i f mgr')" by (simp add: mgr_frame_def upd_backend_def)
  with assms(1) show ?thesis by (rule mgr_frame_trans)
qed

lemma get_backend_frame:
  assumes "mgr_frame mgr mgr'" "backend_manager_get_backend mgr i = Some b"
  shows "\<exists>b'. backend_manager_get_backend mgr' i = Some b' \<and> same_backend b b'"
  using assms by (auto simp: mgr_frame_def backend_manager_get_backend_def list_all2_conv_all_nth split: if_splits)

lemma role_frame:
  assumes "mgr_frame mgr mgr'" "role mgr i P" "\<And>b b'. same_backend b b' \<Longrightarrow> P b \<Longrightarrow> P b'"
  shows "role mgr' i P"
  using get_backend_frame [OF assms(1)] assms(2,3) unfolding role_def by blast

theorem mgr_ok_frame:
  assumes "mgr_frame mgr mgr'" "mgr_ok mgr"
  shows "mgr_ok mgr'"
proof -
  let ?bs = "m_backends mgr" and ?bs' = "m_backends mgr'"
  have all: "list_all2 same_backend ?bs ?bs'" using assms(1) by (simp add: mgr_frame_def)
  then have len: "length ?bs' = length ?bs" by (simp add: list_all2_lengthD)
  have "map b_id ?bs' = map b_id ?bs"
    using all by (auto simp: list_all2_conv_all_nth same_backend_def intro: nth_equalityI)
  moreover have "list_all backend_ok ?bs'"
    using all assms(2) by (auto simp: mgr_ok_def list_all2_conv_all_nth list_all_length same_backend_def)
  moreover have "role mgr' (m_default_backend_id mgr) (\<lambda>b. \<not> ephemeral_only b)"
    using assms(2) by (auto simp: mgr_ok_def same_backend_def intro: role_frame [OF assms(1)])
  moreover have "role mgr' (m_ephemeral_backend_id mgr) ephemeral_only"
    using assms(2) by (auto simp: mgr_ok_def same_backend_def intro: role_frame [OF assms(1)])
  moreover have "role mgr' (m_cache_backend_id mgr) (\<lambda>b. b_type b = BACKEND_TYPE_MEMORY)"
    using assms(2) by (auto simp: mgr_ok_def same_backend_def intro: role_frame [OF assms(1)])
  ultimately show ?thesis using assms len by (simp add: mgr_ok_def mgr_frame_def)
qed

section \<open>Object operations keep the frame\<close>

lemma bind_SomeE:
  assumes "Option.bind x f = Some y" obtains z where "x = Some z" "f z = Some y"
  using assms by (cases x) auto

lemmas run_splits = option.split_asm prod.split_asm if_split_asm bool.split_asm

lemma same_backend_counters [simp, intro]:
  "same_backend b (b\<lparr>b_index := x, b_object_count := c, b_writes := d\<rparr>)"
  "same_backend b (b\<lparr>b_index := x, b_object_count := c, b_used_bytes := d\<rparr>)"
  "same_backend b (b\<lparr>b_index := x, b_object_count := c, b_used_bytes := d, b_migrations_in := n\<rparr>)"
  "same_backend b (b\<lparr>b_index := x, b_object_count := c, b_used_bytes := d, b_migrations_out := n\<rparr>)"
  "same_backend b (b\<lparr>b_reads := c\<rparr>)" "same_backend b (b\<lparr>b_used_bytes := d\<rparr>)"
  "same_backend b (b\<lparr>b_migration_policy := p, b_hotness_threshold := t\<rparr>)"
  by (simp_all add: same_backend_def backend_ok_def)

lemma release_with_frame: "release_with res r mgr w = Some (x, mgr', w') \<Longrightarrow> mgr' = mgr"
  by (auto simp: release_with_def split: run_splits elim!: bind_SomeE)

lemma manager_lookup_frame: "manager_lookup uri mgr w = Some (found, mgr', w') \<Longrightarrow> mgr_frame mgr mgr'"
  by (auto simp: manager_lookup_def split: run_splits elim!: bind_SomeE)

lemma create_frame: "backend_create_object req mgr w = Some (r, mgr', w') \<Longrightarrow> mgr_frame mgr mgr'"
  by (auto simp: backend_create_object_def Let_def intro!: mgr_frame_upd split: run_splits elim!: bind_SomeE)

lemma get_frame: "backend_get_object uri mgr w = Some (r, mgr', w') \<Longrightarrow> mgr_frame mgr mgr'"
  by (auto simp: backend_get_object_def Let_def intro!: mgr_frame_upd dest!: manager_lookup_frame
      split: run_splits elim!: bind_SomeE)

lemma delete_frame: "backend_delete_object uri mgr w = Some (r, mgr', w') \<Longrightarrow> mgr_frame mgr mgr'"
  by (auto simp: backend_delete_object_def Let_def intro!: mgr_frame_upd
      dest!: manager_lookup_frame release_with_frame split: run_splits elim!: bind_SomeE)

lemma metadata_frame: "backend_get_metadata uri mgr w = Some (r, mgr', w') \<Longrightarrow> mgr_frame mgr mgr'"
  by (auto simp: backend_get_metadata_def Let_def dest!: manager_lookup_frame release_with_frame
      split: run_splits elim!: bind_SomeE)

lemma update_size_frame: "backend_update_size uri n mgr w = Some (r, mgr', w') \<Longrightarrow> mgr_frame mgr mgr'"
  by (auto simp: backend_update_size_def Let_def intro!: mgr_frame_upd
      dest!: manager_lookup_frame release_with_frame split: run_splits elim!: bind_SomeE)

lemma migrate_update_frame:
  "migrate_update uri i j dst a mgr w = Some (mgr', w') \<Longrightarrow> mgr_frame mgr mgr'"
  by (auto simp: migrate_update_def Let_def intro!: mgr_frame_upd split: run_splits elim!: bind_SomeE)

lemma migrate_frame: "backend_migrate_object uri i mgr w = Some (r, mgr', w') \<Longrightarrow> mgr_frame mgr mgr'"
  by (auto simp: backend_migrate_object_def Let_def
      dest!: manager_lookup_frame release_with_frame migrate_update_frame
      split: run_splits elim!: bind_SomeE) (erule (1) mgr_frame_trans)+

lemma current_backend_frame: "current_backend uri mgr w = Some (r, mgr', w') \<Longrightarrow> mgr_frame mgr mgr'"
  by (auto simp: current_backend_def Let_def dest!: manager_lookup_frame release_with_frame split: run_splits elim!: bind_SomeE)

lemma cache_frame: "backend_cache_object uri mgr w = Some (r, mgr', w') \<Longrightarrow> mgr_frame mgr mgr'"
  by (auto simp: backend_cache_object_def Let_def dest!: current_backend_frame migrate_frame
      split: run_splits elim!: bind_SomeE) (erule (1) mgr_frame_trans)+

lemma evict_frame: "backend_evict_object uri mgr w = Some (r, mgr', w') \<Longrightarrow> mgr_frame mgr mgr'"
  by (auto simp: backend_evict_object_def Let_def dest!: current_backend_frame migrate_frame
      split: run_splits elim!: bind_SomeE) (erule (1) mgr_frame_trans)+

lemma scan_object_frame:
  "scan_object i l p ino ((mgr, n), w) = Some ((mgr', n'), w') \<Longrightarrow> mgr_frame mgr mgr'"
  by (auto simp: scan_object_def Let_def intro!: mgr_frame_upd split: run_splits elim!: bind_SomeE)

lemma manager_scan_frame:
  assumes "backend_manager_scan listing i mgr w = Some (r, mgr', w')"
  shows "mgr_frame mgr mgr'"
proof -
  consider "mgr' = mgr" | m n where
    "scan_tree listing (scan_object i (length m)) m ((mgr, 0), w) = Some ((mgr', n), w')"
    using assms by (auto simp: backend_manager_scan_def split: run_splits elim!: bind_SomeE)
  then show ?thesis
  proof cases
    case 2
    from scan_tree_invariant [OF 2, of "\<lambda>((m, n), w). mgr_frame mgr m"] show ?thesis
      using mgr_frame_trans scan_object_frame by fastforce
  qed simp
qed

section \<open>Steps of the manager\<close>

inductive mgr_step :: "backend_manager \<times> world \<Rightarrow> backend_manager \<times> world \<Rightarrow> bool" where
  Register: "backend_manager_register junk t mount_path name capacity flags mgr w = Some (i, mgr', w') \<Longrightarrow>
     mgr_step (mgr, w) (mgr', w')"
| Set_Default: "backend_manager_set_default i mgr = (ok, mgr') \<Longrightarrow> mgr_step (mgr, w) (mgr', w)"
| Set_Ephemeral: "backend_manager_set_ephemeral i mgr = (ok, mgr') \<Longrightarrow> mgr_step (mgr, w) (mgr', w)"
| Set_Cache: "backend_manager_set_cache i mgr = (ok, mgr') \<Longrightarrow> mgr_step (mgr, w) (mgr', w)"
| Set_Enabled: "backend_set_enabled i en mgr = (ok, mgr') \<Longrightarrow> mgr_step (mgr, w) (mgr', w)"
| Set_Watermarks: "backend_set_watermarks i high low mgr = (ok, mgr') \<Longrightarrow> mgr_step (mgr, w) (mgr', w)"
| Set_Policy: "backend_set_migration_policy i policy threshold mgr = (ok, mgr') \<Longrightarrow> mgr_step (mgr, w) (mgr', w)"
| Start_Caching: "backend_start_caching interval threshold mgr w = (ok, mgr', w') \<Longrightarrow> mgr_step (mgr, w) (mgr', w')"
| Stop_Caching: "mgr_step (mgr, w) (backend_stop_caching mgr, w)"
| Create: "backend_create_object req mgr w = Some (r, mgr', w') \<Longrightarrow> mgr_step (mgr, w) (mgr', w')"
| Get: "backend_get_object uri mgr w = Some (r, mgr', w') \<Longrightarrow> mgr_step (mgr, w) (mgr', w')"
| Delete: "backend_delete_object uri mgr w = Some (ok, mgr', w') \<Longrightarrow> mgr_step (mgr, w) (mgr', w')"
| Scan: "backend_manager_scan listing i mgr w = Some (n, mgr', w') \<Longrightarrow> mgr_step (mgr, w) (mgr', w')"
| Metadata: "backend_get_metadata uri mgr w = Some (md, mgr', w') \<Longrightarrow> mgr_step (mgr, w) (mgr', w')"
| Update_Size: "backend_update_size uri new_size mgr w = Some (ok, mgr', w') \<Longrightarrow> mgr_step (mgr, w) (mgr', w')"
| Migrate: "backend_migrate_object uri i mgr w = Some (ok, mgr', w') \<Longrightarrow> mgr_step (mgr, w) (mgr', w')"
| Cache: "backend_cache_object uri mgr w = Some (ok, mgr', w') \<Longrightarrow> mgr_step (mgr, w) (mgr', w')"
| Evict: "backend_evict_object uri mgr w = Some (ok, mgr', w') \<Longrightarrow> mgr_step (mgr, w) (mgr', w')"
| Release: "fd_ref_release r w = Some (r', w') \<Longrightarrow> mgr_step (mgr, w) (mgr, w')"

lemmas object_frames = create_frame get_frame delete_frame manager_scan_frame metadata_frame
  update_size_frame migrate_frame cache_frame evict_frame

lemma role_append:
  assumes "role mgr i P"
  shows "role (mgr\<lparr>m_backends := m_backends mgr @ bs\<rparr>) i P"
  using assms by (auto simp: role_def backend_manager_get_backend_def nth_append split: if_splits)

lemma register_ok:
  assumes "backend_manager_register junk t mount_path name capacity flags mgr w = Some (i, mgr', w')" "mgr_ok mgr"
  shows "mgr_ok mgr'"
proof -
  consider "mgr' = mgr" | mp nm idx where "length (m_backends mgr) < m_max_backends mgr"
      "mgr' = mgr\<lparr>m_backends := m_backends mgr @
         [new_backend (int (length (m_backends mgr))) t mp nm capacity flags idx]\<rparr>"
    using assms(1) by (auto simp: backend_manager_register_def Let_def split: run_splits elim!: bind_SomeE)
  then show ?thesis
  proof cases
    case 2
    with assms(2) show ?thesis
      by (simp add: mgr_ok_def role_append new_backend_def backend_ok_def)
  qed (use assms(2) in simp)
qed

lemma set_enabled_frame:
  assumes "backend_set_enabled i en mgr = (ok, mgr')" shows "mgr_frame mgr mgr'"
proof -
  have "same_backend b (b\<lparr>b_flags := (if en then b_flags b OR BACKEND_FLAG_ENABLED
          else b_flags b AND NOT BACKEND_FLAG_ENABLED)\<rparr>)" for b
  proof -
    have "(x OR 4) AND 1 = x AND 1" "(x AND NOT 4) AND 1 = x AND 1" for x :: u32
      by (intro bit_eqI; auto simp: bit_simps)+
    then show ?thesis by (simp add: same_backend_def flag_set_def backend_ok_def)
  qed
  with assms show ?thesis
    by (auto simp: backend_set_enabled_def intro: mgr_frame_upd split: option.split_asm)
qed

lemma setting_frames:
  "backend_set_watermarks i high low mgr = (ok, mgr') \<Longrightarrow> mgr_frame mgr mgr'"
  "backend_set_migration_policy i policy threshold mgr = (ok, mgr') \<Longrightarrow> mgr_frame mgr mgr'"
  "backend_start_caching interval t mgr w = (ok, mgr', w') \<Longrightarrow> mgr_frame mgr mgr'"
  "mgr_frame mgr (backend_stop_caching mgr)"
  by (auto simp: backend_set_watermarks_def backend_set_migration_policy_def backend_start_caching_def
      backend_stop_caching_def Let_def same_backend_def backend_ok_def
      intro!: mgr_frame_upd split: run_splits)

lemma role_fields [simp]:
  "role (mgr\<lparr>m_default_backend_id := i\<rparr>) j P = role mgr j P"
  "role (mgr\<lparr>m_ephemeral_backend_id := i\<rparr>) j P = role mgr j P"
  "role (mgr\<lparr>m_cache_backend_id := i\<rparr>) j P = role mgr j P"
  by (simp_all add: role_def backend_manager_get_backend_def)

lemma role_some: "backend_manager_get_backend mgr i = Some b \<Longrightarrow> P b \<Longrightarrow> role mgr i P"
  by (simp add: role_def)

lemma set_roles_ok:
  "mgr_ok mgr \<Longrightarrow> backend_manager_set_default i mgr = (ok, mgr') \<Longrightarrow> mgr_ok mgr'"
  "mgr_ok mgr \<Longrightarrow> backend_manager_set_ephemeral i mgr = (ok, mgr') \<Longrightarrow> mgr_ok mgr'"
  "mgr_ok mgr \<Longrightarrow> backend_manager_set_cache i mgr = (ok, mgr') \<Longrightarrow> mgr_ok mgr'"
  by (auto simp: backend_manager_set_default_def backend_manager_set_ephemeral_def backend_manager_set_cache_def
      mgr_ok_def role_some split: option.split_asm if_split_asm)

lemma mgr_step_ok:
  assumes "mgr_step s s'" "mgr_ok (fst s)"
  shows "mgr_ok (fst s')"
  using assms
  by (induction rule: mgr_step.induct)
     (auto intro: register_ok set_roles_ok
       dest: object_frames [THEN mgr_ok_frame] set_enabled_frame [THEN mgr_ok_frame] setting_frames [THEN mgr_ok_frame])

end
