(* ===== verification/Backend_Files.thy ===== *)
theory Backend_Files
  imports Backend_Laws
begin

text \<open>
  The file that a new object gets: \<open>mkdir_p\<close> makes the missing directories on the way, and
  the file is then created or truncated.
\<close>

section \<open>Directories\<close>

lemma dirname_cases:
  "dirname p = [] \<or> (\<exists>j < length p. 0 < j \<and> p ! j = CHR ''/'' \<and> dirname p = take j p)"
proof (cases "CHR ''/'' \<in> set p")
  case True
  let ?d = "dropWhile (\<lambda>c. c \<noteq> CHR ''/'') (rev p)"
  have "?d \<noteq> []" using True by (simp add: dropWhile_eq_Nil_conv)
  then obtain xs where d: "?d = CHR ''/'' # xs"
    using hd_dropWhile [of "\<lambda>c. c \<noteq> CHR ''/''" "rev p"] by (cases ?d) auto
  have "rev p = takeWhile (\<lambda>c. c \<noteq> CHR ''/'') (rev p) @ CHR ''/'' # xs"
    using takeWhile_dropWhile_id [of "\<lambda>c. c \<noteq> CHR ''/''" "rev p"] d by simp
  then have "p = rev xs @ CHR ''/'' # rev (takeWhile (\<lambda>c. c \<noteq> CHR ''/'') (rev p))"
    by (metis append_Cons append_Nil append_assoc rev.simps(2) rev_append rev_rev_ident)
  moreover have "dirname p = rev xs" using d by (simp add: dirname_def)
  ultimately show ?thesis
    by (cases "xs = []") (simp, metis append_eq_conv_conj length_append length_rev less_add_same_cancel1
        list.size(4) nth_append_length zero_less_Suc add.right_neutral add_Suc_right length_greater_0_conv)
next
  case False
  then have "dropWhile (\<lambda>c. c \<noteq> CHR ''/'') (rev p) = []" by (auto simp: dropWhile_eq_Nil_conv)
  then have "dirname p = []" unfolding dirname_def by (simp only: list.sel rev.simps)
  then show ?thesis ..
qed

text \<open>The slash-separated prefixes of a path that are not regular files.\<close>

definition no_file_on_way :: "string \<Rightarrow> 'a os_scheme \<Rightarrow> bool" where
  "no_file_on_way path s \<longleftrightarrow>
     dir s path = None \<and> (\<forall>i < length path. path ! i = CHR ''/'' \<longrightarrow> dir s (take i path) = None)"

text \<open>What \<open>mkdir\<close> does on a path whose parent exists; \<open>made n s s'\<close>: only directories were
  added, of paths of at most \<open>n\<close> characters.\<close>

definition made :: "nat \<Rightarrow> 'a os_scheme \<Rightarrow> 'a os_scheme \<Rightarrow> bool" where
  "made n s s' \<longleftrightarrow> (\<exists>f d. s' = s\<lparr>faults := f, is_dir := d\<rparr> \<and>
     (\<forall>p. is_dir s p \<longrightarrow> d p) \<and> (\<forall>p. d p \<longrightarrow> is_dir s p \<or> length p \<le> n))"

lemma made_refl [simp]: "made n s s"
proof -
  have "s = s\<lparr>faults := faults s, is_dir := is_dir s\<rparr>" by simp
  then show ?thesis unfolding made_def by blast
qed

lemma made_trans: "made n s t \<Longrightarrow> made n t u \<Longrightarrow> made n s u"
  unfolding made_def
proof (elim exE conjE)
  fix f d f' d'
  assume *: "t = s\<lparr>faults := f, is_dir := d\<rparr>" "\<forall>p. is_dir s p \<longrightarrow> d p" "\<forall>p. d p \<longrightarrow> is_dir s p \<or> length p \<le> n"
    "u = t\<lparr>faults := f', is_dir := d'\<rparr>" "\<forall>p. is_dir t p \<longrightarrow> d' p" "\<forall>p. d' p \<longrightarrow> is_dir t p \<or> length p \<le> n"
  then have "u = s\<lparr>faults := f', is_dir := d'\<rparr>" by simp
  moreover have "\<forall>p. is_dir s p \<longrightarrow> d' p" "\<forall>p. d' p \<longrightarrow> is_dir s p \<or> length p \<le> n" using * by auto
  ultimately show "\<exists>f d. u = s\<lparr>faults := f, is_dir := d\<rparr> \<and> (\<forall>p. is_dir s p \<longrightarrow> d p) \<and>
      (\<forall>p. d p \<longrightarrow> is_dir s p \<or> length p \<le> n)" by blast
qed

lemma made_mono: "made n s t \<Longrightarrow> n \<le> k \<Longrightarrow> made k s t"
  unfolding made_def
proof (elim exE conjE)
  fix f d
  assume *: "n \<le> k" "t = s\<lparr>faults := f, is_dir := d\<rparr>" "\<forall>p. is_dir s p \<longrightarrow> d p" "\<forall>p. d p \<longrightarrow> is_dir s p \<or> length p \<le> n"
  then have "\<forall>p. d p \<longrightarrow> is_dir s p \<or> length p \<le> k" by fastforce
  with * show "\<exists>f d. t = s\<lparr>faults := f, is_dir := d\<rparr> \<and> (\<forall>p. is_dir s p \<longrightarrow> d p) \<and>
      (\<forall>p. d p \<longrightarrow> is_dir s p \<or> length p \<le> k)" by blast
qed

lemma made_simps:
  assumes "made n s s'"
  shows "dir s' = dir s" "inodes s' = inodes s" "fds s' = fds s" "ofds s' = ofds s" "next_ino s' = next_ino s"
    "next_ofd s' = next_ofd s" "os.more s' = os.more s" "is_dir s p \<Longrightarrow> is_dir s' p"
    "is_dir s' p \<Longrightarrow> is_dir s p \<or> length p \<le> n"
  using assms by (auto simp: made_def)

lemma mkdir_ok:
  assumes "no_faults s" "p \<noteq> []" "dir s p = None" "parent_ok s p"
  obtains s' r where "sys_mkdir p s = (r, s')" "r \<noteq> MkdirError" "made (length p) s s'" "no_faults s'" "is_dir s' p"
proof -
  obtain t where f: "fault s = (False, s\<lparr>faults := t\<rparr>)" "True \<notin> set t" using no_faults_fault [OF assms(1)] .
  show ?thesis
  proof (cases "is_dir s p")
    case True
    let ?s = "s\<lparr>faults := t\<rparr>"
    have "?s = s\<lparr>faults := t, is_dir := is_dir s\<rparr>" by simp
    then have "made (length p) s ?s" unfolding made_def by blast
    moreover have "sys_mkdir p s = (MkdirExists, ?s)" using f True assms by (simp add: sys_mkdir_def)
    ultimately show ?thesis using that f(2) True by (simp add: no_faults_def)
  next
    case False
    let ?s = "s\<lparr>faults := t, is_dir := (is_dir s)(p := True)\<rparr>"
    have "sys_mkdir p s = (MkdirOk, ?s)"
      using f False assms by (simp add: sys_mkdir_def parent_ok_def)
    moreover have "made (length p) s ?s" unfolding made_def by (rule exI [of _ t], rule exI [of _ "(is_dir s)(p := True)"]) simp
    ultimately show ?thesis using that f(2) by (simp add: no_faults_def)
  qed
qed

lemma parent_ok_prefix:
  assumes "\<And>j. 0 < j \<Longrightarrow> j < i \<Longrightarrow> tmp ! j = CHR ''/'' \<Longrightarrow> is_dir s (take j tmp)" "i \<le> length tmp"
  shows "parent_ok s (take i tmp)"
proof -
  have len: "length (take i tmp) = i" using assms(2) by simp
  show ?thesis
  proof (cases "dirname (take i tmp) = []")
    case False
    then obtain j where "j < i" "0 < j" "take i tmp ! j = CHR ''/''" "dirname (take i tmp) = take j (take i tmp)"
      using dirname_cases [of "take i tmp"] len by auto
    then show ?thesis using assms(1) [of j] by (simp add: parent_ok_def min_def)
  qed (simp add: parent_ok_def)
qed

lemma mkdir_prefixes_ok:
  assumes "no_faults s" "no_file_on_way tmp s" "0 < i" "i \<le> length tmp"
    and "\<And>j. 0 < j \<Longrightarrow> j < i \<Longrightarrow> tmp ! j = CHR ''/'' \<Longrightarrow> is_dir s (take j tmp)"
  shows "\<exists>s'. mkdir_prefixes tmp [i..<length tmp] s = (True, s') \<and> made (length tmp) s s' \<and> no_faults s' \<and>
    (\<forall>j. 0 < j \<and> j < length tmp \<and> tmp ! j = CHR ''/'' \<longrightarrow> is_dir s' (take j tmp))"
  using assms
proof (induction "length tmp - i" arbitrary: i s)
  case 0
  then show ?case by auto
next
  case (Suc n)
  then have i: "i < length tmp" "[i..<length tmp] = i # [Suc i..<length tmp]" by (auto simp: upt_conv_Cons)
  show ?case
  proof (cases "tmp ! i = CHR ''/''")
    case True
    have "parent_ok s (take i tmp)" using Suc.prems(4,5) by (rule parent_ok_prefix [rotated])
    moreover have "take i tmp \<noteq> []" "dir s (take i tmp) = None"
      using Suc.prems(2,3) i(1) True by (auto simp: no_file_on_way_def)
    ultimately obtain s1 r where m: "sys_mkdir (take i tmp) s = (r, s1)" "r \<noteq> MkdirError" "made (length tmp) s s1"
        "no_faults s1" "is_dir s1 (take i tmp)" using mkdir_ok [OF Suc.prems(1)] made_mono [of "length (take i tmp)" s _ "length tmp"] by (metis length_take min.cobounded1)
    have "is_dir s1 (take j tmp)" if "0 < j" "j < Suc i" "tmp ! j = CHR ''/''" for j
      using that m(5) Suc.prems(5) [of j] made_simps(8) [OF m(3)] by (cases "j = i") auto
    moreover have "no_file_on_way tmp s1" using Suc.prems(2) made_simps(1) [OF m(3)] by (simp add: no_file_on_way_def)
    ultimately obtain s' where "mkdir_prefixes tmp [Suc i..<length tmp] s1 = (True, s')" "made (length tmp) s1 s'" "no_faults s'"
        "\<forall>j. 0 < j \<and> j < length tmp \<and> tmp ! j = CHR ''/'' \<longrightarrow> is_dir s' (take j tmp)"
      using Suc.hyps(1) [of "Suc i" s1] Suc.hyps(2) m(4) i(1) by fastforce
    moreover have "mkdir_prefixes tmp [i..<length tmp] s = mkdir_prefixes tmp [Suc i..<length tmp] s1"
      using m(1,2) True by (cases r) (simp_all add: i(2))
    ultimately show ?thesis using made_trans [OF m(3)] by simp
  next
    case False
    then have "is_dir s (take j tmp)" if "0 < j" "j < Suc i" "tmp ! j = CHR ''/''" for j
      using that Suc.prems(5) [of j] by (cases "j = i") auto
    with Suc.hyps(1) [of "Suc i" s] Suc.hyps(2) Suc.prems(1,2) i False show ?thesis by simp
  qed
qed

theorem mkdir_p_ok:
  assumes "no_faults s" "no_file_on_way path s" "path \<noteq> []" "last path \<noteq> CHR ''/''" "length path < 1024"
  shows "\<exists>s'. mkdir_p path s = Some (True, s') \<and> made (length path) s s' \<and> no_faults s' \<and> is_dir s' path \<and>
    (\<forall>j. 0 < j \<and> j < length path \<and> path ! j = CHR ''/'' \<longrightarrow> is_dir s' (take j path))"
proof -
  have "0 < (1::nat)" "1 \<le> length path" using assms(3) by (auto simp: Suc_leI)
  then obtain s1 where 1: "mkdir_prefixes path [1..<length path] s = (True, s1)" "made (length path) s s1" "no_faults s1"
      "\<And>j. 0 < j \<Longrightarrow> j < length path \<Longrightarrow> path ! j = CHR ''/'' \<Longrightarrow> is_dir s1 (take j path)"
    using mkdir_prefixes_ok [OF assms(1,2), of 1] by auto
  from parent_ok_prefix [of "length path" path s1] 1(4) have "parent_ok s1 path" by simp
  moreover have "dir s1 path = None" using assms(2) made_simps(1) [OF 1(2)] by (simp add: no_file_on_way_def)
  ultimately obtain s' r where 2: "sys_mkdir path s1 = (r, s')" "r \<noteq> MkdirError" "made (length path) s1 s'" "no_faults s'" "is_dir s' path"
    using mkdir_ok [OF 1(3) assms(3)] by blast
  have "mkdir_p path s = Some (True, s')"
    using 1(1) 2(1,2) assms(3-5) by (cases r) (simp_all add: mkdir_p_def snprintf_buf_id)
  moreover have "is_dir s' (take j path)" if "0 < j" "j < length path" "path ! j = CHR ''/''" for j
    using 1(4) [OF that] made_simps(8) [OF 2(3)] by blast
  ultimately show ?thesis using made_trans [OF 1(2) 2(3)] 2(4,5) by blast
qed

section \<open>The backing file\<close>

lemma more_heap:
  assumes "os.more w' = os.more w"
  shows "heap w' = heap w" "next_addr w' = next_addr w"
  using assms by (cases w; cases w'; simp)+

text \<open>The hypotheses under which the file of a new object can be made.\<close>

definition creatable :: "string \<Rightarrow> 'a os_scheme \<Rightarrow> bool" where
  "creatable path s \<longleftrightarrow> length path < 1024 \<and> \<not> is_dir s path \<and> CHR ''/'' \<in> set path \<and>
     dirname path \<noteq> [] \<and> last (dirname path) \<noteq> CHR ''/'' \<and> no_file_on_way (dirname path) s"

lemma dirname_shorter: "p \<noteq> [] \<Longrightarrow> length (dirname p) < length p"
  using dirname_cases [of p] by auto

lemma create_backing_ok:
  assumes "no_faults s" "creatable path s"
  obtains fd s' d ino where "create_backing_file path s = Some (fd, s')" "0 \<le> fd" "fd_obj s fd = None"
    "fd_obj s' fd = Some d" "ofds s' d = \<lparr>of_ino = ino, of_off = 0, of_acc = O_RDWR\<rparr>" "dir s' = (dir s)(path \<mapsto> ino)"
    "ino = (case dir s path of None \<Rightarrow> next_ino s | Some i \<Rightarrow> i)" "inodes s' = (inodes s)(ino := [])"
    "no_faults s'" "os.more s' = os.more s" "\<forall>x. x \<noteq> fd \<longrightarrow> fd_obj s' x = fd_obj s x"
proof -
  have p: "path \<noteq> []" "CHR ''/'' \<in> set path" "\<not> is_dir s path" "length (dirname path) < length path"
    using assms(2) dirname_shorter [of path] by (cases "path = []"; simp add: creatable_def)+
  obtain s1 where 1: "mkdir_p (dirname path) s = Some (True, s1)" "made (length (dirname path)) s s1" "no_faults s1"
      "is_dir s1 (dirname path)"
    using mkdir_p_ok [OF assms(1), of "dirname path"] assms(2) p(4) by (auto simp: creatable_def)
  note m = made_simps [OF 1(2)]
  have fo: "fd_obj s1 x = fd_obj s x" for x by (simp add: fd_obj_def m)
  have "\<not> is_dir s1 path" using m(9) [of path] p(3,4) by auto
  moreover have "parent_ok s1 path" using 1(4) by (simp add: parent_ok_def)
  ultimately have pre: "dir s1 path = None \<Longrightarrow> \<not> is_dir s1 path \<and> parent_ok s1 path" by simp
  obtain fd s' d ino where o: "sys_open_creat O_RDWR path s1 = (fd, s')" "0 \<le> fd" "fd_obj s1 fd = None"
    "fd_obj s' fd = Some d" "ofds s' d = \<lparr>of_ino = ino, of_off = 0, of_acc = O_RDWR\<rparr>" "dir s' = (dir s1)(path \<mapsto> ino)"
    "ino = (case dir s1 path of None \<Rightarrow> next_ino s1 | Some i \<Rightarrow> i)" "inodes s' = (inodes s1)(ino := [])"
    "no_faults s'" "os.more s' = os.more s1" "\<forall>x. x \<noteq> fd \<longrightarrow> fd_obj s' x = fd_obj s1 x"
    using creat_ok [OF 1(3) pre, of O_RDWR] .
  have "create_backing_file path s = Some (fd, s')" using p(2) 1(1) o(1) by (simp add: create_backing_file_def)
  from that [OF this o(2) o(3) [unfolded fo] o(4,5) o(6) [unfolded m(1)] o(7) [unfolded m(1,5)] o(8) [unfolded m(2)] o(9)
      o(10) [unfolded m(7)] o(11) [unfolded fo]] show ?thesis .
qed

end
