(* ===== verification/Backend_Props.thy ===== *)
theory Backend_Props
  imports Backend_Files Index_Props
begin

text \<open>
  Properties of the backend manager: its invariant, what creating, resizing and migrating an
  object do, and the places where the code loses an object's data.
\<close>

section \<open>Shared lemmas\<close>

text \<open>A lookup that reaches an entry, however the chains of the table look elsewhere.\<close>

lemma lookup_found:
  assumes "bucket_at (gi_buckets idx) (bucket_of (gi_num_buckets idx) (index_hash_string u)) = Some p"
    and "chain_locate (heap w) (index_hash_string u) u None p = Some (Some (q, a))" "heap w a = Some e"
    and "no_faults w" "ie_backend_path e = Some path" "dir w path = Some ino"
  obtains fd idx' w' d where
    "global_index_lookup idx u w = Some (Some \<lparr>fr_entry = Some a, fr_fd = fd, fr_generation = 0\<rparr>, idx', w')"
    "0 \<le> fd" "fd_obj w fd = None" "fd_obj w' fd = Some d" "of_ino (ofds w' d) = ino"
    "heap w' = (heap w)(a \<mapsto> touched e fd (clock w))"
    "gi_buckets idx' = gi_buckets idx" "gi_num_buckets idx' = gi_num_buckets idx"
    "dir w' = dir w" "inodes w' = inodes w" "no_faults w'"
proof -
  let ?w0 = "w\<lparr>heap := (heap w)(a \<mapsto> e\<lparr>ie_entry_refcount := ie_entry_refcount e + 1\<rparr>)\<rparr>"
  obtain fd w1 where o: "sys_open O_RDWR path ?w0 = (fd, w1)" by (cases "sys_open O_RDWR path ?w0")
  have "no_faults ?w0" "dir ?w0 path = Some ino" using assms(4,6) by (simp_all add: no_faults_def)
  from sys_open_ok [OF this o] have ok: "0 \<le> fd" "no_faults w1" .
  obtain f x n t where w1: "w1 = ?w0\<lparr>faults := f, ofds := x, next_ofd := n, fds := t\<rparr>"
    using sys_open_frame [OF o] .
  from sys_open_result(1) [OF o ok(1)] obtain d where d: "fd_obj w fd = None" "fd_obj w1 fd = Some d"
      "of_ino (ofds w1 d) = ino" using assms(6) by auto
  let ?w' = "w1\<lparr>heap := (heap w)(a \<mapsto> touched e fd (clock w))\<rparr>"
  have "global_index_lookup idx u w = Some (Some \<lparr>fr_entry = Some a, fr_fd = fd, fr_generation = 0\<rparr>,
      idx\<lparr>gi_stat_lookups := gi_stat_lookups idx + 1, gi_stat_hits := gi_stat_hits idx + 1\<rparr>, ?w')"
    using assms(1-3,5) o ok(1)
    by (simp add: global_index_lookup_def index_entry_get_def index_entry_record_access_def upd_entry_def
        open_for_lookup_def touched_def w1)
  moreover have "fd_obj ?w' fd = Some d" using d(2) by simp
  ultimately show ?thesis by (rule that [OF _ ok(1) d(1)]) (use ok d in \<open>simp_all add: w1 no_faults_def\<close>)
qed

lemma locate_head:
  assumes "heap w a = Some e" "ie_uri e = u" "ie_uri_hash e = index_hash_string u"
  shows "chain_locate (heap w) (index_hash_string u) u None (Some a) = Some (Some (None, a))"
  using assms by (subst chain_locate.simps) (simp add: entry_matches_def)

lemma upd_backend_index [simp]:
  "m_global_index (upd_backend i f mgr) = m_global_index mgr"
  "m_total_objects (upd_backend i f mgr) = m_total_objects mgr"
  "m_total_bytes (upd_backend i f mgr) = m_total_bytes mgr"
  by (simp_all add: upd_backend_def)

section \<open>Creation\<close>

lemma create_step:
  assumes "create_target req mgr = Some (i, b)" "b_mount_path b = Some mp" "length (mp @ or_uri req) < 1024"
    and "create_backing_file (mp @ or_uri req) w = Some (fd, w1)" "0 \<le> fd" "no_faults w1"
    and "gi_rep (m_global_index mgr) (heap w1) m" "m (or_uri req) = None" "heap w1 (next_addr w1) = None"
    and "bi_rep (b_index b) (heap w1) k"
  obtains mgr' w' e f where
    "backend_create_object req mgr w = Some (Some \<lparr>fr_entry = Some (next_addr w1), fr_fd = fd, fr_generation = 0\<rparr>, mgr', w')"
    "heap w' = (heap w1)(next_addr w1 \<mapsto> e)"
    "ie_uri e = or_uri req" "ie_uri_hash e = index_hash_string (or_uri req)"
    "ie_backend_path e = Some (mp @ or_uri req)" "ie_backend_id e = of_int i"
    "ie_flags e = request_flags req" "ie_size_bytes e = 0" "ie_fd e = fd" "ie_entry_refcount e = 3"
    "bucket_at (gi_buckets (m_global_index mgr')) (bucket_of (gi_num_buckets (m_global_index mgr'))
       (index_hash_string (or_uri req))) = Some (Some (next_addr w1))"
    "w' = w1\<lparr>faults := f, next_addr := Suc (next_addr w1), heap := heap w'\<rparr>" "True \<notin> set f"
    "m_total_objects mgr' = m_total_objects mgr + 1"
proof -
  let ?a = "next_addr w1" and ?u = "or_uri req" and ?p = "mp @ or_uri req"
  let ?b = "bucket_of (gi_num_buckets (m_global_index mgr)) (index_hash_string ?u)"
  obtain f where c: "index_entry_create ?u (of_int i) ?p w1 = (Some ?a, w1\<lparr>faults := f, next_addr := Suc ?a,
      heap := (heap w1)(?a \<mapsto> new_entry ?u (of_int i) ?p)\<rparr>)" "True \<notin> set f" using entry_create_ok [OF assms(6)] .
  let ?e1 = "(new_entry ?u (of_int i) ?p)\<lparr>ie_size_bytes := 0, ie_flags := request_flags req\<rparr>"
  let ?w2 = "w1\<lparr>faults := f, next_addr := Suc ?a, heap := (heap w1)(?a \<mapsto> ?e1)\<rparr>"
  have rep: "gi_rep (m_global_index mgr) (heap ?w2) m" using rep_alloc [OF assms(7,9)] by simp
  have fresh: "?a \<notin> ran m" using rep_ran_fresh [OF assms(7,9)] .
  note wk = rep_walk(1,2) [OF rep, of ?u] and bk = rep_walk(1) [OF assms(10), of ?u]
  let ?idx = "(m_global_index mgr)\<lparr>gi_buckets := (gi_buckets (m_global_index mgr))[?b := Some ?a],
      gi_num_entries := gi_num_entries (m_global_index mgr) + 1\<rparr>"
  let ?w3 = "?w2\<lparr>heap := (heap w1)(?a \<mapsto> ?e1\<lparr>ie_next := gi_buckets (m_global_index mgr) ! ?b\<rparr>)\<rparr>"
  have ins: "global_index_insert (m_global_index mgr) ?a ?w2 = Some (True, ?idx, ?w3)"
    using wk assms(8) by (simp add: global_index_insert_def upd_entry_def Let_def)
  let ?e4 = "?e1\<lparr>ie_entry_refcount := 2,
      ie_next := bi_buckets (b_index b) ! bucket_of (bi_num_buckets (b_index b)) (index_hash_string ?u)\<rparr>"
  let ?w4 = "?w2\<lparr>heap := (heap w1)(?a \<mapsto> ?e4)\<rparr>"
  obtain bidx where bins: "backend_index_insert (b_index b) ?a ?w3 = Some (bidx, ?w4)"
    using bk by (simp add: backend_index_insert_def index_entry_get_def upd_entry_def Let_def)
  let ?e = "?e4\<lparr>ie_fd := fd, ie_fd_refcount := 1, ie_entry_refcount := 3\<rparr>"
  have sn: "snprintf_buf 1024 (mp @ or_uri req) = mp @ or_uri req" using assms(3) by (rule snprintf_buf_id)
  have run: "\<exists>mgr'. backend_create_object req mgr w =
      Some (Some \<lparr>fr_entry = Some ?a, fr_fd = fd, fr_generation = 0\<rparr>, mgr', ?w2\<lparr>heap := (heap w1)(?a \<mapsto> ?e)\<rparr>) \<and>
      m_global_index mgr' = ?idx \<and> m_total_objects mgr' = m_total_objects mgr + 1"
    using assms(1,2,4,5) c ins bins
    by (simp add: backend_create_object_def sn upd_entry_def index_entry_get_def Let_def)
  then obtain mgr' where m: "backend_create_object req mgr w =
      Some (Some \<lparr>fr_entry = Some ?a, fr_fd = fd, fr_generation = 0\<rparr>, mgr', ?w2\<lparr>heap := (heap w1)(?a \<mapsto> ?e)\<rparr>)"
    "m_global_index mgr' = ?idx" "m_total_objects mgr' = m_total_objects mgr + 1" by blast
  have "?b < length (gi_buckets (m_global_index mgr))" using wk(1) by (simp add: bucket_at_def split: if_splits)
  then have "bucket_at (gi_buckets (m_global_index mgr')) (bucket_of (gi_num_buckets (m_global_index mgr'))
       (index_hash_string ?u)) = Some (Some ?a)" by (simp add: m(2) bucket_at_def)
  with m(1,3) c(2) show ?thesis by (intro that [of mgr' "?w2\<lparr>heap := (heap w1)(?a \<mapsto> ?e)\<rparr>" ?e f]) simp_all
qed

text \<open>
  C25: Creating an object under a URI that is not in use succeeds when the backend is enabled
  and qualifies, its directories can be made and no call fails. The entry records the URI,
  the path, the backend and the flags of the request and is held by the global index, the
  index of the backend and the caller; the descriptor refers to the new, empty file; and a
  later \<open>backend_get_object\<close> finds the same entry, with a descriptor for the same file.
\<close>

theorem create_then_get:
  assumes "no_faults w" "create_target req mgr = Some (i, b)" "b_mount_path b = Some mp"
    and "creatable (mp @ or_uri req) w"
    and "gi_rep (m_global_index mgr) (heap w) m" "m (or_uri req) = None" "heap w (next_addr w) = None"
    and "bi_rep (b_index b) (heap w) k"
  shows "\<exists>r mgr' w' a e d r2 mgr2 w2 d2.
     backend_create_object req mgr w = Some (Some r, mgr', w') \<and> fr_entry r = Some a \<and> heap w' a = Some e \<and>
     ie_uri e = or_uri req \<and> ie_backend_path e = Some (mp @ or_uri req) \<and> ie_backend_id e = of_int i \<and>
     ie_flags e = request_flags req \<and> ie_entry_refcount e = 3 \<and>
     fd_obj w' (fr_fd r) = Some d \<and> dir w' (mp @ or_uri req) = Some (of_ino (ofds w' d)) \<and>
     inodes w' (of_ino (ofds w' d)) = [] \<and>
     backend_get_object (or_uri req) mgr' w' = Some (Some r2, mgr2, w2) \<and> fr_entry r2 = Some a \<and>
     fd_obj w2 (fr_fd r2) = Some d2 \<and> of_ino (ofds w2 d2) = of_ino (ofds w' d)"
proof -
  let ?p = "mp @ or_uri req" and ?u = "or_uri req"
  obtain fd w1 d ino where f: "create_backing_file ?p w = Some (fd, w1)" "0 \<le> fd" "fd_obj w fd = None"
    "fd_obj w1 fd = Some d" "ofds w1 d = \<lparr>of_ino = ino, of_off = 0, of_acc = O_RDWR\<rparr>" "dir w1 = (dir w)(?p \<mapsto> ino)"
    "ino = (case dir w ?p of None \<Rightarrow> next_ino w | Some i \<Rightarrow> i)" "inodes w1 = (inodes w)(ino := [])"
    "no_faults w1" "os.more w1 = os.more w" "\<forall>x. x \<noteq> fd \<longrightarrow> fd_obj w1 x = fd_obj w x"
    using create_backing_ok [OF assms(1,4)] .
  note h = more_heap [OF f(10)]
  have len: "length ?p < 1024" using assms(4) unfolding creatable_def by blast
  note pre = assms(5) [folded h] assms(6) assms(7) [folded h] assms(8) [folded h]
  obtain mgr' w' e t where c:
    "backend_create_object req mgr w = Some (Some \<lparr>fr_entry = Some (next_addr w1), fr_fd = fd, fr_generation = 0\<rparr>, mgr', w')"
    "heap w' = (heap w1)(next_addr w1 \<mapsto> e)"
    "ie_uri e = ?u" "ie_uri_hash e = index_hash_string ?u" "ie_backend_path e = Some ?p" "ie_backend_id e = of_int i"
    "ie_flags e = request_flags req" "ie_size_bytes e = 0" "ie_fd e = fd" "ie_entry_refcount e = 3"
    "bucket_at (gi_buckets (m_global_index mgr')) (bucket_of (gi_num_buckets (m_global_index mgr'))
       (index_hash_string ?u)) = Some (Some (next_addr w1))"
    "w' = w1\<lparr>faults := t, next_addr := Suc (next_addr w1), heap := heap w'\<rparr>" "True \<notin> set t"
    "m_total_objects mgr' = m_total_objects mgr + 1"
    using create_step [OF assms(2,3) len f(1,2,9) pre] .
  have e: "heap w' (next_addr w1) = Some e" using c(2) by simp
  have w': "dir w' = dir w1" "inodes w' = inodes w1" "ofds w' = ofds w1" "fd_obj w' x = fd_obj w1 x" "no_faults w'" for x
    by (subst c(12), use c(13) in \<open>simp add: no_faults_def\<close>)+
  have di: "dir w' ?p = Some ino" using f(6) w'(1) by simp
  obtain fd2 idx2 w2 d2 where g:
    "global_index_lookup (m_global_index mgr') ?u w' =
       Some (Some \<lparr>fr_entry = Some (next_addr w1), fr_fd = fd2, fr_generation = 0\<rparr>, idx2, w2)"
    "0 \<le> fd2" "fd_obj w' fd2 = None" "fd_obj w2 fd2 = Some d2" "of_ino (ofds w2 d2) = ino"
    "heap w2 = (heap w')(next_addr w1 \<mapsto> touched e fd2 (clock w'))"
    "gi_buckets idx2 = gi_buckets (m_global_index mgr')" "gi_num_buckets idx2 = gi_num_buckets (m_global_index mgr')"
    "dir w2 = dir w'" "inodes w2 = inodes w'" "no_faults w2"
    using lookup_found [OF c(11) locate_head [OF e c(3,4)] e w'(5) c(5) di] .
  have "\<exists>mgr2 w3. backend_get_object ?u mgr' w' =
      Some (Some \<lparr>fr_entry = Some (next_addr w1), fr_fd = fd2, fr_generation = 0\<rparr>, mgr2, w3) \<and>
      fd_obj w3 fd2 = Some d2 \<and> ofds w3 = ofds w2"
    using g(1,4,6) by (simp add: backend_get_object_def manager_lookup_def index_entry_record_access_def upd_entry_def Let_def)
  then obtain mgr2 w3 where "backend_get_object ?u mgr' w' =
      Some (Some \<lparr>fr_entry = Some (next_addr w1), fr_fd = fd2, fr_generation = 0\<rparr>, mgr2, w3)"
      "fd_obj w3 fd2 = Some d2" "ofds w3 = ofds w2" by blast
  moreover have "fd_obj w' fd = Some d" "dir w' ?p = Some ino" "inodes w' ino = []" "of_ino (ofds w' d) = ino"
    using f w' by simp_all
  ultimately show ?thesis using c(1,3,5,6,7,10) e g(5)
    by (intro exI conjI) (assumption | simp)+
qed

definition sample_backend :: "int \<Rightarrow> string \<Rightarrow> u32 \<Rightarrow> backend_info" where
  "sample_backend i mount_path flags =
     new_backend i BACKEND_TYPE_MEMORY (Some mount_path) (Some ''disk'') 1000 flags empty_backend_index"

definition sample_mgr :: "u32 \<Rightarrow> backend_manager" where
  "sample_mgr flags =
     \<lparr>m_global_index = one_index,
      m_backends = [sample_backend 0 ''/m'' flags, sample_backend 1 ''/n'' BACKEND_FLAG_MIGRATION_DST],
      m_max_backends = 16, m_default_backend_id = 0, m_ephemeral_backend_id = -1, m_cache_backend_id = 1,
      m_cache_running = False, m_cache_check_interval_us = 5, m_cache_threshold = 0.7,
      m_total_objects = 1, m_total_bytes = 0\<rparr>"

definition sample_world :: world where
  "sample_world = one_entry\<lparr>is_dir := (\<lambda>p. p = ''/m'' \<or> p = ''/n'')\<rparr>"

lemma sample_simps [simp]:
  "heap sample_world = [0 \<mapsto> blank_entry]" "next_addr sample_world = 1" "dir sample_world = [''/m/a'' \<mapsto> 7]"
  "is_dir sample_world = (\<lambda>p. p = ''/m'' \<or> p = ''/n'')" "faults sample_world = []" "clock sample_world = 0"
  "fds sample_world = []" "inodes sample_world = (\<lambda>_. [])" "next_ino sample_world = 0"
  "m_global_index (sample_mgr flags) = one_index"
  by (simp_all add: sample_world_def sample_mgr_def one_entry_def os.defs os_init_def)

lemma sample_no_faults: "no_faults sample_world"
  by (simp add: no_faults_def)

lemma sample_get:
  "backend_manager_get_backend (sample_mgr flags) 0 = Some (sample_backend 0 ''/m'' flags)"
  "backend_manager_get_backend (sample_mgr flags) 1 = Some (sample_backend 1 ''/n'' BACKEND_FLAG_MIGRATION_DST)"
  by (simp_all add: backend_manager_get_backend_def sample_mgr_def)

lemma empty_rep: "table_rep 1 [None] 0 h Map.empty"
  using rep_empty [of 0 h] by simp

lemma sample_bi: "bi_rep (b_index (sample_backend i p f)) h Map.empty"
  using empty_rep by (simp add: sample_backend_def new_backend_def empty_backend_index_def)

theorem create_then_get_witness:
  "\<exists>r mgr' w' r2 mgr2 w2.
     backend_create_object \<lparr>or_uri = ''/b'', or_backend_id = 0, or_ephemeral = False, or_size_hint = 0, or_flags = 0\<rparr>
       (sample_mgr 0) sample_world = Some (Some r, mgr', w') \<and>
     backend_get_object ''/b'' mgr' w' = Some (Some r2, mgr2, w2) \<and> fr_entry r2 = fr_entry r"
proof -
  let ?req = "\<lparr>or_uri = ''/b'', or_backend_id = 0, or_ephemeral = False, or_size_hint = 0, or_flags = 0\<rparr>"
  have "create_target ?req (sample_mgr 0) = Some (0, sample_backend 0 ''/m'' 0)"
    by (simp add: create_target_def sample_get) (simp add: sample_backend_def new_backend_def flag_set_def)
  moreover have "creatable (''/m'' @ or_uri ?req) sample_world"
    by (auto simp: creatable_def dirname_def no_file_on_way_def less_Suc_eq)
  moreover have "b_mount_path (sample_backend 0 ''/m'' 0) = Some ''/m''"
    by (simp add: sample_backend_def new_backend_def)
  ultimately show ?thesis
    using create_then_get [OF sample_no_faults, of ?req "sample_mgr 0" 0 "sample_backend 0 ''/m'' 0" "''/m''"
        "[''/a'' \<mapsto> 0]" Map.empty] one_rep sample_bi by fastforce
qed

section \<open>Visits\<close>

text \<open>The lookup at the start of an operation, and the release at its end.\<close>

lemma visit_start:
  assumes "gi_rep (m_global_index mgr) (heap w) m" "m u = Some a" "heap w a = Some e"
  obtains fd idx w1 where
    "manager_lookup u mgr w = Some (Some \<lparr>fr_entry = Some a, fr_fd = fd, fr_generation = 0\<rparr>, mgr\<lparr>m_global_index := idx\<rparr>, w1)"
    "heap w1 = (heap w)(a \<mapsto> touched e fd (clock w))" "dir w1 = dir w" "inodes w1 = inodes w"
    "0 \<le> fd \<longrightarrow> fd_obj w fd = None" "\<forall>x. x \<noteq> fd \<longrightarrow> fd_obj w1 x = fd_obj w x"
proof -
  obtain e' fd idx w1 where l: "heap w a = Some e'"
    "global_index_lookup (m_global_index mgr) u w = Some (Some \<lparr>fr_entry = Some a, fr_fd = fd, fr_generation = 0\<rparr>, idx, w1)"
    "heap w1 = (heap w)(a \<mapsto> touched e' fd (clock w))" "dir w1 = dir w" "inodes w1 = inodes w"
    "0 \<le> fd \<longrightarrow> fd_obj w fd = None" "\<And>x. x \<noteq> fd \<Longrightarrow> fd_obj w1 x = fd_obj w x"
    by (rule lookup_rep [OF assms(1,2)]) blast
  then show ?thesis using assms(3) that [of fd idx w1] by (simp add: manager_lookup_def)
qed

lemma visit_end:
  assumes "heap w a = Some e" "ie_entry_refcount e > 1"
    and "0 \<le> fd \<longrightarrow> fd_obj w0 fd = None" "\<forall>x. x \<noteq> fd \<longrightarrow> fd_obj w x = fd_obj w0 x"
  obtains w' where "release_with res \<lparr>fr_entry = Some a, fr_fd = fd, fr_generation = 0\<rparr> mgr w = Some (res, mgr, w')"
    "heap w' = (heap w)(a \<mapsto> e\<lparr>ie_fd_refcount := ie_fd_refcount e - (if 0 \<le> fd then 1 else 0),
                                ie_entry_refcount := ie_entry_refcount e - 1\<rparr>)"
    "dir w' = dir w" "inodes w' = inodes w" "\<forall>x. fd_obj w' x = fd_obj w0 x"
proof -
  let ?r = "\<lparr>fr_entry = Some a, fr_fd = fd, fr_generation = 0\<rparr>"
  let ?w' = "(if 0 \<le> fd then sys_close fd w else w)\<lparr>heap := (heap w)(a \<mapsto>
     e\<lparr>ie_fd_refcount := ie_fd_refcount e - (if 0 \<le> fd then 1 else 0), ie_entry_refcount := ie_entry_refcount e - 1\<rparr>)\<rparr>"
  have "release_with res ?r mgr w = Some (res, mgr, ?w')"
    using release_ref [OF assms(1,2), of ?r] by (simp add: release_with_def)
  moreover have "fd_obj ?w' x = fd_obj w0 x" for x
    using assms(3,4) by (cases "x = fd") (auto simp: fd_obj_close)
  ultimately show ?thesis by (intro that [of ?w']) (simp_all add: sys_close_simps)
qed

lemma get_backend_upd:
  assumes "backend_manager_get_backend mgr i = Some b"
  shows "backend_manager_get_backend (upd_backend i f mgr) j =
    (if j = i then Some (f b) else backend_manager_get_backend mgr j)"
proof -
  have i: "0 \<le> i" "nat i < length (m_backends mgr)" "m_backends mgr ! nat i = b"
    using assms by (simp_all add: backend_manager_get_backend_def split: if_splits)
  show ?thesis
  proof (cases "j = i")
    case True
    with i show ?thesis by (simp add: backend_manager_get_backend_def upd_backend_def)
  next
    case False
    then have "j < 0 \<or> nat j \<noteq> nat i" using i(1) by auto
    with False show ?thesis by (auto simp: backend_manager_get_backend_def upd_backend_def)
  qed
qed

lemma get_backend_fields [simp]:
  "backend_manager_get_backend (mgr\<lparr>m_global_index := x\<rparr>) i = backend_manager_get_backend mgr i"
  "backend_manager_get_backend (mgr\<lparr>m_total_bytes := n\<rparr>) i = backend_manager_get_backend mgr i"
  "backend_manager_get_backend (mgr\<lparr>m_total_objects := n\<rparr>) i = backend_manager_get_backend mgr i"
  by (simp_all add: backend_manager_get_backend_def)

section \<open>Accounting\<close>

text \<open>
  Updating the size of an object sets it in the entry and moves the bytes in use of its
  backend and of the manager by exactly the difference, in 64-bit arithmetic, whether the
  object grew, shrank or stayed; no other backend changes, and the reference counts of the
  entry and the descriptors of the process are as before.
\<close>

theorem update_size_accounts:
  assumes "gi_rep (m_global_index mgr) (heap w) m" "m u = Some a" "heap w a = Some e" "1 \<le> ie_entry_refcount e"
    and "backend_manager_get_backend mgr (sint (ie_backend_id e)) = Some b"
  shows "\<exists>mgr' w' b' e'. backend_update_size u n mgr w = Some (True, mgr', w') \<and>
     heap w' = (heap w)(a \<mapsto> e') \<and> ie_size_bytes e' = n \<and>
     ie_entry_refcount e' = ie_entry_refcount e \<and> ie_fd_refcount e' = ie_fd_refcount e \<and>
     backend_manager_get_backend mgr' (sint (ie_backend_id e)) = Some b' \<and>
     b_used_bytes b' = b_used_bytes b + (n - ie_size_bytes e) \<and>
     m_total_bytes mgr' = m_total_bytes mgr + (n - ie_size_bytes e) \<and>
     (\<forall>j. j \<noteq> sint (ie_backend_id e) \<longrightarrow> backend_manager_get_backend mgr' j = backend_manager_get_backend mgr j) \<and>
     (\<forall>x. fd_obj w' x = fd_obj w x)"
proof -
  let ?i = "sint (ie_backend_id e)"
  obtain fd idx w1 where v:
    "manager_lookup u mgr w = Some (Some \<lparr>fr_entry = Some a, fr_fd = fd, fr_generation = 0\<rparr>, mgr\<lparr>m_global_index := idx\<rparr>, w1)"
    "heap w1 = (heap w)(a \<mapsto> touched e fd (clock w))" "dir w1 = dir w" "inodes w1 = inodes w"
    "0 \<le> fd \<longrightarrow> fd_obj w fd = None" "\<forall>x. x \<noteq> fd \<longrightarrow> fd_obj w1 x = fd_obj w x"
    using visit_start [OF assms(1-3)] .
  let ?t = "(touched e fd (clock w))\<lparr>ie_size_bytes := n\<rparr>" and ?old = "ie_size_bytes e"
  let ?w2 = "w1\<lparr>heap := (heap w)(a \<mapsto> ?t)\<rparr>"
  define mgr' where "mgr' =
    (let mgr = mgr\<lparr>m_global_index := idx\<rparr>
     in if ?old < n
        then (upd_backend ?i (\<lambda>b. b\<lparr>b_used_bytes := b_used_bytes b + (n - ?old)\<rparr>) mgr)\<lparr>m_total_bytes := m_total_bytes mgr + (n - ?old)\<rparr>
        else if n < ?old
        then (upd_backend ?i (\<lambda>b. b\<lparr>b_used_bytes := b_used_bytes b - (?old - n)\<rparr>) mgr)\<lparr>m_total_bytes := m_total_bytes mgr - (?old - n)\<rparr>
        else mgr)"
  have t: "heap ?w2 a = Some ?t" "ie_entry_refcount ?t > 1" using assms(4) by simp_all
  have fds: "\<forall>x. x \<noteq> fd \<longrightarrow> fd_obj ?w2 x = fd_obj w x" using v(6) by simp
  obtain w' where r: "release_with True \<lparr>fr_entry = Some a, fr_fd = fd, fr_generation = 0\<rparr> mgr' ?w2 = Some (True, mgr', w')"
    "heap w' = (heap ?w2)(a \<mapsto> ?t\<lparr>ie_fd_refcount := ie_fd_refcount ?t - (if 0 \<le> fd then 1 else 0),
                                ie_entry_refcount := ie_entry_refcount ?t - 1\<rparr>)"
    "dir w' = dir ?w2" "inodes w' = inodes ?w2" "\<forall>x. fd_obj w' x = fd_obj w x"
    using visit_end [OF t v(5) fds] .
  have "ie_backend_id (touched e fd (clock w)) = ie_backend_id e" "ie_size_bytes (touched e fd (clock w)) = ?old"
    by (simp_all add: touched_def)
  then have "backend_update_size u n mgr w =
      release_with True \<lparr>fr_entry = Some a, fr_fd = fd, fr_generation = 0\<rparr> mgr' ?w2"
    using v(1,2) assms(5) by (simp add: backend_update_size_def upd_entry_def mgr'_def Let_def)
  then have "backend_update_size u n mgr w = Some (True, mgr', w')" unfolding r(1) .
  moreover have "\<exists>b'. backend_manager_get_backend mgr' ?i = Some b' \<and> b_used_bytes b' = b_used_bytes b + (n - ?old)"
      "m_total_bytes mgr' = m_total_bytes mgr + (n - ?old)"
      "\<forall>j. j \<noteq> ?i \<longrightarrow> backend_manager_get_backend mgr' j = backend_manager_get_backend mgr j"
    using assms(5) by (auto simp: mgr'_def Let_def get_backend_upd [where b = b])
  moreover have "\<exists>e'. heap w' = (heap w)(a \<mapsto> e') \<and> ie_size_bytes e' = n \<and>
      ie_entry_refcount e' = ie_entry_refcount e \<and> ie_fd_refcount e' = ie_fd_refcount e"
    by (rule exI [of _ "?t\<lparr>ie_fd_refcount := ie_fd_refcount e, ie_entry_refcount := ie_entry_refcount e\<rparr>"])
       (use r(2) in simp)
  ultimately show ?thesis using r(5) by blast
qed

theorem update_size_accounts_witness:
  "\<exists>mgr' w' b'. backend_update_size ''/a'' 5 (sample_mgr 0) sample_world = Some (True, mgr', w') \<and>
     backend_manager_get_backend mgr' 0 = Some b' \<and> b_used_bytes b' = 5"
proof -
  have "backend_manager_get_backend (sample_mgr 0) (sint (ie_backend_id blank_entry)) = Some (sample_backend 0 ''/m'' 0)"
    by (simp add: blank_entry_def sample_get)
  from update_size_accounts [OF _ _ _ _ this, of sample_world "[''/a'' \<mapsto> 0]" "''/a''" 0 5] one_rep
  show ?thesis by (auto simp: blank_entry_def sample_backend_def new_backend_def)
qed

section \<open>Confinement of ephemeral objects\<close>

text \<open>
  C26: An ephemeral object is never copied to a persistent backend: a migration of an object
  with the ephemeral flag to a backend that is not for ephemeral objects only is refused,
  with no file created, truncated or removed, no backend changed, the entry as before up to
  the record of the access, and no descriptor left open.
\<close>

theorem ephemeral_migration_refused:
  assumes "gi_rep (m_global_index mgr) (heap w) m" "m u = Some a" "heap w a = Some e" "1 \<le> ie_entry_refcount e"
    and "flag_set (ie_flags e) INDEX_FLAG_EPHEMERAL"
    and "\<And>b. backend_manager_get_backend mgr target = Some b \<Longrightarrow> \<not> flag_set (b_flags b) BACKEND_FLAG_EPHEMERAL_ONLY"
  shows "\<exists>mgr' w'. backend_migrate_object u target mgr w = Some (False, mgr', w') \<and>
     m_backends mgr' = m_backends mgr \<and> dir w' = dir w \<and> inodes w' = inodes w \<and>
     heap w' = (heap w)(a \<mapsto> e\<lparr>ie_access_count := ie_access_count e + 1, ie_last_access := clock w\<rparr>) \<and>
     (\<forall>x. fd_obj w' x = fd_obj w x)"
proof -
  obtain fd idx w1 where v:
    "manager_lookup u mgr w = Some (Some \<lparr>fr_entry = Some a, fr_fd = fd, fr_generation = 0\<rparr>, mgr\<lparr>m_global_index := idx\<rparr>, w1)"
    "heap w1 = (heap w)(a \<mapsto> touched e fd (clock w))" "dir w1 = dir w" "inodes w1 = inodes w"
    "0 \<le> fd \<longrightarrow> fd_obj w fd = None" "\<forall>x. x \<noteq> fd \<longrightarrow> fd_obj w1 x = fd_obj w x"
    using visit_start [OF assms(1-3)] .
  let ?t = "touched e fd (clock w)" and ?mgr = "mgr\<lparr>m_global_index := idx\<rparr>"
  have t: "heap w1 a = Some ?t" "ie_entry_refcount ?t > 1" using v(2) assms(4) by simp_all
  obtain w' where r: "release_with False \<lparr>fr_entry = Some a, fr_fd = fd, fr_generation = 0\<rparr> ?mgr w1 = Some (False, ?mgr, w')"
    "heap w' = (heap w1)(a \<mapsto> ?t\<lparr>ie_fd_refcount := ie_fd_refcount ?t - (if 0 \<le> fd then 1 else 0),
                                ie_entry_refcount := ie_entry_refcount ?t - 1\<rparr>)"
    "dir w' = dir w1" "inodes w' = inodes w1" "\<forall>x. fd_obj w' x = fd_obj w x"
    using visit_end [OF t v(5,6)] .
  have "ie_flags ?t = ie_flags e" by (simp add: touched_def)
  then have "migrate_check ?mgr ?t target = None"
    using assms(5,6) by (auto simp: migrate_check_def Let_def split: option.splits)
  then have "backend_migrate_object u target mgr w = Some (False, ?mgr, w')"
    using v(1) t(1) r(1) by (simp add: backend_migrate_object_def)
  moreover have "heap w' = (heap w)(a \<mapsto> e\<lparr>ie_access_count := ie_access_count e + 1, ie_last_access := clock w\<rparr>)"
    using r(2) v(2) by (simp add: touched_def)
  ultimately show ?thesis using r(3-5) v(3,4) by (intro exI [of _ ?mgr] exI [of _ w']) simp
qed

theorem ephemeral_migration_refused_witness:
  "\<exists>mgr' w'. backend_migrate_object ''/a'' 1 (sample_mgr BACKEND_FLAG_MIGRATION_SRC)
       (sample_world\<lparr>heap := [0 \<mapsto> blank_entry\<lparr>ie_flags := INDEX_FLAG_EPHEMERAL\<rparr>]\<rparr>) = Some (False, mgr', w') \<and>
     dir w' = [''/m/a'' \<mapsto> 7]"
proof -
  let ?e = "blank_entry\<lparr>ie_flags := INDEX_FLAG_EPHEMERAL\<rparr>"
  let ?w = "sample_world\<lparr>heap := [0 \<mapsto> ?e]\<rparr>"
  have "gi_rep one_index (heap ?w) [''/a'' \<mapsto> 0]"
    using rep_same [OF one_rep, of "heap ?w"] by (simp add: same_links_def)
  then show ?thesis
    using ephemeral_migration_refused [of "sample_mgr BACKEND_FLAG_MIGRATION_SRC" ?w "[''/a'' \<mapsto> 0]" "''/a''" 0 ?e 1]
    by (auto simp: sample_get flag_set_def sample_backend_def new_backend_def blank_entry_def)
qed

section \<open>The invariant of the manager\<close>

text \<open>
  C24: In every state that the operations of the manager reach from a new manager, in any
  order and whatever calls fail, at most sixteen backends are registered, each under the
  number of its position, with watermarks \<open>0 \<le> low < high \<le> 1\<close>; the default backend is not
  for ephemeral objects only, the backend for ephemeral objects is, and the cache is a
  memory backend.
\<close>

theorem manager_invariant:
  assumes "backend_manager_create buckets max_fds w = Some (Some mgr\<^sub>0, w\<^sub>0)"
    and "mgr_step\<^sup>*\<^sup>* (mgr\<^sub>0, w\<^sub>0) (mgr, w')"
  shows "mgr_ok mgr"
proof -
  have "mgr_ok mgr\<^sub>0"
    using assms(1) by (auto simp: backend_manager_create_def mgr_ok_def role_def split: run_splits)
  moreover have "mgr_ok (fst s')" if "mgr_step\<^sup>*\<^sup>* s s'" "mgr_ok (fst s)" for s s'
    using that by induction (auto intro: mgr_step_ok)
  ultimately show ?thesis using assms(2) by fastforce
qed

theorem manager_invariant_witness:
  "\<exists>mgr\<^sub>0 w\<^sub>0 mgr. backend_manager_create 1 8 sample_world = Some (Some mgr\<^sub>0, w\<^sub>0) \<and>
     mgr_step\<^sup>*\<^sup>* (mgr\<^sub>0, w\<^sub>0) (mgr, w\<^sub>0) \<and> m_cache_running mgr \<and> mgr_ok mgr"
proof -
  obtain mgr\<^sub>0 where c: "backend_manager_create 1 8 sample_world = Some (Some mgr\<^sub>0, sample_world)"
      "\<not> m_cache_running mgr\<^sub>0"
    by (auto simp: backend_manager_create_def global_index_create_def fault_def Let_def)
  have "backend_start_caching 1 0.5 mgr\<^sub>0 sample_world =
      (True, mgr\<^sub>0\<lparr>m_cache_check_interval_us := 1, m_cache_threshold := 0.5, m_cache_running := True\<rparr>, sample_world)"
    using c(2) by (simp add: backend_start_caching_def fault_def)
  then have "mgr_step\<^sup>*\<^sup>* (mgr\<^sub>0, sample_world)
      (mgr\<^sub>0\<lparr>m_cache_check_interval_us := 1, m_cache_threshold := 0.5, m_cache_running := True\<rparr>, sample_world)"
    by (intro r_into_rtranclp) (rule mgr_step.Start_Caching)
  with manager_invariant [OF c(1) this] c(1) show ?thesis by fastforce
qed

section \<open>Scans\<close>

text \<open>
  A scan of a backend that reaches a directory with a path of 2047 characters that is not
  empty never returns: the path of its first entry does not fit the buffer of 2048
  characters, is cut to the path of the directory itself, and the directory is entered again.
\<close>

theorem scan_of_long_path_diverges:
  assumes "backend_manager_get_backend mgr i = Some b" "flag_set (b_flags b) BACKEND_FLAG_ENABLED"
    and "b_mount_path b = Some p" "length p = 2047" "is_dir w p"
    and "listing p = Some (n # ns)" "n \<noteq> ''.''" "n \<noteq> ''..''"
  shows "backend_manager_scan listing i mgr w = None"
proof -
  have "child p n = p" using assms(4) by (simp add: snprintf_buf_def)
  then have "walk_tree listing (scan_object i (length p)) [(p, n # ns)] ((mgr, 0), w) = None"
    using assms(5-8) by (intro walk_tree_diverges [of n]) auto
  then show ?thesis using assms(1-3,6) by (simp add: backend_manager_scan_def scan_tree_def)
qed

definition long_path :: string where
  "long_path = replicate 2047 CHR ''d''"

lemma long_path_length: "length long_path = 2047"
  unfolding long_path_def by (rule length_replicate)

theorem scan_of_long_path_diverges_witness:
  "backend_manager_scan (\<lambda>_. Some [''x'']) 0
     ((sample_mgr 0)\<lparr>m_backends := [sample_backend 0 long_path 0]\<rparr>)
     (sample_world\<lparr>is_dir := (\<lambda>p. p = long_path)\<rparr>) = None"
  by (rule scan_of_long_path_diverges [of _ _ "sample_backend 0 long_path 0" long_path _ _ "''x''" "[]"])
     (simp_all add: backend_manager_get_backend_def sample_backend_def new_backend_def flag_set_def long_path_length)

end
