(* ===== verification/Backend_Faults.thy ===== *)
theory Backend_Faults
  imports Backend_Props
begin

text \<open>
  Runs of the backend manager in which no call fails and an object is nevertheless lost:
  creating an object that exists, deleting an object that a scan found, and migrating an
  object.
\<close>

section \<open>Creating an existing object\<close>

lemma unlink_ok:
  assumes "no_faults s"
  obtains f where "sys_unlink path s = s\<lparr>faults := f, dir := (dir s)(path := None)\<rparr>" "True \<notin> set f"
  by (rule no_faults_fault [OF assms]) (auto simp: sys_unlink_def intro: that)

text \<open>
  C34: \<open>backend_create_object\<close> on a URI that is already in use fails, but only after the file
  was opened with \<open>O_TRUNC\<close>: the contents of the existing object are gone, also for the
  holders of a descriptor, and its file is unlinked, while its entry stays in the index.
\<close>

theorem create_existing_destroys:
  assumes "no_faults w" "create_target req mgr = Some (i, b)" "b_mount_path b = Some mp"
    and "creatable (mp @ or_uri req) w"
    and "gi_rep (m_global_index mgr) (heap w) m" "m (or_uri req) = Some a" "heap w (next_addr w) = None"
    and "dir w (mp @ or_uri req) = Some ino"
  shows "\<exists>mgr' w'. backend_create_object req mgr w = Some (None, mgr', w') \<and>
     dir w' (mp @ or_uri req) = None \<and> inodes w' ino = [] \<and> heap w' = heap w"
proof -
  let ?p = "mp @ or_uri req" and ?u = "or_uri req"
  obtain fd w1 d ino' where f: "create_backing_file ?p w = Some (fd, w1)" "0 \<le> fd" "fd_obj w fd = None"
    "fd_obj w1 fd = Some d" "ofds w1 d = \<lparr>of_ino = ino', of_off = 0, of_acc = O_RDWR\<rparr>" "dir w1 = (dir w)(?p \<mapsto> ino')"
    "ino' = (case dir w ?p of None \<Rightarrow> next_ino w | Some i \<Rightarrow> i)" "inodes w1 = (inodes w)(ino' := [])"
    "no_faults w1" "os.more w1 = os.more w" "\<forall>x. x \<noteq> fd \<longrightarrow> fd_obj w1 x = fd_obj w x"
    using create_backing_ok [OF assms(1,4)] .
  note h = more_heap [OF f(10)]
  have sn: "snprintf_buf 1024 ?p = ?p" using assms(4) unfolding creatable_def by (intro snprintf_buf_id) blast
  let ?a = "next_addr w"
  obtain t where c: "index_entry_create ?u (of_int i) ?p w1 = (Some ?a, w1\<lparr>faults := t, next_addr := Suc ?a,
      heap := (heap w)(?a \<mapsto> new_entry ?u (of_int i) ?p)\<rparr>)" "True \<notin> set t"
    using entry_create_ok [OF f(9)] unfolding h .
  let ?e = "(new_entry ?u (of_int i) ?p)\<lparr>ie_size_bytes := 0, ie_flags := request_flags req\<rparr>"
  let ?w2 = "w1\<lparr>faults := t, next_addr := Suc ?a, heap := (heap w)(?a \<mapsto> ?e)\<rparr>"
  have "gi_rep (m_global_index mgr) (heap ?w2) m" using rep_alloc [OF assms(5,7)] by simp
  moreover have "entry_key (heap ?w2) ?a = Some ?u" by (simp add: entry_key_def)
  ultimately have ins: "global_index_insert (m_global_index mgr) ?a ?w2 = Some (False, m_global_index mgr, ?w2)"
    using assms(6) by (rule insert_duplicate)
  let ?w3 = "w1\<lparr>faults := t, next_addr := Suc ?a, heap := heap w\<rparr>"
  have "(heap w)(?a := None) = heap w" using assms(7) by auto
  then have put: "index_entry_put ?a ?w2 = Some ?w3" by (simp add: index_entry_put_def)
  have "no_faults (sys_close fd ?w3)" using c(2) by (simp add: no_faults_def sys_close_simps)
  then obtain t' where un: "sys_unlink ?p (sys_close fd ?w3) =
      (sys_close fd ?w3)\<lparr>faults := t', dir := (dir (sys_close fd ?w3))(?p := None)\<rparr>" using unlink_ok by blast
  have "backend_create_object req mgr w = Some (None, mgr, sys_unlink ?p (sys_close fd ?w3))"
    using assms(2,3) f(1,2) c(1) ins put by (simp add: backend_create_object_def sn upd_entry_def Let_def)
  moreover have "dir (sys_unlink ?p (sys_close fd ?w3)) ?p = None" "inodes (sys_unlink ?p (sys_close fd ?w3)) ino = []"
      "heap (sys_unlink ?p (sys_close fd ?w3)) = heap w"
    using un f(7,8) assms(8) by (simp_all add: sys_close_simps)
  ultimately show ?thesis by blast
qed

theorem create_existing_destroys_witness:
  "\<exists>mgr' w'. backend_create_object
       \<lparr>or_uri = ''/a'', or_backend_id = 0, or_ephemeral = False, or_size_hint = 0, or_flags = 0\<rparr>
       (sample_mgr 0) (sample_world\<lparr>inodes := (\<lambda>_. [1, 2, 3])\<rparr>) = Some (None, mgr', w') \<and>
     dir w' ''/m/a'' = None \<and> inodes w' 7 = []"
proof -
  let ?req = "\<lparr>or_uri = ''/a'', or_backend_id = 0, or_ephemeral = False, or_size_hint = 0, or_flags = 0\<rparr>"
  let ?w = "sample_world\<lparr>inodes := (\<lambda>_. [1, 2, 3])\<rparr>"
  have "create_target ?req (sample_mgr 0) = Some (0, sample_backend 0 ''/m'' 0)"
    by (simp add: create_target_def sample_get) (simp add: sample_backend_def new_backend_def flag_set_def)
  moreover have "creatable (''/m'' @ or_uri ?req) ?w"
    by (auto simp: creatable_def dirname_def no_file_on_way_def less_Suc_eq)
  moreover have "b_mount_path (sample_backend 0 ''/m'' 0) = Some ''/m''"
    by (simp add: sample_backend_def new_backend_def)
  moreover have "no_faults ?w" by (simp add: no_faults_def)
  ultimately show ?thesis
    using create_existing_destroys [of ?w ?req "sample_mgr 0" 0 "sample_backend 0 ''/m'' 0" "''/m''" "[''/a'' \<mapsto> 0]" 0 7]
      one_rep by auto
qed

section \<open>Deleting a scanned object\<close>

lemma backend_remove_head:
  assumes "bucket_at (bi_buckets idx) (bucket_of (bi_num_buckets idx) (index_hash_string u)) = Some (Some a)"
    and "heap w a = Some e" "ie_uri e = u" "ie_uri_hash e = index_hash_string u" "ie_entry_refcount e \<noteq> 1"
  shows "\<exists>idx'. backend_index_remove idx u w =
    Some (True, idx', w\<lparr>heap := (heap w)(a \<mapsto> e\<lparr>ie_entry_refcount := ie_entry_refcount e - 1\<rparr>)\<rparr>)"
  using assms locate_head [OF assms(2-4)]
  by (simp add: backend_index_remove_def store_next_def index_entry_put_def upd_entry_def Let_def)

lemma global_remove_last:
  assumes "bucket_at (gi_buckets idx) (bucket_of (gi_num_buckets idx) (index_hash_string u)) = Some (Some a)"
    and "heap w a = Some e" "ie_uri e = u" "ie_uri_hash e = index_hash_string u" "ie_entry_refcount e = 1" "ie_fd e < 0"
  shows "\<exists>idx'. global_index_remove idx u w = Some (True, idx', w\<lparr>heap := (heap w)(a := None)\<rparr>)"
  using assms locate_head [OF assms(2-4)]
  by (simp add: global_index_remove_def store_next_def index_entry_put_def upd_entry_def Let_def)

lemma scan_step:
  fixes ino :: nat
  assumes "no_faults w" "backend_manager_get_backend mgr i = Some b" "l \<le> length path"
    and "gi_rep (m_global_index mgr) (heap w) m" "m (drop l path) = None" "heap w (next_addr w) = None"
    and "bi_rep (b_index b) (heap w) k"
  defines "st_size \<equiv> of_nat (length (inodes w ino)) :: u64"
  obtains mgr' w' e f b' where
    "scan_object i l path ino ((mgr, n), w) = Some ((mgr', Suc n), w')"
    "w' = w\<lparr>faults := f, next_addr := Suc (next_addr w), heap := (heap w)(next_addr w \<mapsto> e)\<rparr>" "True \<notin> set f"
    "ie_uri e = drop l path" "ie_uri_hash e = index_hash_string (drop l path)" "ie_backend_id e = of_int i"
    "ie_backend_path e = Some path" "ie_fd e = -1" "ie_entry_refcount e = 1" "ie_size_bytes e = st_size"
    "bucket_at (gi_buckets (m_global_index mgr')) (bucket_of (gi_num_buckets (m_global_index mgr'))
       (index_hash_string (drop l path))) = Some (Some (next_addr w))"
    "backend_manager_get_backend mgr' i = Some b'"
    "bucket_at (bi_buckets (b_index b')) (bucket_of (bi_num_buckets (b_index b'))
       (index_hash_string (drop l path))) = Some (Some (next_addr w))"
    "b_used_bytes b' = b_used_bytes b + st_size"
proof -
  let ?a = "next_addr w" and ?u = "drop l path"
  let ?b = "bucket_of (gi_num_buckets (m_global_index mgr)) (index_hash_string ?u)"
  let ?c = "bucket_of (bi_num_buckets (b_index b)) (index_hash_string ?u)"
  obtain f where c: "index_entry_create ?u (of_int i) path w = (Some ?a, w\<lparr>faults := f, next_addr := Suc ?a,
      heap := (heap w)(?a \<mapsto> new_entry ?u (of_int i) path)\<rparr>)" "True \<notin> set f" using entry_create_ok [OF assms(1)] .
  let ?fl = "if flag_set (b_flags b) BACKEND_FLAG_EPHEMERAL_ONLY then INDEX_FLAG_EPHEMERAL else INDEX_FLAG_PERSISTENT"
  let ?e1 = "(new_entry ?u (of_int i) path)\<lparr>ie_size_bytes := st_size, ie_flags := ?fl\<rparr>"
  let ?w2 = "w\<lparr>faults := f, next_addr := Suc ?a, heap := (heap w)(?a \<mapsto> ?e1)\<rparr>"
  have rep: "gi_rep (m_global_index mgr) (heap ?w2) m" using rep_alloc [OF assms(4,6)] by simp
  note wk = rep_walk(1,2) [OF rep, of ?u] and bk = rep_walk(1) [OF assms(7), of ?u]
  let ?idx = "(m_global_index mgr)\<lparr>gi_buckets := (gi_buckets (m_global_index mgr))[?b := Some ?a],
      gi_num_entries := gi_num_entries (m_global_index mgr) + 1\<rparr>"
  let ?w3 = "?w2\<lparr>heap := (heap w)(?a \<mapsto> ?e1\<lparr>ie_next := gi_buckets (m_global_index mgr) ! ?b\<rparr>)\<rparr>"
  have ins: "global_index_insert (m_global_index mgr) ?a ?w2 = Some (True, ?idx, ?w3)"
    using wk assms(5) by (simp add: global_index_insert_def upd_entry_def Let_def)
  let ?e4 = "?e1\<lparr>ie_entry_refcount := 2, ie_next := bi_buckets (b_index b) ! ?c\<rparr>"
  let ?w4 = "?w2\<lparr>heap := (heap w)(?a \<mapsto> ?e4)\<rparr>"
  let ?bidx = "(b_index b)\<lparr>bi_buckets := (bi_buckets (b_index b))[?c := Some ?a],
      bi_num_entries := bi_num_entries (b_index b) + 1, bi_dirty := True\<rparr>"
  have bins: "backend_index_insert (b_index b) ?a ?w3 = Some (?bidx, ?w4)"
    using bk by (simp add: backend_index_insert_def index_entry_get_def upd_entry_def Let_def)
  let ?e = "?e4\<lparr>ie_entry_refcount := 1\<rparr>"
  let ?w' = "?w2\<lparr>heap := (heap w)(?a \<mapsto> ?e)\<rparr>"
  have put: "index_entry_put ?a ?w4 = Some ?w'" by (simp add: index_entry_put_def upd_entry_def)
  let ?f = "\<lambda>b. b\<lparr>b_index := ?bidx, b_object_count := b_object_count b + 1, b_used_bytes := b_used_bytes b + st_size\<rparr>"
  define mgr' where "mgr' = (upd_backend i ?f (mgr\<lparr>m_global_index := ?idx\<rparr>))
     \<lparr>m_total_objects := m_total_objects mgr + 1, m_total_bytes := m_total_bytes mgr + st_size\<rparr>"
  have run: "scan_object i l path ino ((mgr, n), w) = Some ((mgr', Suc n), ?w')"
    using assms(2,3) c(1) ins bins put by (simp add: scan_object_def upd_entry_def Let_def st_size_def mgr'_def)
  have g: "backend_manager_get_backend mgr' i = Some (?f b)"
    using assms(2) by (simp add: mgr'_def get_backend_upd [where b = b])
  have "?b < length (gi_buckets (m_global_index mgr))" "?c < length (bi_buckets (b_index b))"
    using wk(1) bk by (simp_all add: bucket_at_def split: if_splits)
  then have "bucket_at (gi_buckets (m_global_index mgr')) (bucket_of (gi_num_buckets (m_global_index mgr'))
       (index_hash_string ?u)) = Some (Some ?a)"
      "bucket_at (bi_buckets (b_index (?f b))) (bucket_of (bi_num_buckets (b_index (?f b))) (index_hash_string ?u)) =
         Some (Some ?a)"
    by (simp_all add: mgr'_def bucket_at_def)
  with run g c(2) show ?thesis by (intro that [of mgr' ?w' ?e f "?f b"]) simp_all
qed

lemma sys_unlink_heap [simp]: "heap (sys_unlink p w) = heap w"
  by (auto simp: sys_unlink_def fault_def split: list.splits prod.splits)

text \<open>
  A scan gives a new object one reference although two indexes hold it. Deleting the
  object then removes it from both, each removal drops a reference, the entry is freed while
  \<open>backend_delete_object\<close> still holds it, and the release at the end uses the freed entry.
\<close>

theorem scanned_object_delete_uses_freed:
  assumes "no_faults w" "backend_manager_get_backend mgr i = Some b" "i < 16" "l \<le> length path"
    and "gi_rep (m_global_index mgr) (heap w) m" "m (drop l path) = None" "heap w (next_addr w) = None"
    and "bi_rep (b_index b) (heap w) k" "dir w path = Some ino"
  shows "\<exists>mgr' w'. scan_object i l path ino ((mgr, n), w) = Some ((mgr', Suc n), w') \<and>
     backend_delete_object (drop l path) mgr' w' = None"
proof -
  let ?a = "next_addr w" and ?u = "drop l path"
  obtain mgr' w' e f b' where s:
    "scan_object i l path ino ((mgr, n), w) = Some ((mgr', Suc n), w')"
    "w' = w\<lparr>faults := f, next_addr := Suc ?a, heap := (heap w)(?a \<mapsto> e)\<rparr>" "True \<notin> set f"
    "ie_uri e = ?u" "ie_uri_hash e = index_hash_string ?u" "ie_backend_id e = of_int i"
    "ie_backend_path e = Some path" "ie_fd e = -1" "ie_entry_refcount e = 1" "ie_size_bytes e = of_nat (length (inodes w ino))"
    "bucket_at (gi_buckets (m_global_index mgr')) (bucket_of (gi_num_buckets (m_global_index mgr'))
       (index_hash_string ?u)) = Some (Some ?a)"
    "backend_manager_get_backend mgr' i = Some b'"
    "bucket_at (bi_buckets (b_index b')) (bucket_of (bi_num_buckets (b_index b'))
       (index_hash_string ?u)) = Some (Some ?a)"
    "b_used_bytes b' = b_used_bytes b + of_nat (length (inodes w ino))"
    using scan_step [OF assms(1,2,4-8)] .
  have e: "heap w' ?a = Some e" "no_faults w'" "dir w' path = Some ino"
    using s(2,3) assms(9) by (simp_all add: no_faults_def)
  obtain fd idx w1 d where g:
    "global_index_lookup (m_global_index mgr') ?u w' = Some (Some \<lparr>fr_entry = Some ?a, fr_fd = fd, fr_generation = 0\<rparr>, idx, w1)"
    "0 \<le> fd" "fd_obj w' fd = None" "fd_obj w1 fd = Some d" "of_ino (ofds w1 d) = ino"
    "heap w1 = (heap w')(?a \<mapsto> touched e fd (clock w'))"
    "gi_buckets idx = gi_buckets (m_global_index mgr')" "gi_num_buckets idx = gi_num_buckets (m_global_index mgr')"
    "dir w1 = dir w'" "inodes w1 = inodes w'" "no_faults w1"
    using lookup_found [OF s(11) locate_head [OF e(1) s(4,5)] e(1,2) s(7) e(3)] .
  let ?t = "touched e fd (clock w')"
  let ?w2 = "unlink_path (Some path) w1"
  have i: "sint (of_int i :: u32) = i"
  proof -
    have "0 \<le> i" using assms(2) by (simp add: backend_manager_get_backend_def split: if_splits)
    then show ?thesis using assms(3) by (subst sint_sbintrunc') (simp add: signed_take_bit_int_eq_self)
  qed
  have t: "heap ?w2 ?a = Some ?t" "ie_uri ?t = ?u" "ie_uri_hash ?t = index_hash_string ?u" "ie_entry_refcount ?t \<noteq> 1"
    using g(6) s(4,5,9) by (simp_all add: unlink_path_def)
  from backend_remove_head [OF s(13) t] obtain bidx where br:
    "backend_index_remove (b_index b') ?u ?w2 = Some (True, bidx, ?w2\<lparr>heap := (heap ?w2)(?a \<mapsto> ?t\<lparr>ie_entry_refcount := 1\<rparr>)\<rparr>)"
    using s(9) by auto
  let ?w3 = "?w2\<lparr>heap := (heap ?w2)(?a \<mapsto> ?t\<lparr>ie_entry_refcount := 1\<rparr>)\<rparr>"
  have "bucket_at (gi_buckets idx) (bucket_of (gi_num_buckets idx) (index_hash_string ?u)) = Some (Some ?a)"
    using s(11) g(7,8) by simp
  from global_remove_last [OF this, of ?w3 "?t\<lparr>ie_entry_refcount := 1\<rparr>"] t s(8) obtain idx' where gr:
    "global_index_remove idx ?u ?w3 = Some (True, idx', ?w3\<lparr>heap := (heap ?w3)(?a := None)\<rparr>)" by auto
  let ?w4 = "?w3\<lparr>heap := (heap ?w3)(?a := None)\<rparr>"
  have "release_with True \<lparr>fr_entry = Some ?a, fr_fd = fd, fr_generation = 0\<rparr> mgr2 ?w4 = None" for mgr2
    using g(2) by (simp add: release_with_def fd_ref_release_def upd_entry_def)
  moreover have "ie_backend_id ?t = of_int i" "ie_backend_path ?t = Some path" using s(6,7) by (simp_all add: touched_def)
  ultimately have "backend_delete_object ?u mgr' w' = None"
    using g(1,6) s(12) i br gr by (simp add: backend_delete_object_def manager_lookup_def Let_def)
  with s(1) show ?thesis by blast
qed

theorem scanned_object_delete_uses_freed_witness:
  "\<exists>mgr' w'. scan_object 0 2 ''/m/b'' 9 ((sample_mgr 0, 0), sample_world\<lparr>dir := [''/m/b'' \<mapsto> 9]\<rparr>) = Some ((mgr', 1), w') \<and>
     backend_delete_object ''/b'' mgr' w' = None"
  using scanned_object_delete_uses_freed [of "sample_world\<lparr>dir := [''/m/b'' \<mapsto> 9]\<rparr>" "sample_mgr 0" 0
      "sample_backend 0 ''/m'' 0" 2 "''/m/b''" "[''/a'' \<mapsto> 0]" Map.empty 9 0] one_rep sample_bi
  by (simp add: no_faults_def sample_get numeral_2_eq_2)

end
