(* ===== verification/Backend_Migrate.thy ===== *)
theory Backend_Migrate
  imports Backend_Faults
begin

text \<open>
  Migration: the parts of an entry that the index operations leave alone, and what becomes of
  the file of a migrated object.
\<close>

section \<open>What the calls keep of the entries\<close>

text \<open>
  \<open>kept w w'\<close>: an entry of \<open>w'\<close> was there in \<open>w\<close> with the same URI, path, backend and
  flags, and if no call was to fail before, none is to fail after.
\<close>

definition same_object :: "index_entry \<Rightarrow> index_entry \<Rightarrow> bool" where
  "same_object e e' \<longleftrightarrow> ie_uri e' = ie_uri e \<and> ie_backend_path e' = ie_backend_path e \<and>
     ie_backend_id e' = ie_backend_id e \<and> ie_flags e' = ie_flags e"

definition kept :: "'a world_scheme \<Rightarrow> 'a world_scheme \<Rightarrow> bool" where
  "kept w w' \<longleftrightarrow> (no_faults w \<longrightarrow> no_faults w') \<and>
     (\<forall>a e'. heap w' a = Some e' \<longrightarrow> (\<exists>e. heap w a = Some e \<and> same_object e e'))"

lemma kept_refl [simp, intro]: "kept w w"
  by (simp add: kept_def same_object_def)

lemma kept_trans: "kept u v \<Longrightarrow> kept v w \<Longrightarrow> kept u w"
  unfolding kept_def same_object_def by metis

lemma keptD:
  assumes "kept w w'" "heap w' a = Some e'"
  obtains e where "heap w a = Some e" "same_object e e'"
  using assms unfolding kept_def by blast

lemma kept_os:
  assumes "heap w' = heap w" "no_faults w \<Longrightarrow> no_faults w'"
  shows "kept w w'"
  using assms by (auto simp: kept_def same_object_def)

lemma kept_fault: "fault w = (b, w') \<Longrightarrow> kept w w'"
  by (rule kept_os) (auto simp: fault_def no_faults_def split: list.splits)

lemma kept_close [simp]: "kept w (sys_close fd w)"
  by (rule kept_os) (simp_all add: no_faults_def sys_close_simps)

lemma kept_new_ofd:
  assumes "new_ofd ino acc w = (fd, w')" shows "kept w w'"
  by (rule new_ofd_frame [OF assms], rule kept_os) (simp_all add: no_faults_def)

lemma kept_open:
  assumes "sys_open acc path w = (fd, w')" shows "kept w w'"
  using assms unfolding sys_open_def
  by (auto split: prod.split_asm if_split_asm option.split_asm dest!: kept_fault kept_new_ofd elim: kept_trans)

lemma kept_creat:
  assumes "sys_open_creat acc path w = (fd, w')" shows "kept w w'"
proof -
  obtain b w1 where f: "fault w = (b, w1)" by (cases "fault w")
  have "kept w1 w'"
  proof -
    consider "w' = w1" | ino x d n where "new_ofd ino acc (w1\<lparr>dir := d, inodes := x, next_ino := n\<rparr>) = (fd, w')"
      | ino x where "new_ofd ino acc (w1\<lparr>inodes := x\<rparr>) = (fd, w')"
      using assms f by (auto simp: sys_open_creat_def split: if_split_asm option.split_asm)
    then show ?thesis
    proof cases
      case 2
      have "kept w1 (w1\<lparr>dir := d, inodes := x, next_ino := n\<rparr>)" by (rule kept_os) (simp_all add: no_faults_def)
      with kept_new_ofd [OF 2] show ?thesis by (blast intro: kept_trans)
    next
      case 3
      have "kept w1 (w1\<lparr>inodes := x\<rparr>)" by (rule kept_os) (simp_all add: no_faults_def)
      with kept_new_ofd [OF 3] show ?thesis by (blast intro: kept_trans)
    qed simp
  qed
  with kept_fault [OF f] show ?thesis by (rule kept_trans)
qed

lemma kept_unlink [simp]: "kept w (sys_unlink p w)"
  by (rule kept_os) (auto simp: sys_unlink_def fault_def no_faults_def split: list.splits prod.splits)

lemma kept_sendfile:
  assumes "sys_sendfile out src n w = (k, w')" shows "kept w w'"
proof -
  obtain b w1 where f: "fault w = (b, w1)" by (cases "fault w")
  have "kept w1 w'"
    by (rule kept_os) (use assms f in \<open>auto simp: sys_sendfile_def Let_def no_faults_def split: option.split_asm if_split_asm\<close>)
  with kept_fault [OF f] show ?thesis by (rule kept_trans)
qed

lemma kept_strdup: "strdup x w = (p, w') \<Longrightarrow> kept w w'"
  by (auto simp: strdup_def split: prod.split_asm dest: kept_fault)

lemma kept_upd:
  assumes "upd_entry a f w = Some w'" "\<And>e. same_object e (f e)" shows "kept w w'"
  using assms by (auto simp: upd_entry_iff kept_def no_faults_def same_object_def split: if_split_asm)

lemma same_object_fields [simp]:
  "same_object e (e\<lparr>ie_next := n\<rparr>)" "same_object e (e\<lparr>ie_fd := d\<rparr>)" "same_object e (e\<lparr>ie_fd_refcount := k\<rparr>)"
  "same_object e (e\<lparr>ie_fd_generation := k\<rparr>)" "same_object e (e\<lparr>ie_entry_refcount := k\<rparr>)"
  "same_object e (e\<lparr>ie_access_count := c, ie_last_access := t\<rparr>)"
  by (simp_all add: same_object_def)

lemma kept_put:
  assumes "index_entry_put a w = Some w'" shows "kept w w'"
proof (cases "heap w a")
  case (Some e)
  show ?thesis
  proof (cases "ie_entry_refcount e = 1")
    case True
    with Some assms show ?thesis
      by (auto simp: index_entry_put_def Let_def kept_def no_faults_def sys_close_simps same_object_def split: if_split_asm)
  next
    case False
    with Some assms have "upd_entry a (\<lambda>e. e\<lparr>ie_entry_refcount := ie_entry_refcount e - 1\<rparr>) w = Some w'"
      by (simp add: index_entry_put_def)
    then show ?thesis by (rule kept_upd) simp
  qed
qed (use assms in \<open>simp add: index_entry_put_def\<close>)

lemma kept_store_next:
  assumes "store_next b prev n buckets w = Some (buckets', w')" shows "kept w w'"
  using assms by (auto simp: store_next_def split: option.split_asm intro: kept_upd)

lemma kept_get: "index_entry_get a w = Some w' \<Longrightarrow> kept w w'"
  by (auto simp: index_entry_get_def intro: kept_upd)

lemma kept_record: "index_entry_record_access a w = Some w' \<Longrightarrow> kept w w'"
  by (auto simp: index_entry_record_access_def intro: kept_upd)

lemma kept_open_for_lookup:
  assumes "open_for_lookup p w = (fd, w')" shows "kept w w'"
  using assms by (auto simp: open_for_lookup_def Let_def split: option.split_asm prod.split_asm if_split_asm
      dest!: kept_open elim: kept_trans)

lemma kept_field:
  "upd_entry a (\<lambda>e. e\<lparr>ie_fd_refcount := ie_fd_refcount e + 1\<rparr>) w = Some w' \<Longrightarrow> kept w w'"
  "upd_entry a (\<lambda>e. e\<lparr>ie_fd_refcount := ie_fd_refcount e - 1\<rparr>) w = Some w' \<Longrightarrow> kept w w'"
  "upd_entry a (\<lambda>e. e\<lparr>ie_fd_generation := ie_fd_generation e + 1\<rparr>) w = Some w' \<Longrightarrow> kept w w'"
  "upd_entry a (\<lambda>e. e\<lparr>ie_fd := d\<rparr>) w = Some w' \<Longrightarrow> kept w w'"
  "upd_entry a (\<lambda>e. e\<lparr>ie_next := n\<rparr>) w = Some w' \<Longrightarrow> kept w w'"
  by (erule kept_upd, simp)+

lemmas kept_parts = kept_get kept_record kept_put kept_store_next kept_open_for_lookup kept_field
  kept_open kept_creat kept_sendfile

lemma kept_lookup:
  assumes "global_index_lookup idx u w = Some (r, idx', w')" shows "kept w w'"
  using assms unfolding global_index_lookup_def Let_def
  by (auto split: run_splits elim!: bind_SomeE dest!: kept_parts) (meson kept_trans)+

lemma kept_backend_remove:
  assumes "backend_index_remove idx u w = Some (ok, idx', w')" shows "kept w w'"
  using assms unfolding backend_index_remove_def Let_def
  by (auto split: run_splits elim!: bind_SomeE dest!: kept_parts) (meson kept_trans)+

lemma kept_backend_insert:
  assumes "backend_index_insert idx a w = Some (idx', w')" shows "kept w w'"
  using assms unfolding backend_index_insert_def Let_def
  by (auto split: run_splits elim!: bind_SomeE dest!: kept_parts) (meson kept_trans)+

lemma kept_release:
  assumes "fd_ref_release r w = Some (r', w')" shows "kept w w'"
proof -
  consider "w' = w" | a w1 where "kept (if 0 \<le> fr_fd r then sys_close (fr_fd r) w else w) w1" "index_entry_put a w1 = Some w'"
    using assms unfolding fd_ref_release_def
    by (auto split: option.split_asm if_split_asm elim!: bind_SomeE dest!: kept_field)
  then show ?thesis
  proof cases
    case 2
    have "kept w (if 0 \<le> fr_fd r then sys_close (fr_fd r) w else w)" by simp
    from kept_trans [OF kept_trans [OF this 2(1)] kept_put [OF 2(2)]] show ?thesis .
  qed simp
qed

lemma kept_entry_open:
  assumes "index_entry_open_fd a w = Some (ok, w')" shows "kept w w'"
  using assms unfolding index_entry_open_fd_def Let_def
  by (auto split: run_splits dest!: kept_parts) (meson kept_trans kept_close)+

lemma kept_acquire:
  assumes "fd_ref_acquire r w = Some (fd, r', w')" shows "kept w w'"
  using assms unfolding fd_ref_acquire_def
  by (auto split: run_splits elim!: bind_SomeE dest!: kept_field kept_entry_open) (meson kept_trans)+

lemma kept_copy:
  assumes "migrate_copy path r a w = Some (ok, w')" shows "kept w w'"
  using assms unfolding migrate_copy_def Let_def
  by (auto split: run_splits elim!: bind_SomeE dest!: kept_creat kept_acquire kept_release kept_sendfile)
     (meson kept_trans kept_close kept_unlink)+

section \<open>The file of a migrated object\<close>

lemma update_backend_moves:
  assumes "global_index_update_backend idx u i dst w = Some (ok, idx', w')" "no_faults w"
    and "heap w a = Some e" "ie_backend_path e = Some dst" "ie_backend_id e = i" "heap w' a = Some e'"
  shows "ie_backend_path e' = Some dst" "ie_backend_id e' = i" "no_faults w'"
proof -
  consider "kept w w'" | b w4 w5 r r' t where "kept w (w4\<lparr>faults := t\<rparr>)" "fault w4 = (False, w4\<lparr>faults := t\<rparr>)"
      "upd_entry b (\<lambda>e. e\<lparr>ie_backend_path := Some dst, ie_backend_id := i\<rparr>) (w4\<lparr>faults := t\<rparr>) = Some w5"
      "fd_ref_release r w5 = Some (r', w')"
  proof -
    obtain found idx1 w1 where l: "global_index_lookup idx u w = Some (found, idx1, w1)"
      using assms(1) by (auto simp: global_index_update_backend_def elim!: bind_SomeE)
    note k1 = kept_lookup [OF l]
    show ?thesis
    proof (cases found)
      case None
      with assms(1) l k1 that(1) show ?thesis by (simp add: global_index_update_backend_def)
    next
      case (Some r)
      obtain b e1 w2 where 2: "fr_entry r = Some b" "heap w1 b = Some e1" "upd_entry b (\<lambda>e. e\<lparr>ie_fd := -1\<rparr>) w1 = Some w2"
        using assms(1) l Some by (auto simp: global_index_update_backend_def elim!: bind_SomeE)
      obtain idx3 w3 where 3: "(if 0 \<le> ie_fd e1
            then do { w \<leftarrow> upd_entry b (\<lambda>e. e\<lparr>ie_fd_generation := ie_fd_generation e + 1\<rparr>) (sys_close (ie_fd e1) w2);
                      Some (idx1\<lparr>gi_num_open_fds := gi_num_open_fds idx1 - 1\<rparr>, w) }
            else Some (idx1, w2)) = Some (idx3, w3)"
        using assms(1) l Some 2 by (auto simp: global_index_update_backend_def elim!: bind_SomeE)
      have "kept w2 w3" using 3
        by (auto split: if_split_asm elim!: bind_SomeE dest!: kept_field) (meson kept_trans kept_close)+
      then have k3: "kept w w3" using k1 kept_field(4) [OF 2(3)] by (meson kept_trans)
      then have "no_faults w3" using assms(2) by (simp add: kept_def)
      then obtain t where t: "fault w3 = (False, w3\<lparr>faults := t\<rparr>)" "True \<notin> set t" using no_faults_fault by blast
      have "kept w (w3\<lparr>faults := t\<rparr>)" using kept_trans [OF k3 kept_fault [OF t(1)]] .
      then show ?thesis using that(2) [OF _ t(1)] assms(1) l Some 2 3 t(1)
        by (auto simp: global_index_update_backend_def elim!: bind_SomeE)
    qed
  qed
  then have "ie_backend_path e' = Some dst \<and> ie_backend_id e' = i \<and> no_faults w'"
  proof cases
    case 1
    obtain e0 where "heap w a = Some e0" "same_object e0 e'" using keptD [OF 1 assms(6)] .
    with 1 show ?thesis using assms(2-5) by (simp add: kept_def same_object_def)
  next
    case (2 b w4 w5 r r' t)
    let ?w = "w4\<lparr>faults := t\<rparr>"
    obtain e5 where e5: "heap w5 a = Some e5" "same_object e5 e'" using keptD [OF kept_release [OF 2(4)] assms(6)] .
    obtain eb where eb: "heap ?w b = Some eb"
        "w5 = ?w\<lparr>heap := (heap ?w)(b \<mapsto> eb\<lparr>ie_backend_path := Some dst, ie_backend_id := i\<rparr>)\<rparr>"
      using 2(3) by (auto simp: upd_entry_iff)
    have "ie_backend_path e5 = Some dst \<and> ie_backend_id e5 = i"
    proof (cases "a = b")
      case True
      with e5(1) eb(2) show ?thesis by auto
    next
      case False
      then have "heap ?w a = Some e5" using e5(1) eb(2) by simp
      then obtain e0 where "heap w a = Some e0" "same_object e0 e5" using keptD [OF 2(1)] by blast
      then show ?thesis using assms(3-5) by (simp add: same_object_def)
    qed
    moreover have "no_faults ?w" using 2(1) assms(2) by (simp add: kept_def)
    then have "no_faults w5" using eb(2) by (simp add: no_faults_def)
    then have "no_faults w'" using kept_release [OF 2(4)] by (simp add: kept_def)
    ultimately show ?thesis using e5(2) by (simp add: same_object_def)
  qed
  then show "ie_backend_path e' = Some dst" "ie_backend_id e' = i" "no_faults w'" by blast+
qed

lemma migrate_update_moves:
  assumes "migrate_update u i target dst a mgr w = Some (mgr', w')" "no_faults w"
  obtains e' where "heap w' a = Some e'" "ie_backend_path e' = Some dst" "ie_backend_id e' = of_int target" "no_faults w'"
proof -
  obtain sb ok sidx w1 e1 where 1: "backend_manager_get_backend mgr i = Some sb"
      "backend_index_remove (b_index sb) u w = Some (ok, sidx, w1)" "heap w1 a = Some e1"
    using assms(1) unfolding migrate_update_def by (auto elim!: bind_SomeE)
  have "no_faults w1" using kept_backend_remove [OF 1(2)] assms(2) by (simp add: kept_def)
  then obtain t where t: "fault w1 = (False, w1\<lparr>faults := t\<rparr>)" "True \<notin> set t" using no_faults_fault by blast
  let ?e2 = "e1\<lparr>ie_backend_path := Some dst, ie_backend_id := of_int target\<rparr>"
  let ?w2 = "w1\<lparr>faults := t, heap := (heap w1)(a \<mapsto> ?e2)\<rparr>"
  obtain ok2 idx w3 bidx didx e4 where 2:
      "global_index_update_backend (m_global_index mgr) u (of_int target) dst ?w2 = Some (ok2, idx, w3)"
      "backend_index_insert bidx a w3 = Some (didx, w')" "heap w' a = Some e4"
    using assms(1) 1 t(1) unfolding migrate_update_def
    by (auto simp: Let_def strdup_def upd_entry_def elim!: bind_SomeE)
  obtain e3 where e3: "heap w3 a = Some e3" "same_object e3 e4" using keptD [OF kept_backend_insert [OF 2(2)] 2(3)] .
  have "no_faults ?w2" "heap ?w2 a = Some ?e2" "ie_backend_path ?e2 = Some dst" "ie_backend_id ?e2 = of_int target"
    using t(2) by (simp_all add: no_faults_def)
  note m = update_backend_moves [OF 2(1) this e3(1)]
  have "no_faults w'" using m(3) kept_backend_insert [OF 2(2)] by (simp add: kept_def)
  with m e3(2) 2(3) that show ?thesis by (simp add: same_object_def)
qed

text \<open>
  C33: A migration that succeeds loses the data of the object: the last step, meant to remove
  the file on the old backend, reads the path from the entry after it was updated, and so
  unlinks the new file. The entry points to the new backend, where there is no file.
\<close>

theorem migration_unlinks_new_file:
  assumes "backend_migrate_object u target mgr w = Some (True, mgr', w')" "no_faults w"
    and "backend_manager_get_backend mgr target = Some b" "b_mount_path b = Some mp"
  shows "\<exists>a e. heap w' a = Some e \<and> ie_backend_id e = of_int target \<and>
     ie_backend_path e = Some (snprintf_buf 1024 (mp @ u)) \<and> dir w' (snprintf_buf 1024 (mp @ u)) = None"
proof -
  let ?dst = "snprintf_buf 1024 (mp @ u)"
  obtain found mgr1 w1 where l: "manager_lookup u mgr w = Some (found, mgr1, w1)"
    using assms(1) unfolding backend_migrate_object_def by (auto elim!: bind_SomeE)
  then obtain idx where mgr1: "mgr1 = mgr\<lparr>m_global_index := idx\<rparr>" and k1: "kept w w1"
    by (auto simp: manager_lookup_def elim!: bind_SomeE dest: kept_lookup)
  obtain r a e where r: "found = Some r" "fr_entry r = Some a" "heap w1 a = Some e"
    using assms(1) l unfolding backend_migrate_object_def by (auto split: option.split_asm elim!: bind_SomeE)
  obtain sb where c: "migrate_check mgr1 e target = Some (sb, b)"
    using assms(1,3) l r mgr1 unfolding backend_migrate_object_def migrate_check_def
    by (auto simp: Let_def release_with_def split: run_splits elim!: bind_SomeE)
  obtain w2 mgr2 w3 e3 where m: "migrate_copy ?dst r a w1 = Some (True, w2)"
      "migrate_update u (sint (ie_backend_id e)) target ?dst a mgr1 w2 = Some (mgr2, w3)" "heap w3 a = Some e3"
      "w' = unlink_path (ie_backend_path e3) w3"
    using assms(1,4) l r c unfolding backend_migrate_object_def
    by (auto simp: Let_def split: if_split_asm elim!: bind_SomeE)
  have "no_faults w2" using k1 kept_copy [OF m(1)] assms(2) by (simp add: kept_def)
  then obtain e' where e': "heap w3 a = Some e'" "ie_backend_path e' = Some ?dst" "ie_backend_id e' = of_int target" "no_faults w3"
    using migrate_update_moves [OF m(2)] by blast
  obtain t where "w' = w3\<lparr>faults := t, dir := (dir w3)(?dst := None)\<rparr>"
    using unlink_ok [OF e'(4), of ?dst] m(3,4) e'(1,2) by (auto simp: unlink_path_def)
  with e' show ?thesis by auto
qed

lemma chain_eval:
  "chain_locate h x u q None = Some None"
  "h a = Some e \<Longrightarrow> chain_locate h x u q (Some a) =
     (if entry_matches x u e then Some (Some (q, a)) else chain_locate h x u (Some a) (ie_next e))"
  by (subst chain_locate.simps, simp)+

lemma bucket_one: "bucket_of 1 x = 0"
  by (simp add: bucket_of_def)

lemma sample_migration:
  "\<exists>mgr' w'. backend_migrate_object ''/a'' 1 (sample_mgr BACKEND_FLAG_MIGRATION_SRC) sample_world = Some (True, mgr', w') \<and>
     dir w' ''/m/a'' = Some 7"
  by (simp add: backend_migrate_object_def manager_lookup_def global_index_lookup_def bucket_one bucket_at_def
      chain_eval entry_matches_def index_entry_get_def upd_entry_def open_for_lookup_def sys_open_def fault_def
      new_ofd_def install_fd_def index_entry_record_access_def Let_def migrate_check_def sample_get
      sample_backend_def new_backend_def flag_set_def migrate_copy_def snprintf_buf_def sys_open_creat_def
      parent_ok_def dirname_def fd_ref_acquire_def index_entry_open_fd_def sys_sendfile_def fd_ref_release_def
      index_entry_put_def sys_close_def fd_obj_def blank_entry_def migrate_update_def
      get_backend_upd [where b = "sample_backend 0 ''/m'' BACKEND_FLAG_MIGRATION_SRC"]
      backend_index_remove_def empty_backend_index_def strdup_def global_index_update_backend_def
      backend_index_insert_def unlink_path_def sys_unlink_def write_at_def)

theorem migration_unlinks_new_file_witness:
  "\<exists>mgr' w'. backend_migrate_object ''/a'' 1 (sample_mgr BACKEND_FLAG_MIGRATION_SRC) sample_world = Some (True, mgr', w') \<and>
     dir w' ''/m/a'' = Some 7 \<and> dir w' ''/n/a'' = None"
proof -
  obtain mgr' w' where m: "backend_migrate_object ''/a'' 1 (sample_mgr BACKEND_FLAG_MIGRATION_SRC) sample_world =
      Some (True, mgr', w')" "dir w' ''/m/a'' = Some 7" using sample_migration by blast
  from migration_unlinks_new_file [OF m(1) sample_no_faults sample_get(2), of "''/n''"] m show ?thesis
    by (auto simp: sample_backend_def new_backend_def snprintf_buf_def)
qed

end
