(* ===== verification/Backend_Scan.thy ===== *)
theory Backend_Scan
  imports Backend_Props
begin

text \<open>
  The scans of a backend end. The walk over the tree is a client of the routine that is called
  for each regular file: a locale states what it needs of that routine, and both routines of the
  code meet it, the one that fills the index of a backend and the one that fills the indexes of
  the manager. The chains of the two indexes share their links, so that a chain need not hold
  what belongs to it; that a walk along it ends follows from the order of the links, which always
  lead to older entries.
\<close>

section \<open>The walk\<close>

text \<open>No path of a directory is cut to the buffer of 2048 bytes.\<close>

definition uncut :: "(string \<Rightarrow> string list option) \<Rightarrow> bool" where
  "uncut listing \<longleftrightarrow>
     (\<forall>p ns n. listing p = Some ns \<and> n \<in> set ns \<and> \<not> dots n \<and> listing (child p n) \<noteq> None \<longrightarrow> length p + 1 + length n < 2048)"

lemma uncut_deeper:
  assumes "uncut listing" "listing p = Some ns" "n \<in> set ns" "\<not> dots n" "listing (child p n) = Some ms"
  shows "2047 - length (child p n) < 2047 - length p"
proof -
  have "length p + 1 + length n < 2048" using assms unfolding uncut_def by blast
  then show ?thesis by (simp add: snprintf_buf_def)
qed

locale file_visitor =
  fixes visit :: "string \<Rightarrow> nat \<Rightarrow> 's \<times> 'a world_scheme \<Rightarrow> ('s \<times> 'a world_scheme) option"
    and ready :: "'s \<times> 'a world_scheme \<Rightarrow> bool" and base_len :: nat
  assumes visit_returns: "ready st \<Longrightarrow> base_len \<le> length p \<Longrightarrow> \<exists>st'. visit p ino st = Some st' \<and> ready st'"
begin

lemma child_fits: "base_len \<le> 2047 \<Longrightarrow> base_len \<le> length p \<Longrightarrow> base_len \<le> length (child p n)"
  by (simp add: snprintf_buf_def)

lemma walk_ends:
  assumes "base_len \<le> 2047" "uncut listing" "\<And>st. ready st \<Longrightarrow> \<exists>st'. walk_tree listing visit rest st = Some st' \<and> ready st'"
    and "listing p = Some ms" "set ns \<subseteq> set ms" "base_len \<le> length p" "ready st"
  shows "\<exists>st'. walk_tree listing visit ((p, ns) # rest) st = Some st' \<and> ready st'"
  using assms(3-)
proof (induction "2047 - length p" arbitrary: p ms ns rest st rule: less_induct)
  case less
  note outer = less.hyps and rest = less.prems(1) and p = less.prems(2) and b = less.prems(4)
  from less.prems(3,5) show ?case
  proof (induction ns arbitrary: st)
    case Nil
    then show ?case using rest by (simp only: walk_step)
  next
    case (Cons n ns)
    then have sub: "n \<in> set ms" and ih: "\<And>st. ready st \<Longrightarrow> \<exists>st'. walk_tree listing visit ((p, ns) # rest) st = Some st' \<and> ready st'" by auto
    note r = \<open>ready st\<close>
    consider "dots n"
      | "\<not> dots n" "is_dir (snd st) (child p n)" "listing (child p n) = None"
      | qs where "\<not> dots n" "is_dir (snd st) (child p n)" "listing (child p n) = Some qs"
      | "\<not> dots n" "\<not> is_dir (snd st) (child p n)" "dir (snd st) (child p n) = None"
      | ino where "\<not> dots n" "\<not> is_dir (snd st) (child p n)" "dir (snd st) (child p n) = Some ino"
      by (cases "dir (snd st) (child p n)"; cases "listing (child p n)"; blast)
    then show ?case
    proof cases
      case 1
      with ih [OF r] show ?thesis by (simp only: walk_step)
    next
      case 2
      from ih [OF r] show ?thesis by (simp only: walk_child(1) [where listing = listing and p = p and n = n, OF 2])
    next
      case (3 qs)
      from outer [OF uncut_deeper [OF assms(2) p sub 3(1,3)] ih 3(3) order_refl child_fits [OF assms(1) b] r]
      show ?thesis by (simp only: walk_child(2) [where listing = listing and p = p and n = n, OF 3])
    next
      case 4
      from ih [OF r] show ?thesis by (simp only: walk_child(3) [where listing = listing and p = p and n = n, OF 4])
    next
      case (5 ino)
      obtain v where v: "visit (child p n) ino st = Some v" "ready v" using visit_returns [OF r child_fits [OF assms(1) b]] by blast
      from ih [OF v(2)] v(1) show ?thesis by (simp only: walk_child(4) [where listing = listing and p = p and n = n, OF 5]) simp
    qed
  qed
qed

lemma scan_ends:
  assumes "uncut listing" "ready st" "base_len \<le> length mount" "base_len \<le> 2047"
  shows "\<exists>st'. scan_tree listing visit mount st = Some st' \<and> ready st'"
proof (cases "listing mount")
  case None
  with assms(2) show ?thesis by (simp add: scan_tree_def)
next
  case (Some ns)
  have "\<exists>st'. walk_tree listing visit [] t = Some st' \<and> ready st'" if "ready t" for t using that by (simp add: walk_step)
  from walk_ends [OF assms(4,1) this Some order_refl assms(3,2)] Some show ?thesis by (simp add: scan_tree_def)
qed

end

section \<open>Links to older entries\<close>

definition older_links :: "(addr \<Rightarrow> index_entry option) \<Rightarrow> bool" where
  "older_links h \<longleftrightarrow> (\<forall>a e b. h a = Some e \<and> ie_next e = Some b \<longrightarrow> b < a \<and> h b \<noteq> None)"

definition buckets_live :: "(addr \<Rightarrow> index_entry option) \<Rightarrow> u64 \<Rightarrow> addr option list \<Rightarrow> bool" where
  "buckets_live h num bs \<longleftrightarrow> unat (num - 1) < length bs \<and> (\<forall>a. Some a \<in> set bs \<longrightarrow> h a \<noteq> None)"

definition unused_above :: "'a world_scheme \<Rightarrow> bool" where
  "unused_above w \<longleftrightarrow> (\<forall>a\<ge>next_addr w. heap w a = None)"

lemma locate_ends:
  assumes "older_links h" "\<forall>a. p = Some a \<longrightarrow> h a \<noteq> None"
  shows "\<exists>r. chain_locate h hash uri prev p = Some r"
proof (cases p)
  case None
  then show ?thesis by (simp add: chain_locate.simps)
next
  case (Some a)
  have "\<exists>r. chain_locate h hash uri prev (Some a) = Some r" if "h a \<noteq> None" for prev
    using that
  proof (induction a arbitrary: prev rule: less_induct)
    case (less a)
    then obtain e where e: "h a = Some e" by blast
    show ?case
    proof (cases "entry_matches hash uri e")
      case True
      then show ?thesis using e by (subst chain_locate.simps) simp
    next
      case False
      show ?thesis
      proof (cases "ie_next e")
        case None
        then show ?thesis using e False by (subst chain_locate.simps) (simp add: chain_locate.simps)
      next
        case (Some b)
        with assms(1) e have "b < a" "h b \<noteq> None" unfolding older_links_def by blast+
        from less.IH [OF this] show ?thesis using e False Some by (subst chain_locate.simps) simp
      qed
    qed
  qed
  with assms(2) Some show ?thesis by blast
qed

lemma bucket_exists:
  assumes "buckets_live h num bs"
  obtains p where "bucket_at bs (bucket_of num hash) = Some p" "\<forall>a. p = Some a \<longrightarrow> h a \<noteq> None" "bucket_of num hash < length bs"
proof -
  have "hash AND (num - 1) \<le> num - 1" by (rule word_and_le1)
  then have "bucket_of num hash < length bs" using assms by (simp add: buckets_live_def bucket_of_def word_le_nat_alt)
  moreover from this assms have "\<forall>a. bs ! bucket_of num hash = Some a \<longrightarrow> h a \<noteq> None"
    unfolding buckets_live_def by (metis nth_mem)
  ultimately show ?thesis by (intro that [of "bs ! bucket_of num hash"]) (simp_all add: bucket_at_def)
qed

lemma entry_create_result:
  obtains (fails) f where "index_entry_create u i p w = (None, w\<lparr>faults := f\<rparr>)"
  | (works) f where "index_entry_create u i p w = (Some (next_addr w), w\<lparr>faults := f, next_addr := Suc (next_addr w),
      heap := (heap w)(next_addr w \<mapsto> new_entry u i p)\<rparr>)"
proof -
  obtain b1 w1 where 1: "fault w = (b1, w1)" by fastforce
  then obtain t1 where w1: "w1 = w\<lparr>faults := t1\<rparr>" by (rule fault_frame)
  obtain b2 w2 where 2: "fault w1 = (b2, w2)" by fastforce
  then obtain t2 where w2: "w2 = w\<lparr>faults := t2\<rparr>" unfolding w1 by (rule fault_frame) simp
  obtain b3 w3 where 3: "fault w2 = (b3, w3)" by fastforce
  then obtain t3 where w3: "w3 = w\<lparr>faults := t3\<rparr>" unfolding w2 by (rule fault_frame) simp
  show ?thesis
  proof (cases "b1 \<or> b2 \<or> b3")
    case True
    then have "index_entry_create u i p w = (None, if b1 then w1 else w3)" using 1 2 3 by (auto simp: index_entry_create_def)
    then show ?thesis using fails [of t1] fails [of t3] w1 w3 by (cases b1) simp_all
  next
    case False
    then show ?thesis using 1 2 3 by (intro works [of t3]) (simp add: index_entry_create_def new_entry_def w3)
  qed
qed

text \<open>A new entry with any link to a live one keeps the order.\<close>

lemma older_new:
  assumes "older_links h" "\<forall>x\<ge>a. h x = None" "\<forall>b. ie_next e = Some b \<longrightarrow> h b \<noteq> None"
  shows "older_links (h(a \<mapsto> e))"
  unfolding older_links_def
proof (intro allI impI)
  fix x e' b assume x: "(h(a \<mapsto> e)) x = Some e' \<and> ie_next e' = Some b"
  show "b < x \<and> (h(a \<mapsto> e)) b \<noteq> None"
  proof (cases "x = a")
    case True
    then have "h b \<noteq> None" using x assms(3) by auto
    then show ?thesis using True assms(2) by (metis fun_upd_apply linorder_not_le option.discI)
  next
    case False
    then show ?thesis using x assms(1) unfolding older_links_def by auto
  qed
qed

lemma buckets_live_more: "buckets_live h num bs \<Longrightarrow> buckets_live (h(a \<mapsto> e)) num bs"
  by (auto simp: buckets_live_def)

lemma buckets_live_head: "buckets_live h num bs \<Longrightarrow> buckets_live (h(a \<mapsto> e)) num (bs[i := Some a])"
  using set_update_subset_insert [of bs i "Some a"] by (auto simp: buckets_live_def)

text \<open>The insertions of a new entry, which is at \<open>a\<close> above all entries of \<open>h\<close>.\<close>

lemma global_insert_new:
  assumes "older_links h" "\<forall>x\<ge>a. h x = None" "buckets_live h (gi_num_buckets idx) (gi_buckets idx)"
    and "heap w = h(a \<mapsto> e)" "ie_next e = None"
  obtains (present) "global_index_insert idx a w = Some (False, idx, w)"
  | (added) p bs n where "global_index_insert idx a w = Some (True, idx\<lparr>gi_buckets := bs, gi_num_entries := n\<rparr>, w\<lparr>heap := h(a \<mapsto> e\<lparr>ie_next := p\<rparr>)\<rparr>)"
      "\<forall>b. p = Some b \<longrightarrow> h b \<noteq> None" "\<forall>e'. buckets_live (h(a \<mapsto> e')) (gi_num_buckets idx) bs"
proof -
  obtain p where p: "bucket_at (gi_buckets idx) (bucket_of (gi_num_buckets idx) (ie_uri_hash e)) = Some p"
    "\<forall>b. p = Some b \<longrightarrow> h b \<noteq> None" "bucket_of (gi_num_buckets idx) (ie_uri_hash e) < length (gi_buckets idx)"
    using bucket_exists [OF assms(3)] .
  have "older_links (heap w)" unfolding assms(4) by (rule older_new [OF assms(1,2)]) (simp add: assms(5))
  moreover have "\<forall>b. p = Some b \<longrightarrow> heap w b \<noteq> None" using p(2) by (simp add: assms(4))
  ultimately obtain r where r: "chain_locate (heap w) (ie_uri_hash e) (ie_uri e) None p = Some r" using locate_ends by blast
  have e: "heap w a = Some e" by (simp add: assms(4))
  show ?thesis
  proof (cases r)
    case None
    then show ?thesis using p(1,2) r e assms(3) buckets_live_head
      by (intro added [where bs = "(gi_buckets idx)[bucket_of (gi_num_buckets idx) (ie_uri_hash e) := Some a]" and n = "gi_num_entries idx + 1" and p = p])
        (simp_all add: global_index_insert_def upd_entry_def assms(4) Let_def)
  next
    case (Some x)
    then show ?thesis using p(1) r e by (intro present) (simp add: global_index_insert_def Let_def)
  qed
qed

lemma backend_insert_new:
  assumes "buckets_live h (bi_num_buckets idx) (bi_buckets idx)" "heap w = h(a \<mapsto> e)" "h a = None"
  obtains p bs n where "backend_index_insert idx a w = Some (idx\<lparr>bi_buckets := bs, bi_num_entries := n, bi_dirty := True\<rparr>,
      w\<lparr>heap := h(a \<mapsto> e\<lparr>ie_entry_refcount := ie_entry_refcount e + 1, ie_next := p\<rparr>)\<rparr>)"
    "\<forall>b. p = Some b \<longrightarrow> h b \<noteq> None" "\<forall>e'. buckets_live (h(a \<mapsto> e')) (bi_num_buckets idx) bs"
proof -
  obtain p where p: "bucket_at (bi_buckets idx) (bucket_of (bi_num_buckets idx) (ie_uri_hash e)) = Some p"
    "\<forall>b. p = Some b \<longrightarrow> h b \<noteq> None" "bucket_of (bi_num_buckets idx) (ie_uri_hash e) < length (bi_buckets idx)"
    using bucket_exists [OF assms(1)] .
  show ?thesis using p(1,2) assms(1,2) buckets_live_head
    by (intro that [where bs = "(bi_buckets idx)[bucket_of (bi_num_buckets idx) (ie_uri_hash e) := Some a]" and n = "bi_num_entries idx + 1" and p = p])
      (simp_all add: backend_index_insert_def index_entry_get_def upd_entry_def Let_def)
qed

section \<open>The two routines\<close>

definition index_ready :: "scan_state \<times> 'a world_scheme \<Rightarrow> bool" where
  "index_ready st \<longleftrightarrow> (case st of (sc, w) \<Rightarrow> older_links (heap w) \<and> unused_above w \<and>
     buckets_live (heap w) (bi_num_buckets (sc_idx sc)) (bi_buckets (sc_idx sc)))"

definition indexes_ready :: "backend_manager \<Rightarrow> 'a world_scheme \<Rightarrow> bool" where
  "indexes_ready mgr w \<longleftrightarrow> older_links (heap w) \<and> unused_above w \<and>
     buckets_live (heap w) (gi_num_buckets (m_global_index mgr)) (gi_buckets (m_global_index mgr)) \<and>
     (\<forall>b\<in>set (m_backends mgr). buckets_live (heap w) (bi_num_buckets (b_index b)) (bi_buckets (b_index b)))"

definition manager_ready :: "int \<Rightarrow> (backend_manager \<times> nat) \<times> 'a world_scheme \<Rightarrow> bool" where
  "manager_ready i st \<longleftrightarrow> (case st of ((mgr, n), w) \<Rightarrow> indexes_ready mgr w \<and> backend_manager_get_backend mgr i \<noteq> None)"

lemma unused_above_new: "unused_above w \<Longrightarrow> next_addr w' = Suc (next_addr w) \<Longrightarrow> heap w' = (heap w)(next_addr w := x) \<Longrightarrow> unused_above w'"
  by (auto simp: unused_above_def)

lemma scan_file_returns:
  assumes "index_ready st" "base_len \<le> length p"
  shows "\<exists>st'. scan_file cb base_len p ino st = Some st' \<and> index_ready st'"
proof -
  obtain sc w where st: "st = (sc, w)" by fastforce
  let ?h = "heap w" and ?a = "next_addr w" and ?idx = "sc_idx sc"
  have r: "older_links ?h" "\<forall>x\<ge>?a. ?h x = None" "?h ?a = None" "buckets_live ?h (bi_num_buckets ?idx) (bi_buckets ?idx)" "unused_above w"
    using assms(1) by (simp_all add: st index_ready_def unused_above_def)
  show ?thesis
  proof (cases rule: entry_create_result [of "drop base_len p" "bi_backend_id ?idx" p w])
    case (fails f)
    then show ?thesis using assms(2) r by (simp add: st scan_file_def index_ready_def unused_above_def)
  next
    case (works f)
    let ?e = "(new_entry (drop base_len p) (bi_backend_id ?idx) p)\<lparr>ie_size_bytes := of_nat (length (inodes w ino)), ie_flags := INDEX_FLAG_PERSISTENT\<rparr>"
    let ?w = "w\<lparr>faults := f, next_addr := Suc ?a, heap := ?h(?a \<mapsto> ?e)\<rparr>"
    have "heap ?w = ?h(?a \<mapsto> ?e)" by simp
    from backend_insert_new [OF r(4) this r(3)] obtain q bs n where
      b: "backend_index_insert ?idx ?a ?w = Some (?idx\<lparr>bi_buckets := bs, bi_num_entries := n, bi_dirty := True\<rparr>,
          ?w\<lparr>heap := ?h(?a \<mapsto> ?e\<lparr>ie_entry_refcount := ie_entry_refcount ?e + 1, ie_next := q\<rparr>)\<rparr>)"
        "\<forall>b. q = Some b \<longrightarrow> ?h b \<noteq> None" "\<forall>e'. buckets_live (?h(?a \<mapsto> e')) (bi_num_buckets ?idx) bs" .
    let ?e' = "?e\<lparr>ie_next := q, ie_entry_refcount := 1\<rparr>"
    have "\<exists>sc'. scan_file cb base_len p ino st = Some (sc', ?w\<lparr>heap := ?h(?a \<mapsto> ?e')\<rparr>) \<and> sc_idx sc' = ?idx\<lparr>bi_buckets := bs, bi_num_entries := n, bi_dirty := True\<rparr>"
      using works b(1) assms(2) by (simp add: st scan_file_def upd_entry_def index_entry_put_def Let_def)
    then obtain sc' where "scan_file cb base_len p ino st = Some (sc', ?w\<lparr>heap := ?h(?a \<mapsto> ?e')\<rparr>)" "sc_idx sc' = ?idx\<lparr>bi_buckets := bs, bi_num_entries := n, bi_dirty := True\<rparr>" by blast
    moreover have "older_links (?h(?a \<mapsto> ?e'))" by (rule older_new [OF r(1,2)]) (simp add: b(2))
    moreover have "unused_above (?w\<lparr>heap := ?h(?a \<mapsto> ?e')\<rparr>)" by (rule unused_above_new [OF r(5)]) simp_all
    moreover have "buckets_live (?h(?a \<mapsto> ?e')) (bi_num_buckets ?idx) bs" using b(3) by blast
    ultimately show ?thesis by (intro exI [of _ "(sc', ?w\<lparr>heap := ?h(?a \<mapsto> ?e')\<rparr>)"]) (simp add: index_ready_def)
  qed
qed

lemma scan_object_returns:
  assumes "manager_ready i st" "base_len \<le> length p"
  shows "\<exists>st'. scan_object i base_len p ino st = Some st' \<and> manager_ready i st'"
proof -
  obtain mgr n w where st: "st = ((mgr, n), w)" by (metis prod_cases3 surj_pair)
  let ?h = "heap w" and ?a = "next_addr w" and ?g = "m_global_index mgr"
  have r: "older_links ?h" "\<forall>x\<ge>?a. ?h x = None" "?h ?a = None" "buckets_live ?h (gi_num_buckets ?g) (gi_buckets ?g)" "unused_above w"
    and rb: "\<forall>b\<in>set (m_backends mgr). buckets_live ?h (bi_num_buckets (b_index b)) (bi_buckets (b_index b))"
    using assms(1) by (simp_all add: st manager_ready_def indexes_ready_def unused_above_def)
  obtain b where b: "backend_manager_get_backend mgr i = Some b" using assms(1) by (auto simp: st manager_ready_def)
  then have bi: "b \<in> set (m_backends mgr)" "buckets_live ?h (bi_num_buckets (b_index b)) (bi_buckets (b_index b))"
    using rb by (auto simp: backend_manager_get_backend_def split: if_splits)
  show ?thesis
  proof (cases rule: entry_create_result [of "drop base_len p" "of_int i" p w])
    case (fails f)
    then show ?thesis using assms r rb by (simp add: st scan_object_def manager_ready_def indexes_ready_def unused_above_def)
  next
    case (works f)
    let ?s = "of_nat (length (inodes w ino)) :: u64"
    let ?e = "(new_entry (drop base_len p) (of_int i) p)\<lparr>ie_size_bytes := ?s,
       ie_flags := (if flag_set (b_flags b) BACKEND_FLAG_EPHEMERAL_ONLY then INDEX_FLAG_EPHEMERAL else INDEX_FLAG_PERSISTENT)\<rparr>"
    let ?w = "w\<lparr>faults := f, next_addr := Suc ?a, heap := ?h(?a \<mapsto> ?e)\<rparr>"
    have h: "heap ?w = ?h(?a \<mapsto> ?e)" "ie_next ?e = None" by (simp_all add: new_entry_def)
    have start: "scan_object i base_len p ino st = Option.bind (global_index_insert ?g ?a ?w) (\<lambda>(ok, idx, w).
        Option.bind (if \<not> ok then Some (mgr\<lparr>m_global_index := idx\<rparr>, n, w)
           else Option.bind (backend_index_insert (b_index b) ?a w) (\<lambda>(bidx, w).
             let mgr = upd_backend i (\<lambda>b. b\<lparr>b_index := bidx, b_object_count := b_object_count b + 1, b_used_bytes := b_used_bytes b + ?s\<rparr>) (mgr\<lparr>m_global_index := idx\<rparr>)
             in Some (mgr\<lparr>m_total_objects := m_total_objects mgr + 1, m_total_bytes := m_total_bytes mgr + ?s\<rparr>, n + 1, w)))
          (\<lambda>(mgr, n, w). Option.bind (index_entry_put ?a w) (\<lambda>w. Some ((mgr, n), w))))"
      using works b assms(2) by (simp add: st scan_object_def upd_entry_def Let_def cong: if_cong)
    show ?thesis
    proof (cases rule: global_insert_new [OF r(1,2,4) h, case_names present added])
      case present
      let ?w2 = "?w\<lparr>heap := ?h\<rparr>"
      have u: "?h(?a := None) = ?h" using r(3) by (simp add: fun_upd_idem)
      have "scan_object i base_len p ino st = Some ((mgr, n), ?w2)"
        unfolding start using u by (simp add: present index_entry_put_def)
      then show ?thesis using r rb b by (auto simp: manager_ready_def indexes_ready_def unused_above_def)
    next
      case (added q bs k)
      let ?e1 = "?e\<lparr>ie_next := q\<rparr>" and ?w1 = "?w\<lparr>heap := ?h(?a \<mapsto> ?e\<lparr>ie_next := q\<rparr>)\<rparr>"
      have "heap ?w1 = ?h(?a \<mapsto> ?e1)" by simp
      from backend_insert_new [OF bi(2) this r(3)] obtain q' bs' k' where
        bb: "backend_index_insert (b_index b) ?a ?w1 = Some ((b_index b)\<lparr>bi_buckets := bs', bi_num_entries := k', bi_dirty := True\<rparr>,
            ?w1\<lparr>heap := ?h(?a \<mapsto> ?e1\<lparr>ie_entry_refcount := ie_entry_refcount ?e1 + 1, ie_next := q'\<rparr>)\<rparr>)"
          "\<forall>b. q' = Some b \<longrightarrow> ?h b \<noteq> None" "\<forall>e'. buckets_live (?h(?a \<mapsto> e')) (bi_num_buckets (b_index b)) bs'" .
      let ?e2 = "?e1\<lparr>ie_next := q', ie_entry_refcount := 1\<rparr>" and ?bidx = "(b_index b)\<lparr>bi_buckets := bs', bi_num_entries := k', bi_dirty := True\<rparr>"
      let ?m1 = "upd_backend i (\<lambda>b. b\<lparr>b_index := ?bidx, b_object_count := b_object_count b + 1, b_used_bytes := b_used_bytes b + ?s\<rparr>)
         (mgr\<lparr>m_global_index := ?g\<lparr>gi_buckets := bs, gi_num_entries := k\<rparr>\<rparr>)"
      let ?m2 = "?m1\<lparr>m_total_objects := m_total_objects ?m1 + 1, m_total_bytes := m_total_bytes ?m1 + ?s\<rparr>"
      have "scan_object i base_len p ino st = Some ((?m2, n + 1), ?w\<lparr>heap := ?h(?a \<mapsto> ?e2)\<rparr>)"
        unfolding start added(1) using bb(1) by (simp add: index_entry_put_def upd_entry_def Let_def)
      moreover have "older_links (?h(?a \<mapsto> ?e2))" by (rule older_new [OF r(1,2)]) (simp add: bb(2))
      moreover have "\<forall>x\<in>set (m_backends ?m2). buckets_live (?h(?a \<mapsto> ?e2)) (bi_num_buckets (b_index x)) (bi_buckets (b_index x))"
        using rb bb(3) buckets_live_more by (auto simp: upd_backend_def dest!: set_update_subset_insert [THEN subsetD])
      moreover have "backend_manager_get_backend ?m2 i \<noteq> None"
        using get_backend_upd [of "mgr\<lparr>m_global_index := ?g\<lparr>gi_buckets := bs, gi_num_entries := k\<rparr>\<rparr>" i b] b by simp
      moreover have "unused_above (?w\<lparr>heap := ?h(?a \<mapsto> ?e2)\<rparr>)" by (rule unused_above_new [OF r(5)]) simp_all
      moreover have "buckets_live (?h(?a \<mapsto> ?e2)) (gi_num_buckets ?g) bs" using added(3) by blast
      ultimately show ?thesis by (intro exI [of _ "((?m2, n + 1), ?w\<lparr>heap := ?h(?a \<mapsto> ?e2)\<rparr>)"]) (simp add: manager_ready_def indexes_ready_def)
    qed
  qed
qed

interpretation file_scan: file_visitor "scan_file cb base_len" index_ready base_len
  by unfold_locales (rule scan_file_returns)

interpretation object_scan: file_visitor "scan_object i base_len" "manager_ready i" base_len
  by unfold_locales (rule scan_object_returns)

section \<open>The scans\<close>

lemma index_scan_returns:
  assumes "uncut listing" "older_links (heap w)" "unused_above w" "buckets_live (heap w) (bi_num_buckets idx) (bi_buckets idx)"
    and "length mount_path \<le> 2047"
  obtains n progress idx' w' where "backend_index_scan listing cb idx mount_path w = Some (n, progress, idx', w')"
proof -
  have "index_ready (\<lparr>sc_idx = idx, sc_count = 0, sc_progress = []\<rparr>, w)" using assms by (simp add: index_ready_def)
  from file_scan.scan_ends [OF assms(1) this order_refl assms(5), of cb] show ?thesis using that
    by (auto simp: backend_index_scan_def)
qed

lemma manager_scan_returns:
  assumes "uncut listing" "indexes_ready mgr w"
    and "\<forall>b. backend_manager_get_backend mgr i = Some b \<longrightarrow> (\<exists>mount_path. b_mount_path b = Some mount_path \<and> length mount_path \<le> 2047)"
  obtains r mgr' w' where "backend_manager_scan listing i mgr w = Some (r, mgr', w')" "indexes_ready mgr' w'"
    "r \<noteq> None \<longleftrightarrow> (\<exists>b. backend_manager_get_backend mgr i = Some b \<and> flag_set (b_flags b) BACKEND_FLAG_ENABLED)"
proof (cases "\<exists>b. backend_manager_get_backend mgr i = Some b \<and> flag_set (b_flags b) BACKEND_FLAG_ENABLED")
  case False
  then have "backend_manager_scan listing i mgr w = Some (None, mgr, w)" by (auto simp: backend_manager_scan_def split: option.split)
  with that assms(2) False show ?thesis by blast
next
  case True
  then obtain b where b: "backend_manager_get_backend mgr i = Some b" "flag_set (b_flags b) BACKEND_FLAG_ENABLED" by blast
  with assms(3) obtain mp where mp: "b_mount_path b = Some mp" "length mp \<le> 2047" by blast
  have "manager_ready i ((mgr, 0), w)" using assms(2) b by (simp add: manager_ready_def)
  from object_scan.scan_ends [OF assms(1) this order_refl mp(2)] obtain mgr' n w' where
    s: "scan_tree listing (scan_object i (length mp)) mp ((mgr, 0), w) = Some ((mgr', n), w')" "manager_ready i ((mgr', n), w')"
    by (metis prod_cases3 surj_pair)
  then have "backend_manager_scan listing i mgr w = Some (Some n, mgr', w')" using b mp by (simp add: backend_manager_scan_def)
  with s(2) that True show ?thesis by (auto simp: manager_ready_def)
qed

text \<open>
  C27: The scan of a backend returns, also when calls fail on the way: if no path of a directory is
  cut to the buffer of the scan, and the links of the entries lead to older ones, as those of all
  insertions do, then every file that is met is entered or passed over and the scan ends, with
  indexes that can be scanned into again. It gives a count exactly when the backend exists and is
  enabled. The scan that fills the index of a backend alone returns in the same way.
\<close>

theorem scans_return:
  assumes "uncut listing" "indexes_ready mgr w"
    and "\<forall>b. backend_manager_get_backend mgr i = Some b \<longrightarrow> (\<exists>mount_path. b_mount_path b = Some mount_path \<and> length mount_path \<le> 2047)"
  shows "(\<exists>r mgr' w'. backend_manager_scan listing i mgr w = Some (r, mgr', w') \<and> indexes_ready mgr' w' \<and>
       (r \<noteq> None \<longleftrightarrow> (\<exists>b. backend_manager_get_backend mgr i = Some b \<and> flag_set (b_flags b) BACKEND_FLAG_ENABLED))) \<and>
     (\<forall>b\<in>set (m_backends mgr). \<forall>mount_path. length mount_path \<le> 2047 \<longrightarrow>
       (\<exists>n progress idx w'. backend_index_scan listing cb (b_index b) mount_path w = Some (n, progress, idx, w')))"
proof (intro conjI ballI allI impI)
  show "\<exists>r mgr' w'. backend_manager_scan listing i mgr w = Some (r, mgr', w') \<and> indexes_ready mgr' w' \<and>
       (r \<noteq> None \<longleftrightarrow> (\<exists>b. backend_manager_get_backend mgr i = Some b \<and> flag_set (b_flags b) BACKEND_FLAG_ENABLED))"
    using manager_scan_returns [OF assms] by metis
next
  fix b and mount_path :: string assume "b \<in> set (m_backends mgr)" "length mount_path \<le> 2047"
  then show "\<exists>n progress idx w'. backend_index_scan listing cb (b_index b) mount_path w = Some (n, progress, idx, w')"
    using assms(2) index_scan_returns [OF assms(1), of w "b_index b" mount_path cb] by (metis indexes_ready_def)
qed

text \<open>A directory with a file that is known, one that is new, and a subdirectory.\<close>

definition sample_listing :: "string \<Rightarrow> string list option" where
  "sample_listing = [''/m'' \<mapsto> [''.'', ''..'', ''a'', ''b'', ''d''], ''/m/d'' \<mapsto> [''c'']]"

definition sample_tree :: world where
  "sample_tree = sample_world\<lparr>dir := [''/m/a'' \<mapsto> 7, ''/m/b'' \<mapsto> 8, ''/m/d/c'' \<mapsto> 9], is_dir := (\<lambda>p. p \<in> {''/m'', ''/n'', ''/m/d''})\<rparr>"

theorem scans_return_witness:
  "\<exists>n mgr' w'. backend_manager_scan sample_listing 0 (sample_mgr BACKEND_FLAG_ENABLED) sample_tree = Some (Some n, mgr', w') \<and>
     indexes_ready mgr' w'"
proof -
  have "uncut sample_listing" by (auto simp: uncut_def sample_listing_def snprintf_buf_def split: if_splits)
  moreover have "indexes_ready (sample_mgr BACKEND_FLAG_ENABLED) sample_tree"
    by (simp add: indexes_ready_def older_links_def unused_above_def buckets_live_def blank_entry_def sample_mgr_def
        sample_backend_def new_backend_def empty_backend_index_def sample_tree_def)
  moreover have "b_mount_path (sample_backend 0 ''/m'' BACKEND_FLAG_ENABLED) = Some ''/m''" "flag_set (b_flags (sample_backend 0 ''/m'' BACKEND_FLAG_ENABLED)) BACKEND_FLAG_ENABLED"
    by (simp_all add: sample_backend_def new_backend_def flag_set_def)
  ultimately show ?thesis using scans_return [of sample_listing "sample_mgr BACKEND_FLAG_ENABLED" sample_tree 0 False] by (auto simp: sample_get)
qed

end
