(* ===== verification/Storage.thy ===== *)
theory Storage
  imports Posix "HOL-Library.Monad_Syntax"
begin

text \<open>
  The storage library of \<open>lib/storage/storage.c\<close>: objects in a fixed array of slots, found by
  their URI through a chained hash table, with their contents in files of a backing directory
  and, on request, mapped into memory.

  The table is a list of chains, most recent entry first; an entry is never removed before
  \<open>storage_cleanup\<close>. Mappings are kept in the process state: \<open>mmaps\<close> says which file an address
  maps and how many bytes. An access outside an array is the outer \<open>None\<close>. The lock has no
  counterpart in a sequential run.
\<close>

section \<open>Data\<close>

record hash_entry =
  he_hash :: u64
  he_slot_index :: nat

record object_slot =
  sl_uri :: string
  sl_backing_path :: string
  sl_cache_path :: string
  sl_backing_fd :: int
  sl_cache_mmap :: "nat option"          \<comment> \<open>\<open>None\<close>: \<open>NULL\<close>\<close>
  sl_size :: u64
  sl_hits :: u64
  sl_in_use :: bool

record object_storage =
  os_backing_dir :: string
  os_cache_dir :: string
  os_cache_limit :: u64
  os_cached_bytes :: u64
  os_objects :: "object_slot list"       \<comment> \<open>its length is \<open>capacity\<close>\<close>
  os_count :: u64
  os_hash_table :: "hash_entry list list" \<comment> \<open>its length is \<open>hash_size\<close>\<close>

record storage_config =
  cf_backing_dir :: "string option"
  cf_cache_dir :: "string option"
  cf_cache_limit :: u64
  cf_hash_size :: u64

record object_info =
  oi_uri :: string
  oi_size :: u64
  oi_hits :: u64
  oi_is_cached :: bool

record vm = os +
  mmaps :: "nat \<Rightarrow> (nat \<times> nat) option"   \<comment> \<open>address to inode and length\<close>
  next_map :: nat

text \<open>A slot as \<open>calloc\<close> makes it: in particular the descriptor is 0.\<close>

definition zero_slot :: object_slot where
  "zero_slot = \<lparr>sl_uri = [], sl_backing_path = [], sl_cache_path = [], sl_backing_fd = 0, sl_cache_mmap = None,
     sl_size = 0, sl_hits = 0, sl_in_use = False\<rparr>"

definition upd_slot :: "nat \<Rightarrow> (object_slot \<Rightarrow> object_slot) \<Rightarrow> object_storage \<Rightarrow> object_storage" where
  "upd_slot i f st = st\<lparr>os_objects := (os_objects st)[i := f (os_objects st ! i)]\<rparr>"

section \<open>Memory mappings\<close>

text \<open>\<open>mmap(NULL, n, PROT_READ, MAP_PRIVATE, fd, 0)\<close>; \<open>None\<close> is \<open>MAP_FAILED\<close>.\<close>

definition sys_mmap :: "nat \<Rightarrow> int \<Rightarrow> 'a vm_scheme \<Rightarrow> nat option \<times> 'a vm_scheme" where
  "sys_mmap n fd s =
     (let (f, s) = fault s
      in case fd_obj s fd of
           None \<Rightarrow> (None, s)
         | Some d \<Rightarrow>
             if f \<or> n = 0 \<or> of_acc (ofds s d) = O_WRONLY then (None, s)
             else (Some (next_map s), s\<lparr>mmaps := (mmaps s)(next_map s \<mapsto> (of_ino (ofds s d), n)),
                                        next_map := Suc (next_map s)\<rparr>))"

text \<open>\<open>munmap(p, n)\<close>: an empty range is an error and changes nothing; otherwise the pages from
  \<open>p\<close> on are gone.\<close>

definition sys_munmap :: "nat \<Rightarrow> nat \<Rightarrow> 'a vm_scheme \<Rightarrow> 'a vm_scheme" where
  "sys_munmap p n s = (if n = 0 then s else s\<lparr>mmaps := (mmaps s)(p := None)\<rparr>)"

section \<open>The hash table\<close>

text \<open>\<open>char\<close> is signed: a character above 127 is added as a negative number.\<close>

definition hash_uri :: "string \<Rightarrow> u64" where
  "hash_uri uri = foldl (\<lambda>hash c. (push_bit 5 hash + hash) + of_int (sint (of_char c :: u8))) 5381 uri"

definition bucket_index :: "object_storage \<Rightarrow> u64 \<Rightarrow> nat" where
  "bucket_index st hash = unat (hash mod of_nat (length (os_hash_table st)))"

fun find_in_chain :: "object_slot list \<Rightarrow> u64 \<Rightarrow> string \<Rightarrow> hash_entry list \<Rightarrow> nat option option" where
  "find_in_chain objects hash uri [] = Some None"
| "find_in_chain objects hash uri (e # es) =
     (if he_hash e = hash
      then if he_slot_index e \<ge> length objects then None
           else let slot = objects ! he_slot_index e
                in if sl_in_use slot \<and> sl_uri slot = uri then Some (Some (he_slot_index e))
                   else find_in_chain objects hash uri es
      else find_in_chain objects hash uri es)"

definition find_slot :: "object_storage \<Rightarrow> string \<Rightarrow> nat option option" where
  "find_slot st uri =
     (let hash = hash_uri uri; idx = bucket_index st hash
      in if idx \<ge> length (os_hash_table st) then None
         else find_in_chain (os_objects st) hash uri (os_hash_table st ! idx))"

definition add_hash_entry ::
    "string \<Rightarrow> nat \<Rightarrow> object_storage \<Rightarrow> 'a os_scheme \<Rightarrow> bool \<times> object_storage \<times> 'a os_scheme" where
  "add_hash_entry uri slot_index st s =
     (let hash = hash_uri uri; idx = bucket_index st hash; (f, s) = fault s
      in if f then (False, st, s)
         else (True, st\<lparr>os_hash_table := (os_hash_table st)
                 [idx := \<lparr>he_hash = hash, he_slot_index = slot_index\<rparr> # os_hash_table st ! idx]\<rparr>, s))"

section \<open>Operations\<close>

definition storage_init :: "storage_config \<Rightarrow> 'a os_scheme \<Rightarrow> object_storage option \<times> 'a os_scheme" where
  "storage_init config s =
     (case cf_backing_dir config of
        None \<Rightarrow> (None, s)
      | Some backing \<Rightarrow>
          let (f1, s) = fault s
          in if f1 then (None, s)
             else let (f2, s) = fault s
                  in if f2 then (None, s)
                     else let hash_size = (if cf_hash_size config > 0 then cf_hash_size config else 16384);
                              (f3, s) = fault s
                          in if f3 then (None, s)
                             else let st = \<lparr>os_backing_dir = snprintf_buf 256 backing,
                                            os_cache_dir = (case cf_cache_dir config of None \<Rightarrow> []
                                                            | Some c \<Rightarrow> snprintf_buf 256 c),
                                            os_cache_limit = cf_cache_limit config, os_cached_bytes = 0,
                                            os_objects = replicate 10000 zero_slot, os_count = 0,
                                            os_hash_table = replicate (unat hash_size) []\<rparr>;
                                      (_, s) = sys_mkdir (os_backing_dir st) s;
                                      s = (if os_cache_dir st \<noteq> [] then snd (sys_mkdir (os_cache_dir st) s) else s)
                                  in (Some st, s))"

text \<open>The first free slot, taken and entered under the URI; a failed \<open>malloc\<close> of the hash
  entry goes unnoticed.\<close>

fun free_slot :: "object_slot list \<Rightarrow> nat option" where
  "free_slot [] = None"
| "free_slot (x # xs) = (if sl_in_use x then map_option Suc (free_slot xs) else Some 0)"

definition take_slot :: "string \<Rightarrow> object_storage \<Rightarrow> 'a os_scheme \<Rightarrow> nat option \<times> object_storage \<times> 'a os_scheme" where
  "take_slot uri st s =
     (if os_count st \<ge> of_nat (length (os_objects st)) then (None, st, s)
      else case free_slot (os_objects st) of
             None \<Rightarrow> (None, st, s)
           | Some i \<Rightarrow>
               let st = upd_slot i (\<lambda>x. x\<lparr>sl_in_use := True, sl_uri := snprintf_buf 1024 uri\<rparr>) st;
                   st = st\<lparr>os_count := os_count st + 1\<rparr>;
                   (_, st, s) = add_hash_entry uri i st s
               in (Some i, st, s))"

definition write_backing :: "nat \<Rightarrow> string \<Rightarrow> bytes \<Rightarrow> object_storage \<Rightarrow> 'a os_scheme \<Rightarrow> bool \<times> object_storage \<times> 'a os_scheme" where
  "write_backing i uri data st s =
     (let path = snprintf_buf 1024 (os_backing_dir st @ ''/'' @ uri);
          st = upd_slot i (\<lambda>x. x\<lparr>sl_backing_path := path\<rparr>) st;
          (fd, s) = sys_open_creat O_WRONLY path s
      in if fd < 0 then (False, st, s)
         else let (written, s) = file_write fd data s; s = sys_close fd s
              in case written of
                   KDone out \<Rightarrow>
                     if length out \<noteq> length data then (False, st, s)
                     else (True, upd_slot i (\<lambda>x. x\<lparr>sl_size := of_nat (length data), sl_backing_fd := -1\<rparr>) st, s)
                 | _ \<Rightarrow> (False, st, s))"

definition storage_put ::
    "string \<Rightarrow> bytes \<Rightarrow> object_storage \<Rightarrow> 'a os_scheme \<Rightarrow> (bool \<times> object_storage \<times> 'a os_scheme) option" where
  "storage_put uri data st s =
     do {
       found \<leftarrow> find_slot st uri;
       let (slot, st, s) = (case found of Some i \<Rightarrow> (Some i, st, s) | None \<Rightarrow> take_slot uri st s);
       Some (case slot of None \<Rightarrow> (False, st, s) | Some i \<Rightarrow> write_backing i uri data st s)
     }"

definition slot_info :: "object_slot \<Rightarrow> object_info" where
  "slot_info slot = \<lparr>oi_uri = sl_uri slot, oi_size = sl_size slot, oi_hits = sl_hits slot,
     oi_is_cached = (sl_cache_mmap slot \<noteq> None)\<rparr>"

definition storage_get_fd ::
    "string \<Rightarrow> object_storage \<Rightarrow> 'a os_scheme \<Rightarrow> (int \<times> object_info option \<times> object_storage \<times> 'a os_scheme) option" where
  "storage_get_fd uri st s =
     do {
       found \<leftarrow> find_slot st uri;
       case found of
         None \<Rightarrow> Some (-1, None, st, s)
       | Some i \<Rightarrow>
           let slot = os_objects st ! i;
               (fd, s) = (if sl_backing_fd slot < 0 then sys_open O_RDONLY (sl_backing_path slot) s
                          else (sl_backing_fd slot, s));
               st = upd_slot i (\<lambda>x. x\<lparr>sl_backing_fd := fd\<rparr>) st
           in if fd < 0 then Some (-1, None, st, s)
              else let st = upd_slot i (\<lambda>x. x\<lparr>sl_hits := sl_hits x + 1\<rparr>) st;
                       info = slot_info (os_objects st ! i);
                       (res, s) = sys_dup fd s
                   in Some (res, Some info, st, s)
     }"

definition storage_get_mmap ::
    "string \<Rightarrow> object_storage \<Rightarrow> 'a vm_scheme \<Rightarrow> (nat option \<times> u64 option \<times> object_storage \<times> 'a vm_scheme) option" where
  "storage_get_mmap uri st s =
     do {
       found \<leftarrow> find_slot st uri;
       case found of
         None \<Rightarrow> Some (None, None, st, s)
       | Some i \<Rightarrow>
           let slot = os_objects st ! i;
               (st, s) =
                 (if sl_cache_mmap slot = None \<and> os_cache_dir st \<noteq> [] \<and>
                     os_cached_bytes st + sl_size slot \<le> os_cache_limit st
                  then let (fd, s) = sys_open O_RDONLY (sl_backing_path slot) s
                       in if fd \<ge> 0
                          then let (p, s) = sys_mmap (unat (sl_size slot)) fd s;
                                   st = upd_slot i (\<lambda>x. x\<lparr>sl_cache_mmap := p\<rparr>) st;
                                   st = (if p \<noteq> None then st\<lparr>os_cached_bytes := os_cached_bytes st + sl_size slot\<rparr> else st)
                               in (st, sys_close fd s)
                          else (st, s)
                  else (st, s));
               st = upd_slot i (\<lambda>x. x\<lparr>sl_hits := sl_hits x + 1\<rparr>) st
           in Some (sl_cache_mmap (os_objects st ! i), Some (sl_size (os_objects st ! i)), st, s)
     }"

definition storage_get_info :: "string \<Rightarrow> object_storage \<Rightarrow> object_info option option" where
  "storage_get_info uri st =
     do { found \<leftarrow> find_slot st uri; Some (map_option (\<lambda>i. slot_info (os_objects st ! i)) found) }"

text \<open>The slot keeps its address, descriptor number and counters when it is given up.\<close>

definition storage_remove ::
    "string \<Rightarrow> object_storage \<Rightarrow> 'a vm_scheme \<Rightarrow> (bool \<times> object_storage \<times> 'a vm_scheme) option" where
  "storage_remove uri st s =
     do {
       found \<leftarrow> find_slot st uri;
       case found of
         None \<Rightarrow> Some (False, st, s)
       | Some i \<Rightarrow>
           let slot = os_objects st ! i;
               s = (if sl_backing_fd slot \<ge> 0 then sys_close (sl_backing_fd slot) s else s);
               (st, s) = (case sl_cache_mmap slot of
                            None \<Rightarrow> (st, s)
                          | Some p \<Rightarrow> (st\<lparr>os_cached_bytes := os_cached_bytes st - sl_size slot\<rparr>, sys_munmap p (unat (sl_size slot)) s));
               s = sys_unlink (sl_backing_path slot) s;
               s = (if sl_cache_path slot \<noteq> [] then sys_unlink (sl_cache_path slot) s else s);
               st = upd_slot i (\<lambda>x. x\<lparr>sl_in_use := False\<rparr>) st
           in Some (True, st\<lparr>os_count := os_count st - 1\<rparr>, s)
     }"

definition storage_get_stats :: "object_storage \<Rightarrow> u64 \<times> u64 \<times> u64" where
  "storage_get_stats st =
     (os_count st, os_cached_bytes st, foldl (\<lambda>hits x. if sl_in_use x then hits + sl_hits x else hits) 0 (os_objects st))"

definition cleanup_slot :: "object_slot \<Rightarrow> 'a vm_scheme \<Rightarrow> 'a vm_scheme" where
  "cleanup_slot x s =
     (if sl_in_use x
      then let s = (if sl_backing_fd x \<ge> 0 then sys_close (sl_backing_fd x) s else s)
           in case sl_cache_mmap x of None \<Rightarrow> s | Some p \<Rightarrow> sys_munmap p (unat (sl_size x)) s
      else s)"

definition storage_cleanup :: "object_storage \<Rightarrow> 'a vm_scheme \<Rightarrow> 'a vm_scheme" where
  "storage_cleanup st s = fold cleanup_slot (os_objects st) s"

end
