(* ===== verification/Storage_Laws.thy ===== *)
theory Storage_Laws
  imports Storage
begin

text \<open>
  The storage library as a map from URIs to slots: the interface of such a store as a locale,
  the invariant of the slots and the hash table under which the library meets it, and the
  properties that follow.
\<close>

section \<open>The interface of a store\<close>

text \<open>
  \<open>rep st m\<close>: the store \<open>st\<close> holds the map \<open>m\<close> from URIs to slots. \<open>room st\<close>: a new object
  fits. Putting an object enters its URI, whatever becomes of the data.
\<close>

locale slot_store =
  fixes rep :: "'st \<Rightarrow> (string \<Rightarrow> nat option) \<Rightarrow> bool"
    and fine :: "'s \<Rightarrow> bool"
    and room :: "'st \<Rightarrow> bool"
    and valid :: "string \<Rightarrow> bool"
    and find_uri :: "'st \<Rightarrow> string \<Rightarrow> nat option option"
    and put :: "string \<Rightarrow> 'd \<Rightarrow> 'st \<Rightarrow> 's \<Rightarrow> (bool \<times> 'st \<times> 's) option"
    and del :: "string \<Rightarrow> 'st \<Rightarrow> 's \<Rightarrow> (bool \<times> 'st \<times> 's) option"
  assumes find_law: "rep st m \<Longrightarrow> find_uri st u = Some (m u)"
    and put_law: "rep st m \<Longrightarrow> fine s \<Longrightarrow> valid u \<Longrightarrow> room st \<or> m u \<noteq> None \<Longrightarrow>
      \<exists>i ok st' s'. put u d st s = Some (ok, st', s') \<and> rep st' (m(u \<mapsto> i)) \<and> (m u \<noteq> None \<longrightarrow> m u = Some i)"
    and del_law: "rep st m \<Longrightarrow> \<exists>st' s'. del u st s = Some (m u \<noteq> None, st', s') \<and> rep st' (m(u := None))"
begin

lemma put_find:
  assumes "rep st m" "fine s" "valid u" "room st \<or> m u \<noteq> None"
  shows "\<exists>ok st' s'. put u d st s = Some (ok, st', s') \<and> (\<exists>i. find_uri st' u = Some (Some i)) \<and>
     (\<forall>v. v \<noteq> u \<longrightarrow> find_uri st' v = find_uri st v)"
  using put_law [OF assms, of d] find_law [OF assms(1)] find_law by fastforce

lemma del_find:
  assumes "rep st m"
  shows "\<exists>ok st' s'. del u st s = Some (ok, st', s') \<and> (ok \<longleftrightarrow> find_uri st u \<noteq> Some None) \<and> find_uri st' u = Some None \<and>
     (\<forall>v. v \<noteq> u \<longrightarrow> find_uri st' v = find_uri st v)"
  using del_law [OF assms, of u s] find_law [OF assms] find_law by fastforce

end

section \<open>The invariant\<close>

definition storage_ok :: "object_storage \<Rightarrow> bool" where
  "storage_ok st \<longleftrightarrow>
     0 < length (os_hash_table st) \<and> length (os_hash_table st) < 2 ^ 64 \<and> length (os_objects st) < 2 ^ 64 \<and>
     (\<forall>es \<in> set (os_hash_table st). \<forall>e \<in> set es. he_slot_index e < length (os_objects st)) \<and>
     (\<forall>i < length (os_objects st). sl_in_use (os_objects st ! i) \<longrightarrow>
        (\<exists>e \<in> set (os_hash_table st ! bucket_index st (hash_uri (sl_uri (os_objects st ! i)))).
           he_hash e = hash_uri (sl_uri (os_objects st ! i)) \<and> he_slot_index e = i)) \<and>
     (\<forall>i < length (os_objects st). \<forall>j < length (os_objects st).
        sl_in_use (os_objects st ! i) \<and> sl_in_use (os_objects st ! j) \<and>
        sl_uri (os_objects st ! i) = sl_uri (os_objects st ! j) \<longrightarrow> i = j) \<and>
     os_count st = of_nat (length (filter sl_in_use (os_objects st)))"

definition st_rep :: "object_storage \<Rightarrow> (string \<Rightarrow> nat option) \<Rightarrow> bool" where
  "st_rep st m \<longleftrightarrow> storage_ok st \<and>
     (\<forall>u i. m u = Some i \<longleftrightarrow> i < length (os_objects st) \<and> sl_in_use (os_objects st ! i) \<and> sl_uri (os_objects st ! i) = u)"

lemma bucket_index_less: "storage_ok st \<Longrightarrow> bucket_index st h < length (os_hash_table st)"
proof -
  assume "storage_ok st"
  then have n: "0 < length (os_hash_table st)" "length (os_hash_table st) < 2 ^ 64" by (simp_all add: storage_ok_def)
  then have "unat (of_nat (length (os_hash_table st)) :: u64) = length (os_hash_table st)"
    by (simp add: unat_of_nat take_bit_nat_eq_self)
  with n(1) show ?thesis by (simp add: bucket_index_def unat_mod_distrib)
qed

lemma find_in_chain_total:
  assumes "\<forall>e \<in> set es. he_slot_index e < length objects"
  shows "\<exists>r. find_in_chain objects h u es = Some r \<and>
    (case r of
       None \<Rightarrow> \<forall>e \<in> set es. he_hash e = h \<longrightarrow>
                 \<not> (sl_in_use (objects ! he_slot_index e) \<and> sl_uri (objects ! he_slot_index e) = u)
     | Some i \<Rightarrow> i < length objects \<and> sl_in_use (objects ! i) \<and> sl_uri (objects ! i) = u)"
  using assms by (induction es) (auto simp: Let_def split: option.splits)

lemma find_slot_map:
  assumes "st_rep st m"
  shows "find_slot st u = Some (m u)"
proof -
  have ok: "storage_ok st" using assms by (simp add: st_rep_def)
  let ?es = "os_hash_table st ! bucket_index st (hash_uri u)"
  have "?es \<in> set (os_hash_table st)" using bucket_index_less [OF ok] by simp
  then have "\<forall>e \<in> set ?es. he_slot_index e < length (os_objects st)" using ok unfolding storage_ok_def by blast
  from find_in_chain_total [OF this, of "hash_uri u" u] obtain r where
    r: "find_in_chain (os_objects st) (hash_uri u) u ?es = Some r" and
    c: "case r of
       None \<Rightarrow> \<forall>e \<in> set ?es. he_hash e = hash_uri u \<longrightarrow>
                 \<not> (sl_in_use (os_objects st ! he_slot_index e) \<and> sl_uri (os_objects st ! he_slot_index e) = u)
     | Some i \<Rightarrow> i < length (os_objects st) \<and> sl_in_use (os_objects st ! i) \<and> sl_uri (os_objects st ! i) = u" by blast
  have f: "find_slot st u = Some r"
    using r bucket_index_less [OF ok, of "hash_uri u"] by (simp add: find_slot_def Let_def)
  have "r = m u"
  proof (cases r)
    case (Some i)
    with c assms have "m u = Some i" unfolding st_rep_def by simp
    with Some show ?thesis by simp
  next
    case None
    have "m u = None"
    proof (rule ccontr)
      assume "m u \<noteq> None"
      then obtain i where i: "m u = Some i" by auto
      then have "i < length (os_objects st)" "sl_in_use (os_objects st ! i)" "sl_uri (os_objects st ! i) = u"
        using assms unfolding st_rep_def by auto
      with ok obtain e where "e \<in> set ?es" "he_hash e = hash_uri u" "he_slot_index e = i"
        unfolding storage_ok_def by blast
      with c None \<open>sl_in_use (os_objects st ! i)\<close> \<open>sl_uri (os_objects st ! i) = u\<close> show False by auto
    qed
    with None show ?thesis by simp
  qed
  with f show ?thesis by simp
qed

text \<open>Changes that keep the URIs and the use of the slots.\<close>

lemma rep_same_slots:
  assumes "st_rep st m" "os_hash_table st' = os_hash_table st" "os_count st' = os_count st"
    and "map sl_in_use (os_objects st') = map sl_in_use (os_objects st)" "map sl_uri (os_objects st') = map sl_uri (os_objects st)"
  shows "st_rep st' m"
proof -
  have len: "length (os_objects st') = length (os_objects st)" using assms(4) map_eq_imp_length_eq by blast
  have use: "sl_in_use (os_objects st' ! i) = sl_in_use (os_objects st ! i)"
      "sl_uri (os_objects st' ! i) = sl_uri (os_objects st ! i)" if "i < length (os_objects st)" for i
    using that assms(4,5) len by (metis nth_map)+
  have cnt: "length (filter sl_in_use (os_objects st')) = length (filter sl_in_use (os_objects st))"
  proof -
    have c: "length (filter sl_in_use xs) = length (filter id (map sl_in_use xs))" for xs
      by (simp add: filter_map)
    show ?thesis unfolding c assms(4) ..
  qed
  have bi: "bucket_index st' h = bucket_index st h" for h using assms(2) by (simp add: bucket_index_def)
  show ?thesis
    using assms(1) unfolding st_rep_def storage_ok_def by (simp add: len use cnt bi assms(2,3) cong: conj_cong)
qed

lemma upd_slot_simps [simp]:
  "os_hash_table (upd_slot i f st) = os_hash_table st" "os_count (upd_slot i f st) = os_count st"
  "os_backing_dir (upd_slot i f st) = os_backing_dir st" "length (os_objects (upd_slot i f st)) = length (os_objects st)"
  "os_cached_bytes (upd_slot i f st) = os_cached_bytes st" "os_cache_limit (upd_slot i f st) = os_cache_limit st"
  "os_cache_dir (upd_slot i f st) = os_cache_dir st"
  by (simp_all add: upd_slot_def)

lemma upd_slot_nth: "i < length (os_objects st) \<Longrightarrow> os_objects (upd_slot i f st) ! j =
    (if j = i then f (os_objects st ! i) else os_objects st ! j)"
  by (simp add: upd_slot_def nth_list_update)

lemma rep_upd_slot:
  assumes "st_rep st m" "\<And>x. sl_in_use (f x) = sl_in_use x" "\<And>x. sl_uri (f x) = sl_uri x"
  shows "st_rep (upd_slot i f st) m"
proof (rule rep_same_slots [OF assms(1)])
  show "map sl_in_use (os_objects (upd_slot i f st)) = map sl_in_use (os_objects st)"
    using assms(2) by (cases "i < length (os_objects st)") (simp_all add: upd_slot_def map_update list_update_same_conv list_update_beyond)
  show "map sl_uri (os_objects (upd_slot i f st)) = map sl_uri (os_objects st)"
    using assms(3) by (cases "i < length (os_objects st)") (simp_all add: upd_slot_def map_update list_update_same_conv list_update_beyond)
qed simp_all

section \<open>Operations on the map\<close>

lemma fresh_rep:
  assumes "os_objects st = replicate n zero_slot" "os_hash_table st = replicate k []" "os_count st = 0"
    and "n < 2 ^ 64" "0 < k" "k < 2 ^ 64"
  shows "st_rep st Map.empty"
proof -
  have z: "\<not> sl_in_use (os_objects st ! i)" if "i < n" for i using that assms(1) by (simp add: zero_slot_def)
  have "filter sl_in_use (os_objects st) = []" using assms(1) by (simp add: zero_slot_def)
  then show ?thesis using assms z unfolding st_rep_def storage_ok_def by auto
qed

lemma free_slot_cases:
  "case free_slot xs of None \<Rightarrow> (\<forall>x \<in> set xs. sl_in_use x) | Some i \<Rightarrow> i < length xs \<and> \<not> sl_in_use (xs ! i)"
  by (induction xs) (auto split: option.splits)

lemma filter_use_update:
  assumes "i < length xs" "\<not> sl_in_use (xs ! i)" "sl_in_use x"
  shows "length (filter sl_in_use (xs[i := x])) = Suc (length (filter sl_in_use xs))"
  using assms by (induction xs arbitrary: i) (auto split: nat.split simp: nth_Cons')

lemma filter_use_free:
  assumes "i < length xs" "sl_in_use (xs ! i)" "\<not> sl_in_use x"
  shows "Suc (length (filter sl_in_use (xs[i := x]))) = length (filter sl_in_use xs)"
  using assms by (induction xs arbitrary: i) (auto split: nat.split simp: nth_Cons')

lemma take_slot_rep:
  assumes r: "st_rep st m" and new: "m u = None" and u: "length u < 1024"
    and nf: "no_faults s" and room: "os_count st < of_nat (length (os_objects st))"
  shows "\<exists>i st' s'. take_slot u st s = (Some i, st', s') \<and> st_rep st' (m(u \<mapsto> i)) \<and>
    os_backing_dir st' = os_backing_dir st \<and> (\<exists>t. s' = s\<lparr>faults := t\<rparr> \<and> True \<notin> set t)"
proof -
  let ?xs = "os_objects st"
  have ok: "storage_ok st" and m: "\<And>u i. m u = Some i \<longleftrightarrow> i < length ?xs \<and> sl_in_use (?xs ! i) \<and> sl_uri (?xs ! i) = u"
    using r by (auto simp: st_rep_def)
  have cnt: "os_count st = of_nat (length (filter sl_in_use ?xs))" and len: "length ?xs < 2 ^ 64"
    using ok by (simp_all add: storage_ok_def)
  have "length (filter sl_in_use ?xs) \<noteq> length ?xs" using room cnt by auto
  then have "\<not> (\<forall>x \<in> set ?xs. sl_in_use x)" by (metis filter_True)
  then obtain i where i: "free_slot ?xs = Some i" "i < length ?xs" "\<not> sl_in_use (?xs ! i)"
    using free_slot_cases [of ?xs] by (auto split: option.splits)
  obtain t where t: "fault s = (False, s\<lparr>faults := t\<rparr>)" "True \<notin> set t" using no_faults_fault [OF nf] .
  let ?x = "(?xs ! i)\<lparr>sl_in_use := True, sl_uri := u\<rparr>" and ?h = "hash_uri u"
  let ?b = "bucket_index st ?h" and ?T = "os_hash_table st"
  let ?e = "\<lparr>he_hash = ?h, he_slot_index = i\<rparr>"
  define st' where "st' = st\<lparr>os_objects := ?xs[i := ?x], os_count := os_count st + 1,
      os_hash_table := ?T[?b := ?e # ?T ! ?b]\<rparr>"
  have run: "take_slot u st s = (Some i, st', s\<lparr>faults := t\<rparr>)"
    using room i(1) t(1) u
    by (simp add: take_slot_def Let_def add_hash_entry_def upd_slot_def snprintf_buf_id bucket_index_def st'_def linorder_not_le)
  have b: "?b < length ?T" by (rule bucket_index_less [OF ok])
  have bi: "bucket_index st' h = bucket_index st h" for h by (simp add: bucket_index_def st'_def)
  have x: "os_objects st' ! j = (if j = i then ?x else ?xs ! j)" "length (os_objects st') = length ?xs" for j
    using i(2) by (simp_all add: st'_def nth_list_update)
  have T: "set (os_hash_table st' ! k) = (if k = ?b then insert ?e (set (?T ! ?b)) else set (?T ! k))" for k
    using b by (simp add: st'_def nth_list_update)
  have uniq: "j = i" if "j < length ?xs" "sl_in_use (os_objects st' ! j)" "sl_uri (os_objects st' ! j) = u" for j
    using that m [of u j] new by (auto simp: x split: if_splits)
  have in_chain: "\<And>j. j < length ?xs \<Longrightarrow> sl_in_use (?xs ! j) \<Longrightarrow>
      \<exists>e \<in> set (?T ! bucket_index st (hash_uri (sl_uri (?xs ! j)))). he_hash e = hash_uri (sl_uri (?xs ! j)) \<and> he_slot_index e = j"
    using ok unfolding storage_ok_def by blast
  have ok': "storage_ok st'"
    unfolding storage_ok_def
  proof (intro conjI ballI allI impI)
    show "0 < length (os_hash_table st')" "length (os_hash_table st') < 2 ^ 64" "length (os_objects st') < 2 ^ 64"
      using ok by (simp_all add: storage_ok_def st'_def)
    show "os_count st' = of_nat (length (filter sl_in_use (os_objects st')))"
      using cnt filter_use_update [OF i(2,3), of ?x] by (simp add: st'_def)
  next
    fix es e assume es: "es \<in> set (os_hash_table st')" "e \<in> set es"
    have "set (os_hash_table st') \<subseteq> insert (?e # ?T ! ?b) (set ?T)" by (simp add: st'_def set_update_subset_insert)
    moreover have "\<forall>es \<in> set ?T. \<forall>e \<in> set es. he_slot_index e < length ?xs" using ok by (simp add: storage_ok_def)
    moreover have "?T ! ?b \<in> set ?T" using b by simp
    ultimately show "he_slot_index e < length (os_objects st')" using es i(2) x(2) by (metis (no_types, lifting) hash_entry.select_convs(2) insert_iff set_ConsD subsetD)
  next
    fix j assume j: "j < length (os_objects st')" "sl_in_use (os_objects st' ! j)"
    let ?hj = "hash_uri (sl_uri (os_objects st' ! j))"
    show "\<exists>e \<in> set (os_hash_table st' ! bucket_index st' ?hj). he_hash e = ?hj \<and> he_slot_index e = j"
    proof (cases "j = i")
      case True
      then show ?thesis by (simp add: x bi T)
    next
      case False
      then have "sl_in_use (?xs ! j)" "sl_uri (os_objects st' ! j) = sl_uri (?xs ! j)" "j < length ?xs" using j by (simp_all add: x)
      then obtain e where "e \<in> set (?T ! bucket_index st ?hj)" "he_hash e = ?hj" "he_slot_index e = j"
        using in_chain by metis
      then show ?thesis unfolding bi T by (intro bexI [of _ e]) auto
    qed
  next
    fix j k assume jk: "j < length (os_objects st')" "k < length (os_objects st')"
      "sl_in_use (os_objects st' ! j) \<and> sl_in_use (os_objects st' ! k) \<and> sl_uri (os_objects st' ! j) = sl_uri (os_objects st' ! k)"
    show "j = k"
    proof (cases "j = i \<or> k = i")
      case True
      have "sl_uri (os_objects st' ! i) = u" by (simp add: x(1))
      with True jk(3) have "sl_uri (os_objects st' ! j) = u" "sl_uri (os_objects st' ! k) = u" by metis+
      then have "j = i" "k = i" using uniq jk x(2) by metis+
      then show ?thesis by simp
    next
      case False
      then show ?thesis using jk ok unfolding storage_ok_def by (simp add: x)
    qed
  qed
  have "(m(u \<mapsto> i)) v = Some j \<longleftrightarrow> j < length (os_objects st') \<and> sl_in_use (os_objects st' ! j) \<and> sl_uri (os_objects st' ! j) = v" for v j
  proof (cases "v = u")
    case True
    then show ?thesis using uniq [of j] i(2) by (auto simp: x)
  next
    case False
    then show ?thesis using m [of v j] i(3) by (auto simp: x)
  qed
  with ok' have "st_rep st' (m(u \<mapsto> i))" unfolding st_rep_def by blast
  moreover have "os_backing_dir st' = os_backing_dir st" by (simp add: st'_def)
  ultimately show ?thesis using run t(2) by blast
qed

lemma write_backing_rep:
  assumes "st_rep st m" "write_backing i u d st s = (ok, st', s')"
  shows "st_rep st' m"
proof -
  have a: "st_rep (upd_slot i (\<lambda>x. x\<lparr>sl_backing_path := p\<rparr>) st) m" for p by (rule rep_upd_slot [OF assms(1)]) simp_all
  have b: "st_rep (upd_slot i (\<lambda>x. x\<lparr>sl_size := n, sl_backing_fd := k\<rparr>) (upd_slot i (\<lambda>x. x\<lparr>sl_backing_path := p\<rparr>) st)) m" for n k p
    by (rule rep_upd_slot [OF a]) simp_all
  show ?thesis using assms(2) a b
    by (auto simp: write_backing_def Let_def split: prod.split_asm if_split_asm kres.split_asm)
qed

lemma put_rep:
  assumes "st_rep st m" "no_faults s" "length u < 1024" "os_count st < of_nat (length (os_objects st)) \<or> m u \<noteq> None"
  shows "\<exists>i ok st' s'. storage_put u d st s = Some (ok, st', s') \<and> st_rep st' (m(u \<mapsto> i)) \<and> (m u \<noteq> None \<longrightarrow> m u = Some i)"
proof (cases "m u")
  case None
  with assms(4) have "os_count st < of_nat (length (os_objects st))" by simp
  from take_slot_rep [OF assms(1) None assms(3,2) this] obtain i st1 s1 where
    t: "take_slot u st s = (Some i, st1, s1)" "st_rep st1 (m(u \<mapsto> i))" by blast
  obtain ok st' s' where w: "write_backing i u d st1 s1 = (ok, st', s')" by (cases "write_backing i u d st1 s1")
  from write_backing_rep [OF t(2) w] w t(1) None find_slot_map [OF assms(1), of u] show ?thesis
    by (auto simp: storage_put_def)
next
  case (Some i)
  obtain ok st' s' where w: "write_backing i u d st s = (ok, st', s')" by (cases "write_backing i u d st s")
  have "m(u \<mapsto> i) = m" using Some by auto
  with write_backing_rep [OF assms(1) w] w Some find_slot_map [OF assms(1), of u] show ?thesis
    by (simp add: storage_put_def)
qed

lemma free_rep:
  assumes r: "st_rep st m" and u: "m u = Some i"
  shows "st_rep (upd_slot i (\<lambda>x. x\<lparr>sl_in_use := False\<rparr>) st\<lparr>os_count := os_count st - 1\<rparr>) (m(u := None))"
proof -
  let ?xs = "os_objects st" and ?x = "(os_objects st ! i)\<lparr>sl_in_use := False\<rparr>"
  let ?st = "upd_slot i (\<lambda>x. x\<lparr>sl_in_use := False\<rparr>) st\<lparr>os_count := os_count st - 1\<rparr>"
  have ok: "storage_ok st" and m: "\<And>u i. m u = Some i \<longleftrightarrow> i < length ?xs \<and> sl_in_use (?xs ! i) \<and> sl_uri (?xs ! i) = u"
    using r by (auto simp: st_rep_def)
  have i: "i < length ?xs" "sl_in_use (?xs ! i)" "sl_uri (?xs ! i) = u" using m [of u i] u by auto
  have x: "os_objects ?st ! j = (if j = i then ?x else ?xs ! j)" "length (os_objects ?st) = length ?xs" for j
    using i(1) by (simp_all add: upd_slot_nth)
  have bi: "bucket_index ?st h = bucket_index st h" for h by (simp add: bucket_index_def)
  have "Suc (length (filter sl_in_use (?xs[i := ?x]))) = length (filter sl_in_use ?xs)"
    by (rule filter_use_free [OF i(1,2)]) simp
  then have "of_nat (length (filter sl_in_use ?xs)) - 1 = (of_nat (length (filter sl_in_use (?xs[i := ?x]))) :: u64)"
    by (metis add_diff_cancel_left' of_nat_Suc)
  then have cnt: "os_count ?st = of_nat (length (filter sl_in_use (os_objects ?st)))"
    using ok by (simp add: storage_ok_def upd_slot_def)
  have "storage_ok ?st"
    unfolding storage_ok_def bi x(2)
  proof (intro conjI)
    show "\<forall>j < length ?xs. \<forall>k < length ?xs. sl_in_use (os_objects ?st ! j) \<and> sl_in_use (os_objects ?st ! k) \<and>
        sl_uri (os_objects ?st ! j) = sl_uri (os_objects ?st ! k) \<longrightarrow> j = k"
      using ok unfolding storage_ok_def x(1) by auto
    show "\<forall>j < length ?xs. sl_in_use (os_objects ?st ! j) \<longrightarrow>
        (\<exists>e \<in> set (os_hash_table ?st ! bucket_index st (hash_uri (sl_uri (os_objects ?st ! j)))).
           he_hash e = hash_uri (sl_uri (os_objects ?st ! j)) \<and> he_slot_index e = j)"
      using ok unfolding storage_ok_def x(1) by simp
  qed (use ok cnt in \<open>simp_all add: storage_ok_def\<close>)
  moreover have "(m(u := None)) v = Some j \<longleftrightarrow> j < length (os_objects ?st) \<and> sl_in_use (os_objects ?st ! j) \<and> sl_uri (os_objects ?st ! j) = v" for v j
    unfolding x using m [of v j] m [of u j] u i by auto
  ultimately show ?thesis unfolding st_rep_def by blast
qed

lemma remove_rep:
  assumes "st_rep st m"
  shows "\<exists>st' s'. storage_remove u st s = Some (m u \<noteq> None, st', s') \<and> st_rep st' (m(u := None))"
proof (cases "m u")
  case None
  then have "m(u := None) = m" by auto
  with None find_slot_map [OF assms, of u] assms show ?thesis by (simp add: storage_remove_def)
next
  case (Some i)
  let ?st = "case sl_cache_mmap (os_objects st ! i) of None \<Rightarrow> st
      | Some p \<Rightarrow> st\<lparr>os_cached_bytes := os_cached_bytes st - sl_size (os_objects st ! i)\<rparr>"
  have "st_rep ?st m" by (rule rep_same_slots [OF assms]) (simp_all split: option.split)
  from free_rep [OF this Some] find_slot_map [OF assms, of u] Some show ?thesis
    by (auto simp: storage_remove_def Let_def split: option.splits)
qed

interpretation ss: slot_store st_rep "no_faults :: 'a vm_scheme \<Rightarrow> bool" "\<lambda>st. os_count st < of_nat (length (os_objects st))"
    "\<lambda>u. length u < 1024" find_slot "storage_put :: string \<Rightarrow> bytes \<Rightarrow> object_storage \<Rightarrow> 'a vm_scheme \<Rightarrow> _" storage_remove
  by unfold_locales (rule find_slot_map, assumption, rule put_rep, assumption+, rule remove_rep, assumption)

section \<open>What the calls leave alone\<close>

lemma fault_more: "fault s = (b, s') \<Longrightarrow> os.more s' = os.more s"
  by (auto simp: fault_def split: list.splits)

lemma new_ofd_more: "new_ofd ino acc s = (fd, s') \<Longrightarrow> os.more s' = os.more s"
  by (auto simp: new_ofd_def install_fd_def Let_def)

lemma creat_more: "sys_open_creat acc path s = (fd, s') \<Longrightarrow> os.more s' = os.more s"
  by (auto simp: sys_open_creat_def dest!: new_ofd_more fault_more split: prod.split_asm if_split_asm option.split_asm)

lemma file_write_more: "file_write fd bs s = (r, s') \<Longrightarrow> os.more s' = os.more s"
  by (auto simp: file_write_def Let_def split: option.split_asm if_split_asm)

lemma write_backing_more: "write_backing i u d st s = (ok, st', s') \<Longrightarrow> os.more s' = os.more s"
  by (auto simp: write_backing_def Let_def sys_close_simps dest!: creat_more file_write_more
      split: prod.split_asm if_split_asm kres.split_asm)

lemma take_slot_more: "take_slot u st s = (i, st', s') \<Longrightarrow> os.more s' = os.more s"
  by (auto simp: take_slot_def add_hash_entry_def Let_def dest!: fault_more
      split: prod.split_asm if_split_asm option.split_asm)

lemma vm_more:
  assumes "os.more s' = os.more s" shows "mmaps s' = mmaps s"
  using assms by (cases s; cases s'; simp)

lemma unlink_mmaps [simp]: "mmaps (sys_unlink p s) = mmaps s"
  by (auto simp: sys_unlink_def fault_def split: list.splits prod.splits)

end
