(* ===== verification/Storage_Props.thy ===== *)
theory Storage_Props
  imports Storage_Laws
begin

text \<open>
  Properties of the storage library: it implements a map, what is put is what is read back,
  and two ways in which the state of a slot outlives its object.
\<close>

text \<open>
  C28: The storage library implements a map from URIs to objects: with room for an object
  and a URI that fits, \<open>storage_put\<close> makes the URI found and changes nothing for any other
  URI, and \<open>storage_remove\<close> then reports success and removes exactly this URI, whatever
  other removals left in the collision chains. The invariant of slots and hash table is kept.
\<close>

theorem storage_refines_map:
  fixes s :: "'a vm_scheme"
  assumes "st_rep st m" "no_faults s" "length u < 1024" "os_count st < of_nat (length (os_objects st))"
  shows "\<exists>ok st' s' i. storage_put u d st s = Some (ok, st', s') \<and> st_rep st' (m(u \<mapsto> i)) \<and>
     (\<forall>v. v \<noteq> u \<longrightarrow> find_slot st' v = find_slot st v) \<and>
     (\<forall>t :: 'a vm_scheme. \<exists>st2 s2. storage_remove u st' t = Some (True, st2, s2) \<and> st_rep st2 (m(u := None)) \<and>
        find_slot st2 u = Some None \<and> (\<forall>v. v \<noteq> u \<longrightarrow> find_slot st2 v = find_slot st v))"
proof -
  obtain i ok st' s' where p: "storage_put u d st s = Some (ok, st', s')" "st_rep st' (m(u \<mapsto> i))"
    using ss.put_law [OF assms(1-3), of d] assms(4) by blast
  have "\<forall>v. v \<noteq> u \<longrightarrow> find_slot st' v = find_slot st v" using ss.find_law [OF p(2)] ss.find_law [OF assms(1)] by simp
  moreover have "\<exists>st2 s2. storage_remove u st' t = Some (True, st2, s2) \<and> st_rep st2 (m(u := None)) \<and>
        find_slot st2 u = Some None \<and> (\<forall>v. v \<noteq> u \<longrightarrow> find_slot st2 v = find_slot st v)" for t :: "'a vm_scheme"
  proof -
    obtain st2 s2 where r: "storage_remove u st' t = Some (True, st2, s2)" "st_rep st2 (m(u := None))"
      using ss.del_law [OF p(2), of u t] by auto
    with ss.find_law [OF r(2)] ss.find_law [OF assms(1)] show ?thesis by simp
  qed
  ultimately show ?thesis using p by blast
qed

definition small_store :: object_storage where
  "small_store = \<lparr>os_backing_dir = ''/s'', os_cache_dir = ''/c'', os_cache_limit = 100, os_cached_bytes = 0,
     os_objects = [zero_slot, zero_slot], os_count = 0, os_hash_table = [[]]\<rparr>"

definition small_vm :: vm where
  "small_vm = os.extend (os_init\<lparr>is_dir := (\<lambda>p. p = ''/s'')\<rparr>) \<lparr>mmaps = Map.empty, next_map = 0\<rparr>"

lemma small_simps [simp]:
  "os_count small_store = 0" "os_objects small_store = [zero_slot, zero_slot]" "os_backing_dir small_store = ''/s''"
  "faults small_vm = []" "dir small_vm = Map.empty" "is_dir small_vm = (\<lambda>p. p = ''/s'')" "fio_ev small_vm = []"
  "fds small_vm = []" "mmaps small_vm = Map.empty"
  by (simp_all add: small_store_def small_vm_def os.defs os_init_def)

lemma small_no_faults: "no_faults small_vm"
  by (simp add: no_faults_def)

lemma small_rep: "st_rep small_store Map.empty"
proof (rule fresh_rep [of _ 2 1])
  show "os_objects small_store = replicate 2 zero_slot" by (simp add: numeral_2_eq_2)
qed (simp_all add: small_store_def)

theorem storage_refines_map_witness:
  "\<exists>ok st' s'. storage_put ''a'' [1, 2] small_store small_vm = Some (ok, st', s') \<and>
     (\<exists>st2 s2. storage_remove ''a'' st' small_vm = Some (True, st2, s2) \<and> find_slot st2 ''a'' = Some None)"
proof -
  have "length ''a'' < 1024" "os_count small_store < of_nat (length (os_objects small_store))" by simp_all
  from storage_refines_map [OF small_rep small_no_faults this, of "[1, 2]"] obtain ok st' s' where
    p: "storage_put ''a'' [1, 2] small_store small_vm = Some (ok, st', s')" and
    r: "\<forall>t :: vm. \<exists>st2 s2. storage_remove ''a'' st' t = Some (True, st2, s2) \<and> st_rep st2 (Map.empty(''a'' := None)) \<and>
        find_slot st2 ''a'' = Some None \<and> (\<forall>v. v \<noteq> ''a'' \<longrightarrow> find_slot st2 v = find_slot small_store v)"
    by (elim exE conjE) (rule that, assumption+)
  from r [THEN spec, of small_vm] have r2: "\<exists>st2 s2. storage_remove ''a'' st' small_vm = Some (True, st2, s2) \<and> find_slot st2 ''a'' = Some None"
    by (elim exE conjE) (intro exI conjI, assumption+)
  show ?thesis by (rule exI [of _ ok], rule exI [of _ st'], rule exI [of _ s'], rule conjI [OF p r2])
qed

section \<open>Reading back\<close>

lemma write_backing_ok:
  assumes "i < length (os_objects st)" "no_faults s" "fio_ev s = []"
    and "length (os_backing_dir st @ ''/'' @ u) < 1024"
    and "dir s (os_backing_dir st @ ''/'' @ u) = None \<Longrightarrow>
      \<not> is_dir s (os_backing_dir st @ ''/'' @ u) \<and> parent_ok s (os_backing_dir st @ ''/'' @ u)"
  obtains st' s' ino where "write_backing i u d st s = (True, st', s')"
    "dir s' (os_backing_dir st @ ''/'' @ u) = Some ino" "inodes s' ino = d" "no_faults s'" "fio_ev s' = []"
    "os_objects st' = (os_objects st)[i := (os_objects st ! i)\<lparr>sl_backing_path := os_backing_dir st @ ''/'' @ u,
       sl_size := of_nat (length d), sl_backing_fd := -1\<rparr>]"
proof -
  let ?p = "os_backing_dir st @ ''/'' @ u"
  obtain fd s1 o1 ino where c: "sys_open_creat O_WRONLY ?p s = (fd, s1)" "0 \<le> fd" "fd_obj s fd = None" "fd_obj s1 fd = Some o1"
    "ofds s1 o1 = \<lparr>of_ino = ino, of_off = 0, of_acc = O_WRONLY\<rparr>" "dir s1 = (dir s)(?p \<mapsto> ino)"
    "ino = (case dir s ?p of None \<Rightarrow> next_ino s | Some i \<Rightarrow> i)" "inodes s1 = (inodes s)(ino := [])"
    "no_faults s1" "os.more s1 = os.more s" "\<forall>x. x \<noteq> fd \<longrightarrow> fd_obj s1 x = fd_obj s x"
    using creat_ok [OF assms(2,5), of O_WRONLY] .
  have fio: "fio_ev s1 = []" using c(1) assms(3)
    by (auto simp: sys_open_creat_def fault_def new_ofd_def install_fd_def Let_def
        split: list.split_asm prod.split_asm if_split_asm option.split_asm)
  let ?s2 = "s1\<lparr>fio_ev := [], inodes := (inodes s1)(ino := d), ofds := (ofds s1)(o1 := (ofds s1 o1)\<lparr>of_off := length d\<rparr>)\<rparr>"
  have w: "file_write fd d s1 = (KDone d, ?s2)"
    using c(4,5,8) fio by (simp add: file_write_def chunk_def write_at_def Let_def)
  have sn: "snprintf_buf 1024 ?p = ?p" using assms(4) by (rule snprintf_buf_id)
  let ?st = "upd_slot i (\<lambda>x. x\<lparr>sl_size := of_nat (length d), sl_backing_fd := -1\<rparr>) (upd_slot i (\<lambda>x. x\<lparr>sl_backing_path := ?p\<rparr>) st)"
  have "write_backing i u d st s = (True, ?st, sys_close fd ?s2)"
    using c(1,2) w by (simp add: write_backing_def sn [simplified] Let_def)
  then show ?thesis
    by (rule that [of _ _ ino]) (use c assms(1) in \<open>simp_all add: sys_close_simps no_faults_def upd_slot_def\<close>)
qed

lemma get_fd_open:
  assumes "st_rep st m" "m u = Some i" "sl_backing_fd (os_objects st ! i) = -1"
    and "dir s (sl_backing_path (os_objects st ! i)) = Some ino" "no_faults s"
  obtains fd info st' s' o1 where "storage_get_fd u st s = Some (fd, Some info, st', s')" "fd_obj s' fd = Some o1"
    "ofds s' o1 = \<lparr>of_ino = ino, of_off = 0, of_acc = O_RDONLY\<rparr>" "inodes s' = inodes s" "fio_ev s' = fio_ev s"
    "info = slot_info ((os_objects st ! i)\<lparr>sl_hits := sl_hits (os_objects st ! i) + 1\<rparr>)"
proof -
  have i: "i < length (os_objects st)" using assms(1,2) by (auto simp: st_rep_def)
  obtain fd s1 where o: "sys_open O_RDONLY (sl_backing_path (os_objects st ! i)) s = (fd, s1)"
    by (cases "sys_open O_RDONLY (sl_backing_path (os_objects st ! i)) s")
  from sys_open_ok [OF assms(5,4) o] have ok: "0 \<le> fd" "no_faults s1" .
  from sys_open_result(1) [OF o ok(1)] assms(4) obtain d where d: "fd_obj s1 fd = Some d"
      "ofds s1 d = \<lparr>of_ino = ino, of_off = 0, of_acc = O_RDONLY\<rparr>" by auto
  obtain f x n t where s1: "s1 = s\<lparr>faults := f, ofds := x, next_ofd := n, fds := t\<rparr>" using sys_open_frame [OF o] .
  obtain t2 where f: "fault s1 = (False, s1\<lparr>faults := t2\<rparr>)" using no_faults_fault [OF ok(2)] .
  obtain fd2 s2 where n: "install_fd d (s1\<lparr>faults := t2\<rparr>) = (fd2, s2)" by (cases "install_fd d (s1\<lparr>faults := t2\<rparr>)")
  have dup: "sys_dup fd s1 = (fd2, s2)" using f d(1) n by (simp add: sys_dup_def)
  obtain t3 where s2: "s2 = s1\<lparr>faults := t2, fds := t3\<rparr>" using install_fd_frame [OF n] .
  let ?st = "upd_slot i (\<lambda>x. x\<lparr>sl_hits := sl_hits x + 1\<rparr>) (upd_slot i (\<lambda>x. x\<lparr>sl_backing_fd := fd\<rparr>) st)"
  have run: "storage_get_fd u st s = Some (fd2, Some (slot_info (os_objects ?st ! i)), ?st, s2)"
    using find_slot_map [OF assms(1), of u] assms(2,3) o ok(1) dup
    by (simp add: storage_get_fd_def Let_def)
  have "fd_obj s2 fd2 = Some d" using install_fd_fresh(2) [OF n] .
  moreover have "slot_info (os_objects ?st ! i) = slot_info ((os_objects st ! i)\<lparr>sl_hits := sl_hits (os_objects st ! i) + 1\<rparr>)"
    using i by (simp add: slot_info_def upd_slot_def)
  moreover have "ofds s2 d = \<lparr>of_ino = ino, of_off = 0, of_acc = O_RDONLY\<rparr>" "inodes s2 = inodes s" "fio_ev s2 = fio_ev s"
    using d(2) by (simp_all add: s2 s1)
  ultimately show ?thesis using run that by simp
qed

text \<open>
  C29: What is put is what is read back: after \<open>storage_put\<close> of new data under a URI, new or
  in use, \<open>storage_get_fd\<close> returns a descriptor from which one \<open>read\<close> gets exactly the data,
  together with the URI and the size of the object.
\<close>

theorem storage_roundtrip:
  assumes "st_rep st m" "no_faults s" "fio_ev s = []" "length u < 1024" "length d < 2 ^ 64"
    and "os_count st < of_nat (length (os_objects st)) \<or> m u \<noteq> None"
    and "length (os_backing_dir st @ ''/'' @ u) < 1024"
    and "dir s (os_backing_dir st @ ''/'' @ u) = None \<Longrightarrow>
      \<not> is_dir s (os_backing_dir st @ ''/'' @ u) \<and> parent_ok s (os_backing_dir st @ ''/'' @ u)"
  shows "\<exists>st1 s1 fd info st2 s2 s3. storage_put u d st s = Some (True, st1, s1) \<and>
     storage_get_fd u st1 s1 = Some (fd, Some info, st2, s2) \<and>
     oi_uri info = u \<and> unat (oi_size info) = length d \<and> file_read fd (length d) s2 = (KDone d, s3)"
proof -
  let ?p = "os_backing_dir st @ ''/'' @ u"
  obtain i st0 s0 where t: "storage_put u d st s = Some (write_backing i u d st0 s0)" "st_rep st0 (m(u \<mapsto> i))"
    "os_backing_dir st0 = os_backing_dir st" "dir s0 = dir s" "is_dir s0 = is_dir s" "no_faults s0" "fio_ev s0 = []"
  proof (cases "m u")
    case None
    with assms(6) have "os_count st < of_nat (length (os_objects st))" by simp
    from take_slot_rep [OF assms(1) None assms(4,2) this] obtain i st' s' f where
      "take_slot u st s = (Some i, st', s')" "st_rep st' (m(u \<mapsto> i))" "os_backing_dir st' = os_backing_dir st"
      "s' = s\<lparr>faults := f\<rparr>" "True \<notin> set f" by blast
    with None find_slot_map [OF assms(1), of u] assms(3) show ?thesis
      by (intro that [of i st' s']) (simp_all add: storage_put_def no_faults_def)
  next
    case (Some i)
    then have "m(u \<mapsto> i) = m" by auto
    with Some find_slot_map [OF assms(1), of u] assms show ?thesis
      by (intro that [of i st s]) (simp_all add: storage_put_def)
  qed
  have "(m(u \<mapsto> i)) u = Some i" by simp
  then have i: "i < length (os_objects st0)" "sl_uri (os_objects st0 ! i) = u" using t(2) unfolding st_rep_def by blast+
  have pre: "dir s0 ?p = None \<Longrightarrow> \<not> is_dir s0 ?p \<and> parent_ok s0 ?p" using assms(8) t(4,5) by (simp add: parent_ok_def)
  obtain st1 s1 ino where w: "write_backing i u d st0 s0 = (True, st1, s1)" "dir s1 ?p = Some ino" "inodes s1 ino = d"
      "no_faults s1" "fio_ev s1 = []"
      "os_objects st1 = (os_objects st0)[i := (os_objects st0 ! i)\<lparr>sl_backing_path := ?p,
         sl_size := of_nat (length d), sl_backing_fd := -1\<rparr>]"
    using write_backing_ok [OF i(1) t(6,7), unfolded t(3), OF assms(7) pre] .
  have rep1: "st_rep st1 (m(u \<mapsto> i))" using write_backing_rep [OF t(2) w(1)] .
  have sl: "sl_backing_fd (os_objects st1 ! i) = -1" "sl_backing_path (os_objects st1 ! i) = ?p"
      "sl_uri (os_objects st1 ! i) = u" "sl_size (os_objects st1 ! i) = of_nat (length d)"
    using w(6) i by simp_all
  have mi: "(m(u \<mapsto> i)) u = Some i" and di: "dir s1 (sl_backing_path (os_objects st1 ! i)) = Some ino"
    using w(2) by (simp_all add: sl(2))
  obtain fd info st2 s2 o1 where g: "storage_get_fd u st1 s1 = Some (fd, Some info, st2, s2)" "fd_obj s2 fd = Some o1"
    "ofds s2 o1 = \<lparr>of_ino = ino, of_off = 0, of_acc = O_RDONLY\<rparr>" "inodes s2 = inodes s1" "fio_ev s2 = fio_ev s1"
    "info = slot_info ((os_objects st1 ! i)\<lparr>sl_hits := sl_hits (os_objects st1 ! i) + 1\<rparr>)"
    using get_fd_open [OF rep1 mi sl(1) di w(4)] .
  have "\<exists>s3. file_read fd (length d) s2 = (KDone d, s3)"
    using g(2-5) w(3,5) by (simp add: file_read_def chunk_def Let_def)
  moreover have "oi_uri info = u" "unat (oi_size info) = length d"
    using g(6) sl(3,4) assms(5) by (simp_all add: slot_info_def unat_of_nat take_bit_nat_eq_self)
  ultimately show ?thesis using t(1) w(1) g(1) by auto
qed

theorem storage_roundtrip_witness:
  "\<exists>st1 s1 fd info st2 s2 s3. storage_put ''a'' [1, 2, 3] small_store small_vm = Some (True, st1, s1) \<and>
     storage_get_fd ''a'' st1 s1 = Some (fd, Some info, st2, s2) \<and> file_read fd 3 s2 = (KDone [1, 2, 3], s3)"
proof -
  let ?p = "os_backing_dir small_store @ ''/'' @ ''a''"
  have "length ''a'' < 1024" "length ([1, 2, 3] :: bytes) < 2 ^ 64"
    "os_count small_store < of_nat (length (os_objects small_store)) \<or> Map.empty ''a'' \<noteq> (None :: nat option)"
    "length ?p < 1024" "dir small_vm ?p = None \<Longrightarrow> \<not> is_dir small_vm ?p \<and> parent_ok small_vm ?p"
    by (simp_all add: parent_ok_def dirname_def)
  from storage_roundtrip [OF small_rep small_no_faults _ this(1,2) _ this(4,5)] this(3) show ?thesis
    by (auto simp: numeral_3_eq_3)
qed

section \<open>State that outlives its object\<close>

text \<open>
  A put that fails on a new URI leaves an object behind: the slot is in use and its
  descriptor is the 0 of \<open>calloc\<close>, so \<open>storage_get_fd\<close> then hands out a duplicate of
  descriptor 0, the standard input of the process, as the contents of the object.
\<close>

theorem failed_put_exposes_stdin:
  assumes "st_rep st m" "m u = None" "no_faults s" "length u < 1024"
    and "os_count st < of_nat (length (os_objects st))" "os_objects st = replicate n zero_slot"
    and "dir s (snprintf_buf 1024 (os_backing_dir st @ ''/'' @ u)) = None"
    and "\<not> parent_ok s (snprintf_buf 1024 (os_backing_dir st @ ''/'' @ u))" "fd_obj s 0 = Some d"
  shows "\<exists>st1 s1 fd info st2 s2. storage_put u data st s = Some (False, st1, s1) \<and>
     storage_get_fd u st1 s1 = Some (fd, Some info, st2, s2) \<and> oi_uri info = u \<and> fd_obj s2 fd = Some d"
proof -
  let ?p = "snprintf_buf 1024 (os_backing_dir st @ ''/'' @ u)"
  obtain i st0 s0 f where t: "take_slot u st s = (Some i, st0, s0)" "st_rep st0 (m(u \<mapsto> i))"
      "os_backing_dir st0 = os_backing_dir st" "s0 = s\<lparr>faults := f\<rparr>" "True \<notin> set f"
    using take_slot_rep [OF assms(1,2,4,3,5)] by blast
  have "(m(u \<mapsto> i)) u = Some i" by simp
  then have i: "i < length (os_objects st0)" "sl_uri (os_objects st0 ! i) = u" using t(2) unfolding st_rep_def by blast+
  have z: "sl_backing_fd (os_objects st0 ! i) = 0"
  proof -
    obtain j where "os_objects st0 = (os_objects st)[j := (os_objects st ! j)\<lparr>sl_in_use := True, sl_uri := snprintf_buf 1024 u\<rparr>]"
      using t(1) by (auto simp: take_slot_def add_hash_entry_def upd_slot_def Let_def split: if_split_asm option.split_asm prod.split_asm)
    then show ?thesis using i(1) unfolding assms(6) by (cases "j = i") (simp_all add: zero_slot_def)
  qed
  let ?st1 = "upd_slot i (\<lambda>x. x\<lparr>sl_backing_path := ?p\<rparr>) st0"
  have "no_faults s0" using t(4,5) by (simp add: no_faults_def)
  then obtain f1 where f1: "fault s0 = (False, s0\<lparr>faults := f1\<rparr>)" "True \<notin> set f1" using no_faults_fault by blast
  then have c: "sys_open_creat O_WRONLY ?p s0 = (-1, s\<lparr>faults := f1\<rparr>)" "True \<notin> set f1"
    using assms(7,8) t(4) by (simp_all add: sys_open_creat_def parent_ok_def)
  have put: "storage_put u data st s = Some (False, ?st1, s\<lparr>faults := f1\<rparr>)"
    using find_slot_map [OF assms(1), of u] assms(2) t(1) c(1) by (simp add: storage_put_def write_backing_def Let_def t(3))
  have rep: "st_rep ?st1 (m(u \<mapsto> i))" by (rule rep_upd_slot [OF t(2)]) simp_all
  let ?s1 = "s\<lparr>faults := f1\<rparr>"
  obtain f2 where f2: "fault ?s1 = (False, s\<lparr>faults := f2\<rparr>)" proof -
    have "no_faults ?s1" using c(2) by (simp add: no_faults_def)
    then show ?thesis using no_faults_fault [of ?s1] that by auto
  qed
  obtain fd s2 where n: "install_fd d (s\<lparr>faults := f2\<rparr>) = (fd, s2)" by (cases "install_fd d (s\<lparr>faults := f2\<rparr>)")
  have "sys_dup 0 ?s1 = (fd, s2)" using f2 n assms(9) by (simp add: sys_dup_def)
  moreover have "find_slot ?st1 u = Some (Some i)" using find_slot_map [OF rep, of u] by simp
  moreover have "sl_backing_fd (os_objects ?st1 ! i) = 0" "sl_uri (os_objects ?st1 ! i) = u"
    using i z by (simp_all add: upd_slot_nth)
  ultimately have "\<exists>info st2. storage_get_fd u ?st1 ?s1 = Some (fd, Some info, st2, s2) \<and> oi_uri info = u"
    using i(1) by (simp add: storage_get_fd_def Let_def slot_info_def upd_slot_nth)
  with put install_fd_fresh(2) [OF n] show ?thesis by blast
qed

theorem failed_put_exposes_stdin_witness:
  "\<exists>st1 s1 fd info st2 s2. storage_put ''x/a'' [1] small_store (small_vm\<lparr>fds := [Some 5]\<rparr>) = Some (False, st1, s1) \<and>
     storage_get_fd ''x/a'' st1 s1 = Some (fd, Some info, st2, s2) \<and> fd_obj s2 fd = Some 5"
proof -
  let ?s = "small_vm\<lparr>fds := [Some 5]\<rparr>" and ?p = "snprintf_buf 1024 (os_backing_dir small_store @ ''/'' @ ''x/a'')"
  have "no_faults ?s" "length ''x/a'' < 1024" "os_count small_store < of_nat (length (os_objects small_store))"
    "os_objects small_store = replicate 2 zero_slot" "dir ?s ?p = None" "\<not> parent_ok ?s ?p" "fd_obj ?s 0 = Some 5"
    by (simp_all add: no_faults_def numeral_2_eq_2 snprintf_buf_def parent_ok_def dirname_def fd_obj_def)
  from failed_put_exposes_stdin [OF small_rep _ this, of "[1]"] show ?thesis by auto
qed

text \<open>
  \<open>storage_remove\<close> unmaps the cached copy of an object but leaves its address in the
  slot. When the slot is used again, \<open>storage_get_mmap\<close> returns that address for the new
  object, although nothing is mapped there.
\<close>

theorem reused_slot_maps_freed:
  fixes s :: "'a vm_scheme"
  assumes "st_rep st m" "m u = Some i" "m v = None" "sl_cache_mmap (os_objects st ! i) = Some p"
    and "sl_size (os_objects st ! i) \<noteq> 0" "sl_cache_path (os_objects st ! i) = []" "no_faults s" "length v < 1024"
    and "free_slot ((os_objects st)[i := (os_objects st ! i)\<lparr>sl_in_use := False\<rparr>]) = Some i"
  shows "\<exists>st1 s1 ok st2 s2 n st3 s3. storage_remove u st s = Some (True, st1, s1) \<and>
     storage_put v data st1 s1 = Some (ok, st2, s2) \<and> storage_get_mmap v st2 s2 = Some (Some p, n, st3, s3) \<and>
     mmaps s3 p = None"
proof -
  let ?x = "os_objects st ! i"
  have i: "i < length (os_objects st)" using assms(1,2) by (auto simp: st_rep_def)
  have uv: "u \<noteq> v" using assms(2,3) by auto
  let ?s0 = "if sl_backing_fd ?x \<ge> 0 then sys_close (sl_backing_fd ?x) s else s"
  let ?s1 = "sys_unlink (sl_backing_path ?x) (sys_munmap p (unat (sl_size ?x)) ?s0)"
  let ?st0 = "upd_slot i (\<lambda>x. x\<lparr>sl_in_use := False\<rparr>) (st\<lparr>os_cached_bytes := os_cached_bytes st - sl_size ?x\<rparr>)"
  let ?st1 = "?st0\<lparr>os_count := os_count st - 1\<rparr>"
  have sz: "unat (sl_size ?x) \<noteq> 0" using assms(5) by (simp add: unat_eq_0)
  have rm: "storage_remove u st s = Some (True, ?st1, ?s1)"
    using find_slot_map [OF assms(1), of u] assms(2,4,6) by (simp add: storage_remove_def Let_def)
  have rep1: "st_rep ?st1 (m(u := None))"
    using remove_rep [OF assms(1), of u s] rm by simp
  have un: "mmaps ?s1 p = None" using sz by (simp add: sys_munmap_def)
  have nf: "no_faults ?s1"
    using assms(7) by (auto simp: sys_unlink_def sys_munmap_def fault_def no_faults_def sys_close_simps split: list.splits prod.splits)
  obtain st2 s2 j where t: "take_slot v ?st1 ?s1 = (Some j, st2, s2)"
    "st_rep st2 ((m(u := None))(v \<mapsto> j))"
  proof -
    have "os_objects ?st1 = (os_objects st)[i := ?x\<lparr>sl_in_use := False\<rparr>]" by (simp add: upd_slot_def)
    then have "free_slot (os_objects ?st1) = Some i" using assms(9) by simp
    then have "i < length (os_objects ?st1)" "\<not> sl_in_use (os_objects ?st1 ! i)"
      using free_slot_cases [of "os_objects ?st1"] by simp_all
    from length_filter_less [of _ "os_objects ?st1" sl_in_use, OF nth_mem [OF this(1)] this(2)]
    have "length (filter sl_in_use (os_objects ?st1)) < length (os_objects ?st1)" .
    moreover have "length (os_objects ?st1) < 2 ^ 64" "os_count ?st1 = of_nat (length (filter sl_in_use (os_objects ?st1)))"
      using rep1 unfolding st_rep_def storage_ok_def by blast+
    ultimately have "os_count ?st1 < of_nat (length (os_objects ?st1))"
      by (simp add: word_less_nat_alt unat_of_nat take_bit_nat_eq_self)
    from take_slot_rep [OF rep1 _ assms(8) nf this] assms(3) uv obtain k st' s' where
      "take_slot v ?st1 ?s1 = (Some k, st', s')" "st_rep st' ((m(u := None))(v \<mapsto> k))" by (metis fun_upd_apply)
    then show ?thesis by (rule that)
  qed
  have j: "j = i" "sl_cache_mmap (os_objects st2 ! i) = Some p"
    using t(1) assms(4,9) i
    by (auto simp: take_slot_def add_hash_entry_def Let_def upd_slot_def split: if_split_asm prod.split_asm)
  obtain ok st3 s3 where w: "write_backing i v data st2 s2 = (ok, st3, s3)" by (cases "write_backing i v data st2 s2")
  have put: "storage_put v data ?st1 ?s1 = Some (ok, st3, s3)"
    using find_slot_map [OF rep1, of v] assms(3) uv t(1) w by (simp add: storage_put_def j(1))
  have rep3: "st_rep st3 ((m(u := None))(v \<mapsto> i))" using write_backing_rep [OF t(2) [unfolded j(1)] w] .
  have i2: "i < length (os_objects st2)" using t(2) unfolding st_rep_def j(1) by (metis fun_upd_same)
  have mm: "sl_cache_mmap (os_objects st3 ! i) = Some p"
    using w i2 j(2) by (auto simp: write_backing_def Let_def upd_slot_def split: prod.split_asm if_split_asm kres.split_asm)
  have i3: "i < length (os_objects st3)" using rep3 unfolding st_rep_def by (metis fun_upd_same)
  have "mmaps s3 p = None"
    using un vm_more [OF write_backing_more [OF w]] vm_more [OF take_slot_more [OF t(1)]] by simp
  moreover have "\<exists>n st4. storage_get_mmap v st3 s3 = Some (Some p, n, st4, s3)"
    using find_slot_map [OF rep3, of v] mm i3 by (simp add: storage_get_mmap_def Let_def upd_slot_nth)
  ultimately show ?thesis using rm put by blast
qed

definition mapped_store :: object_storage where
  "mapped_store = small_store\<lparr>os_count := 1, os_hash_table := [[\<lparr>he_hash = hash_uri ''a'', he_slot_index = 0\<rparr>]],
     os_objects := [zero_slot\<lparr>sl_in_use := True, sl_uri := ''a'', sl_cache_mmap := Some 3, sl_size := 2\<rparr>, zero_slot]\<rparr>"

lemma mapped_rep: "st_rep mapped_store [''a'' \<mapsto> 0]"
proof -
  have b: "bucket_index mapped_store h = 0" for h by (simp add: bucket_index_def mapped_store_def)
  have n: "(i < 2) = (i = 0 \<or> i = Suc 0)" for i :: nat by auto
  show ?thesis unfolding st_rep_def storage_ok_def b
    by (simp add: mapped_store_def numeral_2_eq_2 [symmetric] n zero_slot_def all_conj_distrib) (auto simp: n nth_Cons split: nat.splits)
qed

theorem reused_slot_maps_freed_witness:
  "\<exists>st1 s1 ok st2 s2 n st3 s3. storage_remove ''a'' mapped_store (small_vm\<lparr>mmaps := [3 \<mapsto> (0, 2)]\<rparr>) = Some (True, st1, s1) \<and>
     storage_put ''b'' [7] st1 s1 = Some (ok, st2, s2) \<and> storage_get_mmap ''b'' st2 s2 = Some (Some 3, n, st3, s3) \<and>
     mmaps s3 3 = None"
proof -
  have "[''a'' \<mapsto> 0] ''a'' = Some (0 :: nat)" "[''a'' \<mapsto> 0 :: nat] ''b'' = None"
    "sl_cache_mmap (os_objects mapped_store ! 0) = Some 3" "sl_size (os_objects mapped_store ! 0) \<noteq> 0"
    "sl_cache_path (os_objects mapped_store ! 0) = []" "no_faults (small_vm\<lparr>mmaps := [3 \<mapsto> (0, 2)]\<rparr>)" "length ''b'' < 1024"
    "free_slot ((os_objects mapped_store)[0 := (os_objects mapped_store ! 0)\<lparr>sl_in_use := False\<rparr>]) = Some 0"
    by (simp_all add: mapped_store_def zero_slot_def no_faults_def)
  from reused_slot_maps_freed [OF mapped_rep this] show ?thesis .
qed

end
