(* ===== verification/Net.thy ===== *)
theory Net
  imports Posix
begin

text \<open>
  The socket calls that the transport library, the servers and the client make besides the
  transfers on a connected stream: names and addresses, connections that wait to be
  accepted, and datagrams. What the outside world does is data of the state, as in \<open>Posix\<close>;
  the state \<open>net\<close> is passed beside that of the process.
\<close>

section \<open>State\<close>

datatype sockaddr = UnixAddr string | InetAddr u32 u16

text \<open>What \<open>accept\<close> finds next: a connection with all that its peer will send, an
  interruption by a signal, or an error.\<close>

datatype incoming = Connection "item list" "io_event list" "io_event list" | AcceptIntr | AcceptError

record net =
  nt_bound :: "sockaddr list"            \<comment> \<open>addresses in use\<close>
  nt_incoming :: "incoming list"
  nt_hosts :: "string \<Rightarrow> u32 option"      \<comment> \<open>the resolver of host names\<close>
  nt_dg_in :: "(sockaddr \<times> bytes) list"   \<comment> \<open>datagrams that arrive, with their senders\<close>
  nt_dg_out :: "(sockaddr \<times> bytes) list"  \<comment> \<open>datagrams sent, with their destinations\<close>

section \<open>Addresses\<close>

text \<open>\<open>strncpy\<close> into \<open>sun_path\<close> of 108 bytes, the last of which stays zero.\<close>

definition sun_path :: "string \<Rightarrow> string" where
  "sun_path path = take 107 (c_str path)"

fun split_dots :: "string \<Rightarrow> string list" where
  "split_dots [] = [[]]"
| "split_dots (c # cs) =
     (if c = CHR ''.'' then [] # split_dots cs
      else case split_dots cs of [] \<Rightarrow> [[c]] | x # xs \<Rightarrow> (c # x) # xs)"

definition octet :: "string \<Rightarrow> nat option" where
  "octet ds =
     (if ds = [] \<or> length ds > 3 \<or> (\<exists>c \<in> set ds. (of_char c :: nat) < 48 \<or> 57 < (of_char c :: nat)) \<or>
         (length ds > 1 \<and> hd ds = CHR ''0'') then None
      else let n = foldl (\<lambda>n c. 10 * n + (of_char c - 48)) 0 ds in if n > 255 then None else Some n)"

text \<open>\<open>inet_pton(AF_INET, host)\<close>: four decimal numbers without leading zeros.\<close>

definition inet_pton :: "string \<Rightarrow> u32 option" where
  "inet_pton host =
     (case map octet (split_dots host) of
        [Some a, Some b, Some c, Some d] \<Rightarrow> Some (of_nat (((a * 256 + b) * 256 + c) * 256 + d))
      | _ \<Rightarrow> None)"

section \<open>Calls\<close>

text \<open>A new socket takes a fresh description.\<close>

definition sys_socket :: "'a os_scheme \<Rightarrow> int \<times> 'a os_scheme" where
  "sys_socket s = (let (f, s) = fault s in if f then (-1, s) else install_fd (next_ofd s) (s\<lparr>next_ofd := Suc (next_ofd s)\<rparr>))"

definition sys_bind :: "sockaddr \<Rightarrow> net \<Rightarrow> 'a os_scheme \<Rightarrow> bool \<times> net \<times> 'a os_scheme" where
  "sys_bind addr n s =
     (let (f, s) = fault s
      in if f \<or> addr \<in> set (nt_bound n) \<or> (case addr of UnixAddr p \<Rightarrow> dir s p \<noteq> None \<or> is_dir s p | _ \<Rightarrow> False)
         then (False, n, s) else (True, n\<lparr>nt_bound := addr # nt_bound n\<rparr>, s))"

definition sys_listen :: "'a os_scheme \<Rightarrow> bool \<times> 'a os_scheme" where
  "sys_listen s = (let (f, s) = fault s in (\<not> f, s))"

definition sys_connect :: "sockaddr \<Rightarrow> 'a os_scheme \<Rightarrow> bool \<times> 'a os_scheme" where
  "sys_connect addr s = (let (f, s) = fault s in (\<not> f, s))"

text \<open>\<open>unlink\<close> of a path that may be a socket.\<close>

definition unlink_socket :: "string \<Rightarrow> net \<Rightarrow> 'a os_scheme \<Rightarrow> net \<times> 'a os_scheme" where
  "unlink_socket path n s =
     (let (f, s) = fault s
      in if f then (n, s)
         else (n\<lparr>nt_bound := removeAll (UnixAddr path) (nt_bound n)\<rparr>, s\<lparr>dir := (dir s)(path := None)\<rparr>))"

datatype accept_result = Accepted int | AcceptedIntr | AcceptedError

text \<open>The stream of an accepted connection becomes that of the process state. With no more
  connections to come the call does not return: the result is \<open>None\<close>.\<close>

definition sys_accept :: "net \<Rightarrow> 'a os_scheme \<Rightarrow> (accept_result \<times> net \<times> 'a os_scheme) option" where
  "sys_accept n s =
     (case nt_incoming n of
        [] \<Rightarrow> None
      | i # is \<Rightarrow>
          let n = n\<lparr>nt_incoming := is\<rparr>
          in Some (case i of
                     AcceptIntr \<Rightarrow> (AcceptedIntr, n, s)
                   | AcceptError \<Rightarrow> (AcceptedError, n, s)
                   | Connection x re te \<Rightarrow>
                       let (fd, s) = install_fd (next_ofd s)
                             (s\<lparr>next_ofd := Suc (next_ofd s), rx := x, tx := [], rx_ev := re, tx_ev := te\<rparr>)
                       in (Accepted fd, n, s)))"

text \<open>Datagrams: at most 65507 bytes are sent at once, and what does not fit into the buffer
  of the receiver is lost. Nothing to receive is a failure of the call.\<close>

definition sys_sendto :: "sockaddr option \<Rightarrow> bytes \<Rightarrow> net \<Rightarrow> 'a os_scheme \<Rightarrow> int \<times> net \<times> 'a os_scheme" where
  "sys_sendto addr bs n s =
     (let (f, s) = fault s
      in case addr of
           None \<Rightarrow> (-1, n, s)
         | Some a \<Rightarrow> if f \<or> length bs > 65507 then (-1, n, s)
                     else (int (length bs), n\<lparr>nt_dg_out := nt_dg_out n @ [(a, bs)]\<rparr>, s))"

definition sys_recvfrom :: "nat \<Rightarrow> net \<Rightarrow> 'a os_scheme \<Rightarrow> (bytes \<times> sockaddr) option \<times> net \<times> 'a os_scheme" where
  "sys_recvfrom len n s =
     (let (f, s) = fault s
      in if f then (None, n, s)
         else case nt_dg_in n of
                [] \<Rightarrow> (None, n, s)
              | (a, bs) # ds \<Rightarrow> (Some (take len bs, a), n\<lparr>nt_dg_in := ds\<rparr>, s))"

section \<open>Laws\<close>

lemma fd_obj_fault: "fault s = (b, s') \<Longrightarrow> fd_obj s' x = fd_obj s x"
  by (auto elim!: fault_frame)

lemma sys_socket_result:
  assumes "sys_socket s = (fd, s')"
  shows "0 \<le> fd \<Longrightarrow> fd_obj s fd = None" "x \<noteq> fd \<Longrightarrow> fd_obj s' x = fd_obj s x"
proof -
  obtain b s1 where b: "fault s = (b, s1)" by (cases "fault s")
  note f = fd_obj_fault [OF b]
  show "0 \<le> fd \<Longrightarrow> fd_obj s fd = None" "x \<noteq> fd \<Longrightarrow> fd_obj s' x = fd_obj s x"
    using assms b f install_fd_fresh(1,4) [of "next_ofd s1" "s1\<lparr>next_ofd := Suc (next_ofd s1)\<rparr>" fd s']
    by (auto simp: sys_socket_def split: if_splits)
qed

lemma fd_obj_bind: "sys_bind a n s = (ok, n', s') \<Longrightarrow> fd_obj s' x = fd_obj s x"
  by (auto simp: sys_bind_def Let_def dest!: fd_obj_fault [where x = x] split: prod.splits if_splits)

lemma fd_obj_listen: "sys_listen s = (ok, s') \<Longrightarrow> fd_obj s' x = fd_obj s x"
  by (auto simp: sys_listen_def dest!: fd_obj_fault [where x = x] split: prod.splits)

lemma fd_obj_connect: "sys_connect a s = (ok, s') \<Longrightarrow> fd_obj s' x = fd_obj s x"
  by (auto simp: sys_connect_def dest!: fd_obj_fault [where x = x] split: prod.splits)

lemma fd_obj_unlink_socket: "unlink_socket p n s = (n', s') \<Longrightarrow> fd_obj s' x = fd_obj s x"
  by (auto simp: unlink_socket_def dest!: fd_obj_fault [where x = x] split: prod.splits if_splits)

lemmas fd_obj_calls = fd_obj_fault fd_obj_bind fd_obj_listen fd_obj_connect fd_obj_unlink_socket

end
