(* ===== verification/Transport.thy ===== *)
theory Transport
  imports Net "HOL-Library.Monad_Syntax"
begin

text \<open>
  The transport library (\<open>lib/transport/transport.c\<close>) and the descriptor passing library
  (\<open>lib/fdpass/fdpass.c\<close>) on which the first object mapper is built: servers and clients over
  Unix, TCP and UDP sockets behind one handle. A pointer that may be \<open>NULL\<close> is an option, and
  a \<open>NULL\<close> that is used is the outer \<open>None\<close>; the configuration is a tagged union.
\<close>

section \<open>Passing descriptors\<close>

text \<open>The sockets here are connected streams: a destination address is refused by the kernel.\<close>

definition fdpass_send :: "string option \<Rightarrow> int \<Rightarrow> u8 \<Rightarrow> 'a os_scheme \<Rightarrow> bool \<times> 'a os_scheme" where
  "fdpass_send dest_path fd operation_type s =
     (case dest_path of None \<Rightarrow> sock_sendmsg_fd operation_type fd s | Some _ \<Rightarrow> (False, s))"

text \<open>The descriptor or \<open>-1\<close>, and the operation type when one was received.\<close>

definition fdpass_recv :: "'a os_scheme \<Rightarrow> int \<times> u8 option \<times> 'a os_scheme" where
  "fdpass_recv s =
     (case sock_recvmsg_fd 256 s of
        ((None, _), s) \<Rightarrow> (-1, None, s)
      | ((Some m_buffer, fd), s) \<Rightarrow>
          if m_buffer = [] then (-1, None, s)
          else (case fd of None \<Rightarrow> -1 | Some fd \<Rightarrow> fd, Some (hd m_buffer), s))"

section \<open>Data\<close>

datatype transport_type = TRANSPORT_UNIX | TRANSPORT_TCP | TRANSPORT_UDP

datatype transport_config =
  UnixCfg string
| TcpCfg "string option" u16
| UdpCfg "string option" u16 u64

record transport =
  tr_type :: transport_type
  tr_fd :: int
  tr_is_server :: bool
  tr_peer_addr :: "sockaddr option"      \<comment> \<open>\<open>None\<close>: all zero\<close>
  tr_peer_addr_len :: nat
  tr_max_packet_size :: u64

record transport_caps =
  tc_supports_fdpass :: bool
  tc_is_stream :: bool
  tc_is_connection_oriented :: bool

fun cfg_type :: "transport_config \<Rightarrow> transport_type" where
  "cfg_type (UnixCfg _) = TRANSPORT_UNIX"
| "cfg_type (TcpCfg _ _) = TRANSPORT_TCP"
| "cfg_type (UdpCfg _ _ _) = TRANSPORT_UDP"

definition new_transport :: "transport_type \<Rightarrow> bool \<Rightarrow> transport" where
  "new_transport t server =
     \<lparr>tr_type = t, tr_fd = 0, tr_is_server = server, tr_peer_addr = None, tr_peer_addr_len = 0, tr_max_packet_size = 0\<rparr>"

section \<open>Servers\<close>

definition create_unix_server :: "string \<Rightarrow> net \<Rightarrow> 'a os_scheme \<Rightarrow> int \<times> net \<times> 'a os_scheme" where
  "create_unix_server path n s =
     (let (sock, s) = sys_socket s
      in if sock < 0 then (-1, n, s)
         else let (n, s) = unlink_socket path n s;
                  (ok, n, s) = sys_bind (UnixAddr (sun_path path)) n s
              in if \<not> ok then (-1, n, sys_close sock s)
                 else let (ok, s) = sys_listen s
                      in if \<not> ok then (-1, n, sys_close sock s) else (sock, n, s))"

text \<open>The address of a host: a number, or what the resolver says.\<close>

definition host_addr :: "net \<Rightarrow> string \<Rightarrow> u32 option" where
  "host_addr n host = (case inet_pton host of Some a \<Rightarrow> Some a | None \<Rightarrow> nt_hosts n host)"

definition server_addr :: "net \<Rightarrow> string option \<Rightarrow> u32 option" where
  "server_addr n host =
     (case host of None \<Rightarrow> Some 0 | Some h \<Rightarrow> if h \<noteq> ''*'' then host_addr n h else Some 0)"

definition create_tcp_server :: "string option \<Rightarrow> u16 \<Rightarrow> net \<Rightarrow> 'a os_scheme \<Rightarrow> int \<times> net \<times> 'a os_scheme" where
  "create_tcp_server host port n s =
     (let (sock, s) = sys_socket s
      in if sock < 0 then (-1, n, s)
         else case server_addr n host of
                None \<Rightarrow> (-1, n, sys_close sock s)
              | Some a \<Rightarrow>
                  let (ok, n, s) = sys_bind (InetAddr a port) n s
                  in if \<not> ok then (-1, n, sys_close sock s)
                     else let (ok, s) = sys_listen s
                          in if \<not> ok then (-1, n, sys_close sock s) else (sock, n, s))"

definition create_udp_server :: "string option \<Rightarrow> u16 \<Rightarrow> net \<Rightarrow> 'a os_scheme \<Rightarrow> int \<times> net \<times> 'a os_scheme" where
  "create_udp_server host port n s =
     (let (sock, s) = sys_socket s
      in if sock < 0 then (-1, n, s)
         else case server_addr n host of
                None \<Rightarrow> (-1, n, sys_close sock s)
              | Some a \<Rightarrow>
                  let (ok, n, s) = sys_bind (InetAddr a port) n s
                  in if \<not> ok then (-1, n, sys_close sock s) else (sock, n, s))"

definition packet_size :: "u64 \<Rightarrow> u64" where
  "packet_size m = (if 0 < m then m else 8192)"

definition transport_server_create :: "transport_config \<Rightarrow> net \<Rightarrow> 'a os_scheme \<Rightarrow> transport option \<times> net \<times> 'a os_scheme" where
  "transport_server_create config n s =
     (let (f, s) = fault s
      in if f then (None, n, s)
         else let t = new_transport (cfg_type config) True;
                  (t, n, s) =
                    (case config of
                       UnixCfg path \<Rightarrow> let (fd, n, s) = create_unix_server path n s in (t\<lparr>tr_fd := fd\<rparr>, n, s)
                     | TcpCfg host port \<Rightarrow> let (fd, n, s) = create_tcp_server host port n s in (t\<lparr>tr_fd := fd\<rparr>, n, s)
                     | UdpCfg host port m \<Rightarrow>
                         let (fd, n, s) = create_udp_server host port n s
                         in (t\<lparr>tr_fd := fd, tr_max_packet_size := packet_size m\<rparr>, n, s))
              in if tr_fd t < 0 then (None, n, s) else (Some t, n, s))"

text \<open>The outer \<open>None\<close>: no connection comes, the call waits.\<close>

definition transport_accept :: "transport \<Rightarrow> net \<Rightarrow> 'a os_scheme \<Rightarrow> (transport option \<times> net \<times> 'a os_scheme) option" where
  "transport_accept srv n s =
     (if \<not> tr_is_server srv \<or> tr_type srv = TRANSPORT_UDP then Some (None, n, s)
      else do {
        (r, n, s) \<leftarrow> sys_accept n s;
        Some (case r of
                Accepted fd \<Rightarrow>
                  let (f, s) = fault s
                  in if f then (None, n, sys_close fd s)
                     else (Some ((new_transport (tr_type srv) False)\<lparr>tr_fd := fd\<rparr>), n, s)
              | _ \<Rightarrow> (None, n, s))
      })"

section \<open>Clients\<close>

text \<open>A socket that could not be connected is closed.\<close>

definition connect_to :: "int \<Rightarrow> sockaddr \<Rightarrow> transport \<Rightarrow> 'a os_scheme \<Rightarrow> transport option \<times> 'a os_scheme" where
  "connect_to fd addr t s =
     (let (ok, s) = sys_connect addr s in if ok then (Some (t\<lparr>tr_fd := fd\<rparr>), s) else (None, sys_close fd s))"

definition transport_client_connect :: "transport_config \<Rightarrow> net \<Rightarrow> 'a os_scheme \<Rightarrow> (transport option \<times> 'a os_scheme) option" where
  "transport_client_connect config n s =
     (let (f, s) = fault s
      in if f then Some (None, s)
         else let t = new_transport (cfg_type config) False; (fd, s) = sys_socket s
              in if fd < 0 then Some (None, s)
                 else (case config of
                         UnixCfg path \<Rightarrow> Some (connect_to fd (UnixAddr (sun_path path)) t s)
                       | TcpCfg host port \<Rightarrow>
                           do {
                             h \<leftarrow> host;
                             Some (case host_addr n h of
                                     None \<Rightarrow> (None, sys_close fd s)
                                   | Some a \<Rightarrow> connect_to fd (InetAddr a port) t s)
                           }
                       | UdpCfg host port m \<Rightarrow>
                           do {
                             h \<leftarrow> host;
                             Some (case host_addr n h of
                                     None \<Rightarrow> (None, sys_close fd s)
                                   | Some a \<Rightarrow> (Some (t\<lparr>tr_fd := fd, tr_peer_addr := Some (InetAddr a port),
                                                         tr_peer_addr_len := 16, tr_max_packet_size := packet_size m\<rparr>), s))
                           }))"

section \<open>Transfers\<close>

definition transport_send :: "transport \<Rightarrow> bytes \<Rightarrow> net \<Rightarrow> 'a os_scheme \<Rightarrow> int \<times> net \<times> 'a os_scheme" where
  "transport_send t data n s =
     (if tr_type t = TRANSPORT_UDP then
        if 0 < tr_peer_addr_len t then sys_sendto (tr_peer_addr t) data n s else (-1, n, s)
      else case sock_write data s of
             (KDone out, s) \<Rightarrow> (int (length out), n, s)
           | (_, s) \<Rightarrow> (-1, n, s))"

text \<open>The bytes received, \<open>None\<close> for the result \<open>-1\<close>. The length of the peer's address is set
  to that of the buffer before the call and stays so when the call fails.\<close>

definition transport_recv :: "nat \<Rightarrow> transport \<Rightarrow> net \<Rightarrow> 'a os_scheme \<Rightarrow> bytes option \<times> transport \<times> net \<times> 'a os_scheme" where
  "transport_recv len t n s =
     (if tr_type t = TRANSPORT_UDP then
        (case sys_recvfrom len n s of
           (None, n, s) \<Rightarrow> (None, t\<lparr>tr_peer_addr_len := 128\<rparr>, n, s)
         | (Some (bs, a), n, s) \<Rightarrow> (Some bs, t\<lparr>tr_peer_addr := Some a, tr_peer_addr_len := 16\<rparr>, n, s))
      else case sock_read len s of
             (KDone got, s) \<Rightarrow> (Some got, t, n, s)
           | (_, s) \<Rightarrow> (None, t, n, s))"

definition transport_send_fd :: "transport \<Rightarrow> int \<Rightarrow> u8 \<Rightarrow> 'a os_scheme \<Rightarrow> bool \<times> 'a os_scheme" where
  "transport_send_fd t fd metadata s =
     (if tr_type t \<noteq> TRANSPORT_UNIX then (False, s) else fdpass_send None fd metadata s)"

definition transport_recv_fd :: "transport \<Rightarrow> 'a os_scheme \<Rightarrow> int \<times> u8 option \<times> 'a os_scheme" where
  "transport_recv_fd t s = (if tr_type t \<noteq> TRANSPORT_UNIX then (-1, None, s) else fdpass_recv s)"

section \<open>Queries and closing\<close>

definition transport_get_fd :: "transport option \<Rightarrow> int" where
  "transport_get_fd t = (case t of None \<Rightarrow> -1 | Some t \<Rightarrow> tr_fd t)"

definition transport_get_caps :: "transport \<Rightarrow> transport_caps" where
  "transport_get_caps t =
     (case tr_type t of
        TRANSPORT_UNIX \<Rightarrow> \<lparr>tc_supports_fdpass = True, tc_is_stream = True, tc_is_connection_oriented = True\<rparr>
      | TRANSPORT_TCP \<Rightarrow> \<lparr>tc_supports_fdpass = False, tc_is_stream = True, tc_is_connection_oriented = True\<rparr>
      | TRANSPORT_UDP \<Rightarrow> \<lparr>tc_supports_fdpass = False, tc_is_stream = False, tc_is_connection_oriented = False\<rparr>)"

text \<open>The enumeration of the result has no member for the type of \<open>NULL\<close>, \<open>-1\<close>: \<open>None\<close>.\<close>

definition transport_get_type :: "transport option \<Rightarrow> transport_type option" where
  "transport_get_type t = map_option tr_type t"

definition transport_close :: "transport \<Rightarrow> 'a os_scheme \<Rightarrow> 'a os_scheme" where
  "transport_close t s = (if 0 \<le> tr_fd t then sys_close (tr_fd t) s else s)"

end
