(* ===== verification/Transport_Props.thy ===== *)
theory Transport_Props
  imports Transport Protocol_Laws
begin

text \<open>
  The transport library opens one descriptor for a handle and none when it fails, passes
  descriptors with their operation types, and answers a datagram to its sender.
\<close>

section \<open>Descriptors\<close>

definition same_fds :: "'a os_scheme \<Rightarrow> 'a os_scheme \<Rightarrow> bool" where
  "same_fds s s' \<longleftrightarrow> (\<forall>x. fd_obj s' x = fd_obj s x)"

text \<open>\<open>opened fd s s'\<close>: the new descriptor is \<open>fd\<close>, which was free; there is none when it is negative.\<close>

definition opened :: "int \<Rightarrow> 'a os_scheme \<Rightarrow> 'a os_scheme \<Rightarrow> bool" where
  "opened fd s s' \<longleftrightarrow> (0 \<le> fd \<longrightarrow> fd_obj s fd = None \<and> fd_obj s' fd \<noteq> None) \<and> (\<forall>x. x \<noteq> fd \<longrightarrow> fd_obj s' x = fd_obj s x)"

lemma opened_socket:
  assumes "sys_socket s = (fd, s')" shows "opened fd s s'"
proof -
  obtain b s1 where b: "fault s = (b, s1)" by (cases "fault s")
  have "0 \<le> fd \<Longrightarrow> fd_obj s' fd \<noteq> None"
    using assms b install_fd_fresh(2) [of "next_ofd s1" "s1\<lparr>next_ofd := Suc (next_ofd s1)\<rparr>" fd s']
    by (auto simp: sys_socket_def split: if_splits)
  then show ?thesis using sys_socket_result [OF assms] unfolding opened_def by blast
qed

lemma opened_step: "same_fds s' s'' \<Longrightarrow> opened fd s s' \<Longrightarrow> opened fd s s''"
  by (simp add: opened_def same_fds_def)

lemma opened_pre: "same_fds s s' \<Longrightarrow> opened fd s' s'' \<Longrightarrow> opened fd s s''"
  by (simp add: opened_def same_fds_def)

lemma opened_closed:
  assumes "opened fd s s'" shows "same_fds s (sys_close fd s')"
proof -
  have "fd_obj s fd = None" using assms by (cases "0 \<le> fd") (simp_all add: opened_def fd_obj_def)
  then show ?thesis using assms by (simp add: opened_def same_fds_def fd_obj_close)
qed

lemma opened_neg: "opened fd s s' \<Longrightarrow> fd < 0 \<Longrightarrow> same_fds s s'"
  using opened_closed [of fd s s'] by (simp add: sys_close_def fd_obj_def)

lemma same_fds_calls:
  "fault s = (b, s') \<Longrightarrow> same_fds s s'" "sys_bind a n s = (ok, n', s') \<Longrightarrow> same_fds s s'"
  "sys_listen s = (ok, s') \<Longrightarrow> same_fds s s'" "sys_connect a s = (ok, s') \<Longrightarrow> same_fds s s'"
  "unlink_socket p n s = (n', s') \<Longrightarrow> same_fds s s'"
  by (auto simp: same_fds_def dest: fd_obj_calls)

text \<open>What a constructor leaves: with a handle, its descriptor, otherwise nothing.\<close>

definition made_handle :: "transport option \<Rightarrow> 'a os_scheme \<Rightarrow> 'a os_scheme \<Rightarrow> bool" where
  "made_handle r s s' \<longleftrightarrow> (case r of None \<Rightarrow> same_fds s s' | Some t \<Rightarrow> 0 \<le> tr_fd t \<and> opened (tr_fd t) s s')"

definition made_fd :: "int \<Rightarrow> 'a os_scheme \<Rightarrow> 'a os_scheme \<Rightarrow> bool" where
  "made_fd fd s s' \<longleftrightarrow> (if fd < 0 then same_fds s s' else opened fd s s')"

lemma made_socket: "sys_socket s = (fd, s') \<Longrightarrow> fd < 0 \<Longrightarrow> made_fd (-1) s s'"
  using opened_neg [OF opened_socket] by (simp add: made_fd_def)

text \<open>The end of every constructor: a socket that could not be set up is closed.\<close>

lemma made_or_closed:
  assumes "opened fd s s'" and "0 \<le> fd"
  shows "made_fd fd s s'" "made_fd (-1) s (sys_close fd s')"
  using assms opened_closed by (auto simp: made_fd_def)

lemmas opened_calls = opened_socket same_fds_calls [THEN opened_step]

lemma unix_server_fd: "create_unix_server p n s = (fd, n', s') \<Longrightarrow> made_fd fd s s'"
  unfolding create_unix_server_def Let_def
  by (auto simp: not_less split: prod.splits if_splits;
      (erule made_socket, assumption | rule made_or_closed, (erule opened_calls)+, assumption))

lemma tcp_server_fd: "create_tcp_server h p n s = (fd, n', s') \<Longrightarrow> made_fd fd s s'"
  unfolding create_tcp_server_def Let_def
  by (auto simp: not_less split: prod.splits if_splits option.splits;
      (erule made_socket, assumption | rule made_or_closed, (erule opened_calls)+, assumption))

lemma udp_server_fd: "create_udp_server h p n s = (fd, n', s') \<Longrightarrow> made_fd fd s s'"
  unfolding create_udp_server_def Let_def
  by (auto simp: not_less split: prod.splits if_splits option.splits;
      (erule made_socket, assumption | rule made_or_closed, (erule opened_calls)+, assumption))

section \<open>Handles\<close>

definition discard :: "transport option \<Rightarrow> 'a os_scheme \<Rightarrow> 'a os_scheme" where
  "discard r s = (case r of None \<Rightarrow> s | Some t \<Rightarrow> transport_close t s)"

lemma discard_made: "made_handle r s s' \<Longrightarrow> same_fds s (discard r s')"
  by (auto simp: made_handle_def discard_def transport_close_def intro: opened_closed opened_neg split: option.splits)

lemma fd_obj_discard: "made_handle r s s' \<Longrightarrow> fd_obj (discard r s') x = fd_obj s x"
  using discard_made [of r s s'] by (simp add: same_fds_def)

lemma made_fd_handle: "made_fd fd s s' \<Longrightarrow> fd < 0 \<Longrightarrow> made_handle None s s'"
  "made_fd fd s s' \<Longrightarrow> 0 \<le> fd \<Longrightarrow> tr_fd t = fd \<Longrightarrow> made_handle (Some t) s s'"
  by (auto simp: made_fd_def made_handle_def)

lemma made_pre: "same_fds s s' \<Longrightarrow> made_handle r s' s'' \<Longrightarrow> made_handle r s s''"
  by (auto simp: made_handle_def same_fds_def opened_def split: option.splits)

lemma made_none: "same_fds s s' \<Longrightarrow> made_handle None s s'"
  by (simp add: made_handle_def)

lemma server_handle:
  assumes "transport_server_create c n s = (r, n', s')" shows "made_handle r s s'"
proof -
  obtain f s1 where f: "fault s = (f, s1)" by (cases "fault s")
  have "f \<Longrightarrow> r = None \<and> s' = s1" using assms by (simp add: transport_server_create_def f)
  moreover have "made_handle r s1 s'" if "\<not> f"
    using assms that unfolding transport_server_create_def Let_def
    by (auto simp: f not_less split: prod.splits if_splits transport_config.splits
        dest!: unix_server_fd tcp_server_fd udp_server_fd intro: made_fd_handle)
  ultimately show ?thesis using same_fds_calls(1) [OF f] by (cases f) (auto intro: made_none made_pre)
qed

lemma accept_opened:
  assumes "sys_accept n s = Some (r, n', s')"
  shows "case r of Accepted fd \<Rightarrow> 0 \<le> fd \<and> opened fd s s' | _ \<Rightarrow> same_fds s s'"
proof (cases r)
  case (Accepted fd)
  with assms obtain x re te where
    i: "install_fd (next_ofd s) (s\<lparr>next_ofd := Suc (next_ofd s), rx := x, tx := [], rx_ev := re, tx_ev := te\<rparr>) = (fd, s')"
    by (auto simp: sys_accept_def Let_def split: list.splits incoming.splits prod.splits)
  show ?thesis using install_fd_fresh [OF i] Accepted by (simp add: opened_def)
qed (use assms in \<open>auto simp: sys_accept_def same_fds_def Let_def split: list.splits incoming.splits prod.splits\<close>)

lemma accept_handle:
  assumes "transport_accept srv n s = Some (r, n', s')" shows "made_handle r s s'"
proof (cases "\<not> tr_is_server srv \<or> tr_type srv = TRANSPORT_UDP")
  case True
  then show ?thesis using assms by (auto simp: transport_accept_def made_handle_def same_fds_def)
next
  case False
  then obtain a n1 s1 where a: "sys_accept n s = Some (a, n1, s1)"
    using assms by (auto simp: transport_accept_def split: bind_splits)
  show ?thesis
  proof (cases a)
    case (Accepted fd)
    obtain f s2 where f: "fault s1 = (f, s2)" by (cases "fault s1")
    have o: "opened fd s s2" "0 \<le> fd"
      using accept_opened [OF a] opened_step [OF same_fds_calls(1) [OF f]] by (auto simp: Accepted)
    show ?thesis using assms False opened_closed [OF o(1)] o
      by (cases f) (auto simp: transport_accept_def a Accepted f made_handle_def)
  qed (use assms False accept_opened [OF a] in \<open>auto simp: transport_accept_def a made_handle_def\<close>)
qed

lemma connect_handle:
  assumes "opened fd s s1" and "connect_to fd addr t s1 = (r, s')" and "0 \<le> fd" shows "made_handle r s s'"
  using assms(2,3) opened_calls(5) [OF _ assms(1)]
  by (auto simp: connect_to_def made_handle_def split: prod.splits if_splits intro: opened_closed)

lemma client_handle:
  assumes "transport_client_connect c n s = Some (r, s')" shows "made_handle r s s'"
proof -
  obtain f s1 where f: "fault s = (f, s1)" by (cases "fault s")
  obtain fd s2 where k: "sys_socket s1 = (fd, s2)" by (cases "sys_socket s1")
  note pre = same_fds_calls(1) [OF f]
  have o: "opened fd s s2" by (rule opened_pre [OF pre opened_socket [OF k]])
  show ?thesis
  proof (cases "f \<or> fd < 0")
    case True
    then show ?thesis using assms pre opened_neg [OF o]
      by (cases f) (auto simp: transport_client_connect_def f k made_handle_def)
  next
    case False
    have udp: "made_handle (Some (new_transport TRANSPORT_UDP False
        \<lparr>tr_fd := fd, tr_peer_addr := a, tr_peer_addr_len := l, tr_max_packet_size := m\<rparr>)) s s2" for a l m
      using o False by (simp add: made_handle_def)
    show ?thesis using False assms made_none [OF opened_closed [OF o]] udp
      by (cases c) (auto simp: transport_client_connect_def f k split: option.splits bind_splits intro: connect_handle [OF o])
  qed
qed

text \<open>With a handle there is one new descriptor, that of the handle, and without one there is none.\<close>

definition one_descriptor :: "transport option \<Rightarrow> 'a os_scheme \<Rightarrow> 'a os_scheme \<Rightarrow> bool" where
  "one_descriptor r s s' \<longleftrightarrow>
     (case r of
        None \<Rightarrow> \<forall>x. fd_obj s' x = fd_obj s x
      | Some t \<Rightarrow> 0 \<le> tr_fd t \<and> fd_obj s (tr_fd t) = None \<and> fd_obj s' (tr_fd t) \<noteq> None \<and>
                  (\<forall>x. x \<noteq> tr_fd t \<longrightarrow> fd_obj s' x = fd_obj s x))"

text \<open>What a caller may rely on of every constructor, and what follows for the caller that closes
  what it got; the three constructors of the library meet it.\<close>

locale handle_maker =
  fixes make :: "'a os_scheme \<Rightarrow> transport option \<Rightarrow> 'a os_scheme \<Rightarrow> bool"
  assumes made: "make s r s' \<Longrightarrow> made_handle r s s'"
begin

lemma closed_again: "make s r s' \<Longrightarrow> fd_obj (discard r s') x = fd_obj s x"
  by (rule fd_obj_discard [OF made])

lemma leaves_one: "make s r s' \<Longrightarrow> one_descriptor r s s'"
  using made by (force simp: made_handle_def opened_def same_fds_def one_descriptor_def split: option.split)

end

interpretation server_maker: handle_maker "\<lambda>s r s'. \<exists>n'. transport_server_create c n s = (r, n', s')" for c n
  by unfold_locales (blast dest: server_handle)

interpretation client_maker: handle_maker "\<lambda>s r s'. transport_client_connect c n s = Some (r, s')" for c n
  by unfold_locales (rule client_handle)

interpretation accept_maker: handle_maker "\<lambda>s r s'. \<exists>n'. transport_accept srv n s = Some (r, n', s')" for srv n
  by unfold_locales (blast dest: accept_handle)

text \<open>When a constructor succeeds, if no call fails: the name can be bound, the host is known, a
  client is waiting.\<close>

fun server_possible :: "transport_config \<Rightarrow> net \<Rightarrow> 'a os_scheme \<Rightarrow> bool" where
  "server_possible (UnixCfg path) n s \<longleftrightarrow> sun_path path = path \<and> \<not> is_dir s path"
| "server_possible (TcpCfg host port) n s \<longleftrightarrow> (\<exists>a. server_addr n host = Some a \<and> InetAddr a port \<notin> set (nt_bound n))"
| "server_possible (UdpCfg host port m) n s \<longleftrightarrow> (\<exists>a. server_addr n host = Some a \<and> InetAddr a port \<notin> set (nt_bound n))"

fun client_possible :: "transport_config \<Rightarrow> net \<Rightarrow> bool" where
  "client_possible (UnixCfg path) n \<longleftrightarrow> True"
| "client_possible (TcpCfg host port) n \<longleftrightarrow> (\<exists>h. host = Some h \<and> host_addr n h \<noteq> None)"
| "client_possible (UdpCfg host port m) n \<longleftrightarrow> (\<exists>h. host = Some h \<and> host_addr n h \<noteq> None)"

definition accept_possible :: "transport \<Rightarrow> net \<Rightarrow> bool" where
  "accept_possible srv n \<longleftrightarrow> tr_is_server srv \<and> tr_type srv \<noteq> TRANSPORT_UDP \<and> (\<exists>x re te is. nt_incoming n = Connection x re te # is)"

lemma fault_quiet:
  assumes "no_faults s" "fault s = (b, s')" shows "\<not> b" "no_faults s'" "dir s' = dir s" "is_dir s' = is_dir s"
  using no_faults_step [OF assms] by (auto intro: fault_frame [OF assms(2)])

lemma socket_calm:
  assumes "no_faults s" "sys_socket s = (fd, s')" shows "0 \<le> fd" "no_faults s'" "dir s' = dir s" "is_dir s' = is_dir s"
proof -
  obtain b s1 where b: "fault s = (b, s1)" by (cases "fault s")
  note f = fault_quiet [OF assms(1) b]
  have i: "install_fd (next_ofd s1) (s1\<lparr>next_ofd := Suc (next_ofd s1)\<rparr>) = (fd, s')" using assms(2) b f(1) by (simp add: sys_socket_def)
  then obtain u where "s' = s1\<lparr>next_ofd := Suc (next_ofd s1), fds := u\<rparr>" using install_fd_frame by blast
  then show "0 \<le> fd" "no_faults s'" "dir s' = dir s" "is_dir s' = is_dir s"
    using i f by (auto simp: install_fd_def Let_def no_faults_def)
qed

lemma bind_calm:
  assumes "no_faults s" "sys_bind a n s = (ok, n', s')"
  shows "ok \<longleftrightarrow> a \<notin> set (nt_bound n) \<and> (case a of UnixAddr p \<Rightarrow> dir s p = None \<and> \<not> is_dir s p | _ \<Rightarrow> True)" "no_faults s'"
proof -
  obtain b s1 where b: "fault s = (b, s1)" by (cases "fault s")
  show "ok \<longleftrightarrow> a \<notin> set (nt_bound n) \<and> (case a of UnixAddr p \<Rightarrow> dir s p = None \<and> \<not> is_dir s p | _ \<Rightarrow> True)" "no_faults s'"
    using assms(2) fault_quiet [OF assms(1) b] by (auto simp: sys_bind_def b split: if_splits sockaddr.splits)
qed

lemma unlink_calm:
  assumes "no_faults s" "unlink_socket p n s = (n', s')"
  shows "dir s' p = None" "UnixAddr p \<notin> set (nt_bound n')" "is_dir s' = is_dir s" "no_faults s'"
proof -
  obtain b s1 where b: "fault s = (b, s1)" by (cases "fault s")
  show "dir s' p = None" "UnixAddr p \<notin> set (nt_bound n')" "is_dir s' = is_dir s" "no_faults s'"
    using assms(2) fault_quiet [OF assms(1) b] by (auto simp: unlink_socket_def b no_faults_def)
qed

lemma listen_calm: "no_faults s \<Longrightarrow> sys_listen s = (ok, s') \<Longrightarrow> ok"
  by (auto simp: sys_listen_def dest: fault_quiet(1) split: prod.splits)

lemma connect_calm: "no_faults s \<Longrightarrow> sys_connect a s = (ok, s') \<Longrightarrow> ok"
  by (auto simp: sys_connect_def dest: fault_quiet(1) split: prod.splits)

lemma unix_server_calm:
  assumes "no_faults s" "sun_path path = path" "\<not> is_dir s path" "create_unix_server path n s = (fd, n', s')" shows "0 \<le> fd"
proof -
  obtain k s1 where 1: "sys_socket s = (k, s1)" by fastforce
  obtain n2 s2 where 2: "unlink_socket path n s1 = (n2, s2)" by fastforce
  obtain ok n3 s3 where 3: "sys_bind (UnixAddr path) n2 s2 = (ok, n3, s3)" by (metis prod_cases3)
  obtain ok' s4 where 4: "sys_listen s3 = (ok', s4)" by fastforce
  note c1 = socket_calm [OF assms(1) 1] note c2 = unlink_calm [OF c1(2) 2]
  note c3 = bind_calm [OF c2(4) 3]
  have ok using c3(1) c2(1-3) c1(4) assms(3) by simp
  then show ?thesis using assms(2,4) c1(1) listen_calm [OF c3(2) 4] by (auto simp: create_unix_server_def 1 2 3 4)
qed

lemma inet_server_calm:
  assumes "no_faults s" "server_addr n host = Some a" "InetAddr a port \<notin> set (nt_bound n)"
  shows "create_tcp_server host port n s = (fd, n', s') \<Longrightarrow> 0 \<le> fd" "create_udp_server host port n s = (fd, n', s') \<Longrightarrow> 0 \<le> fd"
proof -
  obtain k s1 where 1: "sys_socket s = (k, s1)" by fastforce
  obtain ok n2 s2 where 2: "sys_bind (InetAddr a port) n s1 = (ok, n2, s2)" by (metis prod_cases3)
  obtain ok' s3 where 3: "sys_listen s2 = (ok', s3)" by fastforce
  note c1 = socket_calm [OF assms(1) 1] note c2 = bind_calm [OF c1(2) 2]
  show "create_tcp_server host port n s = (fd, n', s') \<Longrightarrow> 0 \<le> fd" "create_udp_server host port n s = (fd, n', s') \<Longrightarrow> 0 \<le> fd"
    using c1(1) c2(1) assms(2,3) listen_calm [OF c2(2) 3] by (auto simp: create_tcp_server_def create_udp_server_def 1 2 3)
qed

lemma server_created:
  assumes "no_faults s" "server_possible c n s" "transport_server_create c n s = (r, n', s')"
  shows "\<exists>t. r = Some t \<and> tr_type t = cfg_type c \<and> tr_is_server t"
proof -
  obtain b s1 where b: "fault s = (b, s1)" by (cases "fault s")
  note f = fault_quiet [OF assms(1) b]
  show ?thesis using assms(2,3) f unix_server_calm [OF f(2)] inet_server_calm [OF f(2)]
    by (cases c) (fastforce simp: transport_server_create_def b new_transport_def split: prod.splits if_splits)+
qed

lemma client_connected:
  assumes "no_faults s" "client_possible c n"
  shows "\<exists>t s'. transport_client_connect c n s = Some (Some t, s') \<and> tr_type t = cfg_type c \<and> \<not> tr_is_server t"
proof -
  obtain b s1 where b: "fault s = (b, s1)" by (cases "fault s")
  obtain k s2 where k: "sys_socket s1 = (k, s2)" by fastforce
  note c1 = fault_quiet [OF assms(1) b] note c2 = socket_calm [OF c1(2) k]
  have con: "\<exists>s'. connect_to k a t s2 = (Some (t\<lparr>tr_fd := k\<rparr>), s')" for a t
  proof -
    obtain ok s' where e: "sys_connect a s2 = (ok, s')" by fastforce
    show ?thesis using connect_calm [OF c2(2) e] by (simp add: connect_to_def e)
  qed
  show ?thesis
  proof (cases c)
    case (UnixCfg path)
    then show ?thesis using c1(1) c2(1) con [of "UnixAddr (sun_path path)" "new_transport TRANSPORT_UNIX False"]
      by (auto simp: transport_client_connect_def b k new_transport_def)
  next
    case (TcpCfg host port)
    with assms(2) obtain h a where "host = Some h" "host_addr n h = Some a" by auto
    then show ?thesis using TcpCfg c1(1) c2(1) con [of "InetAddr a port" "new_transport TRANSPORT_TCP False"]
      by (auto simp: transport_client_connect_def b k new_transport_def)
  next
    case (UdpCfg host port m)
    with assms(2) obtain h a where "host = Some h" "host_addr n h = Some a" by auto
    then show ?thesis using UdpCfg c1(1) c2(1) by (simp add: transport_client_connect_def b k new_transport_def)
  qed
qed

lemma connection_accepted:
  assumes "no_faults s" "accept_possible srv n"
  shows "\<exists>t n' s'. transport_accept srv n s = Some (Some t, n', s') \<and> tr_type t = tr_type srv \<and> \<not> tr_is_server t"
proof -
  obtain x re te "is" where i: "nt_incoming n = Connection x re te # is" "tr_is_server srv" "tr_type srv \<noteq> TRANSPORT_UDP"
    using assms(2) unfolding accept_possible_def by blast
  let ?s = "s\<lparr>next_ofd := Suc (next_ofd s), rx := x, tx := [], rx_ev := re, tx_ev := te\<rparr>"
  obtain fd s1 where s1: "install_fd (next_ofd s) ?s = (fd, s1)" by fastforce
  then obtain u where "s1 = ?s\<lparr>fds := u\<rparr>" using install_fd_frame by blast
  then have n: "no_faults s1" using assms(1) by (simp add: no_faults_def)
  obtain b s2 where b: "fault s1 = (b, s2)" by fastforce
  show ?thesis using i s1 fault_quiet(1) [OF n b] by (simp add: transport_accept_def sys_accept_def b new_transport_def)
qed

text \<open>
  C13: A constructor of the transport library (server_create, client_connect, accept) leaves exactly
  one new descriptor, that of the handle it returns, which was free before and is open after; when
  it returns no handle the descriptor table is as it was. Closing the handle gives the old table
  back, whatever failed in between. When no call fails and the request can be met (the name can be
  bound, the host is known, a client is waiting) it does return a handle, of the type asked for and
  in its role.
\<close>

theorem transport_balanced:
  "(transport_server_create c n s = (r, n', s') \<longrightarrow>
     one_descriptor r s s' \<and> (\<forall>x. fd_obj (discard r s') x = fd_obj s x) \<and>
     (no_faults s \<and> server_possible c n s \<longrightarrow> (\<exists>t. r = Some t \<and> tr_type t = cfg_type c \<and> tr_is_server t))) \<and>
   (transport_client_connect c n s = Some (r, s') \<longrightarrow>
     one_descriptor r s s' \<and> (\<forall>x. fd_obj (discard r s') x = fd_obj s x) \<and>
     (no_faults s \<and> client_possible c n \<longrightarrow> (\<exists>t. r = Some t \<and> tr_type t = cfg_type c \<and> \<not> tr_is_server t))) \<and>
   (transport_accept srv n s = Some (r, n', s') \<longrightarrow>
     one_descriptor r s s' \<and> (\<forall>x. fd_obj (discard r s') x = fd_obj s x) \<and>
     (no_faults s \<and> accept_possible srv n \<longrightarrow> (\<exists>t. r = Some t \<and> tr_type t = tr_type srv \<and> \<not> tr_is_server t)))"
proof (intro conjI impI allI)
  assume a: "transport_server_create c n s = (r, n', s')"
  show "one_descriptor r s s'" "fd_obj (discard r s') x = fd_obj s x" for x
    using server_maker.leaves_one server_maker.closed_again a by blast+
  show "\<exists>t. r = Some t \<and> tr_type t = cfg_type c \<and> tr_is_server t" if "no_faults s \<and> server_possible c n s"
    using server_created [OF _ _ a] that by blast
next
  assume a: "transport_client_connect c n s = Some (r, s')"
  show "one_descriptor r s s'" "fd_obj (discard r s') x = fd_obj s x" for x
    by (rule client_maker.leaves_one [OF a], rule client_maker.closed_again [OF a])
  show "\<exists>t. r = Some t \<and> tr_type t = cfg_type c \<and> \<not> tr_is_server t" if "no_faults s \<and> client_possible c n"
    using client_connected [of s c n] that a by auto
next
  assume a: "transport_accept srv n s = Some (r, n', s')"
  show "one_descriptor r s s'" "fd_obj (discard r s') x = fd_obj s x" for x
    using accept_maker.leaves_one accept_maker.closed_again a by blast+
  show "\<exists>t. r = Some t \<and> tr_type t = tr_type srv \<and> \<not> tr_is_server t" if "no_faults s \<and> accept_possible srv n"
    using connection_accepted [of s srv n] that a by auto
qed

definition lone_net :: net where
  "lone_net = \<lparr>nt_bound = [], nt_incoming = [Connection [Plain 1] [] []], nt_hosts = Map.empty, nt_dg_in = [], nt_dg_out = []\<rparr>"

theorem transport_balanced_witness:
  "\<exists>t n' s'. transport_server_create (UnixCfg ''/s'') lone_net os_init = (Some t, n', s') \<and>
     fd_obj os_init (tr_fd t) = None \<and> fd_obj s' (tr_fd t) \<noteq> None \<and> tr_is_server t"
proof -
  obtain r n' s' where e: "transport_server_create (UnixCfg ''/s'') lone_net os_init = (r, n', s')" by (metis prod_cases3)
  have "no_faults (os_init :: os)" "server_possible (UnixCfg ''/s'') lone_net (os_init :: os)"
    by (simp_all add: os_init_def no_faults_def sun_path_def c_str_def)
  then obtain t where "r = Some t" "tr_is_server t" "one_descriptor r (os_init :: os) s'"
    using e transport_balanced [of "UnixCfg ''/s''" lone_net os_init r n' s'] by blast
  then show ?thesis using e by (auto simp: one_descriptor_def)
qed

section \<open>Passing descriptors\<close>

text \<open>A caller that passes several descriptors, with an operation type each, and one that takes them.\<close>

fun send_fds :: "transport \<Rightarrow> (u8 \<times> int) list \<Rightarrow> 'a os_scheme \<Rightarrow> bool \<times> 'a os_scheme" where
  "send_fds t [] s = (True, s)"
| "send_fds t ((m, fd) # ms) s = (case transport_send_fd t fd m s of (True, s) \<Rightarrow> send_fds t ms s | (False, s) \<Rightarrow> (False, s))"

fun recv_fds :: "transport \<Rightarrow> nat \<Rightarrow> 'a os_scheme \<Rightarrow> (int \<times> u8 option) list \<times> 'a os_scheme" where
  "recv_fds t 0 s = ([], s)"
| "recv_fds t (Suc k) s =
     (let (fd, m, s) = transport_recv_fd t s; (ms, s) = recv_fds t k s in ((fd, m) # ms, s))"

lemma in_set_tl: "x \<in> set (tl xs) \<Longrightarrow> x \<in> set xs"
  by (cases xs) simp_all

lemma send_fd_calm:
  assumes "tr_type t = TRANSPORT_UNIX" "link_calm s" "fd_obj s fd = Some d"
  shows "transport_send_fd t fd m s = (True, s\<lparr>tx_ev := tl (tx_ev s), tx := tx s @ [WithFd m d]\<rparr>)"
    and "link_calm (s\<lparr>tx_ev := tl (tx_ev s), tx := tx s @ [WithFd m d]\<rparr>)"
  using assms(1,3) calm_event(1) [OF assms(2)] assms(2)
  by (simp_all only: transport_send_fd_def fdpass_send_def sock_sendmsg_fd_def Let_def if_False fd_obj_update option.case)
     (auto simp: link_calm_def link_ok_def dest: in_set_tl)

lemma send_fds_calm:
  assumes "tr_type t = TRANSPORT_UNIX" "link_calm s" "\<forall>(m, fd) \<in> set ms. fd_obj s fd \<noteq> None"
  shows "\<exists>s'. send_fds t ms s = (True, s') \<and> fds s' = fds s \<and> tx s' = tx s @ map (\<lambda>(m, fd). WithFd m (the (fd_obj s fd))) ms"
  using assms
proof (induction ms arbitrary: s)
  case (Cons x ms)
  obtain m fd where x: "x = (m, fd)" by fastforce
  then obtain d where d: "fd_obj s fd = Some d" using Cons.prems(3) by auto
  let ?s = "s\<lparr>tx_ev := tl (tx_ev s), tx := tx s @ [WithFd m d]\<rparr>"
  note o = send_fd_calm [OF Cons.prems(1,2) d, of m]
  have f: "fd_obj ?s = fd_obj s" by (rule ext) (simp add: fd_obj_def)
  with Cons.prems(3) have "\<forall>(m, fd) \<in> set ms. fd_obj ?s fd \<noteq> None" by simp
  from Cons.IH [OF Cons.prems(1) o(2) this] show ?case using o(1) d by (auto simp: x f)
qed simp

lemma recv_fd_calm:
  assumes "tr_type t = TRANSPORT_UNIX" "rx s = WithFd m d # rest" "link_calm s" "no_faults s"
  obtains fd s' where "transport_recv_fd t s = (fd, Some m, s')" "fd_obj s fd = None" "fd_obj s' fd = Some d"
    "\<forall>x. x \<noteq> fd \<longrightarrow> fd_obj s' x = fd_obj s x" "rx s' = rest" "link_calm s'" "no_faults s'"
proof -
  let ?s1 = "s\<lparr>rx_ev := tl (rx_ev s), rx := rest\<rparr>"
  have "no_faults ?s1" using assms(4) by (simp add: no_faults_def)
  then obtain b where f: "fault ?s1 = (False, ?s1\<lparr>faults := b\<rparr>)" "True \<notin> set b" by (rule no_faults_fault)
  obtain fd s' where i: "install_fd d (?s1\<lparr>faults := b\<rparr>) = (fd, s')" by fastforce
  have r: "sock_recvmsg_fd 256 s = ((Some [m], Some fd), s')"
    using assms(2) f(1) i calm_event(2) [OF assms(3)] by (simp only: sock_recvmsg_fd_def Let_def if_False) simp
  obtain x where x: "s' = ?s1\<lparr>faults := b, fds := x\<rparr>" using install_fd_frame [OF i] .
  have "link_calm s'" "no_faults s'" "rx s' = rest"
    using x f(2) assms(3) by (auto simp: link_calm_def link_ok_def no_faults_def dest: in_set_tl)
  then show ?thesis using install_fd_fresh [OF i] assms(1)
    by (intro that [of fd s']) (auto simp: transport_recv_fd_def fdpass_recv_def r)
qed

lemma recv_fds_calm:
  assumes "tr_type t = TRANSPORT_UNIX" "link_calm s" "no_faults s" "rx s = map (\<lambda>(m, d). WithFd m d) ms @ rest"
  shows "\<exists>gs s'. recv_fds t (length ms) s = (gs, s') \<and> map snd gs = map (Some \<circ> fst) ms \<and>
     map (fd_obj s' \<circ> fst) gs = map (Some \<circ> snd) ms \<and> distinct (map fst gs) \<and> (\<forall>x \<in> fst ` set gs. fd_obj s x = None) \<and>
     (\<forall>x. x \<notin> fst ` set gs \<longrightarrow> fd_obj s' x = fd_obj s x) \<and> rx s' = rest"
  using assms
proof (induction ms arbitrary: s)
  case (Cons y ms)
  obtain m d where y: "y = (m, d)" by fastforce
  then have "rx s = WithFd m d # map (\<lambda>(m, d). WithFd m d) ms @ rest" using Cons.prems(4) by simp
  then obtain fd s1 where r: "transport_recv_fd t s = (fd, Some m, s1)" "fd_obj s fd = None" "fd_obj s1 fd = Some d"
    "\<forall>x. x \<noteq> fd \<longrightarrow> fd_obj s1 x = fd_obj s x" "rx s1 = map (\<lambda>(m, d). WithFd m d) ms @ rest" "link_calm s1" "no_faults s1"
    using recv_fd_calm [OF Cons.prems(1) _ Cons.prems(2,3)] by metis
  from Cons.IH [OF Cons.prems(1) r(6,7,5)] obtain gs s' where g: "recv_fds t (length ms) s1 = (gs, s')"
    "map snd gs = map (Some \<circ> fst) ms" "map (fd_obj s' \<circ> fst) gs = map (Some \<circ> snd) ms" "distinct (map fst gs)"
    "\<forall>x \<in> fst ` set gs. fd_obj s1 x = None" "\<forall>x. x \<notin> fst ` set gs \<longrightarrow> fd_obj s' x = fd_obj s1 x" "rx s' = rest" by blast
  have n: "fd \<notin> fst ` set gs" using g(5) r(3) by force
  show ?case
  proof (intro exI conjI)
    show "recv_fds t (length (y # ms)) s = ((fd, Some m) # gs, s')" by (simp add: r(1) g(1))
    show "\<forall>x \<in> fst ` set ((fd, Some m) # gs). fd_obj s x = None" using g(5) r(2,4) n by (metis image_insert insert_iff list.simps(15) fst_conv)
  qed (use g r n y in \<open>auto simp: comp_def\<close>)
qed simp

text \<open>
  Descriptors passed over a Unix transport arrive as they were sent. Sending a list of open
  descriptors, an operation type with each, succeeds and keeps the sender's table; a receiver whose
  stream starts with what was sent takes them in order, each with its own operation type and under
  a descriptor of its own that was free, for the open file the sender passed, keeps its other
  descriptors and leaves the rest of the stream. The link is calm (neither call is repeated after
  an interruption) and the receiver's table has room.
\<close>

theorem fdpass_roundtrip:
  assumes "tr_type t = TRANSPORT_UNIX" "tr_type t' = TRANSPORT_UNIX" "link_calm s" "\<forall>(m, fd) \<in> set ms. fd_obj s fd \<noteq> None"
  shows "\<exists>s1 sent. send_fds t ms s = (True, s1) \<and> (\<forall>x. fd_obj s1 x = fd_obj s x) \<and> tx s1 = tx s @ sent \<and>
     (\<forall>(r :: 'b os_scheme) rest. link_calm r \<and> no_faults r \<and> rx r = sent @ rest \<longrightarrow>
       (\<exists>gs r1. recv_fds t' (length ms) r = (gs, r1) \<and> map snd gs = map (Some \<circ> fst) ms \<and>
          map (fd_obj r1 \<circ> fst) gs = map (fd_obj s \<circ> snd) ms \<and> distinct (map fst gs) \<and> (\<forall>x \<in> fst ` set gs. fd_obj r x = None) \<and>
          (\<forall>x. x \<notin> fst ` set gs \<longrightarrow> fd_obj r1 x = fd_obj r x) \<and> rx r1 = rest))"
proof -
  let ?d = "map (\<lambda>(m, fd). (m, the (fd_obj s fd))) ms"
  obtain s1 where s: "send_fds t ms s = (True, s1)" "fds s1 = fds s" "tx s1 = tx s @ map (\<lambda>(m, fd). WithFd m (the (fd_obj s fd))) ms"
    using send_fds_calm [OF assms(1,3,4)] by blast
  have e: "map (\<lambda>(m, fd). WithFd m (the (fd_obj s fd))) ms = map (\<lambda>(m, d). WithFd m d) ?d" by auto
  have o: "map (Some \<circ> fst) ?d = map (Some \<circ> fst) ms" "map (Some \<circ> snd) ?d = map (fd_obj s \<circ> snd) ms"
    using assms(4) by auto
  show ?thesis
  proof (rule exI [of _ s1], rule exI [of _ "map (\<lambda>(m, fd). WithFd m (the (fd_obj s fd))) ms"], intro conjI allI impI)
    show "fd_obj s1 x = fd_obj s x" for x using s(2) by (simp add: fd_obj_def)
    fix r :: "'b os_scheme" and rest
    assume "link_calm r \<and> no_faults r \<and> rx r = map (\<lambda>(m, fd). WithFd m (the (fd_obj s fd))) ms @ rest"
    then show "\<exists>gs r1. recv_fds t' (length ms) r = (gs, r1) \<and> map snd gs = map (Some \<circ> fst) ms \<and>
          map (fd_obj r1 \<circ> fst) gs = map (fd_obj s \<circ> snd) ms \<and> distinct (map fst gs) \<and> (\<forall>x \<in> fst ` set gs. fd_obj r x = None) \<and>
          (\<forall>x. x \<notin> fst ` set gs \<longrightarrow> fd_obj r1 x = fd_obj r x) \<and> rx r1 = rest"
      using recv_fds_calm [OF assms(2), of r ?d rest] unfolding e o by (simp only: length_map)
  qed (rule s)+
qed

definition two_fds :: os where
  "two_fds = os_init\<lparr>fds := [Some 0, Some 1], next_ofd := 2\<rparr>"

theorem fdpass_roundtrip_witness:
  "\<exists>s1 gs r1. send_fds (new_transport TRANSPORT_UNIX True) [(0x31, 1), (0x32, 0)] two_fds = (True, s1) \<and>
     recv_fds (new_transport TRANSPORT_UNIX False) 2 (two_fds\<lparr>rx := tx s1\<rparr>) = (gs, r1) \<and>
     map snd gs = [Some 0x31, Some 0x32] \<and> map (fd_obj r1 \<circ> fst) gs = [Some 1, Some 0]"
proof -
  have t: "tr_type (new_transport TRANSPORT_UNIX b) = TRANSPORT_UNIX" for b by (simp add: new_transport_def)
  have c: "link_calm two_fds" "link_calm (two_fds\<lparr>rx := x\<rparr>)" "no_faults (two_fds\<lparr>rx := x\<rparr>)" "tx two_fds = []"
    "fd_obj two_fds 1 = Some 1" "fd_obj two_fds 0 = Some 0" for x
    by (simp_all add: two_fds_def os_init_def link_calm_def link_ok_def no_faults_def fd_obj_def)
  have "\<forall>(m, fd) \<in> set [(0x31 :: u8, 1), (0x32, 0)]. fd_obj two_fds fd \<noteq> None" using c by simp
  from fdpass_roundtrip [OF t t c(1) this, of True False] obtain s1 sent where s:
    "send_fds (new_transport TRANSPORT_UNIX True) [(0x31, 1), (0x32, 0)] two_fds = (True, s1)" "tx s1 = tx two_fds @ sent"
    "\<forall>(r :: os) rest. link_calm r \<and> no_faults r \<and> rx r = sent @ rest \<longrightarrow>
       (\<exists>gs r1. recv_fds (new_transport TRANSPORT_UNIX False) (length [(0x31 :: u8, 1 :: int), (0x32, 0)]) r = (gs, r1) \<and>
          map snd gs = map (Some \<circ> fst) [(0x31, 1 :: int), (0x32, 0)] \<and>
          map (fd_obj r1 \<circ> fst) gs = map (fd_obj two_fds \<circ> snd) [(0x31 :: u8, 1), (0x32, 0)] \<and>
          distinct (map fst gs) \<and> (\<forall>x \<in> fst ` set gs. fd_obj r x = None) \<and>
          (\<forall>x. x \<notin> fst ` set gs \<longrightarrow> fd_obj r1 x = fd_obj r x) \<and> rx r1 = rest)"
    by (elim exE conjE) (rule that)
  then show ?thesis using c s(3) [rule_format, of "two_fds\<lparr>rx := tx s1\<rparr>" "[]"] by (auto simp: numeral_2_eq_2)
qed

text \<open>Plain bytes before the descriptor are dropped, up to the size of the buffer.\<close>

lemma upto_fd_plain: "upto_fd (map Plain bs @ [WithFd b d]) = map Plain bs @ [WithFd b d]"
  by (induction bs) simp_all

lemma fdpass_swallows:
  assumes "rx s = map Plain bs @ [WithFd b d]" "length bs < 256" "rx_ev s = []" "faults s = []"
  shows "case fdpass_recv s of (fd, op, s') \<Rightarrow> fd_obj s' fd = Some d \<and> rx s' = [] \<and> op = Some (hd (bs @ [b]))"
proof -
  obtain fd s' where i: "install_fd d (s\<lparr>rx_ev := [], rx := []\<rparr>) = (fd, s')" by fastforce
  have r: "sock_recvmsg_fd 256 s = ((Some (bs @ [b]), Some fd), s')"
    using assms i by (simp add: sock_recvmsg_fd_def Let_def upto_fd_plain fault_def comp_def)
  obtain u where "s' = s\<lparr>rx_ev := [], rx := [], fds := u\<rparr>" using install_fd_frame [OF i] .
  then show ?thesis using install_fd_fresh(2) [OF i] by (simp add: fdpass_recv_def r)
qed

section \<open>Datagrams\<close>

text \<open>A datagram server answers the sender of the last datagram it received.\<close>

lemma udp_answers_sender:
  assumes "transport_recv len t n s = (Some bs, t', n', s')" "tr_type t = TRANSPORT_UDP"
    and "transport_send t' data n' s' = (k, n'', s'')" "0 \<le> k"
  obtains a xs where "nt_dg_in n = (a, xs) # nt_dg_in n'" "bs = take len xs" "nt_dg_out n'' = nt_dg_out n @ [(a, data)]"
  using assms by (auto simp: transport_recv_def transport_send_def sys_recvfrom_def sys_sendto_def Let_def
      split: prod.splits if_splits list.splits option.splits)

end
