(* ===== verification/Legacy.thy ===== *)
theory Legacy
  imports Transport Storage
begin

text \<open>
  The first object mapper (\<open>objmapper/src/server.c\<close>, \<open>objmapper/src/client.c\<close>): a server that
  answers requests for objects of the storage library over the transport library, by passing
  a descriptor, by copying or by splicing, and its client. A thread of the server runs to its
  end before the next connection is accepted.
\<close>

abbreviation OP_FDPASS :: u8 where "OP_FDPASS \<equiv> 0x31"
abbreviation OP_COPY :: u8 where "OP_COPY \<equiv> 0x32"
abbreviation OP_SPLICE :: u8 where "OP_SPLICE \<equiv> 0x33"

section \<open>Further calls\<close>

definition lseek_start :: "int \<Rightarrow> 'a os_scheme \<Rightarrow> 'a os_scheme" where
  "lseek_start fd s =
     (case fd_obj s fd of None \<Rightarrow> s | Some d \<Rightarrow> s\<lparr>ofds := (ofds s)(d := (ofds s d)\<lparr>of_off := 0\<rparr>)\<rparr>)"

text \<open>\<open>splice\<close> fails with \<open>EINVAL\<close> unless one of the descriptors refers to a pipe; files and
  sockets are no pipes.\<close>

definition sys_splice :: "int \<Rightarrow> int \<Rightarrow> 'a os_scheme \<Rightarrow> int \<times> 'a os_scheme" where
  "sys_splice fd_in fd_out s = (-1, s)"

text \<open>\<open>mkstemp\<close> followed by \<open>unlink\<close>: a new file without a name.\<close>

definition temp_file :: "'a os_scheme \<Rightarrow> int \<times> 'a os_scheme" where
  "temp_file s =
     (let (f, s) = fault s
      in if f then (-1, s)
         else new_ofd (next_ino s) O_RDWR (s\<lparr>inodes := (inodes s)(next_ino s := []), next_ino := Suc (next_ino s)\<rparr>))"

section \<open>The server\<close>

record session =
  se_transport :: transport
  se_operation_mode :: u8
  se_caps :: transport_caps

partial_function (option) copy_out :: "int \<Rightarrow> transport \<Rightarrow> net \<Rightarrow> 'a os_scheme \<Rightarrow> (net \<times> 'a os_scheme) option" where
  "copy_out fd t n s =
     (case file_read fd 8192 s of
        (KDone got, s) \<Rightarrow>
          if got = [] then Some (n, s)
          else (case transport_send t got n s of
                  (sent, n, s) \<Rightarrow> if sent < 0 then Some (n, s) else copy_out fd t n s)
      | (_, s) \<Rightarrow> Some (n, s))"

text \<open>The loop that splices; it stops at the first call that moves nothing.\<close>

partial_function (option) splice_out :: "int \<Rightarrow> int \<Rightarrow> int \<Rightarrow> int \<Rightarrow> 'a os_scheme \<Rightarrow> 'a os_scheme option" where
  "splice_out fd trans_fd offset sz s =
     (if offset < sz
      then (case sys_splice fd trans_fd s of
              (spliced, s) \<Rightarrow> if spliced \<le> 0 then Some s else splice_out fd trans_fd (offset + spliced) sz s)
      else Some s)"

definition size_msg :: "u64 \<Rightarrow> bytes" where
  "size_msg n = put_le 8 (unat n)"

text \<open>The answer to one request; \<open>buffer\<close> is what was received.\<close>

definition answer_request ::
    "session \<Rightarrow> bytes \<Rightarrow> object_storage \<Rightarrow> net \<Rightarrow> 'a os_scheme \<Rightarrow> (object_storage \<times> net \<times> 'a os_scheme) option" where
  "answer_request se buffer st n s =
     do {
       let t = se_transport se;
       (fd, info, st, s) \<leftarrow> storage_get_fd (c_str (string_of_bytes buffer)) st s;
       if fd < 0 then (case transport_send t (size_msg 0) n s of (_, n, s) \<Rightarrow> Some (st, n, s))
       else if se_operation_mode se = OP_FDPASS \<and> tc_supports_fdpass (se_caps se) then
         (case transport_send_fd t fd OP_FDPASS s of (_, s) \<Rightarrow> Some (st, n, sys_close fd s))
       else do {
         info \<leftarrow> info;
         let (_, n, s) = transport_send t (size_msg (oi_size info)) n s;
         if se_operation_mode se = OP_SPLICE \<and> tc_is_stream (se_caps se) then
           do { s \<leftarrow> splice_out fd (tr_fd t) 0 (sint (oi_size info)) s; Some (st, n, sys_close fd s) }
         else do { (n, s) \<leftarrow> copy_out fd t n (lseek_start fd s); Some (st, n, sys_close fd s) }
       }
     }"

partial_function (option) request_loop ::
    "session \<Rightarrow> object_storage \<Rightarrow> net \<Rightarrow> 'a os_scheme \<Rightarrow> (object_storage \<times> net \<times> 'a os_scheme) option" where
  "request_loop se st n s =
     (case transport_recv 1023 (se_transport se) n s of
        (None, t, n, s) \<Rightarrow> Some (st, n, s)
      | (Some buffer, t, n, s) \<Rightarrow>
          if buffer = [] then Some (st, n, s)
          else (case answer_request (se\<lparr>se_transport := t\<rparr>) buffer st n s of
                  None \<Rightarrow> None
                | Some (st, n, s) \<Rightarrow> request_loop (se\<lparr>se_transport := t\<rparr>) st n s))"

definition handle_client ::
    "session \<Rightarrow> object_storage \<Rightarrow> net \<Rightarrow> 'a os_scheme \<Rightarrow> (object_storage \<times> net \<times> 'a os_scheme) option" where
  "handle_client se st n s =
     do {
       let (_, n, s) = transport_send (se_transport se) (bytes_of_string ''200'') n s;
       (st, n, s) \<leftarrow> request_loop se st n s;
       Some (st, n, transport_close (se_transport se) s)
     }"

section \<open>Starting the server\<close>

datatype objmapper_transport = OBJMAPPER_TRANSPORT_UNIX | OBJMAPPER_TRANSPORT_TCP | OBJMAPPER_TRANSPORT_UDP

abbreviation OBJMAPPER_SOCK_PATH :: string where "OBJMAPPER_SOCK_PATH \<equiv> ''/tmp/objmapper.sock''"
abbreviation OBJMAPPER_TCP_PORT :: u16 where "OBJMAPPER_TCP_PORT \<equiv> 9999"
abbreviation OBJMAPPER_UDP_PORT :: u16 where "OBJMAPPER_UDP_PORT \<equiv> 9998"

record server_config =
  sc_transport :: objmapper_transport
  sc_socket_path :: "string option"
  sc_host :: "string option"
  sc_port :: u16
  sc_backing_dir :: "string option"
  sc_cache_dir :: "string option"
  sc_cache_limit :: u64

text \<open>The configuration of the transport, the same for server and client. Socket path and address
  are members of a union, of which only the one of the chosen transport is read; the length of
  the queue of connections has no effect here.\<close>

definition transport_cfg :: "objmapper_transport \<Rightarrow> string option \<Rightarrow> string option \<Rightarrow> u16 \<Rightarrow> transport_config" where
  "transport_cfg t path host port =
     (case t of
        OBJMAPPER_TRANSPORT_UNIX \<Rightarrow> UnixCfg (case path of Some p \<Rightarrow> p | None \<Rightarrow> OBJMAPPER_SOCK_PATH)
      | OBJMAPPER_TRANSPORT_TCP \<Rightarrow> TcpCfg host (if 0 < port then port else OBJMAPPER_TCP_PORT)
      | OBJMAPPER_TRANSPORT_UDP \<Rightarrow> UdpCfg host (if 0 < port then port else OBJMAPPER_UDP_PORT) 8192)"

text \<open>What the server does with an accepted connection.\<close>

definition serve_connection ::
    "transport \<Rightarrow> object_storage \<Rightarrow> net \<Rightarrow> 'a os_scheme \<Rightarrow> (object_storage \<times> net \<times> 'a os_scheme) option" where
  "serve_connection t st n s =
     (case transport_recv 1 t n s of
        (got, t, n, s) \<Rightarrow>
          let mode = (case got of Some [b] \<Rightarrow> b | _ \<Rightarrow> OP_COPY); caps = transport_get_caps t;
              mode = (if mode = OP_FDPASS \<and> \<not> tc_supports_fdpass caps then OP_COPY else mode);
              (f, s) = fault s
          in if f then Some (st, n, transport_close t s)
             else let se = \<lparr>se_transport = t, se_operation_mode = mode, se_caps = caps\<rparr>; (f, s) = fault s
                  in if f then Some (st, n, transport_close t s) else handle_client se st n s)"

text \<open>The accept loop never ends by itself: the result is the state in which the server waits
  for a connection that does not come.\<close>

partial_function (option) accept_loop ::
    "transport \<Rightarrow> object_storage \<Rightarrow> net \<Rightarrow> 'a os_scheme \<Rightarrow> (object_storage \<times> net \<times> 'a os_scheme) option" where
  "accept_loop srv st n s =
     (case transport_accept srv n s of
        None \<Rightarrow> Some (st, n, s)
      | Some (None, n, s) \<Rightarrow> accept_loop srv st n s
      | Some (Some t, n, s) \<Rightarrow>
          (case serve_connection t st n s of
             None \<Rightarrow> None
           | Some (st, n, s) \<Rightarrow> accept_loop srv st n s))"

datatype start_result = StartFailed | StartReturned | StartWaits object_storage

definition objmapper_server_start :: "server_config \<Rightarrow> net \<Rightarrow> 'a vm_scheme \<Rightarrow> (start_result \<times> net \<times> 'a vm_scheme) option" where
  "objmapper_server_start config n s =
     (if sc_backing_dir config = None then Some (StartFailed, n, s)
      else case storage_init \<lparr>cf_backing_dir = sc_backing_dir config, cf_cache_dir = sc_cache_dir config,
                             cf_cache_limit = sc_cache_limit config, cf_hash_size = 0\<rparr> s of
             (None, s) \<Rightarrow> Some (StartFailed, n, s)
           | (Some st, s) \<Rightarrow>
               (case transport_server_create
                       (transport_cfg (sc_transport config) (sc_socket_path config) (sc_host config) (sc_port config)) n s of
                  (None, n, s) \<Rightarrow> Some (StartFailed, n, storage_cleanup st s)
                | (Some srv, n, s) \<Rightarrow>
                    if tc_is_connection_oriented (transport_get_caps srv)
                    then do { (st, n, s) \<leftarrow> accept_loop srv st n s; Some (StartWaits st, n, s) }
                    else Some (StartReturned, n, storage_cleanup st (transport_close srv s))))"

section \<open>The client\<close>

record client_config =
  cl_transport :: objmapper_transport
  cl_socket_path :: "string option"
  cl_host :: "string option"
  cl_port :: u16
  cl_operation_mode :: u8

definition objmapper_client_connect :: "client_config \<Rightarrow> net \<Rightarrow> 'a os_scheme \<Rightarrow> (int \<times> net \<times> 'a os_scheme) option" where
  "objmapper_client_connect config n s =
     do {
       (r, s) \<leftarrow> transport_client_connect (transport_cfg (cl_transport config) (cl_socket_path config) (cl_host config) (cl_port config)) n s;
       case r of
         None \<Rightarrow> Some (-1, n, s)
       | Some t \<Rightarrow>
           (case transport_send t [cl_operation_mode config] n s of
              (sent, n, s) \<Rightarrow>
                if sent \<noteq> 1 then Some (-1, n, transport_close t s)
                else (case transport_recv 3 t n s of
                        (got, t, n, s) \<Rightarrow>
                          if map_option length got \<noteq> Some 3 then Some (-1, n, transport_close t s)
                          else Some (transport_get_fd (Some t), n, s)))
     }"

text \<open>The inner loop: all bytes of a buffer to the temporary file.\<close>

partial_function (option) write_temp :: "int \<Rightarrow> bytes \<Rightarrow> 'a os_scheme \<Rightarrow> (bool \<times> 'a os_scheme) option" where
  "write_temp fd bs s =
     (if bs = [] then Some (True, s)
      else case file_write fd bs s of
             (KDone out, s) \<Rightarrow> if out = [] then Some (False, s) else write_temp fd (drop (length out) bs) s
           | (_, s) \<Rightarrow> Some (False, s))"

text \<open>\<open>rest\<close> bytes are still to come.\<close>

partial_function (option) receive_data :: "int \<Rightarrow> nat \<Rightarrow> 'a os_scheme \<Rightarrow> (bool \<times> 'a os_scheme) option" where
  "receive_data fd rest s =
     (if rest = 0 then Some (True, s)
      else case sock_read (min rest 8192) s of
             (KDone got, s) \<Rightarrow>
               if got = [] then Some (True, s)
               else (case write_temp fd got s of
                       None \<Rightarrow> None
                     | Some (ok, s) \<Rightarrow> if \<not> ok then Some (False, s) else receive_data fd (rest - length got) s)
           | (_, s) \<Rightarrow> Some (True, s))"

definition objmapper_client_request :: "int \<Rightarrow> string \<Rightarrow> u8 \<Rightarrow> 'a os_scheme \<Rightarrow> (int \<times> 'a os_scheme) option" where
  "objmapper_client_request sock uri mode s =
     (if sock < 0 then Some (-1, s)
      else case sock_write (bytes_of_string uri) s of
             (KDone out, s) \<Rightarrow>
               if length out \<noteq> length uri then Some (-1, s)
               else if mode = OP_FDPASS then (case fdpass_recv s of (fd, _, s) \<Rightarrow> Some (fd, s))
               else (case sock_read 8 s of
                       (KDone got, s) \<Rightarrow>
                         if length got \<noteq> 8 then Some (-1, s)
                         else let sz = sint (of_nat (get_le got) :: u64)
                              in if sz \<le> 0 then Some (-1, s)
                                 else let (fd, s) = temp_file s
                                      in if fd < 0 then Some (-1, s)
                                         else do {
                                           (ok, s) \<leftarrow> receive_data fd (nat sz) s;
                                           Some (if ok then (fd, lseek_start fd s) else (-1, sys_close fd s))
                                         }
                     | (_, s) \<Rightarrow> Some (-1, s))
           | (_, s) \<Rightarrow> Some (-1, s))"

definition objmapper_client_close :: "int \<Rightarrow> 'a os_scheme \<Rightarrow> 'a os_scheme" where
  "objmapper_client_close sock s = (if 0 \<le> sock then sys_close sock s else s)"

end
