(* ===== verification/Legacy_Props.thy ===== *)
theory Legacy_Props
  imports Legacy Storage_Props
begin

text \<open>
  The first object mapper: what a copying server and its client exchange, and where the other
  modes of transfer fail.
\<close>

section \<open>Objects that can be opened\<close>

text \<open>Slot \<open>i\<close> holds an object whose file is \<open>ino\<close>: it is found under its path, or a readable
  descriptor is kept.\<close>

definition slot_file :: "object_storage \<Rightarrow> nat \<Rightarrow> 'a os_scheme \<Rightarrow> nat \<Rightarrow> bool" where
  "slot_file st i s ino \<longleftrightarrow>
     (let x = os_objects st ! i
      in if sl_backing_fd x < 0 then dir s (sl_backing_path x) = Some ino
         else \<exists>d. fd_obj s (sl_backing_fd x) = Some d \<and> of_ino (ofds s d) = ino \<and> of_acc (ofds s d) \<noteq> O_WRONLY)"

lemma slot_descriptor:
  assumes "slot_file st i s ino" "no_faults s"
  obtains fd s' d where
    "(if sl_backing_fd (os_objects st ! i) < 0 then sys_open O_RDONLY (sl_backing_path (os_objects st ! i)) s
      else (sl_backing_fd (os_objects st ! i), s)) = (fd, s')"
    "0 \<le> fd" "fd_obj s' fd = Some d" "of_ino (ofds s' d) = ino" "of_acc (ofds s' d) \<noteq> O_WRONLY" "no_faults s'"
    "\<exists>f x n t. s' = s\<lparr>faults := f, ofds := x, next_ofd := n, fds := t\<rparr>"
    "0 \<le> sl_backing_fd (os_objects st ! i) \<longrightarrow> fd = sl_backing_fd (os_objects st ! i) \<and> s' = s"
proof (cases "sl_backing_fd (os_objects st ! i) < 0")
  case True
  let ?p = "sl_backing_path (os_objects st ! i)"
  have ino: "dir s ?p = Some ino" using assms(1) True by (simp add: slot_file_def Let_def)
  obtain fd s1 where o: "sys_open O_RDONLY ?p s = (fd, s1)" by (cases "sys_open O_RDONLY ?p s")
  from sys_open_ok [OF assms(2) ino o] have ok: "0 \<le> fd" "no_faults s1" .
  from sys_open_result(1) [OF o ok(1)] ino obtain d where d: "fd_obj s1 fd = Some d"
      "ofds s1 d = \<lparr>of_ino = ino, of_off = 0, of_acc = O_RDONLY\<rparr>" by auto
  obtain f x n t where s1: "s1 = s\<lparr>faults := f, ofds := x, next_ofd := n, fds := t\<rparr>" using sys_open_frame [OF o] .
  show ?thesis by (rule that [of fd s1 d]) (use True o ok d s1 in auto)
next
  case False
  let ?fd = "sl_backing_fd (os_objects st ! i)"
  obtain d where d: "fd_obj s ?fd = Some d" "of_ino (ofds s d) = ino" "of_acc (ofds s d) \<noteq> O_WRONLY"
    using assms(1) False by (auto simp: slot_file_def Let_def)
  have "s = s\<lparr>faults := faults s, ofds := ofds s, next_ofd := next_ofd s, fds := fds s\<rparr>" by simp
  then have "\<exists>f x n t. s = s\<lparr>faults := f, ofds := x, next_ofd := n, fds := t\<rparr>" by blast
  then show ?thesis by (rule that [of ?fd s d, rotated 6]) (use False d assms(2) in simp_all)
qed

lemma get_fd_slot:
  assumes "st_rep st m" "m u = Some i" "slot_file st i s ino" "no_faults s"
  obtains fd info st' s' d where "storage_get_fd u st s = Some (fd, Some info, st', s')"
    "0 \<le> fd" "fd_obj s' fd = Some d" "of_ino (ofds s' d) = ino" "of_acc (ofds s' d) \<noteq> O_WRONLY"
    "oi_size info = sl_size (os_objects st ! i)" "st_rep st' m" "no_faults s'"
    "sl_size (os_objects st' ! i) = sl_size (os_objects st ! i)"
    "0 \<le> sl_backing_fd (os_objects st' ! i)" "sl_backing_fd (os_objects st' ! i) \<noteq> fd"
    "fd_obj s' (sl_backing_fd (os_objects st' ! i)) = Some d"
    "\<exists>f x n t. s' = s\<lparr>faults := f, ofds := x, next_ofd := n, fds := t\<rparr>"
    "0 \<le> sl_backing_fd (os_objects st ! i) \<longrightarrow>
       sl_backing_fd (os_objects st' ! i) = sl_backing_fd (os_objects st ! i) \<and> ofds s' = ofds s \<and>
       fd_obj s (sl_backing_fd (os_objects st ! i)) = Some d"
proof -
  have i: "i < length (os_objects st)" using assms(1,2) by (auto simp: st_rep_def)
  obtain fd s1 d where o:
    "(if sl_backing_fd (os_objects st ! i) < 0 then sys_open O_RDONLY (sl_backing_path (os_objects st ! i)) s
      else (sl_backing_fd (os_objects st ! i), s)) = (fd, s1)"
    and fd: "0 \<le> fd" "fd_obj s1 fd = Some d" and d: "of_ino (ofds s1 d) = ino" "of_acc (ofds s1 d) \<noteq> O_WRONLY"
    and nf: "no_faults s1" and fr: "\<exists>f x n t. s1 = s\<lparr>faults := f, ofds := x, next_ofd := n, fds := t\<rparr>"
    and old: "0 \<le> sl_backing_fd (os_objects st ! i) \<longrightarrow> fd = sl_backing_fd (os_objects st ! i) \<and> s1 = s"
    using slot_descriptor [OF assms(3,4)] .
  obtain t2 where f: "fault s1 = (False, s1\<lparr>faults := t2\<rparr>)" "True \<notin> set t2"
    using no_faults_fault [OF nf] .
  obtain fd2 s2 where n: "install_fd d (s1\<lparr>faults := t2\<rparr>) = (fd2, s2)" by (cases "install_fd d (s1\<lparr>faults := t2\<rparr>)")
  have dup: "sys_dup fd s1 = (fd2, s2)" using f fd n by (simp add: sys_dup_def)
  obtain t3 where s2: "s2 = s1\<lparr>faults := t2, fds := t3\<rparr>" using install_fd_frame [OF n] .
  let ?st = "upd_slot i (\<lambda>x. x\<lparr>sl_hits := sl_hits x + 1\<rparr>) (upd_slot i (\<lambda>x. x\<lparr>sl_backing_fd := fd\<rparr>) st)"
  have run: "storage_get_fd u st s = Some (fd2, Some (slot_info (os_objects ?st ! i)), ?st, s2)"
    using find_slot_map [OF assms(1), of u] assms(2) o fd(1) dup
    by (simp add: storage_get_fd_def Let_def)
  note fresh = install_fd_fresh [OF n]
  have ne: "fd \<noteq> fd2" using fresh(1) fd(2) by auto
  have rep: "st_rep ?st m" by (intro rep_upd_slot assms(1)) simp_all
  show ?thesis
  proof (rule that [OF run])
    show "fd_obj s2 fd2 = Some d" "0 \<le> fd2" by (fact fresh)+
    show "of_ino (ofds s2 d) = ino" "of_acc (ofds s2 d) \<noteq> O_WRONLY" using d by (simp_all add: s2)
    show "no_faults s2" using f(2) by (simp add: s2 no_faults_def)
    show "fd_obj s2 (sl_backing_fd (os_objects ?st ! i)) = Some d"
      using i ne fd(2) fresh(4) [OF ne] by (simp add: upd_slot_def)
    obtain f x n t where "s1 = s\<lparr>faults := f, ofds := x, next_ofd := n, fds := t\<rparr>" using fr by blast
    then have "s2 = s\<lparr>faults := t2, ofds := x, next_ofd := n, fds := t3\<rparr>" by (simp add: s2)
    then show "\<exists>f x n t. s2 = s\<lparr>faults := f, ofds := x, next_ofd := n, fds := t\<rparr>" by blast
    show "0 \<le> sl_backing_fd (os_objects st ! i) \<longrightarrow>
       sl_backing_fd (os_objects ?st ! i) = sl_backing_fd (os_objects st ! i) \<and> ofds s2 = ofds s \<and>
       fd_obj s (sl_backing_fd (os_objects st ! i)) = Some d"
      using i old fd(2) by (auto simp: upd_slot_def s2)
  qed (use i fd(1) ne rep in \<open>simp_all add: upd_slot_def slot_info_def\<close>)
qed

section \<open>Copying\<close>

text \<open>A stream without interruptions.\<close>

definition calm_out :: "transport \<Rightarrow> 'a os_scheme \<Rightarrow> bool" where
  "calm_out t s \<longleftrightarrow> tr_type t \<noteq> TRANSPORT_UDP \<and> tx_ev s = [] \<and> fio_ev s = []"

lemma calm_send:
  "calm_out t s \<Longrightarrow> transport_send t bs n s = (int (length bs), n, s\<lparr>tx := tx s @ map Plain bs\<rparr>)"
  by (simp add: calm_out_def transport_send_def sock_write_def chunk_def)

lemma take_rest: "take k xs @ drop (length (take k xs)) xs = xs"
  by (cases "k \<le> length xs") simp_all

text \<open>The loop sends what is left of the file and changes only the offset.\<close>

lemma copy_out_rest:
  assumes "fd_obj s fd = Some d" "of_acc (ofds s d) \<noteq> O_WRONLY" "calm_out t s" "inodes s (of_ino (ofds s d)) = data"
  shows "\<exists>off. copy_out fd t n s =
     Some (n, s\<lparr>ofds := (ofds s)(d := (ofds s d)\<lparr>of_off := off\<rparr>), tx := tx s @ map Plain (drop (of_off (ofds s d)) data)\<rparr>)"
  using assms
proof (induction "length data - of_off (ofds s d)" arbitrary: s rule: less_induct)
  case less
  let ?f = "ofds s d"
  let ?got = "take 8192 (drop (of_off ?f) data)"
  let ?s = "s\<lparr>ofds := (ofds s)(d := ?f\<lparr>of_off := of_off ?f + length ?got\<rparr>)\<rparr>"
  have r: "file_read fd 8192 s = (KDone ?got, ?s)"
    using less.prems by (simp add: file_read_def chunk_def calm_out_def Let_def)
  show ?case
  proof (cases "of_off ?f < length data")
    case False
    then have "copy_out fd t n s = Some (n, ?s)" by (subst copy_out.simps) (simp add: r)
    with False show ?thesis by (intro exI [of _ "of_off ?f"]) simp
  next
    case True
    let ?s' = "?s\<lparr>tx := tx s @ map Plain ?got\<rparr>"
    have calm: "calm_out t ?s" "calm_out t ?s'" using less.prems(3) by (simp_all add: calm_out_def)
    have got: "?got \<noteq> []" using True by simp
    have "length data - of_off (ofds ?s' d) < length data - of_off ?f" using True by simp
    from less.hyps [OF this] less.prems calm(2) obtain off where
      "copy_out fd t n ?s' = Some (n, ?s'\<lparr>ofds := (ofds ?s')(d := (ofds ?s' d)\<lparr>of_off := off\<rparr>),
         tx := tx ?s' @ map Plain (drop (of_off (ofds ?s' d)) data)\<rparr>)" by auto
    moreover have "copy_out fd t n s = copy_out fd t n ?s'"
      using got calm_send [OF calm(1), of ?got n] by (subst copy_out.simps) (simp add: r)
    moreover have "?got @ drop (of_off ?f + length ?got) data = drop (of_off ?f) data"
      using take_rest [of 8192 "drop (of_off ?f) data"] by (simp add: add.commute)
    ultimately show ?thesis by (intro exI [of _ off]) (simp flip: map_append)
  qed
qed

text \<open>The state in which a session finds object \<open>u\<close> with contents \<open>data\<close>.\<close>

definition serves :: "session \<Rightarrow> object_storage \<Rightarrow> 'a os_scheme \<Rightarrow> string \<Rightarrow> bytes \<Rightarrow> bool" where
  "serves se st s u data \<longleftrightarrow> calm_out (se_transport se) s \<and> no_faults s \<and>
     (\<exists>m i ino. st_rep st m \<and> m u = Some i \<and> slot_file st i s ino \<and> inodes s ino = data \<and>
        sl_size (os_objects st ! i) = of_nat (length data))"

definition copy_mode :: "session \<Rightarrow> bool" where
  "copy_mode se \<longleftrightarrow> \<not> (se_operation_mode se = OP_FDPASS \<and> tc_supports_fdpass (se_caps se)) \<and>
     \<not> (se_operation_mode se = OP_SPLICE \<and> tc_is_stream (se_caps se))"

lemma answer_copy:
  assumes "serves se st s u data" "copy_mode se" "c_str u = u"
  obtains st' s' where "answer_request se (bytes_of_string u) st n s = Some (st', n, s')" "serves se st' s' u data"
    "tx s' = tx s @ map Plain (size_msg (of_nat (length data)) @ data)"
proof -
  from assms(1) obtain m i ino where calm: "calm_out (se_transport se) s" and nf: "no_faults s" and rep: "st_rep st m" "m u = Some i"
    and slot: "slot_file st i s ino" and inode: "inodes s ino = data" and sz: "sl_size (os_objects st ! i) = of_nat (length data)"
    unfolding serves_def by blast
  obtain fd info st' s1 d where g: "storage_get_fd u st s = Some (fd, Some info, st', s1)"
    and fd: "0 \<le> fd" "fd_obj s1 fd = Some d" and d: "of_ino (ofds s1 d) = ino" "of_acc (ofds s1 d) \<noteq> O_WRONLY"
    and info: "oi_size info = sl_size (os_objects st ! i)" and rep': "st_rep st' m" "no_faults s1"
      "sl_size (os_objects st' ! i) = sl_size (os_objects st ! i)"
    and bfd: "0 \<le> sl_backing_fd (os_objects st' ! i)" "sl_backing_fd (os_objects st' ! i) \<noteq> fd"
      "fd_obj s1 (sl_backing_fd (os_objects st' ! i)) = Some d"
    and fr: "\<exists>f x n t. s1 = s\<lparr>faults := f, ofds := x, next_ofd := n, fds := t\<rparr>"
    using get_fd_slot [OF rep slot nf] by metis
  from fr have s1: "tx s1 = tx s" "tx_ev s1 = tx_ev s" "fio_ev s1 = fio_ev s" "inodes s1 = inodes s" by auto
  let ?t = "se_transport se"
  let ?s2 = "lseek_start fd (s1\<lparr>tx := tx s @ map Plain (size_msg (of_nat (length data)))\<rparr>)"
  have calm1: "calm_out ?t s1" "calm_out ?t ?s2"
    using calm by (simp_all add: calm_out_def s1 lseek_start_def fd split: option.splits)
  have s2: "fd_obj ?s2 x = fd_obj s1 x" "ofds ?s2 = (ofds s1)(d := (ofds s1 d)\<lparr>of_off := 0\<rparr>)" "inodes ?s2 = inodes s1"
    "tx ?s2 = tx s @ map Plain (size_msg (of_nat (length data)))" "faults ?s2 = faults s1" for x
    by (simp_all add: lseek_start_def fd)
  obtain off where c: "copy_out fd ?t n ?s2 = Some (n, ?s2\<lparr>ofds := (ofds ?s2)(d := (ofds ?s2 d)\<lparr>of_off := off\<rparr>),
      tx := tx ?s2 @ map Plain (drop (of_off (ofds ?s2 d)) data)\<rparr>)"
    using copy_out_rest [of ?s2 fd d ?t data n] calm1(2) fd d inode by (auto simp: s2 s1)
  let ?s3 = "?s2\<lparr>ofds := (ofds ?s2)(d := (ofds ?s2 d)\<lparr>of_off := off\<rparr>), tx := tx ?s2 @ map Plain (drop (of_off (ofds ?s2 d)) data)\<rparr>"
  have "answer_request se (bytes_of_string u) st n s = Some (st', n, sys_close fd ?s3)"
    using g fd(1) c calm_send [OF calm1(1)] assms(2,3) sz info
    by (auto simp: answer_request_def copy_mode_def s1 Let_def)
  moreover have "serves se st' (sys_close fd ?s3) u data"
    unfolding serves_def
  proof (intro conjI exI)
    show "st_rep st' m" "m u = Some i" by fact+
    show "slot_file st' i (sys_close fd ?s3) ino"
      using bfd d by (auto simp: slot_file_def Let_def fd_obj_close s2 sys_close_simps)
  qed (use calm1(2) rep' rep(2) inode sz in \<open>simp_all add: calm_out_def no_faults_def sys_close_simps s1 s2\<close>)
  moreover have "tx (sys_close fd ?s3) = tx s @ map Plain (size_msg (of_nat (length data)) @ data)"
    by (simp add: sys_close_simps s2)
  ultimately show ?thesis by (rule that)
qed

section \<open>Receiving a copy\<close>

text \<open>A file that is written at its end, under a descriptor that may write.\<close>

definition at_end :: "int \<Rightarrow> nat \<Rightarrow> 'a os_scheme \<Rightarrow> bytes \<Rightarrow> bool" where
  "at_end fd d s old \<longleftrightarrow> fd_obj s fd = Some d \<and> of_acc (ofds s d) = O_RDWR \<and> fio_ev s = [] \<and>
     inodes s (of_ino (ofds s d)) = old \<and> of_off (ofds s d) = length old"

lemma write_temp_all:
  assumes "at_end fd d s old"
  obtains s' where "write_temp fd bs s = Some (True, s')" "at_end fd d s' (old @ bs)" "rx s' = rx s" "rx_ev s' = rx_ev s"
proof (cases "bs = []")
  case True
  then have "write_temp fd bs s = Some (True, s)" by (simp add: write_temp.simps)
  then show ?thesis by (rule that) (use assms True in simp_all)
next
  case False
  let ?f = "ofds s d"
  let ?s = "s\<lparr>inodes := (inodes s)(of_ino ?f := old @ bs), ofds := (ofds s)(d := ?f\<lparr>of_off := of_off ?f + length bs\<rparr>)\<rparr>"
  have "file_write fd bs s = (KDone bs, ?s)"
    using assms by (simp add: file_write_def at_end_def Let_def chunk_def)
  then have "write_temp fd bs s = Some (True, ?s)"
    using False by (subst write_temp.simps) (simp add: write_temp.simps [of _ "[]"])
  then show ?thesis by (rule that) (use assms in \<open>simp_all add: at_end_def\<close>)
qed

lemma receive_data_all:
  assumes "at_end fd d s old" "rx_ev s = []" "rx s = map Plain data @ later"
  shows "\<exists>s'. receive_data fd (length data) s = Some (True, s') \<and> at_end fd d s' (old @ data) \<and> rx s' = later \<and> rx_ev s' = []"
  using assms
proof (induction "length data" arbitrary: data s old rule: less_induct)
  case less
  show ?case
  proof (cases "data = []")
    case True
    then show ?thesis using less.prems by (subst receive_data.simps) simp
  next
    case False
    define k where "k = min (length data) 8192"
    have k: "k \<noteq> 0" "k \<le> length data" using False by (simp_all add: k_def)
    let ?got = "take k data"
    let ?s = "s\<lparr>rx := map Plain (drop k data) @ later\<rparr>"
    have r: "sock_read k s = (KDone ?got, ?s)"
      using less.prems k(2) by (simp add: sock_read_def Let_def chunk_def comp_def take_map drop_map)
    have "at_end fd d ?s old" using less.prems(1) by (simp add: at_end_def)
    from write_temp_all [OF this, of ?got] obtain s1 where
      w: "write_temp fd ?got ?s = Some (True, s1)" "at_end fd d s1 (old @ ?got)" "rx s1 = rx ?s" "rx_ev s1 = rx_ev ?s" .
    have got: "?got \<noteq> []" "length ?got = k" using False k by simp_all
    have "length (drop k data) < length data" using False k(1) by simp
    from less.hyps [OF this w(2)] w(3,4) less.prems obtain s' where
      "receive_data fd (length (drop k data)) s1 = Some (True, s')" "at_end fd d s' ((old @ ?got) @ drop k data)"
      "rx s' = later" "rx_ev s' = []" by auto
    moreover have "receive_data fd (length data) s = receive_data fd (length data - k) s1"
      using False r w(1) got by (subst receive_data.simps) (simp flip: k_def)
    ultimately show ?thesis by (simp only: append_assoc append_take_drop_id length_drop) blast
  qed
qed

lemma sint_of_size: "n < 2 ^ 63 \<Longrightarrow> sint (of_nat n :: u64) = int n"
  using sint_sbintrunc' [of "int n", where 'a = 64] by (simp add: signed_take_bit_int_eq_self)

lemma temp_file_empty:
  assumes "no_faults s" "fio_ev s = []"
  obtains fd d s' where "temp_file s = (fd, s')" "0 \<le> fd" "at_end fd d s' []" "rx s' = rx s" "rx_ev s' = rx_ev s"
proof -
  obtain t where f: "fault s = (False, s\<lparr>faults := t\<rparr>)" "True \<notin> set t" using no_faults_fault [OF assms(1)] .
  let ?s = "s\<lparr>faults := t, inodes := (inodes s)(next_ino s := []), next_ino := Suc (next_ino s)\<rparr>"
  obtain fd s' where n: "new_ofd (next_ino s) O_RDWR ?s = (fd, s')" by fastforce
  obtain t where s': "s' = ?s\<lparr>ofds := (ofds ?s)(next_ofd ?s := \<lparr>of_ino = next_ino s, of_off = 0, of_acc = O_RDWR\<rparr>),
      next_ofd := Suc (next_ofd ?s), fds := t\<rparr>" using new_ofd_frame [OF n] .
  have "temp_file s = (fd, s')" using n by (simp add: temp_file_def f)
  then show ?thesis
  proof (rule that)
    show "at_end fd (next_ofd s) s' []"
      using new_ofd_result(3) [OF n] assms(2) by (simp add: at_end_def) (simp add: s')
  qed (use new_ofd_result(1) [OF n] in \<open>simp_all add: s'\<close>)
qed

text \<open>What a client makes of the answer of a copying server.\<close>

lemma client_receives_copy:
  assumes "rx c = map Plain (size_msg (of_nat (length data)) @ data)" "data \<noteq> []" "length data < 2 ^ 63"
    and "no_faults c" "fio_ev c = []" "rx_ev c = []" "tx_ev c = []" "0 \<le> sock" "mode \<noteq> OP_FDPASS"
  obtains fd d c' where "objmapper_client_request sock u mode c = Some (fd, c')" "0 \<le> fd" "fd_obj c' fd = Some d"
    "inodes c' (of_ino (ofds c' d)) = data" "of_off (ofds c' d) = 0" "rx c' = []"
proof -
  let ?c1 = "c\<lparr>tx := tx c @ map Plain (bytes_of_string u)\<rparr>" let ?c2 = "?c1\<lparr>rx := map Plain data\<rparr>"
  have w: "sock_write (bytes_of_string u) c = (KDone (bytes_of_string u), ?c1)"
    using assms(7) by (simp add: sock_write_def chunk_def Let_def)
  have r: "sock_read 8 ?c1 = (KDone (size_msg (of_nat (length data))), ?c2)"
    using assms(1,6) by (simp add: sock_read_def chunk_def size_msg_def comp_def Let_def)
  have len: "length data < 18446744073709551616" using assms(3) by simp
  have sz: "sint (of_nat (get_le (size_msg (of_nat (length data)))) :: u64) = int (length data)"
    using assms(3) by (simp add: size_msg_def get_le_put_le unat_of_nat sint_of_size)
  have "no_faults ?c2" "fio_ev ?c2 = []" using assms by (simp_all add: no_faults_def)
  from temp_file_empty [OF this] obtain fd d c3 where
    t: "temp_file ?c2 = (fd, c3)" "0 \<le> fd" "at_end fd d c3 []" "rx c3 = rx ?c2" "rx_ev c3 = rx_ev ?c2" .
  from receive_data_all [OF t(3), of data "[]"] t(4,5) assms(6) obtain c4 where
    d: "receive_data fd (length data) c3 = Some (True, c4)" "at_end fd d c4 data" "rx c4 = []" by auto
  have "objmapper_client_request sock u mode c = Some (fd, lseek_start fd c4)"
    using assms(2,8,9) w r sz t(1,2) d(1) by (simp add: objmapper_client_request_def size_msg_def Let_def)
  then show ?thesis using t(2)
    by (rule that [of _ _ d]) (use d(2,3) in \<open>simp_all add: at_end_def lseek_start_def\<close>)
qed

text \<open>A small server that holds two bytes.\<close>

definition file_store :: object_storage where
  "file_store = small_store\<lparr>os_count := 1, os_hash_table := [[\<lparr>he_hash = hash_uri ''a'', he_slot_index = 0\<rparr>]],
     os_objects := [zero_slot\<lparr>sl_in_use := True, sl_uri := ''a'', sl_backing_path := ''/s/a'', sl_backing_fd := -1,
       sl_size := 2\<rparr>, zero_slot]\<rparr>"

definition file_vm :: vm where
  "file_vm = small_vm\<lparr>dir := [''/s/a'' \<mapsto> 0], inodes := (\<lambda>ino. if ino = 0 then [7, 8] else [])\<rparr>"

definition quiet_net :: net where
  "quiet_net = \<lparr>nt_bound = [], nt_incoming = [], nt_hosts = Map.empty, nt_dg_in = [], nt_dg_out = []\<rparr>"

definition small_session :: "u8 \<Rightarrow> session" where
  "small_session mode = (let t = new_transport TRANSPORT_UNIX False
     in \<lparr>se_transport = t, se_operation_mode = mode, se_caps = transport_get_caps t\<rparr>)"

lemma file_rep: "st_rep file_store [''a'' \<mapsto> 0]"
proof -
  have b: "bucket_index file_store h = 0" for h by (simp add: bucket_index_def file_store_def)
  have n: "(i < 2) = (i = 0 \<or> i = Suc 0)" for i :: nat by auto
  show ?thesis unfolding st_rep_def storage_ok_def b
    by (simp add: file_store_def numeral_2_eq_2 [symmetric] n zero_slot_def all_conj_distrib) (auto simp: n nth_Cons split: nat.splits)
qed

lemma small_vm_ev: "tx_ev small_vm = []" "rx_ev small_vm = []" "tx small_vm = []"
  by (simp_all add: small_vm_def os.defs os_init_def)

lemma file_serves: "serves (small_session mode) file_store file_vm ''a'' [7, 8]"
  unfolding serves_def
proof (intro conjI exI)
  show "st_rep file_store [''a'' \<mapsto> 0]" by (rule file_rep)
  show "slot_file file_store 0 file_vm 0" by (simp add: slot_file_def file_store_def file_vm_def)
  show "[''a'' \<mapsto> 0] ''a'' = Some (0 :: nat)" "inodes file_vm 0 = [7, 8]" by (simp_all add: file_vm_def)
qed (simp_all add: calm_out_def small_session_def new_transport_def file_vm_def small_vm_ev no_faults_def file_store_def Let_def)

text \<open>
  C14: The copying mode of the first object mapper reproduces an object: the server answers a
  request for an object it holds with the size and all bytes, whether the file is open already
  or not and wherever its offset stands, stays ready to answer again, and a client that reads
  this answer gets a descriptor of a new file with the same bytes, positioned at its start.
\<close>

theorem legacy_copy_roundtrip:
  fixes c :: "'b os_scheme"
  assumes "serves se st s u data" "copy_mode se" "c_str u = u" "tx s = []" "data \<noteq> []" "length data < 2 ^ 63"
    and "no_faults c" "fio_ev c = []" "rx_ev c = []" "tx_ev c = []" "0 \<le> sock" "mode \<noteq> OP_FDPASS"
  shows "\<exists>st' s'. answer_request se (bytes_of_string u) st n s = Some (st', n, s') \<and> serves se st' s' u data \<and>
     (\<exists>fd d c'. objmapper_client_request sock u mode (c\<lparr>rx := tx s'\<rparr>) = Some (fd, c') \<and> fd_obj c' fd = Some d \<and>
        inodes c' (of_ino (ofds c' d)) = data \<and> of_off (ofds c' d) = 0 \<and> rx c' = [])"
proof -
  obtain st' s' where a: "answer_request se (bytes_of_string u) st n s = Some (st', n, s')" "serves se st' s' u data"
    and t: "tx s' = tx s @ map Plain (size_msg (of_nat (length data)) @ data)" using answer_copy [OF assms(1-3)] .
  have "rx (c\<lparr>rx := tx s'\<rparr>) = map Plain (size_msg (of_nat (length data)) @ data)" using t assms(4) by simp
  from client_receives_copy [OF this assms(5,6), of sock mode u] assms(7-) a show ?thesis
    by (simp add: no_faults_def) blast
qed

theorem legacy_copy_roundtrip_witness:
  "\<exists>st' s'. answer_request (small_session OP_COPY) (bytes_of_string ''a'') file_store quiet_net file_vm = Some (st', quiet_net, s') \<and>
     (\<exists>fd d c'. objmapper_client_request 3 ''a'' OP_COPY (small_vm\<lparr>rx := tx s'\<rparr>) = Some (fd, c') \<and> fd_obj c' fd = Some d \<and>
        inodes c' (of_ino (ofds c' d)) = [7, 8])"
proof -
  have "copy_mode (small_session OP_COPY)" "c_str ''a'' = ''a''" "tx file_vm = []" "[7, 8] \<noteq> ([] :: bytes)"
    "length ([7, 8] :: bytes) < 2 ^ 63" "(0 :: int) \<le> 3" "OP_COPY \<noteq> OP_FDPASS"
    by (simp_all add: copy_mode_def small_session_def c_str_def file_vm_def small_vm_ev Let_def)
  from legacy_copy_roundtrip [OF file_serves this(1-5) small_no_faults small_simps(7) small_vm_ev(2,1) this(6,7), of quiet_net]
  show ?thesis by blast
qed

section \<open>Where the other modes fail\<close>

text \<open>The size alone is sent when the object is to be spliced.\<close>

lemma splice_out_none: "splice_out fd t 0 sz s = Some s"
  by (subst splice_out.simps) (simp add: sys_splice_def)

lemma splice_sends_size_only:
  assumes "serves se st s u data" "c_str u = u" "se_operation_mode se = OP_SPLICE" "tc_is_stream (se_caps se)"
  obtains st' s' where "answer_request se (bytes_of_string u) st n s = Some (st', n, s')"
    "tx s' = tx s @ map Plain (size_msg (of_nat (length data)))"
proof -
  from assms(1) obtain m i ino where calm: "calm_out (se_transport se) s" and nf: "no_faults s" and rep: "st_rep st m" "m u = Some i"
    and slot: "slot_file st i s ino" and sz: "sl_size (os_objects st ! i) = of_nat (length data)"
    unfolding serves_def by blast
  obtain fd info st' s1 where g: "storage_get_fd u st s = Some (fd, Some info, st', s1)" "0 \<le> fd"
      "oi_size info = sl_size (os_objects st ! i)" "\<exists>f x n t. s1 = s\<lparr>faults := f, ofds := x, next_ofd := n, fds := t\<rparr>"
    using get_fd_slot [OF rep slot nf] by metis
  from g(4) calm have s1: "tx s1 = tx s" "calm_out (se_transport se) s1" by (auto simp: calm_out_def)
  have "answer_request se (bytes_of_string u) st n s =
      Some (st', n, sys_close fd (s1\<lparr>tx := tx s @ map Plain (size_msg (of_nat (length data)))\<rparr>))"
    using g(1-3) assms(2-4) sz calm_send [OF s1(2)] by (simp add: answer_request_def s1 splice_out_none Let_def)
  then show ?thesis by (rule that) (simp add: sys_close_simps)
qed

text \<open>An empty object is taken for a missing one.\<close>

lemma client_empty_missing:
  assumes "rx c = map Plain (size_msg 0)" "rx_ev c = []" "tx_ev c = []" "0 \<le> sock" "mode \<noteq> OP_FDPASS"
  shows "\<exists>c'. objmapper_client_request sock u mode c = Some (-1, c')"
  using assms by (simp add: objmapper_client_request_def sock_write_def sock_read_def chunk_def Let_def size_msg_def comp_def get_le_put_le)

subsection \<open>Descriptors that share an offset\<close>

text \<open>The description behind the descriptor that the slot keeps.\<close>

definition held :: "object_storage \<Rightarrow> nat \<Rightarrow> 'a os_scheme \<Rightarrow> nat \<Rightarrow> bool" where
  "held st i s d \<longleftrightarrow> 0 \<le> sl_backing_fd (os_objects st ! i) \<and> fd_obj s (sl_backing_fd (os_objects st ! i)) = Some d"

definition pass_mode :: "session \<Rightarrow> bool" where
  "pass_mode se \<longleftrightarrow> se_operation_mode se = OP_FDPASS \<and> tc_supports_fdpass (se_caps se) \<and>
     tr_type (se_transport se) = TRANSPORT_UNIX"

lemma tx_ev_same: "tx_ev s = [] \<Longrightarrow> s\<lparr>tx_ev := [], tx := x\<rparr> = s\<lparr>tx := x\<rparr>"
  by (cases s) simp

lemma answer_pass:
  assumes "st_rep st m" "m u = Some i" "slot_file st i s ino" "no_faults s" "tx_ev s = []" "pass_mode se" "c_str u = u"
  obtains st' s' d where "answer_request se (bytes_of_string u) st n s = Some (st', n, s')"
    "tx s' = tx s @ [WithFd OP_FDPASS d]" "held st' i s' d" "of_ino (ofds s' d) = ino" "of_acc (ofds s' d) \<noteq> O_WRONLY"
    "inodes s' = inodes s" "st_rep st' m" "no_faults s'" "tx_ev s' = []"
    "\<forall>d0. held st i s d0 \<longrightarrow> d = d0 \<and> ofds s' = ofds s"
proof -
  obtain fd info st' s1 d where g: "storage_get_fd u st s = Some (fd, Some info, st', s1)"
    and fd: "0 \<le> fd" "fd_obj s1 fd = Some d" and d: "of_ino (ofds s1 d) = ino" "of_acc (ofds s1 d) \<noteq> O_WRONLY"
    and rep': "st_rep st' m" "no_faults s1"
    and bfd: "0 \<le> sl_backing_fd (os_objects st' ! i)" "sl_backing_fd (os_objects st' ! i) \<noteq> fd"
      "fd_obj s1 (sl_backing_fd (os_objects st' ! i)) = Some d"
    and fr: "\<exists>f x n t. s1 = s\<lparr>faults := f, ofds := x, next_ofd := n, fds := t\<rparr>"
    and old: "0 \<le> sl_backing_fd (os_objects st ! i) \<longrightarrow>
       sl_backing_fd (os_objects st' ! i) = sl_backing_fd (os_objects st ! i) \<and> ofds s1 = ofds s \<and>
       fd_obj s (sl_backing_fd (os_objects st ! i)) = Some d"
    using get_fd_slot [OF assms(1-4)] by metis
  from fr have s1: "tx s1 = tx s" "tx_ev s1 = []" "inodes s1 = inodes s" using assms(5) by auto
  let ?s2 = "sys_close fd (s1\<lparr>tx := tx s @ [WithFd OP_FDPASS d]\<rparr>)"
  have "answer_request se (bytes_of_string u) st n s = Some (st', n, ?s2)"
    using g fd assms(6,7)
    by (simp add: answer_request_def pass_mode_def transport_send_fd_def fdpass_send_def sock_sendmsg_fd_def s1 Let_def tx_ev_same [OF s1(2)])
  then show ?thesis
  proof (rule that)
    show "held st' i ?s2 d" using bfd by (simp add: held_def fd_obj_close)
    show "\<forall>d0. held st i s d0 \<longrightarrow> d = d0 \<and> ofds ?s2 = ofds s"
      using old bfd by (auto simp: held_def sys_close_simps)
  qed (use d rep' in \<open>simp_all add: s1 sys_close_simps no_faults_def\<close>)
qed

text \<open>
  C36: Descriptors passed for one object share their position. The storage keeps one open file
  per object and every answer passes a duplicate of it: the second client gets the description
  the first one got, and starts where the first one stopped.
\<close>

theorem legacy_fdpass_shares_offset:
  assumes "serves se st s u data" "pass_mode se" "c_str u = u"
  shows "\<exists>st1 s1 d. answer_request se (bytes_of_string u) st n s = Some (st1, n, s1) \<and> tx s1 = tx s @ [WithFd OP_FDPASS d] \<and>
     inodes s1 (of_ino (ofds s1 d)) = data \<and>
     (\<forall>k. \<exists>st2 s2. answer_request se (bytes_of_string u) st1 n (s1\<lparr>ofds := (ofds s1)(d := (ofds s1 d)\<lparr>of_off := k\<rparr>)\<rparr>) =
            Some (st2, n, s2) \<and> tx s2 = tx s1 @ [WithFd OP_FDPASS d] \<and> of_off (ofds s2 d) = k)"
proof -
  from assms(1) obtain m i ino where calm: "tx_ev s = []" and nf: "no_faults s" and rep: "st_rep st m" "m u = Some i"
    and slot: "slot_file st i s ino" and inode: "inodes s ino = data"
    unfolding serves_def calm_out_def by blast
  obtain st1 s1 d where a: "answer_request se (bytes_of_string u) st n s = Some (st1, n, s1)"
    "tx s1 = tx s @ [WithFd OP_FDPASS d]" "held st1 i s1 d" "of_ino (ofds s1 d) = ino" "of_acc (ofds s1 d) \<noteq> O_WRONLY"
    "inodes s1 = inodes s" "st_rep st1 m" "no_faults s1" "tx_ev s1 = []"
    using answer_pass [OF rep slot nf calm assms(2,3)] .
  have "\<exists>st2 s2. answer_request se (bytes_of_string u) st1 n (s1\<lparr>ofds := (ofds s1)(d := (ofds s1 d)\<lparr>of_off := k\<rparr>)\<rparr>) =
      Some (st2, n, s2) \<and> tx s2 = tx s1 @ [WithFd OP_FDPASS d] \<and> of_off (ofds s2 d) = k" for k
  proof -
    let ?s = "s1\<lparr>ofds := (ofds s1)(d := (ofds s1 d)\<lparr>of_off := k\<rparr>)\<rparr>"
    have h: "held st1 i ?s d" "slot_file st1 i ?s ino" "no_faults ?s" "tx_ev ?s = []"
      using a(3-5,8,9) by (auto simp: held_def slot_file_def Let_def no_faults_def)
    obtain st2 s2 d' where b: "answer_request se (bytes_of_string u) st1 n ?s = Some (st2, n, s2)"
      "tx s2 = tx ?s @ [WithFd OP_FDPASS d']" "\<forall>d0. held st1 i ?s d0 \<longrightarrow> d' = d0 \<and> ofds s2 = ofds ?s"
      using answer_pass [OF a(7) rep(2) h(2-4) assms(2,3), of n] by metis
    with h(1) show ?thesis by auto
  qed
  with a inode show ?thesis by (intro exI [of _ st1] exI [of _ s1] exI [of _ d]) simp
qed

theorem legacy_fdpass_shares_offset_witness:
  "\<exists>st1 s1 d. answer_request (small_session OP_FDPASS) (bytes_of_string ''a'') file_store quiet_net file_vm = Some (st1, quiet_net, s1) \<and>
     tx s1 = [WithFd OP_FDPASS d] \<and>
     (\<exists>st2 s2. answer_request (small_session OP_FDPASS) (bytes_of_string ''a'') st1 quiet_net
          (s1\<lparr>ofds := (ofds s1)(d := (ofds s1 d)\<lparr>of_off := 2\<rparr>)\<rparr>) = Some (st2, quiet_net, s2) \<and>
        tx s2 = [WithFd OP_FDPASS d, WithFd OP_FDPASS d] \<and> of_off (ofds s2 d) = 2)"
proof -
  have "pass_mode (small_session OP_FDPASS)" "c_str ''a'' = ''a''" "tx file_vm = []"
    by (simp_all add: pass_mode_def small_session_def Let_def c_str_def transport_get_caps_def new_transport_def file_vm_def small_vm_ev)
  from legacy_fdpass_shares_offset [OF file_serves this(1,2), of quiet_net] this(3) show ?thesis by fastforce
qed

subsection \<open>A storage that nobody fills\<close>

lemma empty_answers_missing:
  assumes "st_rep st Map.empty"
  shows "answer_request se buf st n s = (case transport_send (se_transport se) (size_msg 0) n s of (_, n, s) \<Rightarrow> Some (st, n, s))"
  using find_slot_map [OF assms] by (simp add: answer_request_def storage_get_fd_def split: prod.splits)

lemma empty_unchanged: "st_rep st Map.empty \<Longrightarrow> answer_request se buf st n s = Some (st', n', s') \<Longrightarrow> st' = st"
  by (simp add: empty_answers_missing split: prod.splits)

lemma request_loop_empty:
  assumes "request_loop se st n s = Some res"
  shows "st_rep st Map.empty \<longrightarrow> fst res = st"
proof (rule request_loop.raw_induct [of "\<lambda>se st n s res. st_rep st Map.empty \<longrightarrow> fst res = st", OF _ assms])
  fix f :: "session \<Rightarrow> object_storage \<Rightarrow> net \<Rightarrow> 'a os_scheme \<Rightarrow> (object_storage \<times> net \<times> 'a os_scheme) option" and se st n s res
  assume ih: "\<And>se st n s res. f se st n s = Some res \<Longrightarrow> st_rep st Map.empty \<longrightarrow> fst res = st"
  assume "(case transport_recv 1023 (se_transport se) n s of
        (None, t, n, s) \<Rightarrow> Some (st, n, s)
      | (Some buffer, t, n, s) \<Rightarrow>
          if buffer = [] then Some (st, n, s)
          else (case answer_request (se\<lparr>se_transport := t\<rparr>) buffer st n s of
                  None \<Rightarrow> None
                | Some (st, n, s) \<Rightarrow> f (se\<lparr>se_transport := t\<rparr>) st n s)) = Some res"
  then show "st_rep st Map.empty \<longrightarrow> fst res = st"
    by (auto dest!: ih dest: empty_unchanged split: prod.splits option.splits if_splits)
qed

lemma serve_connection_empty:
  assumes "serve_connection t st n s = Some (st', n', s')" "st_rep st Map.empty" shows "st' = st"
  using assms
  by (auto simp: serve_connection_def handle_client_def Let_def split: prod.splits if_splits bind_splits
      dest!: request_loop_empty)

lemma accept_loop_empty:
  assumes "accept_loop srv st n s = Some res"
  shows "st_rep st Map.empty \<longrightarrow> fst res = st"
proof (rule accept_loop.raw_induct [of "\<lambda>srv st n s res. st_rep st Map.empty \<longrightarrow> fst res = st", OF _ assms])
  fix f :: "transport \<Rightarrow> object_storage \<Rightarrow> net \<Rightarrow> 'a os_scheme \<Rightarrow> (object_storage \<times> net \<times> 'a os_scheme) option" and srv st n s res
  assume ih: "\<And>srv st n s res. f srv st n s = Some res \<Longrightarrow> st_rep st Map.empty \<longrightarrow> fst res = st"
  assume "(case transport_accept srv n s of
        None \<Rightarrow> Some (st, n, s)
      | Some (None, n, s) \<Rightarrow> f srv st n s
      | Some (Some t, n, s) \<Rightarrow>
          (case serve_connection t st n s of
             None \<Rightarrow> None
           | Some (st, n, s) \<Rightarrow> f srv st n s)) = Some res"
  then show "st_rep st Map.empty \<longrightarrow> fst res = st"
    by (auto dest!: ih dest: serve_connection_empty split: prod.splits option.splits)
qed

lemma storage_init_empty:
  assumes "storage_init c s = (Some st, s')" shows "st_rep st Map.empty"
proof (rule fresh_rep)
  let ?k = "if cf_hash_size c > 0 then cf_hash_size c else 16384"
  show "os_objects st = replicate 10000 zero_slot" "os_count st = 0" "os_hash_table st = replicate (unat ?k) []"
    using assms by (auto simp: storage_init_def Let_def split: option.splits prod.splits if_splits)
  have "?k \<noteq> 0" by auto
  then show "0 < unat ?k" by (simp only: unat_gt_0 not_False_eq_True)
  show "unat ?k < 2 ^ 64" using unsigned_less [of ?k, where 'a = nat] by (simp only: len_of_numeral_defs) simp
qed simp

lemma started_empty: "objmapper_server_start c n s = Some (StartWaits st, n', s') \<Longrightarrow> st_rep st Map.empty"
  by (auto simp: objmapper_server_start_def
      dest!: accept_loop_empty storage_init_empty split: option.splits prod.splits if_splits bind_splits)

text \<open>
  The first object mapper never finds an object. Its storage starts empty, the files of the
  backing directory are not entered, and no request stores one: whatever connections were
  served, a server that waits for the next one answers every request with the size 0, in
  every mode, and keeps its storage as it is.
\<close>

theorem legacy_finds_nothing:
  "case objmapper_server_start config n s of
     Some (StartWaits st, n', s') \<Rightarrow>
       \<forall>se buf n1 s1. answer_request se buf st n1 s1 =
         (case transport_send (se_transport se) (size_msg 0) n1 s1 of (sent, n2, s2) \<Rightarrow> Some (st, n2, s2))
   | _ \<Rightarrow> True"
  by (auto simp: empty_answers_missing dest: started_empty split: option.splits prod.splits start_result.splits)

end
