(* ===== verification/Legacy_Main.thy ===== *)
theory Legacy_Main
  imports Legacy
begin

text \<open>
  The main program of the first object mapper (\<open>objmapper/src/main.c\<close>): its options, the
  configuration they make, and the start of the server.
\<close>

section \<open>Options\<close>

text \<open>
  \<open>getopt(argc, argv, "t:s:H:p:b:c:l:m:h")\<close>: the options in their order with their arguments,
  \<open>?\<close> for an unknown option or a missing argument. Other words are passed over, and \<open>--\<close> ends
  the options.
\<close>

definition takes_arg :: "char \<Rightarrow> bool" where
  "takes_arg c \<longleftrightarrow> c \<in> set ''tsHpbclm''"

function getopt :: "string \<Rightarrow> string list \<Rightarrow> (char \<times> string) list" where
  "getopt [] [] = []"
| "getopt [] (w # ws) =
     (if w = ''--'' then []
      else case w of
             CHR ''-'' # c # cs \<Rightarrow> getopt (c # cs) ws
           | _ \<Rightarrow> getopt [] ws)"
| "getopt (c # cs) ws =
     (if takes_arg c
      then if cs \<noteq> [] then (c, cs) # getopt [] ws
           else (case ws of [] \<Rightarrow> [(CHR ''?'', [])] | a # ws \<Rightarrow> (c, a) # getopt [] ws)
      else (if c = CHR ''h'' then c else CHR ''?'', []) # getopt cs ws)"
  by pat_completeness auto

termination
  by (relation "measure (\<lambda>(cs, ws). length cs + sum_list (map (\<lambda>w. Suc (length w)) ws))") auto

section \<open>Numbers\<close>

definition digit :: "char \<Rightarrow> bool" where
  "digit c \<longleftrightarrow> 48 \<le> (of_char c :: nat) \<and> (of_char c :: nat) \<le> 57"

definition is_space :: "char \<Rightarrow> bool" where
  "is_space c \<longleftrightarrow> (of_char c :: nat) = 32 \<or> (9 \<le> (of_char c :: nat) \<and> (of_char c :: nat) \<le> 13)"

definition digits_value :: "string \<Rightarrow> nat" where
  "digits_value cs = foldl (\<lambda>n c. 10 * n + (of_char c - 48)) 0 (takeWhile digit cs)"

text \<open>The number at the start of a string: sign and digits after white space.\<close>

definition signed_value :: "string \<Rightarrow> bool \<times> nat" where
  "signed_value cs =
     (case dropWhile is_space cs of
        CHR ''-'' # ds \<Rightarrow> (True, digits_value ds)
      | CHR ''+'' # ds \<Rightarrow> (False, digits_value ds)
      | ds \<Rightarrow> (False, digits_value ds))"

text \<open>\<open>atoi\<close> is \<open>strtol\<close> cut to an \<open>int\<close>; \<open>strtol\<close> and \<open>strtoull\<close> stop at their bounds.\<close>

definition atoi :: "string \<Rightarrow> u32" where
  "atoi cs = (case signed_value cs of (neg, n) \<Rightarrow>
     of_int (if neg then - int (min n (2 ^ 63)) else int (min n (2 ^ 63 - 1))))"

definition strtoull :: "string \<Rightarrow> u64" where
  "strtoull cs = (case signed_value cs of (neg, n) \<Rightarrow>
     if n \<ge> 2 ^ 64 then - 1 else if neg then - of_nat n else of_nat n)"

section \<open>Configuration\<close>

record main_options =
  mo_config :: server_config
  mo_host :: "string option"
  mo_port :: u16

definition default_options :: main_options where
  "default_options =
     \<lparr>mo_config = \<lparr>sc_transport = OBJMAPPER_TRANSPORT_UNIX, sc_socket_path = Some OBJMAPPER_SOCK_PATH, sc_host = None,
        sc_port = 0, sc_backing_dir = None, sc_cache_dir = None, sc_cache_limit = 1024 * 1024 * 1024\<rparr>,
      mo_host = None, mo_port = 0\<rparr>"

definition transport_name :: "string \<Rightarrow> objmapper_transport option" where
  "transport_name arg =
     (if arg = ''unix'' then Some OBJMAPPER_TRANSPORT_UNIX
      else if arg = ''tcp'' then Some OBJMAPPER_TRANSPORT_TCP
      else if arg = ''udp'' then Some OBJMAPPER_TRANSPORT_UDP
      else None)"

text \<open>The result of one option: the new configuration, or the exit status.\<close>

definition apply_option :: "char \<Rightarrow> string \<Rightarrow> main_options \<Rightarrow> nat + main_options" where
  "apply_option opt arg m =
     (let upd = (\<lambda>f. Inr (m\<lparr>mo_config := f (mo_config m)\<rparr>))
      in if opt = CHR ''t'' then
           (case transport_name arg of None \<Rightarrow> Inl 1 | Some t \<Rightarrow> upd (\<lambda>c. c\<lparr>sc_transport := t\<rparr>))
         else if opt = CHR ''s'' then upd (\<lambda>c. c\<lparr>sc_socket_path := Some arg\<rparr>)
         else if opt = CHR ''H'' then Inr (m\<lparr>mo_host := Some arg\<rparr>)
         else if opt = CHR ''p'' then Inr (m\<lparr>mo_port := ucast (atoi arg)\<rparr>)
         else if opt = CHR ''b'' then upd (\<lambda>c. c\<lparr>sc_backing_dir := Some arg\<rparr>)
         else if opt = CHR ''c'' then upd (\<lambda>c. c\<lparr>sc_cache_dir := Some arg\<rparr>)
         else if opt = CHR ''l'' then upd (\<lambda>c. c\<lparr>sc_cache_limit := strtoull arg\<rparr>)
         else if opt = CHR ''m'' then Inr m
         else if opt = CHR ''h'' then Inl 0
         else Inl 1)"

fun apply_options :: "(char \<times> string) list \<Rightarrow> main_options \<Rightarrow> nat + main_options" where
  "apply_options [] m = Inr m"
| "apply_options ((opt, arg) # os) m =
     (case apply_option opt arg m of Inl status \<Rightarrow> Inl status | Inr m \<Rightarrow> apply_options os m)"

text \<open>The configuration that the server is started with. The result is the exit status, or the
  storage of a server that waits for connections.\<close>

definition main_config :: "main_options \<Rightarrow> server_config" where
  "main_config m =
     (if sc_transport (mo_config m) \<noteq> OBJMAPPER_TRANSPORT_UNIX
      then (mo_config m)\<lparr>sc_host := mo_host m, sc_port := mo_port m\<rparr> else mo_config m)"

definition legacy_main :: "string list \<Rightarrow> net \<Rightarrow> 'a vm_scheme \<Rightarrow> ((nat + object_storage) \<times> net \<times> 'a vm_scheme) option" where
  "legacy_main argv n s =
     (case apply_options (getopt [] argv) default_options of
        Inl status \<Rightarrow> Some (Inl status, n, s)
      | Inr m \<Rightarrow>
          if sc_backing_dir (mo_config m) = None then Some (Inl 1, n, s)
          else do {
            (r, n, s) \<leftarrow> objmapper_server_start (main_config m) n s;
            Some (case r of StartFailed \<Rightarrow> Inl 1 | StartReturned \<Rightarrow> Inl 0 | StartWaits st \<Rightarrow> Inr st, n, s)
          })"

section \<open>What options do\<close>

lemma apply_options_append:
  "apply_options (xs @ ys) m = (case apply_options xs m of Inl status \<Rightarrow> Inl status | Inr m \<Rightarrow> apply_options ys m)"
  by (induction xs m rule: apply_options.induct) (auto split: sum.split)

text \<open>The last of several options of one kind counts.\<close>

lemma last_backing_dir_counts:
  "apply_options (xs @ [(CHR ''b'', d)]) m = Inr m' \<Longrightarrow> sc_backing_dir (mo_config m') = Some d"
  by (auto simp: apply_options_append apply_option_def Let_def split: sum.splits)

text \<open>A port above 65535 is cut silently.\<close>

lemma port_cut: "apply_options (getopt [] [''-p'', ''70000'']) default_options = Inr (default_options\<lparr>mo_port := 4464\<rparr>)"
  by (simp add: takes_arg_def apply_option_def Let_def atoi_def signed_value_def is_space_def digits_value_def digit_def
      default_options_def)

text \<open>Without a backing directory nothing is started.\<close>

lemma no_backing_dir_no_server:
  assumes "\<forall>arg. (CHR ''b'', arg) \<notin> set (getopt [] argv)"
  shows "\<exists>status. legacy_main argv n s = Some (Inl status, n, s)"
proof -
  have step: "apply_option opt arg m = Inr m' \<Longrightarrow> opt \<noteq> CHR ''b'' \<Longrightarrow>
      sc_backing_dir (mo_config m') = sc_backing_dir (mo_config m)" for opt arg m m'
    by (auto simp: apply_option_def Let_def split: if_splits option.splits)
  have "apply_options os m = Inr m' \<Longrightarrow> \<forall>arg. (CHR ''b'', arg) \<notin> set os \<Longrightarrow>
      sc_backing_dir (mo_config m') = sc_backing_dir (mo_config m)" for os m m'
    by (induction os m rule: apply_options.induct) (auto split: sum.splits dest: step)
  from this [of "getopt [] argv" default_options] assms show ?thesis
    by (auto simp: legacy_main_def default_options_def split: sum.splits)
qed

end
