(* ===== verification/Client.thy ===== *)
theory Client
  imports Net Protocol_Conn
begin

text \<open>
  The command line client (\<open>client.c\<close>): a connection to the server, one command, and the copy
  between a file and the descriptor that the server passes. What is printed is left out, and
  every command has the result \<open>True\<close> for the return value 0.
\<close>

section \<open>Commands\<close>

text \<open>The request that each command sends.\<close>

definition cmd_request :: "string \<Rightarrow> objm_request" where
  "cmd_request uri = \<lparr>rq_id = 0, rq_flags = 0, rq_mode = OBJM_MODE_FDPASS, rq_uri = bytes_of_string (c_str uri),
     rq_uri_len = of_nat (length (c_str uri))\<rparr>"

text \<open>The loop of \<open>cmd_put\<close> and \<open>cmd_get\<close>: a short write is taken for a whole one and a failed
  read for the end of the file. It need not end when both descriptors are of one file.\<close>

partial_function (option) copy_data :: "int \<Rightarrow> int \<Rightarrow> 'a os_scheme \<Rightarrow> (bool \<times> 'a os_scheme) option" where
  "copy_data src_fd dest_fd s =
     (case file_read src_fd 65536 s of
        (KDone got, s) \<Rightarrow>
          if got = [] then Some (True, s)
          else (case file_write dest_fd got s of
                  (KDone out, s) \<Rightarrow> copy_data src_fd dest_fd s
                | (_, s) \<Rightarrow> Some (False, s))
      | (_, s) \<Rightarrow> Some (True, s))"

text \<open>The exchange at the start of a command: the response, when it is an \<open>OK\<close>. A response
  with another status is freed.\<close>

definition cmd_exchange :: "objm_connection \<Rightarrow> string \<Rightarrow> 'a os_scheme \<Rightarrow> objm_response option \<times> objm_connection \<times> 'a os_scheme" where
  "cmd_exchange conn uri s =
     (case objm_client_send_request conn (cmd_request uri) s of
        (False, conn, s) \<Rightarrow> (None, conn, s)
      | (True, conn, s) \<Rightarrow>
          (case objm_client_recv_response conn s of
             (None, conn, s) \<Rightarrow> (None, conn, s)
           | (Some resp, conn, s) \<Rightarrow>
               if rs_status resp \<noteq> OBJM_STATUS_OK then (None, conn, objm_response_free resp s)
               else (Some resp, conn, s)))"

text \<open>Both descriptors are closed at the end of the copy; the one of the response is closed
  once more when the response is freed.\<close>

definition finish_copy :: "int \<Rightarrow> int \<Rightarrow> objm_response \<Rightarrow> 'a os_scheme \<Rightarrow> (bool \<times> 'a os_scheme) option" where
  "finish_copy src_fd dest_fd resp s =
     (case copy_data src_fd dest_fd s of
        None \<Rightarrow> None
      | Some (ok, s) \<Rightarrow> Some (ok, objm_response_free resp (sys_close dest_fd (sys_close src_fd s))))"

definition cmd_put :: "objm_connection \<Rightarrow> string \<Rightarrow> string \<Rightarrow> 'a os_scheme \<Rightarrow> (bool \<times> objm_connection \<times> 'a os_scheme) option" where
  "cmd_put conn uri source_path s =
     (case cmd_exchange conn uri s of
        (None, conn, s) \<Rightarrow> Some (False, conn, s)
      | (Some resp, conn, s) \<Rightarrow>
          let dest_fd = rs_fd resp
          in if dest_fd < 0 then Some (False, conn, objm_response_free resp s)
             else let (src_fd, s) = sys_open O_RDONLY source_path s
                  in if src_fd < 0 then Some (False, conn, objm_response_free resp (sys_close dest_fd s))
                     else map_option (\<lambda>(ok, s). (ok, conn, s)) (finish_copy src_fd dest_fd resp s))"

definition cmd_get :: "objm_connection \<Rightarrow> string \<Rightarrow> string \<Rightarrow> 'a os_scheme \<Rightarrow> (bool \<times> objm_connection \<times> 'a os_scheme) option" where
  "cmd_get conn uri dest_path s =
     (case cmd_exchange conn uri s of
        (None, conn, s) \<Rightarrow> Some (False, conn, s)
      | (Some resp, conn, s) \<Rightarrow>
          let src_fd = rs_fd resp
          in if src_fd < 0 then Some (False, conn, objm_response_free resp s)
             else let (dest_fd, s) = sys_open_creat O_WRONLY dest_path s
                  in if dest_fd < 0 then Some (False, conn, objm_response_free resp (sys_close src_fd s))
                     else map_option (\<lambda>(ok, s). (ok, conn, s)) (finish_copy src_fd dest_fd resp s))"

definition cmd_delete :: "objm_connection \<Rightarrow> string \<Rightarrow> 'a os_scheme \<Rightarrow> bool \<times> objm_connection \<times> 'a os_scheme" where
  "cmd_delete conn uri s =
     (case cmd_exchange conn (snprintf_buf 4096 (''/delete'' @ c_str uri)) s of
        (None, conn, s) \<Rightarrow> (False, conn, s)
      | (Some resp, conn, s) \<Rightarrow> (True, conn, objm_response_free resp s))"

section \<open>Main\<close>

abbreviation OBJM_CLOSE_NORMAL :: u8 where "OBJM_CLOSE_NORMAL \<equiv> 0x00"

text \<open>The command with its arguments; \<open>False\<close> for a usage error, an unknown command and
  \<open>list\<close>, which is disabled.\<close>

definition run_command :: "objm_connection \<Rightarrow> string list \<Rightarrow> 'a os_scheme \<Rightarrow> (bool \<times> objm_connection \<times> 'a os_scheme) option" where
  "run_command conn args s =
     (if hd args = ''put'' then
        if length args < 3 then Some (False, conn, s) else cmd_put conn (args ! 1) (args ! 2) s
      else if hd args = ''get'' then
        if length args < 3 then Some (False, conn, s) else cmd_get conn (args ! 1) (args ! 2) s
      else if hd args = ''delete'' then
        if length args < 2 then Some (False, conn, s) else Some (cmd_delete conn (args ! 1) s)
      else Some (False, conn, s))"

text \<open>The first argument is the path of the socket when it starts with a slash.\<close>

definition split_args :: "string list \<Rightarrow> string \<times> string list" where
  "split_args argv =
     (case argv of
        (CHR ''/'' # cs) # rest \<Rightarrow> (CHR ''/'' # cs, rest)
      | _ \<Rightarrow> (''/tmp/objmapper.sock'', argv))"

definition client_main :: "string list \<Rightarrow> 'a os_scheme \<Rightarrow> (bool \<times> 'a os_scheme) option" where
  "client_main argv s =
     (let (socket_path, args) = split_args argv
      in if args = [] then Some (False, s)
         else let (sock, s) = sys_socket s
              in if sock < 0 then Some (False, s)
                 else let (ok, s) = sys_connect (UnixAddr (sun_path socket_path)) s
                      in if \<not> ok then Some (False, sys_close sock s)
                         else case objm_client_create sock OBJM_PROTO_V1 s of
                                (None, s) \<Rightarrow> Some (False, sys_close sock s)
                              | (Some conn, s) \<Rightarrow>
                                  map_option (\<lambda>(ok, conn, s). (ok, sys_close sock (objm_client_destroy conn (snd (objm_client_close conn OBJM_CLOSE_NORMAL s)))))
                                    (run_command conn args s))"

end
