(* ===== verification/Client_Frame.thy ===== *)
theory Client_Frame
  imports Client
begin

text \<open>
  What the client's side of the protocol leaves alone. A relation between the states before and
  after that holds for each call on the connection holds for a whole exchange; it is proved
  once, in a locale, and used for the files, for the descriptors and for the state that a
  program keeps beside that of the operating system.
\<close>

section \<open>Relations kept by an exchange\<close>

lemmas client_splits = option.split_asm prod.split_asm if_split_asm bool.split_asm

locale link_relation =
  fixes R :: "'a os_scheme \<Rightarrow> 'a os_scheme \<Rightarrow> bool"
  assumes R_refl: "R s s"
    and R_trans: "R s s' \<Longrightarrow> R s' s'' \<Longrightarrow> R s s''"
    and R_fault: "fault s = (b, s') \<Longrightarrow> R s s'"
    and R_send_all: "send_all bs s = (ok, s') \<Longrightarrow> R s s'"
    and R_recv_all: "recv_all n s = (r, s') \<Longrightarrow> R s s'"
begin

lemma R_send_request: "objm_client_send_request conn req s = (ok, conn', s') \<Longrightarrow> R s s'"
  by (auto simp: objm_client_send_request_def Let_def dest!: R_send_all intro: R_trans split: client_splits)

lemma R_header: "recv_response_header conn s = (r, conn', s') \<Longrightarrow> R s s'"
  by (auto simp: recv_response_header_def Let_def dest!: R_recv_all split: client_splits)

lemma R_metadata: "recv_response_metadata r0 conn s = (r, conn', s') \<Longrightarrow> R s s'"
  by (auto simp: recv_response_metadata_def Let_def dest!: R_recv_all R_fault intro: R_trans R_refl split: client_splits)

lemma R_close: "objm_client_close conn reason s = (ok, s') \<Longrightarrow> R s s'"
  by (auto simp: objm_client_close_def dest!: R_recv_all R_send_all intro: R_trans R_refl split: client_splits)

lemma R_create: "objm_client_create fd v s = (r, s') \<Longrightarrow> R s s'"
  by (auto simp: objm_client_create_def dest!: R_fault split: client_splits)

lemma R_connect: "sys_connect a s = (ok, s') \<Longrightarrow> R s s'"
  by (auto simp: sys_connect_def dest!: R_fault split: client_splits)

lemma R_response:
  assumes "\<And>s r s'. recv_fd s = (r, s') \<Longrightarrow> R s s'" "objm_client_recv_response conn s = (r, conn', s')"
  shows "R s s'"
  using assms(2)
  by (auto simp: objm_client_recv_response_def recv_response_fd_def Let_def dest!: R_fault R_header R_metadata assms(1)
      intro: R_trans split: client_splits)

end

section \<open>The rest of the state\<close>

text \<open>What a program adds to the state of the operating system is out of reach of its calls.\<close>

definition same_more :: "'a os_scheme \<Rightarrow> 'a os_scheme \<Rightarrow> bool" where
  "same_more s s' \<longleftrightarrow> os.more s' = os.more s"

interpretation sm: link_relation same_more
proof
  show "send_all bs s = (ok, s') \<Longrightarrow> same_more s s'" for bs ok and s s' :: "'a os_scheme"
    by (drule send_all_shape) (auto simp: same_more_def)
  show "recv_all n s = (r, s') \<Longrightarrow> same_more s s'" for n r and s s' :: "'a os_scheme"
    by (drule recv_all_shape) (auto simp: same_more_def)
qed (auto simp: same_more_def elim!: fault_frame)

lemma same_more_install: "install_fd d s = (fd, s') \<Longrightarrow> same_more s s'"
  by (auto simp: same_more_def elim!: install_fd_frame)

lemma same_more_socket: "sys_socket s = (fd, s') \<Longrightarrow> same_more s s'"
  by (auto simp: sys_socket_def same_more_def elim!: install_fd_frame fault_frame split: client_splits)

lemma same_more_recv_fd: "recv_fd s = (r, s') \<Longrightarrow> same_more s s'"
  by (auto simp: recv_fd_def sock_recvmsg_fd_def Let_def same_more_def elim!: install_fd_frame fault_frame
      split: client_splits item.split_asm)

lemma same_more_response: "objm_client_recv_response conn s = (r, conn', s') \<Longrightarrow> same_more s s'"
  using same_more_recv_fd by (rule sm.R_response)

lemma same_more_close [simp]: "same_more s (sys_close fd s)"
  by (simp add: same_more_def sys_close_simps)

lemma same_more_free [simp]: "same_more s (objm_response_free r s)"
  by (simp add: objm_response_free_def sm.R_refl)

lemma same_more_write: "file_write fd bs s = (r, s') \<Longrightarrow> same_more s s'"
  by (auto simp: file_write_def Let_def same_more_def split: client_splits)

lemma same_more_read: "file_read fd n s = (r, s') \<Longrightarrow> same_more s s'"
  by (auto simp: file_read_def Let_def same_more_def split: client_splits)

section \<open>Descriptors\<close>

definition same_fds :: "'a os_scheme \<Rightarrow> 'a os_scheme \<Rightarrow> bool" where
  "same_fds s s' \<longleftrightarrow> (\<forall>x. fd_obj s' x = fd_obj s x)"

text \<open>One more descriptor is open, unless it is negative.\<close>

definition adds_fd :: "int \<Rightarrow> 'a os_scheme \<Rightarrow> 'a os_scheme \<Rightarrow> bool" where
  "adds_fd fd s s' \<longleftrightarrow> (0 \<le> fd \<longrightarrow> fd_obj s fd = None \<and> fd_obj s' fd \<noteq> None) \<and> (\<forall>x. x \<noteq> fd \<longrightarrow> fd_obj s' x = fd_obj s x)"

interpretation sf: link_relation same_fds
proof
  show "send_all bs s = (ok, s') \<Longrightarrow> same_fds s s'" for bs ok and s s' :: "'a os_scheme"
    by (drule send_all_shape) (auto simp: same_fds_def)
  show "recv_all n s = (r, s') \<Longrightarrow> same_fds s s'" for n r and s s' :: "'a os_scheme"
    by (drule recv_all_shape) (auto simp: same_fds_def)
qed (auto simp: same_fds_def elim!: fault_frame)

lemma fd_obj_negative: "x < 0 \<Longrightarrow> fd_obj s x = None"
  by (simp add: fd_obj_def)

lemma adds_fd_neg: "fd < 0 \<Longrightarrow> adds_fd fd s s' \<longleftrightarrow> same_fds s s'"
  by (auto simp: adds_fd_def same_fds_def) (metis fd_obj_negative)

lemma adds_fd_comp:
  "same_fds s s' \<Longrightarrow> adds_fd fd s' s'' \<Longrightarrow> adds_fd fd s s''"
  "adds_fd fd s s' \<Longrightarrow> same_fds s' s'' \<Longrightarrow> adds_fd fd s s''"
  by (simp_all add: adds_fd_def same_fds_def)

text \<open>A descriptor that was added and is closed again leaves no trace.\<close>

lemma close_added: "adds_fd fd s s' \<Longrightarrow> same_fds s (sys_close fd s')"
  unfolding adds_fd_def same_fds_def fd_obj_close by (cases "0 \<le> fd") (auto simp: fd_obj_negative)

lemma install_adds: "install_fd d s = (fd, s') \<Longrightarrow> 0 \<le> fd \<and> adds_fd fd s s'"
  using install_fd_fresh [of d s fd s'] by (auto simp: adds_fd_def)

lemma socket_adds:
  assumes "sys_socket s = (fd, s')" shows "adds_fd fd s s'"
proof -
  obtain b s1 where b: "fault s = (b, s1)" by (cases "fault s")
  let ?s = "s1\<lparr>next_ofd := Suc (next_ofd s1)\<rparr>"
  have "same_fds s s1" "same_fds s s' \<longleftrightarrow> adds_fd (-1) s s'" "same_fds s ?s"
    using sf.R_fault [OF b] by (simp_all add: adds_fd_neg same_fds_def)
  then show ?thesis using assms b adds_fd_comp(1) [of s ?s] by (auto simp: sys_socket_def dest!: install_adds split: if_splits)
qed

lemma recv_fd_adds: "recv_fd s = (fd, s') \<Longrightarrow> adds_fd fd s s'"
proof -
  have q: "same_fds s (s\<lparr>rx_ev := e, rx := x\<rparr>)" "same_fds s (s\<lparr>rx_ev := e\<rparr>)" for e x by (simp_all add: same_fds_def)
  show "recv_fd s = (fd, s') \<Longrightarrow> adds_fd fd s s'"
    by (auto simp: recv_fd_def sock_recvmsg_fd_def Let_def adds_fd_neg q dest!: install_adds sf.R_fault
        intro: adds_fd_comp sf.R_trans [OF q(1)] split: client_splits item.split_asm)
qed

text \<open>A response brings at most the descriptor that it holds.\<close>

lemma response_adds:
  assumes "objm_client_recv_response conn s = (r, conn', s')"
  shows "adds_fd (case r of None \<Rightarrow> -1 | Some resp \<Rightarrow> rs_fd resp) s s'"
proof -
  have h: "same_fds t t' \<and> (\<forall>r'. r = Some r' \<longrightarrow> rs_fd r' = -1)" if "recv_response_header c t = (r, c', t')"
    for r c c' and t t' :: "'a os_scheme"
    using sf.R_header [OF that] that
    by (auto simp: recv_response_header_def parse_response_v1_def parse_response_v2_def split: client_splits)
  have m: "same_fds t t' \<and> (\<forall>r'. r = Some r' \<longrightarrow> rs_fd r' = rs_fd r0)" if "recv_response_metadata r0 c t = (r, c', t')"
    for r r0 c c' and t t' :: "'a os_scheme"
    using sf.R_metadata [OF that] that by (auto simp: recv_response_metadata_def Let_def split: client_splits)
  have f: "adds_fd (case r of None \<Rightarrow> -1 | Some resp \<Rightarrow> rs_fd resp) t t'"
    if "recv_response_fd r0 c t = (r, c', t')" "rs_fd r0 = -1" for r r0 c c' and t t' :: "'a os_scheme"
    using that by (auto simp: recv_response_fd_def adds_fd_neg sf.R_refl dest: recv_fd_adds split: client_splits)
  show ?thesis using assms
    by (auto simp: objm_client_recv_response_def adds_fd_neg dest!: sf.R_fault h m dest!: f
        intro: sf.R_trans adds_fd_comp(1) split: client_splits)
qed

end
