(* ===== verification/Server.thy ===== *)
theory Server
  imports Backend_Props Protocol_Laws
begin

text \<open>
  The object server of \<open>server.c\<close>: the request handlers, the dispatch on the form of the URI,
  the thread of a connection and the set-up of the two backends. The globals of the file are
  the record \<open>server\<close>, which exists from \<open>init_backends\<close> to \<open>cleanup_backends\<close>; a handler
  takes it with the state of the process, whose socket is that of the connection. A handler
  result \<open>-1\<close> is \<open>False\<close>; the outer \<open>None\<close> is undefined behaviour in a part that is called.
\<close>

section \<open>State\<close>

record server_stats =
  st_requests_total :: u64
  st_gets :: u64
  st_puts :: u64
  st_deletes :: u64
  st_errors :: u64
  st_active_connections :: u64

record server =
  sv_mgr :: backend_manager
  sv_memory_backend_id :: int
  sv_persistent_backend_id :: int
  sv_stats :: server_stats

abbreviation MEMORY_CACHE_SIZE :: u64 where "MEMORY_CACHE_SIZE \<equiv> 4 * 1024 * 1024 * 1024"
abbreviation PERSISTENT_SIZE :: u64 where "PERSISTENT_SIZE \<equiv> 100 * 1024 * 1024 * 1024"
abbreviation CACHE_CHECK_INTERVAL_US :: u64 where "CACHE_CHECK_INTERVAL_US \<equiv> 1000000"

definition upd_stats :: "(server_stats \<Rightarrow> server_stats) \<Rightarrow> server \<Rightarrow> server" where
  "upd_stats f sv = sv\<lparr>sv_stats := f (sv_stats sv)\<rparr>"

abbreviation count_error :: "bool \<times> server \<times> 'w \<Rightarrow> server \<times> 'w" where
  "count_error r \<equiv> (case r of (ok, sv, w) \<Rightarrow>
     (if ok then sv else upd_stats (\<lambda>s. s\<lparr>st_errors := st_errors s + 1\<rparr>) sv, w))"

section \<open>Handlers\<close>

text \<open>The string functions see a received URI up to its first NUL.\<close>

definition req_uri :: "objm_request \<Rightarrow> string" where
  "req_uri req = c_str (string_of_bytes (rq_uri req))"

definition ok_response :: "u32 \<Rightarrow> int \<Rightarrow> u64 \<Rightarrow> objm_response" where
  "ok_response i fd content_len =
     \<lparr>rs_request_id = i, rs_status = OBJM_STATUS_OK, rs_fd = fd, rs_content_len = content_len,
      rs_metadata = None, rs_metadata_len = 0, rs_error_msg = None\<rparr>"

definition handle_get ::
    "objm_connection \<Rightarrow> objm_request \<Rightarrow> server \<Rightarrow> 'a world_scheme \<Rightarrow> (bool \<times> server \<times> 'a world_scheme) option" where
  "handle_get conn req sv w =
     do {
       (found, mgr, w) \<leftarrow> backend_get_object (req_uri req) (sv_mgr sv) w;
       let sv = sv\<lparr>sv_mgr := mgr\<rparr>;
       case found of
         None \<Rightarrow>
           do { (_, w) \<leftarrow> objm_server_send_error conn (rq_id req) OBJM_STATUS_NOT_FOUND (Some ''Object not found'') w;
                Some (False, sv, w) }
       | Some r \<Rightarrow>
           if rq_mode req = OBJM_MODE_FDPASS then
             do {
               let (ret, w) = objm_server_send_response conn (ok_response (rq_id req) (fr_fd r) 0) w;
               (_, w) \<leftarrow> fd_ref_release r w;
               Some (if ret then (True, upd_stats (\<lambda>s. s\<lparr>st_gets := st_gets s + 1\<rparr>) sv, w) else (False, sv, w))
             }
           else
             do {
               (_, w) \<leftarrow> fd_ref_release r w;
               (_, w) \<leftarrow> objm_server_send_error conn (rq_id req) OBJM_STATUS_UNSUPPORTED_OP
                            (Some ''Only FD pass mode supported for GET'') w;
               Some (False, sv, w)
             }
     }"

definition put_request :: "objm_request \<Rightarrow> object_create_req" where
  "put_request req =
     \<lparr>or_uri = req_uri req, or_backend_id = -1, or_ephemeral = (rq_flags req AND OBJM_REQ_PRIORITY \<noteq> 0),
      or_size_hint = 0, or_flags = 0\<rparr>"

definition handle_put ::
    "objm_connection \<Rightarrow> objm_request \<Rightarrow> server \<Rightarrow> 'a world_scheme \<Rightarrow> (bool \<times> server \<times> 'a world_scheme) option" where
  "handle_put conn req sv w =
     do {
       (found, mgr, w) \<leftarrow> backend_get_object (req_uri req) (sv_mgr sv) w;
       (mgr, w) \<leftarrow>
         (case found of
            None \<Rightarrow> Some (mgr, w)
          | Some r \<Rightarrow> do { (_, w) \<leftarrow> fd_ref_release r w;
                            (_, mgr, w) \<leftarrow> backend_delete_object (req_uri req) mgr w;
                            Some (mgr, w) });
       (created, mgr, w) \<leftarrow> backend_create_object (put_request req) mgr w;
       let sv = sv\<lparr>sv_mgr := mgr\<rparr>;
       case created of
         None \<Rightarrow>
           do { (_, w) \<leftarrow> objm_server_send_error conn (rq_id req) OBJM_STATUS_STORAGE_ERROR
                             (Some ''Failed to create object'') w;
                Some (False, sv, w) }
       | Some r \<Rightarrow>
           if rq_mode req = OBJM_MODE_FDPASS then
             do {
               let (ret, w) = objm_server_send_response conn (ok_response (rq_id req) (fr_fd r) 0) w;
               (_, w) \<leftarrow> fd_ref_release r w;
               Some (if ret then (True, upd_stats (\<lambda>s. s\<lparr>st_puts := st_puts s + 1\<rparr>) sv, w) else (False, sv, w))
             }
           else
             do {
               (_, w) \<leftarrow> fd_ref_release r w;
               (_, w) \<leftarrow> objm_server_send_error conn (rq_id req) OBJM_STATUS_UNSUPPORTED_OP
                            (Some ''Only FD pass mode supported for PUT'') w;
               Some (False, sv, w)
             }
     }"

text \<open>The URI is \<open>NULL\<close> when it could not be copied; \<open>backend_delete_object\<close> fails then.\<close>

definition handle_delete ::
    "objm_connection \<Rightarrow> objm_request \<Rightarrow> string option \<Rightarrow> server \<Rightarrow> 'a world_scheme
       \<Rightarrow> (bool \<times> server \<times> 'a world_scheme) option" where
  "handle_delete conn req uri sv w =
     do {
       (ret, mgr, w) \<leftarrow> (case uri of None \<Rightarrow> Some (False, sv_mgr sv, w)
                            | Some u \<Rightarrow> backend_delete_object u (sv_mgr sv) w);
       let sv = sv\<lparr>sv_mgr := mgr\<rparr>;
       if ret then
         let (sent, w) = objm_server_send_response conn (ok_response (rq_id req) (-1) 1) w
         in Some (if sent then (True, upd_stats (\<lambda>s. s\<lparr>st_deletes := st_deletes s + 1\<rparr>) sv, w) else (False, sv, w))
       else
         do { (_, w) \<leftarrow> objm_server_send_error conn (rq_id req) OBJM_STATUS_NOT_FOUND (Some ''Object not found'') w;
              Some (False, sv, w) }
     }"

definition handle_list ::
    "objm_connection \<Rightarrow> objm_request \<Rightarrow> server \<Rightarrow> 'a world_scheme \<Rightarrow> (bool \<times> server \<times> 'a world_scheme) option" where
  "handle_list conn req sv w =
     do { (_, w) \<leftarrow> objm_server_send_error conn (rq_id req) OBJM_STATUS_UNSUPPORTED_OP
                       (Some ''LIST is disabled - use management API'') w;
          Some (False, sv, w) }"

section \<open>The thread of a connection\<close>

text \<open>
  One request: the operation is read off the URI. The copy of the URI of a deletion is cut
  to the buffer of 4096 bytes.
\<close>

definition serve_request ::
    "objm_connection \<Rightarrow> objm_request \<Rightarrow> server \<Rightarrow> 'a world_scheme \<Rightarrow> (server \<times> 'a world_scheme) option" where
  "serve_request conn req sv w =
     (let uri = req_uri req
      in if take 8 uri = ''/delete/'' then
           let (copy, w) = strdup (take (OBJM_MAX_URI_LEN - 1) (drop 7 uri)) w
           in map_option count_error (handle_delete conn req copy sv w)
         else if uri = ''/list'' \<or> take 9 uri = ''/backend/'' then map_option count_error (handle_list conn req sv w)
         else do {
           (found, mgr, w) \<leftarrow> backend_get_object uri (sv_mgr sv) w;
           let sv = sv\<lparr>sv_mgr := mgr\<rparr>;
           case found of
             Some r \<Rightarrow> do { (_, w) \<leftarrow> fd_ref_release r w; map_option count_error (handle_get conn req sv w) }
           | None \<Rightarrow> map_option count_error (handle_put conn req sv w)
         })"

text \<open>
  The loop; \<open>running n\<close> is what \<open>g_running\<close>, which the signal handler clears, is found to be
  at the test of round \<open>n\<close>.
\<close>

partial_function (option) client_loop ::
    "(nat \<Rightarrow> bool) \<Rightarrow> nat \<Rightarrow> objm_version \<Rightarrow> objm_connection \<Rightarrow> server \<Rightarrow> 'a world_scheme
       \<Rightarrow> (server \<times> 'a world_scheme) option" where
  "client_loop running n version conn sv w =
     (if \<not> running n then Some (sv, w)
      else case objm_server_recv_request conn w of
             (RecvClose, conn, w) \<Rightarrow> Some (sv, w)
           | (RecvError, conn, w) \<Rightarrow>
               Some (if version = OBJM_PROTO_V1 then sv else upd_stats (\<lambda>s. s\<lparr>st_errors := st_errors s + 1\<rparr>) sv, w)
           | (RecvRequest req, conn, w) \<Rightarrow>
               (case serve_request conn req
                       (upd_stats (\<lambda>s. s\<lparr>st_requests_total := st_requests_total s + 1\<rparr>) sv) w of
                  None \<Rightarrow> None
                | Some (sv, w) \<Rightarrow> client_loop running (Suc n) version conn sv w))"

definition server_hello :: objm_hello where
  "server_hello = \<lparr>h_capabilities = 0, h_max_pipeline = 1, h_backend_parallelism = 2\<rparr>"

definition client_thread ::
    "(nat \<Rightarrow> bool) \<Rightarrow> int \<Rightarrow> server \<Rightarrow> 'a world_scheme \<Rightarrow> (server \<times> 'a world_scheme) option" where
  "client_thread running client_fd sv w =
     (let sv = upd_stats (\<lambda>s. s\<lparr>st_active_connections := st_active_connections s + 1\<rparr>) sv;
          leave = upd_stats (\<lambda>s. s\<lparr>st_active_connections := st_active_connections s - 1\<rparr>)
      in case objm_server_create client_fd w of
           (None, w) \<Rightarrow> Some (leave sv, sys_close client_fd w)
         | (Some conn, w) \<Rightarrow>
             (case objm_server_handshake conn server_hello w of
                (None, conn, w) \<Rightarrow> Some (leave sv, sys_close client_fd w)
              | (Some params, conn, w) \<Rightarrow>
                  do {
                    (sv, w) \<leftarrow> client_loop running 0 (p_version params) conn sv w;
                    Some (leave sv, sys_close client_fd w)
                  }))"

section \<open>Set-up\<close>

text \<open>
  The result \<open>None\<close> inside is the return value \<open>-1\<close>. \<open>listing\<close> stands for the directories as
  \<open>readdir\<close> delivers them and \<open>junk\<close> for uninitialised bytes.
\<close>

definition init_backends ::
    "(string \<Rightarrow> string list option) \<Rightarrow> bytes \<Rightarrow> string \<Rightarrow> string \<Rightarrow> 'a world_scheme \<Rightarrow> (server option \<times> 'a world_scheme) option" where
  "init_backends listing junk memory_path persistent_path w =
     do {
       (created, w) \<leftarrow> backend_manager_create 8192 2000 w;
       case created of
         None \<Rightarrow> Some (None, w)
       | Some mgr \<Rightarrow>
           do {
             let (_, w) = sys_mkdir memory_path w;
             (mem, mgr, w) \<leftarrow> backend_manager_register junk BACKEND_TYPE_MEMORY memory_path ''Memory Cache'' MEMORY_CACHE_SIZE
                (BACKEND_FLAG_EPHEMERAL_ONLY OR BACKEND_FLAG_ENABLED OR BACKEND_FLAG_MIGRATION_SRC OR BACKEND_FLAG_MIGRATION_DST) mgr w;
             if mem < 0 then Some (None, w)
             else do {
               let (_, w) = sys_mkdir persistent_path w;
               (per, mgr, w) \<leftarrow> backend_manager_register junk BACKEND_TYPE_SSD persistent_path ''Persistent SSD'' PERSISTENT_SIZE
                  (BACKEND_FLAG_PERSISTENT OR BACKEND_FLAG_ENABLED OR BACKEND_FLAG_MIGRATION_SRC OR BACKEND_FLAG_MIGRATION_DST) mgr w;
               if per < 0 then Some (None, w)
               else do {
                 let mgr = snd (backend_manager_set_default per mgr);
                 let mgr = snd (backend_manager_set_ephemeral mem mgr);
                 let mgr = snd (backend_manager_set_cache mem mgr);
                 (_, mgr, w) \<leftarrow> backend_manager_scan listing mem mgr w;
                 (_, mgr, w) \<leftarrow> backend_manager_scan listing per mgr w;
                 let (_, mgr, w) = backend_start_caching CACHE_CHECK_INTERVAL_US 0.7 mgr w;
                 Some (Some \<lparr>sv_mgr = mgr, sv_memory_backend_id = mem, sv_persistent_backend_id = per,
                             sv_stats = \<lparr>st_requests_total = 0, st_gets = 0, st_puts = 0, st_deletes = 0,
                                         st_errors = 0, st_active_connections = 0\<rparr>\<rparr>, w)
               }
             }
           }
     }"

definition cleanup_backends :: "server \<Rightarrow> 'a world_scheme \<Rightarrow> 'a world_scheme option" where
  "cleanup_backends sv w = backend_manager_destroy (backend_stop_caching (sv_mgr sv)) w"

end
