(* ===== verification/Server_Laws.thy ===== *)
theory Server_Laws
  imports Server
begin

text \<open>
  How the server treats an object that its index reaches: the lookups of a request leave the
  index, the files and the descriptors of the process as they are, and the one that answers
  the request puts a fresh descriptor of the object's file into the stream.
\<close>

section \<open>Objects that are reached\<close>

lemma chain_locate_same:
  assumes "chain_locate h hash u prev p = Some r" "same_links h h' UNIV"
  shows "chain_locate h' hash u prev p = Some r"
  using assms(2)
proof (induct rule: chain_locate.raw_induct [OF _ assms(1), consumes 0, case_names step])
  case (step f h hash u prev p y)
  show ?case
  proof (cases p)
    case (Some a)
    with step(2) obtain e where e: "h a = Some e" by (auto split: option.splits)
    from step(3) e obtain e' where "h' a = Some e'" "ie_next e' = ie_next e" "ie_uri e' = ie_uri e" "ie_uri_hash e' = ie_uri_hash e"
      by (auto simp: same_links_def)
    with step Some e show ?thesis by (subst chain_locate.simps) (auto simp: entry_matches_def split: if_splits)
  qed (use step(2) in \<open>subst chain_locate.simps, simp\<close>)
qed

definition finds :: "global_index \<Rightarrow> entry_heap \<Rightarrow> string \<Rightarrow> addr \<Rightarrow> bool" where
  "finds idx h u a \<longleftrightarrow>
     (\<exists>p q. bucket_at (gi_buckets idx) (bucket_of (gi_num_buckets idx) (index_hash_string u)) = Some p \<and>
            chain_locate h (index_hash_string u) u None p = Some (Some (q, a)))"

lemma finds_rep: "gi_rep idx h m \<Longrightarrow> m u = Some a \<Longrightarrow> finds idx h u a"
  using rep_walk(1,3) unfolding finds_def by blast

lemma finds_same:
  assumes "finds idx h u a" "same_links h h' UNIV" "gi_buckets idx' = gi_buckets idx" "gi_num_buckets idx' = gi_num_buckets idx"
  shows "finds idx' h' u a"
  using assms chain_locate_same [OF _ assms(2)] unfolding finds_def by metis

text \<open>The object \<open>u\<close> of the manager: its entry has \<open>n\<close> references and its path is a file.\<close>

definition object_at ::
    "backend_manager \<Rightarrow> 'a world_scheme \<Rightarrow> string \<Rightarrow> addr \<Rightarrow> int \<Rightarrow> string \<Rightarrow> nat \<Rightarrow> bool" where
  "object_at mgr w u a n path ino \<longleftrightarrow> finds (m_global_index mgr) (heap w) u a \<and> dir w path = Some ino \<and>
     (\<exists>e. heap w a = Some e \<and> ie_entry_refcount e = n \<and> ie_backend_path e = Some path)"

text \<open>What the calls on objects change of a process besides its entries: failures to come and the descriptors.\<close>

definition fd_frame :: "'a world_scheme \<Rightarrow> 'a world_scheme \<Rightarrow> bool" where
  "fd_frame w w' \<longleftrightarrow> (\<exists>f x n t h. w' = w\<lparr>faults := f, ofds := x, next_ofd := n, fds := t, heap := h\<rparr>)"

lemma fd_frameD:
  assumes "fd_frame w w'"
  shows "dir w' = dir w" "inodes w' = inodes w" "tx w' = tx w" "rx w' = rx w" "tx_ev w' = tx_ev w" "rx_ev w' = rx_ev w"
    "next_addr w' = next_addr w" "is_dir w' = is_dir w" "clock w' = clock w" "fio_ev w' = fio_ev w" "link_calm w' = link_calm w"
  using assms unfolding fd_frame_def by (auto simp: link_calm_def link_ok_def)

lemma fd_frame_refl [simp]: "fd_frame w w"
proof -
  have "w = w\<lparr>faults := faults w, ofds := ofds w, next_ofd := next_ofd w, fds := fds w, heap := heap w\<rparr>" by simp
  then show ?thesis unfolding fd_frame_def by blast
qed

lemma fd_frame_trans: "fd_frame w w' \<Longrightarrow> fd_frame w' w'' \<Longrightarrow> fd_frame w w''"
  unfolding fd_frame_def by (elim exE, hypsubst) (auto intro!: exI)

lemma fd_frame_heap: "fd_frame w w' \<Longrightarrow> fd_frame w (w'\<lparr>heap := h\<rparr>)"
  unfolding fd_frame_def by (elim exE, hypsubst) (auto intro!: exI)

lemma fd_frame_close: "fd_frame w (sys_close fd w)"
proof -
  obtain t where "sys_close fd w = w\<lparr>fds := t\<rparr>" by (rule sys_close_frame)
  also have "\<dots> = w\<lparr>faults := faults w, ofds := ofds w, next_ofd := next_ofd w, fds := t, heap := heap w\<rparr>" by simp
  finally show ?thesis unfolding fd_frame_def by blast
qed

lemma get_reached:
  assumes "object_at mgr w u a n path ino" "no_faults w"
  obtains fd mgr' w' d where
    "backend_get_object u mgr w = Some (Some \<lparr>fr_entry = Some a, fr_fd = fd, fr_generation = 0\<rparr>, mgr', w')"
    "0 \<le> fd" "fd_obj w fd = None" "fd_obj w' fd = Some d" "ofds w' d = \<lparr>of_ino = ino, of_off = 0, of_acc = O_RDWR\<rparr>"
    "\<forall>x. x \<noteq> fd \<longrightarrow> fd_obj w' x = fd_obj w x" "object_at mgr' w' u a (n + 1) path ino" "no_faults w'" "fd_frame w w'"
proof -
  obtain e where e: "heap w a = Some e" "ie_entry_refcount e = n" "ie_backend_path e = Some path" and di: "dir w path = Some ino"
    and fnd: "finds (m_global_index mgr) (heap w) u a" using assms(1) unfolding object_at_def by blast
  then obtain p q where pq: "bucket_at (gi_buckets (m_global_index mgr)) (bucket_of (gi_num_buckets (m_global_index mgr)) (index_hash_string u)) = Some p"
    "chain_locate (heap w) (index_hash_string u) u None p = Some (Some (q, a))" unfolding finds_def by blast
  let ?w0 = "w\<lparr>heap := (heap w)(a \<mapsto> e\<lparr>ie_entry_refcount := ie_entry_refcount e + 1\<rparr>)\<rparr>"
  obtain fd w1 where o: "sys_open O_RDWR path ?w0 = (fd, w1)" by (cases "sys_open O_RDWR path ?w0")
  have "no_faults ?w0" "dir ?w0 path = Some ino" using assms(2) di by (simp_all add: no_faults_def)
  note ok = sys_open_ok [OF this o]
  obtain f x k t where w1: "w1 = ?w0\<lparr>faults := f, ofds := x, next_ofd := k, fds := t\<rparr>" using sys_open_frame [OF o] .
  from sys_open_result(1) [OF o ok(1)] di obtain d where d: "fd_obj w fd = None" "fd_obj w1 fd = Some d"
    "ofds w1 d = \<lparr>of_ino = ino, of_off = 0, of_acc = O_RDWR\<rparr>" by auto
  have others: "fd_obj w1 y = fd_obj w y" if "y \<noteq> fd" for y using sys_open_result(2) [OF o that] by simp
  let ?e = "(touched e fd (clock w))\<lparr>ie_access_count := ie_access_count e + 1 + 1, ie_last_access := clock w\<rparr>"
  let ?w' = "w1\<lparr>heap := (heap w)(a \<mapsto> ?e)\<rparr>"
  have "\<exists>mgr'. backend_get_object u mgr w = Some (Some \<lparr>fr_entry = Some a, fr_fd = fd, fr_generation = 0\<rparr>, mgr', ?w') \<and>
      gi_buckets (m_global_index mgr') = gi_buckets (m_global_index mgr) \<and>
      gi_num_buckets (m_global_index mgr') = gi_num_buckets (m_global_index mgr)"
    using pq e o ok(1)
    by (simp add: backend_get_object_def manager_lookup_def global_index_lookup_def index_entry_get_def
        index_entry_record_access_def upd_entry_def open_for_lookup_def touched_def w1 Let_def split: option.split)
  then obtain mgr' where g: "backend_get_object u mgr w = Some (Some \<lparr>fr_entry = Some a, fr_fd = fd, fr_generation = 0\<rparr>, mgr', ?w')"
      "gi_buckets (m_global_index mgr') = gi_buckets (m_global_index mgr)"
      "gi_num_buckets (m_global_index mgr') = gi_num_buckets (m_global_index mgr)" by blast
  have "same_links (heap w) (heap ?w') UNIV" using e(1) by (auto simp: same_links_def)
  with g(2,3) fnd have "finds (m_global_index mgr') (heap ?w') u a" by (blast intro: finds_same)
  then have "object_at mgr' ?w' u a (n + 1) path ino" using e di unfolding object_at_def by (simp add: w1)
  moreover have "fd_frame w ?w'" unfolding fd_frame_def w1
    by (rule exI [of _ f], rule exI [of _ x], rule exI [of _ k], rule exI [of _ t], rule exI [of _ "heap ?w'"]) simp
  ultimately show ?thesis using d others ok by (intro that [OF g(1) ok(1) d(1)]) (simp_all add: no_faults_def)
qed

lemma release_reached:
  assumes "object_at mgr w u a n path ino" "1 < n" "0 \<le> fd"
  obtains r w' where "fd_ref_release \<lparr>fr_entry = Some a, fr_fd = fd, fr_generation = g\<rparr> w = Some (r, w')"
    "object_at mgr w' u a (n - 1) path ino" "fd_frame w w'" "fd_obj w' fd = None" "\<forall>x. x \<noteq> fd \<longrightarrow> fd_obj w' x = fd_obj w x"
    "ofds w' = ofds w" "faults w' = faults w"
proof -
  let ?r = "\<lparr>fr_entry = Some a, fr_fd = fd, fr_generation = g\<rparr>"
  obtain e where e: "heap w a = Some e" "ie_entry_refcount e = n" "ie_backend_path e = Some path" and di: "dir w path = Some ino"
    and fnd: "finds (m_global_index mgr) (heap w) u a" using assms(1) unfolding object_at_def by blast
  let ?e = "e\<lparr>ie_fd_refcount := ie_fd_refcount e - 1, ie_entry_refcount := ie_entry_refcount e - 1\<rparr>"
  let ?w' = "(sys_close fd w)\<lparr>heap := (heap w)(a \<mapsto> ?e)\<rparr>"
  have "fd_ref_release ?r w = Some (?r\<lparr>fr_entry := None, fr_fd := -1\<rparr>, ?w')"
    using release_ref [of w a e ?r] e assms(2,3) by simp
  moreover have "same_links (heap w) (heap ?w') UNIV" using e(1) by (auto simp: same_links_def)
  then have "object_at mgr ?w' u a (n - 1) path ino"
    using finds_same [OF fnd] e di unfolding object_at_def by (simp add: sys_close_simps)
  ultimately show ?thesis
    by (rule that) (simp_all add: fd_frame_heap fd_frame_close fd_obj_close sys_close_simps)
qed

section \<open>Answers\<close>

text \<open>The items of an answer that carries the description \<open>d\<close>.\<close>

definition answer :: "objm_connection \<Rightarrow> objm_request \<Rightarrow> nat \<Rightarrow> item list" where
  "answer conn req d = map Plain (response_header (c_version conn) (ok_response (rq_id req) 0 0)) @ [WithFd 0x58 d]"

lemma send_answer:
  assumes "link_calm w" "fd_obj w fd = Some d" "c_version conn = OBJM_PROTO_V1 \<longrightarrow> rq_id req = 0"
  obtains ev where "objm_server_send_response conn (ok_response (rq_id req) fd 0) w =
    (True, w\<lparr>tx := tx w @ answer conn req d, tx_ev := ev\<rparr>)"
proof -
  let ?r = "ok_response (rq_id req) fd 0"
  have pos: "0 \<le> fd" using assms(2) by (rule fd_obj_nonneg)
  have "valid_response (c_version conn) w ?r" using assms(2,3) by (simp add: valid_response_def ok_response_def)
  moreover have "response_items (c_version conn) w ?r = answer conn req d"
    using pos assms(2)
    by (simp add: response_items_def answer_def meta_bytes_def fd_items_def ok_response_def response_header_def)
  ultimately show ?thesis using server_send_response_ok [OF assms(1), of conn ?r] that by metis
qed

text \<open>A request that is neither a deletion nor a listing.\<close>

definition plain_uri :: "string \<Rightarrow> bool" where
  "plain_uri u \<longleftrightarrow> take 8 u \<noteq> ''/delete/'' \<and> u \<noteq> ''/list'' \<and> take 9 u \<noteq> ''/backend/''"

definition fd_request :: "objm_connection \<Rightarrow> objm_request \<Rightarrow> string \<Rightarrow> bool" where
  "fd_request conn req u \<longleftrightarrow> req_uri req = u \<and> plain_uri u \<and> rq_mode req = OBJM_MODE_FDPASS \<and>
     (c_version conn = OBJM_PROTO_V1 \<longrightarrow> rq_id req = 0)"

lemma object_at_tx [simp]: "object_at mgr (w\<lparr>tx := t, tx_ev := ev\<rparr>) u a n path ino = object_at mgr w u a n path ino"
  by (simp add: object_at_def)

text \<open>The state after an answer that carries the description \<open>d\<close> of a file: all files and descriptors are as before.\<close>

definition answered ::
    "objm_connection \<Rightarrow> objm_request \<Rightarrow> nat \<Rightarrow> 'a world_scheme \<Rightarrow> 'a world_scheme \<Rightarrow> bool" where
  "answered conn req d w w' \<longleftrightarrow> tx w' = tx w @ answer conn req d \<and> rx w' = rx w \<and> dir w' = dir w \<and>
     inodes w' = inodes w \<and> (\<forall>x. fd_obj w' x = fd_obj w x)"

lemma handle_get_ok:
  assumes "object_at (sv_mgr sv) w u a n path ino" "1 \<le> n" "no_faults w" "link_calm w" "fd_request conn req u"
  obtains sv' w' d where "handle_get conn req sv w = Some (True, sv', w')" "answered conn req d w w'"
    "ofds w' d = \<lparr>of_ino = ino, of_off = 0, of_acc = O_RDWR\<rparr>" "object_at (sv_mgr sv') w' u a n path ino" "no_faults w'"
    "sv_stats sv' = (sv_stats sv)\<lparr>st_gets := st_gets (sv_stats sv) + 1\<rparr>"
proof -
  note rq = assms(5) [unfolded fd_request_def]
  obtain fd mgr1 w1 d where 1: "backend_get_object u (sv_mgr sv) w = Some (Some \<lparr>fr_entry = Some a, fr_fd = fd, fr_generation = 0\<rparr>, mgr1, w1)"
    "0 \<le> fd" "fd_obj w fd = None" "fd_obj w1 fd = Some d" "ofds w1 d = \<lparr>of_ino = ino, of_off = 0, of_acc = O_RDWR\<rparr>"
    "\<forall>x. x \<noteq> fd \<longrightarrow> fd_obj w1 x = fd_obj w x" "object_at mgr1 w1 u a (n + 1) path ino" "no_faults w1" "fd_frame w w1"
    using get_reached [OF assms(1,3)] .
  have "link_calm w1" using fd_frameD(11) [OF 1(9)] assms(4) by simp
  then obtain ev where 2: "objm_server_send_response conn (ok_response (rq_id req) fd 0) w1 =
      (True, w1\<lparr>tx := tx w1 @ answer conn req d, tx_ev := ev\<rparr>)" using send_answer [OF _ 1(4)] rq by blast
  let ?w2 = "w1\<lparr>tx := tx w1 @ answer conn req d, tx_ev := ev\<rparr>"
  have "object_at mgr1 ?w2 u a (n + 1) path ino" "1 < n + 1" using 1(7) assms(2) by simp_all
  from release_reached [OF this 1(2)] obtain r w3 where
    3: "fd_ref_release \<lparr>fr_entry = Some a, fr_fd = fd, fr_generation = 0\<rparr> ?w2 = Some (r, w3)"
      "object_at mgr1 w3 u a (n + 1 - 1) path ino" "fd_frame ?w2 w3" "fd_obj w3 fd = None"
      "\<forall>x. x \<noteq> fd \<longrightarrow> fd_obj w3 x = fd_obj ?w2 x" "ofds w3 = ofds ?w2" "faults w3 = faults ?w2" .
  have "fd_obj w3 x = fd_obj w x" for x using 1(3,6) 3(4,5) by (cases "x = fd") simp_all
  then have "answered conn req d w w3"
    using fd_frameD(1-4) [OF 1(9)] fd_frameD(1-4) [OF 3(3)] by (simp add: answered_def)
  moreover let ?sv = "upd_stats (\<lambda>s. s\<lparr>st_gets := st_gets s + 1\<rparr>) (sv\<lparr>sv_mgr := mgr1\<rparr>)"
  have "handle_get conn req sv w = Some (True, ?sv, w3)"
    using 1(1) 2 3(1) rq by (simp add: handle_get_def)
  ultimately show ?thesis using 1(5,8) 3(2,6,7)
    by (intro that [of ?sv w3 d]) (simp_all add: upd_stats_def no_faults_def)
qed

lemma serve_reached:
  assumes "object_at (sv_mgr sv) w u a n path ino" "1 \<le> n" "no_faults w" "link_calm w" "fd_request conn req u"
  obtains sv' w' d where "serve_request conn req sv w = Some (sv', w')" "answered conn req d w w'"
    "ofds w' d = \<lparr>of_ino = ino, of_off = 0, of_acc = O_RDWR\<rparr>" "object_at (sv_mgr sv') w' u a n path ino" "no_faults w'"
    "sv_stats sv' = (sv_stats sv)\<lparr>st_gets := st_gets (sv_stats sv) + 1\<rparr>"
proof -
  note rq = assms(5) [unfolded fd_request_def plain_uri_def]
  obtain fd mgr1 w1 d where 1: "backend_get_object u (sv_mgr sv) w = Some (Some \<lparr>fr_entry = Some a, fr_fd = fd, fr_generation = 0\<rparr>, mgr1, w1)"
    "0 \<le> fd" "fd_obj w fd = None" "fd_obj w1 fd = Some d" "ofds w1 d = \<lparr>of_ino = ino, of_off = 0, of_acc = O_RDWR\<rparr>"
    "\<forall>x. x \<noteq> fd \<longrightarrow> fd_obj w1 x = fd_obj w x" "object_at mgr1 w1 u a (n + 1) path ino" "no_faults w1" "fd_frame w w1"
    using get_reached [OF assms(1,3)] .
  have "1 < n + 1" using assms(2) by simp
  from release_reached [OF 1(7) this 1(2)] obtain r w2 where
    2: "fd_ref_release \<lparr>fr_entry = Some a, fr_fd = fd, fr_generation = 0\<rparr> w1 = Some (r, w2)"
      "object_at mgr1 w2 u a (n + 1 - 1) path ino" "fd_frame w1 w2" "fd_obj w2 fd = None"
      "\<forall>x. x \<noteq> fd \<longrightarrow> fd_obj w2 x = fd_obj w1 x" "ofds w2 = ofds w1" "faults w2 = faults w1" .
  have fr: "fd_frame w w2" using 1(9) 2(3) by (rule fd_frame_trans)
  have fds: "fd_obj w2 x = fd_obj w x" for x using 1(3,6) 2(4,5) by (cases "x = fd") simp_all
  let ?sv = "sv\<lparr>sv_mgr := mgr1\<rparr>"
  have "object_at (sv_mgr ?sv) w2 u a n path ino" "no_faults w2" "link_calm w2"
    using 2(2,7) 1(8) fd_frameD(11) [OF fr] assms(4) by (simp_all add: no_faults_def)
  from handle_get_ok [OF this(1) assms(2) this(2,3) assms(5)] obtain sv' w' d' where
    3: "handle_get conn req ?sv w2 = Some (True, sv', w')" "answered conn req d' w2 w'"
      "ofds w' d' = \<lparr>of_ino = ino, of_off = 0, of_acc = O_RDWR\<rparr>" "object_at (sv_mgr sv') w' u a n path ino" "no_faults w'"
      "sv_stats sv' = (sv_stats ?sv)\<lparr>st_gets := st_gets (sv_stats ?sv) + 1\<rparr>" .
  have "serve_request conn req sv w = Some (sv', w')" using 1(1) 2(1) 3(1) rq by (simp add: serve_request_def)
  moreover have "answered conn req d' w w'" using 3(2) fds fd_frameD(1-4) [OF fr] by (simp add: answered_def)
  ultimately show ?thesis using 3(3-6) by (intro that) simp_all
qed

section \<open>Objects that are made\<close>

text \<open>The socket is not touched by the calls that make a file.\<close>

definition same_socket :: "'a os_scheme \<Rightarrow> 'a os_scheme \<Rightarrow> bool" where
  "same_socket s s' \<longleftrightarrow> tx s' = tx s \<and> rx s' = rx s \<and> tx_ev s' = tx_ev s \<and> rx_ev s' = rx_ev s \<and> fio_ev s' = fio_ev s"

lemma same_socket_fault: "fault s = (b, s') \<Longrightarrow> same_socket s s'"
  by (auto simp: same_socket_def elim!: fault_frame)

lemma same_socket_mkdir: "sys_mkdir p s = (r, s') \<Longrightarrow> same_socket s s'"
  by (auto simp: sys_mkdir_def same_socket_def elim!: fault_frame split: prod.splits if_splits)

lemma same_socket_prefixes: "mkdir_prefixes tmp is s = (r, s') \<Longrightarrow> same_socket s s'"
proof (induction tmp "is" s rule: mkdir_prefixes.induct)
  case (2 tmp i "is" s)
  obtain x t where "sys_mkdir (take i tmp) s = (x, t)" by (cases "sys_mkdir (take i tmp) s")
  with 2 same_socket_mkdir [OF this] show ?case
    by (cases x) (auto simp: same_socket_def split: if_splits)
qed (simp add: same_socket_def)

lemma same_socket_mkdir_p: "mkdir_p p s = Some (r, s') \<Longrightarrow> same_socket s s'"
  by (auto simp: mkdir_p_def same_socket_def Let_def dest!: same_socket_prefixes same_socket_mkdir
      split: prod.splits if_splits bool.splits mkdir_result.splits)

lemma same_socket_creat: "sys_open_creat acc p s = (fd, s') \<Longrightarrow> same_socket s s'"
  by (auto simp: sys_open_creat_def same_socket_def new_ofd_def install_fd_def Let_def elim!: fault_frame
      split: prod.split_asm if_split_asm option.split_asm)

lemma same_socket_backing: "create_backing_file p s = Some (fd, s') \<Longrightarrow> same_socket s s'"
  by (auto simp: create_backing_file_def same_socket_def dest!: same_socket_mkdir_p same_socket_creat
      split: prod.splits if_splits elim!: bind_SomeE)

lemma get_missing:
  assumes "gi_rep (m_global_index mgr) (heap w) m" "m u = None"
  obtains idx where "backend_get_object u mgr w = Some (None, mgr\<lparr>m_global_index := idx\<rparr>, w)" "gi_rep idx (heap w) m"
proof -
  let ?idx = "(m_global_index mgr)\<lparr>gi_stat_lookups := gi_stat_lookups (m_global_index mgr) + 1,
      gi_stat_misses := gi_stat_misses (m_global_index mgr) + 1\<rparr>"
  have "backend_get_object u mgr w = Some (None, mgr\<lparr>m_global_index := ?idx\<rparr>, w)"
    using lookup_miss [OF assms] by (simp add: backend_get_object_def manager_lookup_def)
  with assms(1) show ?thesis by (intro that [of ?idx]) simp_all
qed

lemma create_target_index [simp]: "create_target req (mgr\<lparr>m_global_index := idx\<rparr>) = create_target req mgr"
  by (auto simp: create_target_def Let_def split: option.split)

text \<open>When a request for a new object can be served.\<close>

definition can_create ::
    "object_create_req \<Rightarrow> backend_manager \<Rightarrow> string \<Rightarrow> 'a world_scheme \<Rightarrow> bool" where
  "can_create req mgr path w \<longleftrightarrow>
     (\<exists>i b mp m k. create_target req mgr = Some (i, b) \<and> b_mount_path b = Some mp \<and> path = mp @ or_uri req \<and>
        gi_rep (m_global_index mgr) (heap w) m \<and> m (or_uri req) = None \<and> bi_rep (b_index b) (heap w) k) \<and>
     creatable path w \<and> heap w (next_addr w) = None"

lemma create_reached:
  assumes "can_create req mgr path w" "no_faults w"
  obtains a fd mgr' w' d ino where
    "backend_create_object req mgr w = Some (Some \<lparr>fr_entry = Some a, fr_fd = fd, fr_generation = 0\<rparr>, mgr', w')"
    "0 \<le> fd" "fd_obj w fd = None" "fd_obj w' fd = Some d" "ofds w' d = \<lparr>of_ino = ino, of_off = 0, of_acc = O_RDWR\<rparr>"
    "\<forall>x. x \<noteq> fd \<longrightarrow> fd_obj w' x = fd_obj w x" "object_at mgr' w' (or_uri req) a 3 path ino"
    "dir w' = (dir w)(path \<mapsto> ino)" "inodes w' = (inodes w)(ino := [])" "no_faults w'" "same_socket w w'"
proof -
  let ?u = "or_uri req"
  obtain i b mp m k where t: "create_target req mgr = Some (i, b)" "b_mount_path b = Some mp" "path = mp @ ?u"
    "gi_rep (m_global_index mgr) (heap w) m" "m ?u = None" "bi_rep (b_index b) (heap w) k"
    and c: "creatable path w" "heap w (next_addr w) = None" using assms(1) unfolding can_create_def by blast
  obtain fd w1 d ino where f: "create_backing_file path w = Some (fd, w1)" "0 \<le> fd" "fd_obj w fd = None"
    "fd_obj w1 fd = Some d" "ofds w1 d = \<lparr>of_ino = ino, of_off = 0, of_acc = O_RDWR\<rparr>" "dir w1 = (dir w)(path \<mapsto> ino)"
    "ino = (case dir w path of None \<Rightarrow> next_ino w | Some i \<Rightarrow> i)" "inodes w1 = (inodes w)(ino := [])"
    "no_faults w1" "os.more w1 = os.more w" "\<forall>x. x \<noteq> fd \<longrightarrow> fd_obj w1 x = fd_obj w x"
    using create_backing_ok [OF assms(2) c(1)] .
  note h = more_heap [OF f(10)]
  have len: "length (mp @ ?u) < 1024" using c(1) t(3) unfolding creatable_def by blast
  obtain mgr' w' e s where r:
    "backend_create_object req mgr w = Some (Some \<lparr>fr_entry = Some (next_addr w1), fr_fd = fd, fr_generation = 0\<rparr>, mgr', w')"
    "heap w' = (heap w1)(next_addr w1 \<mapsto> e)"
    "ie_uri e = ?u" "ie_uri_hash e = index_hash_string ?u" "ie_backend_path e = Some (mp @ ?u)" "ie_backend_id e = of_int i"
    "ie_flags e = request_flags req" "ie_size_bytes e = 0" "ie_fd e = fd" "ie_entry_refcount e = 3"
    "bucket_at (gi_buckets (m_global_index mgr')) (bucket_of (gi_num_buckets (m_global_index mgr'))
       (index_hash_string ?u)) = Some (Some (next_addr w1))"
    "w' = w1\<lparr>faults := s, next_addr := Suc (next_addr w1), heap := heap w'\<rparr>" "True \<notin> set s"
    "m_total_objects mgr' = m_total_objects mgr + 1"
    using create_step [OF t(1,2) len f(1) [unfolded t(3)] f(2,9) t(4) [folded h] t(5) c(2) [folded h] t(6) [folded h]] .
  have e: "heap w' (next_addr w1) = Some e" using r(2) by simp
  have w': "dir w' = dir w1" "inodes w' = inodes w1" "ofds w' = ofds w1" "fd_obj w' x = fd_obj w1 x" "no_faults w'"
      "tx w' = tx w1" "rx w' = rx w1" "tx_ev w' = tx_ev w1" "rx_ev w' = rx_ev w1" "fio_ev w' = fio_ev w1" for x
    by (subst r(12), use r(13) in \<open>simp add: no_faults_def\<close>)+
  have "finds (m_global_index mgr') (heap w') ?u (next_addr w1)"
    unfolding finds_def using r(11) locate_head [OF e r(3,4)] by blast
  then have "object_at mgr' w' ?u (next_addr w1) 3 path ino"
    unfolding object_at_def using e r(5,10) t(3) w'(1) f(6) by simp
  moreover have "same_socket w w'" using same_socket_backing [OF f(1)] w'(6-10) unfolding same_socket_def by simp
  ultimately show ?thesis using f w' by (intro that [OF r(1)]) simp_all
qed

text \<open>The state after an answer for a new object at \<open>path\<close>: an empty file \<open>ino\<close> has been added.\<close>

definition answered_new ::
    "objm_connection \<Rightarrow> objm_request \<Rightarrow> nat \<Rightarrow> string \<Rightarrow> nat \<Rightarrow> 'a world_scheme \<Rightarrow> 'a world_scheme \<Rightarrow> bool" where
  "answered_new conn req d path ino w w' \<longleftrightarrow> tx w' = tx w @ answer conn req d \<and> rx w' = rx w \<and>
     dir w' = (dir w)(path \<mapsto> ino) \<and> inodes w' = (inodes w)(ino := []) \<and> (\<forall>x. fd_obj w' x = fd_obj w x)"

lemma serve_missing:
  assumes "can_create (put_request req) (sv_mgr sv) path w" "no_faults w" "link_calm w" "fd_request conn req u"
  obtains sv' w' a d ino where "serve_request conn req sv w = Some (sv', w')" "answered_new conn req d path ino w w'"
    "ofds w' d = \<lparr>of_ino = ino, of_off = 0, of_acc = O_RDWR\<rparr>" "object_at (sv_mgr sv') w' u a 2 path ino" "no_faults w'"
    "sv_stats sv' = (sv_stats sv)\<lparr>st_puts := st_puts (sv_stats sv) + 1\<rparr>"
proof -
  note rq = assms(4) [unfolded fd_request_def plain_uri_def]
  let ?pr = "put_request req"
  have u: "or_uri ?pr = u" using rq by (simp add: put_request_def)
  obtain m where m: "gi_rep (m_global_index (sv_mgr sv)) (heap w) m" "m u = None"
    using assms(1) unfolding can_create_def u by blast
  obtain idx1 where 1: "backend_get_object u (sv_mgr sv) w = Some (None, (sv_mgr sv)\<lparr>m_global_index := idx1\<rparr>, w)" "gi_rep idx1 (heap w) m"
    using get_missing [OF m] .
  let ?m1 = "(sv_mgr sv)\<lparr>m_global_index := idx1\<rparr>"
  have "gi_rep (m_global_index ?m1) (heap w) m" using 1(2) by simp
  from get_missing [OF this m(2)] obtain idx2 where
    2: "backend_get_object u ?m1 w = Some (None, ?m1\<lparr>m_global_index := idx2\<rparr>, w)" "gi_rep idx2 (heap w) m" .
  let ?m2 = "?m1\<lparr>m_global_index := idx2\<rparr>"
  have "can_create ?pr ?m2 path w" using assms(1) 2(2) m(2) unfolding can_create_def u by simp blast
  from create_reached [OF this assms(2)] obtain a fd mgr3 w3 d ino where
    3: "backend_create_object ?pr ?m2 w = Some (Some \<lparr>fr_entry = Some a, fr_fd = fd, fr_generation = 0\<rparr>, mgr3, w3)"
    "0 \<le> fd" "fd_obj w fd = None" "fd_obj w3 fd = Some d" "ofds w3 d = \<lparr>of_ino = ino, of_off = 0, of_acc = O_RDWR\<rparr>"
    "\<forall>x. x \<noteq> fd \<longrightarrow> fd_obj w3 x = fd_obj w x" "object_at mgr3 w3 u a 3 path ino"
    "dir w3 = (dir w)(path \<mapsto> ino)" "inodes w3 = (inodes w)(ino := [])" "no_faults w3" "same_socket w w3"
    unfolding u .
  have "link_calm w3" using assms(3) 3(11) by (simp add: link_calm_def link_ok_def same_socket_def)
  then obtain ev where 4: "objm_server_send_response conn (ok_response (rq_id req) fd 0) w3 =
      (True, w3\<lparr>tx := tx w3 @ answer conn req d, tx_ev := ev\<rparr>)" using send_answer [OF _ 3(4)] rq by blast
  let ?w4 = "w3\<lparr>tx := tx w3 @ answer conn req d, tx_ev := ev\<rparr>"
  have "object_at mgr3 ?w4 u a 3 path ino" "1 < (3::int)" using 3(7) by simp_all
  from release_reached [OF this 3(2)] obtain r w5 where
    5: "fd_ref_release \<lparr>fr_entry = Some a, fr_fd = fd, fr_generation = 0\<rparr> ?w4 = Some (r, w5)"
      "object_at mgr3 w5 u a (3 - 1) path ino" "fd_frame ?w4 w5" "fd_obj w5 fd = None"
      "\<forall>x. x \<noteq> fd \<longrightarrow> fd_obj w5 x = fd_obj ?w4 x" "ofds w5 = ofds ?w4" "faults w5 = faults ?w4" .
  let ?sv = "upd_stats (\<lambda>s. s\<lparr>st_puts := st_puts s + 1\<rparr>) (sv\<lparr>sv_mgr := mgr3\<rparr>)"
  have "fd_obj w5 x = fd_obj w x" for x using 3(3,6) 5(4,5) by (cases "x = fd") simp_all
  then have "answered_new conn req d path ino w w5"
    using fd_frameD(1-4) [OF 5(3)] 3(8,9,11) by (simp add: answered_new_def same_socket_def)
  moreover have "serve_request conn req sv w = Some (?sv, w5)"
    using 1(1) 2(1) 3(1) 4 5(1) rq by (simp add: serve_request_def handle_put_def)
  ultimately show ?thesis using 5(2,6,7) 3(5,10)
    by (intro that [of ?sv w5 d ino a]) (simp_all add: upd_stats_def no_faults_def)
qed

end
