(* ===== verification/Server_Props.thy ===== *)
theory Server_Props
  imports Server_Laws
begin

text \<open>
  The server from end to end: a request reaches the handler that its URI selects, the answer
  reaches the client with a descriptor for the file of the object, and nothing of the request
  stays behind in the server.
\<close>

section \<open>The client's side of an answer\<close>

lemma client_gets_answer:
  fixes sc :: "'a os_scheme"
  assumes "rx sc = answer conn req d @ rest" "c_version cc = c_version conn" "link_calm sc" "no_faults sc"
    "c_version conn = OBJM_PROTO_V1 \<longrightarrow> rq_id req = 0"
  obtains fd sc' where "objm_client_recv_response cc sc = (Some (ok_response (rq_id req) fd 0), cc, sc')"
    "fd_obj sc' fd = Some d" "rx sc' = rest"
proof -
  let ?r = "ok_response (rq_id req) 0 0" and ?s = "os_init\<lparr>fds := [Some d]\<rparr>"
  have d: "fd_obj ?s 0 = Some d" by (simp add: fd_obj_def)
  have v: "valid_response (c_version cc) ?s ?r" using d assms(2,5) by (simp add: valid_response_def ok_response_def)
  have i: "rx sc = response_items (c_version cc) ?s ?r @ rest"
    using assms(1,2) d by (simp add: response_items_def answer_def meta_bytes_def fd_items_def ok_response_def)
  show ?thesis
  proof (rule client_recv_response_ok [OF v assms(3,4) i])
    fix fd and sc' :: "'a os_scheme"
    assume "objm_client_recv_response cc sc = (Some (?r\<lparr>rs_fd := fd\<rparr>), cc, sc')" "rx sc' = rest"
      "if rs_status ?r = OBJM_STATUS_OK \<and> rs_content_len ?r = 0 then fd_obj sc' fd = fd_obj ?s (rs_fd ?r) else fd = -1"
    with d show ?thesis by (intro that [of fd sc']) (simp_all add: ok_response_def)
  qed
qed

section \<open>Objects that exist\<close>

text \<open>
  A request in descriptor mode for an object of the index is answered with a descriptor
  of the object's file. When no call fails and the link is not disturbed, the client that
  reads the answer holds a descriptor whose description refers to that file at offset zero;
  the server's files, its descriptors and what its index finds are as before, and one more
  get is counted and no error.
\<close>

theorem server_get_delivers:
  fixes w :: "'a world_scheme" and sc :: "'b os_scheme"
  assumes "gi_rep (m_global_index (sv_mgr sv)) (heap w) m" "m u = Some a" "heap w a = Some e" "1 \<le> ie_entry_refcount e"
    and "ie_backend_path e = Some path" "dir w path = Some ino" "no_faults w" "link_calm w" "fd_request conn req u"
    and "c_version cc = c_version conn" "link_calm sc" "no_faults sc"
    and "rx sc = drop (length (tx w)) (tx (snd (the (serve_request conn req sv w)))) @ rest"
  shows "\<exists>sv' w' d fd sc'. serve_request conn req sv w = Some (sv', w') \<and>
     objm_client_recv_response cc sc = (Some (ok_response (rq_id req) fd 0), cc, sc') \<and> rx sc' = rest \<and>
     fd_obj sc' fd = Some d \<and> ofds w' d = \<lparr>of_ino = ino, of_off = 0, of_acc = O_RDWR\<rparr> \<and>
     dir w' = dir w \<and> inodes w' = inodes w \<and> (\<forall>x. fd_obj w' x = fd_obj w x) \<and>
     finds (m_global_index (sv_mgr sv')) (heap w') u a \<and>
     sv_stats sv' = (sv_stats sv)\<lparr>st_gets := st_gets (sv_stats sv) + 1\<rparr>"
proof -
  have "object_at (sv_mgr sv) w u a (ie_entry_refcount e) path ino"
    using finds_rep [OF assms(1,2)] assms(3,5,6) unfolding object_at_def by blast
  from serve_reached [OF this assms(4,7-9)] obtain sv' w' d where
    s: "serve_request conn req sv w = Some (sv', w')" "answered conn req d w w'"
      "ofds w' d = \<lparr>of_ino = ino, of_off = 0, of_acc = O_RDWR\<rparr>"
      "object_at (sv_mgr sv') w' u a (ie_entry_refcount e) path ino" "no_faults w'"
      "sv_stats sv' = (sv_stats sv)\<lparr>st_gets := st_gets (sv_stats sv) + 1\<rparr>" .
  have "rx sc = answer conn req d @ rest" using assms(13) s(1,2) by (simp add: answered_def)
  from client_gets_answer [OF this assms(10-12)] obtain fd sc' where
    "objm_client_recv_response cc sc = (Some (ok_response (rq_id req) fd 0), cc, sc')" "fd_obj sc' fd = Some d" "rx sc' = rest"
    using assms(9) unfolding fd_request_def by blast
  with s show ?thesis unfolding answered_def object_at_def by blast
qed

definition sample_server :: server where
  "sample_server =
     \<lparr>sv_mgr = sample_mgr 0, sv_memory_backend_id = 1, sv_persistent_backend_id = 0,
      sv_stats = \<lparr>st_requests_total = 1, st_gets = 0, st_puts = 0, st_deletes = 0, st_errors = 0, st_active_connections = 1\<rparr>\<rparr>"

definition get_request :: "string \<Rightarrow> objm_request" where
  "get_request u = \<lparr>rq_id = 0, rq_flags = 0, rq_mode = OBJM_MODE_FDPASS, rq_uri = bytes_of_string u, rq_uri_len = of_nat (length u)\<rparr>"

lemma sample_calm: "link_calm sample_world" "link_calm os_init" "no_faults os_init" "link_calm (os_init\<lparr>rx := x\<rparr>)" "no_faults (os_init\<lparr>rx := x\<rparr>)"
  by (simp_all add: link_calm_def link_ok_def no_faults_def os_init_def sample_world_def one_entry_def os.defs)

lemma sample_fd_request:
  "fd_request (sample_conn OBJM_PROTO_V1 True) (get_request ''/a'') ''/a''"
  "fd_request (sample_conn OBJM_PROTO_V1 True) (get_request ''/b'') ''/b''"
  by (simp_all add: fd_request_def get_request_def req_uri_def plain_uri_def sample_conn_def c_str_def)

theorem server_get_delivers_witness:
  "let conn = sample_conn OBJM_PROTO_V1 True; req = get_request ''/a'';
       sc = os_init\<lparr>rx := drop (length (tx sample_world)) (tx (snd (the (serve_request conn req sample_server sample_world)))) @ []\<rparr>
   in \<exists>sv' w' d fd sc'. serve_request conn req sample_server sample_world = Some (sv', w') \<and>
     objm_client_recv_response (sample_conn OBJM_PROTO_V1 False) sc =
       (Some (ok_response 0 fd 0), sample_conn OBJM_PROTO_V1 False, sc') \<and>
     fd_obj sc' fd = Some d \<and> of_ino (ofds w' d) = 7"
proof -
  let ?conn = "sample_conn OBJM_PROTO_V1 True" and ?req = "get_request ''/a''"
  let ?sc = "os_init\<lparr>rx := drop (length (tx sample_world)) (tx (snd (the (serve_request ?conn ?req sample_server sample_world)))) @ []\<rparr>"
  have "gi_rep (m_global_index (sv_mgr sample_server)) (heap sample_world) [''/a'' \<mapsto> 0]"
    using one_rep by (simp add: sample_server_def)
  from server_get_delivers [OF this, of "''/a''" 0 blank_entry "''/m/a''" 7 ?conn ?req "sample_conn OBJM_PROTO_V1 False" ?sc "[]"]
    sample_no_faults sample_calm sample_fd_request(1)
  obtain sv' w' d fd sc' where "serve_request ?conn ?req sample_server sample_world = Some (sv', w')"
    "objm_client_recv_response (sample_conn OBJM_PROTO_V1 False) ?sc =
       (Some (ok_response (rq_id ?req) fd 0), sample_conn OBJM_PROTO_V1 False, sc')"
    "fd_obj sc' fd = Some d" "ofds w' d = \<lparr>of_ino = 7, of_off = 0, of_acc = O_RDWR\<rparr>"
    by (auto simp: blank_entry_def sample_conn_def)
  then show ?thesis unfolding Let_def by (auto simp: get_request_def intro!: exI)
qed

section \<open>Objects that do not exist\<close>

lemma object_at_io [simp]:
  "object_at mgr (w\<lparr>inodes := i, rx := x, tx := t, rx_ev := re, tx_ev := te\<rparr>) u a n path ino = object_at mgr w u a n path ino"
  by (simp add: object_at_def)

text \<open>
  C5: A request in descriptor mode for a URI that is not in use makes the object: the client
  gets a descriptor of a new, empty file at the path of the backend that the request selects,
  no descriptor stays open in the server and one more put is counted. Whatever the client
  then writes, the next request for the URI, on this or another connection, is answered with
  a descriptor of the same file at offset zero. The server does not tell a GET from a PUT: this
  is also what a GET of a missing object does, where the system test expects it to fail.
\<close>

theorem server_put_then_get:
  fixes w :: "'a world_scheme"
  assumes "can_create (put_request req) (sv_mgr sv) path w" "no_faults w" "link_calm w"
    and "fd_request conn req u" "fd_request conn2 req2 u"
  shows "\<exists>sv1 w1 d1 ino. serve_request conn req sv w = Some (sv1, w1) \<and> answered_new conn req d1 path ino w w1 \<and>
     ofds w1 d1 = \<lparr>of_ino = ino, of_off = 0, of_acc = O_RDWR\<rparr> \<and>
     sv_stats sv1 = (sv_stats sv)\<lparr>st_puts := st_puts (sv_stats sv) + 1\<rparr> \<and>
     (\<forall>i x t re te. let w1' = w1\<lparr>inodes := i, rx := x, tx := t, rx_ev := re, tx_ev := te\<rparr> in
        link_calm w1' \<longrightarrow> (\<exists>sv2 w2 d2. serve_request conn2 req2 sv1 w1' = Some (sv2, w2) \<and>
          answered conn2 req2 d2 w1' w2 \<and> ofds w2 d2 = \<lparr>of_ino = ino, of_off = 0, of_acc = O_RDWR\<rparr>))"
proof -
  obtain sv1 w1 a d1 ino where p: "serve_request conn req sv w = Some (sv1, w1)" "answered_new conn req d1 path ino w w1"
    "ofds w1 d1 = \<lparr>of_ino = ino, of_off = 0, of_acc = O_RDWR\<rparr>" "object_at (sv_mgr sv1) w1 u a 2 path ino" "no_faults w1"
    "sv_stats sv1 = (sv_stats sv)\<lparr>st_puts := st_puts (sv_stats sv) + 1\<rparr>"
    using serve_missing [OF assms(1-4)] .
  have "\<exists>sv2 w2 d2. serve_request conn2 req2 sv1 (w1\<lparr>inodes := i, rx := x, tx := t, rx_ev := re, tx_ev := te\<rparr>) = Some (sv2, w2) \<and>
      answered conn2 req2 d2 (w1\<lparr>inodes := i, rx := x, tx := t, rx_ev := re, tx_ev := te\<rparr>) w2 \<and>
      ofds w2 d2 = \<lparr>of_ino = ino, of_off = 0, of_acc = O_RDWR\<rparr>"
    if "link_calm (w1\<lparr>inodes := i, rx := x, tx := t, rx_ev := re, tx_ev := te\<rparr>)" (is "link_calm ?w") for i x t re te
  proof -
    have "object_at (sv_mgr sv1) ?w u a 2 path ino" "1 \<le> (2::int)" "no_faults ?w" using p(4,5) by (simp_all add: no_faults_def)
    from serve_reached [OF this that assms(5)] show ?thesis by blast
  qed
  with p(1-3,6) show ?thesis unfolding Let_def by blast
qed

lemma sample_can_create:
  "can_create (put_request (get_request ''/b'')) (sv_mgr sample_server) ''/m/b'' sample_world"
proof -
  let ?req = "put_request (get_request ''/b'')"
  have u: "or_uri ?req = ''/b''" by (simp add: put_request_def get_request_def req_uri_def c_str_def)
  have "create_target ?req (sample_mgr 0) = Some (0, sample_backend 0 ''/m'' 0)"
    by (simp add: create_target_def sample_get put_request_def get_request_def sample_mgr_def [THEN arg_cong, of m_default_backend_id])
      (simp add: sample_backend_def new_backend_def flag_set_def)
  moreover have "creatable ''/m/b'' sample_world"
    by (auto simp: creatable_def dirname_def no_file_on_way_def less_Suc_eq)
  moreover have "b_mount_path (sample_backend 0 ''/m'' 0) = Some ''/m''"
    by (simp add: sample_backend_def new_backend_def)
  ultimately show ?thesis unfolding can_create_def u
    using one_rep sample_bi by (fastforce simp: sample_server_def)
qed

theorem server_put_then_get_witness:
  "\<exists>sv1 w1 d1 ino. serve_request (sample_conn OBJM_PROTO_V1 True) (get_request ''/b'') sample_server sample_world = Some (sv1, w1) \<and>
     of_ino (ofds w1 d1) = ino \<and>
     (\<exists>sv2 w2 d2. serve_request (sample_conn OBJM_PROTO_V1 True) (get_request ''/b'') sv1
         (w1\<lparr>inodes := (inodes w1)(ino := [1, 2, 3]), rx := [], tx := [], rx_ev := [], tx_ev := []\<rparr>) = Some (sv2, w2) \<and>
        inodes w2 (of_ino (ofds w2 d2)) = [1, 2, 3])"
proof -
  let ?c = "sample_conn OBJM_PROTO_V1 True" and ?r = "get_request ''/b''"
  obtain sv1 w1 d1 ino where p: "serve_request ?c ?r sample_server sample_world = Some (sv1, w1)"
    "ofds w1 d1 = \<lparr>of_ino = ino, of_off = 0, of_acc = O_RDWR\<rparr>"
    "\<forall>i x t re te. let w1' = w1\<lparr>inodes := i, rx := x, tx := t, rx_ev := re, tx_ev := te\<rparr> in
        link_calm w1' \<longrightarrow> (\<exists>sv2 w2 d2. serve_request ?c ?r sv1 w1' = Some (sv2, w2) \<and>
          answered ?c ?r d2 w1' w2 \<and> ofds w2 d2 = \<lparr>of_ino = ino, of_off = 0, of_acc = O_RDWR\<rparr>)"
    using server_put_then_get [OF sample_can_create sample_no_faults sample_calm(1) sample_fd_request(2) sample_fd_request(2)] by blast
  let ?w = "w1\<lparr>inodes := (inodes w1)(ino := [1, 2, 3]), rx := [], tx := [], rx_ev := [], tx_ev := []\<rparr>"
  have "link_calm ?w" by (simp add: link_calm_def link_ok_def)
  with p(3) [THEN spec, of "(inodes w1)(ino := [1, 2, 3])", THEN spec, of "[]", THEN spec, of "[]", THEN spec, of "[]", THEN spec, of "[]"] obtain sv2 w2 d2 where
    "serve_request ?c ?r sv1 ?w = Some (sv2, w2)" "answered ?c ?r d2 ?w w2" "ofds w2 d2 = \<lparr>of_ino = ino, of_off = 0, of_acc = O_RDWR\<rparr>"
    unfolding Let_def by blast
  then have "serve_request ?c ?r sv1 ?w = Some (sv2, w2)" "inodes w2 (of_ino (ofds w2 d2)) = [1, 2, 3]"
    by (simp_all add: answered_def)
  with p(1,2) show ?thesis
    by (intro exI [of _ sv1] exI [of _ w1] exI [of _ d1] exI [of _ ino]) auto
qed

section \<open>Objects without a file\<close>

lemma get_without_file:
  assumes "finds (m_global_index mgr) (heap w) u a" "heap w a = Some e" "ie_backend_path e = Some path" "dir w path = None"
  obtains mgr' f e' where "backend_get_object u mgr w =
      Some (Some \<lparr>fr_entry = Some a, fr_fd = -1, fr_generation = 0\<rparr>, mgr', w\<lparr>faults := f, heap := (heap w)(a \<mapsto> e')\<rparr>)"
    "finds (m_global_index mgr') ((heap w)(a \<mapsto> e')) u a" "ie_backend_path e' = Some path"
    "ie_entry_refcount e' = ie_entry_refcount e + 1"
proof -
  obtain p q where pq: "bucket_at (gi_buckets (m_global_index mgr)) (bucket_of (gi_num_buckets (m_global_index mgr)) (index_hash_string u)) = Some p"
    "chain_locate (heap w) (index_hash_string u) u None p = Some (Some (q, a))" using assms(1) unfolding finds_def by blast
  let ?w0 = "w\<lparr>heap := (heap w)(a \<mapsto> e\<lparr>ie_entry_refcount := ie_entry_refcount e + 1\<rparr>)\<rparr>"
  obtain b s1 where b: "fault ?w0 = (b, s1)" by (cases "fault ?w0")
  then obtain f1 where f1: "s1 = ?w0\<lparr>faults := f1\<rparr>" by (rule fault_frame)
  obtain c s2 where c: "fault s1 = (c, s2)" by (cases "fault s1")
  then obtain f2 where f2: "s2 = s1\<lparr>faults := f2\<rparr>" by (rule fault_frame)
  have o: "open_for_lookup (Some path) ?w0 = (-1, ?w0\<lparr>faults := f2\<rparr>)"
    using b c f1 f2 assms(4) by (simp add: open_for_lookup_def sys_open_def)
  let ?e = "(touched e (-1) (clock w))\<lparr>ie_access_count := ie_access_count e + 1 + 1, ie_last_access := clock w\<rparr>"
  have "\<exists>mgr'. backend_get_object u mgr w =
        Some (Some \<lparr>fr_entry = Some a, fr_fd = -1, fr_generation = 0\<rparr>, mgr', w\<lparr>faults := f2, heap := (heap w)(a \<mapsto> ?e)\<rparr>) \<and>
      gi_buckets (m_global_index mgr') = gi_buckets (m_global_index mgr) \<and>
      gi_num_buckets (m_global_index mgr') = gi_num_buckets (m_global_index mgr)"
    using pq assms(2,3) o
    by (simp add: backend_get_object_def manager_lookup_def global_index_lookup_def index_entry_get_def
        index_entry_record_access_def upd_entry_def touched_def Let_def split: option.split)
  then obtain mgr' where g: "backend_get_object u mgr w =
        Some (Some \<lparr>fr_entry = Some a, fr_fd = -1, fr_generation = 0\<rparr>, mgr', w\<lparr>faults := f2, heap := (heap w)(a \<mapsto> ?e)\<rparr>)"
      "gi_buckets (m_global_index mgr') = gi_buckets (m_global_index mgr)"
      "gi_num_buckets (m_global_index mgr') = gi_num_buckets (m_global_index mgr)" by blast
  have "same_links (heap w) ((heap w)(a \<mapsto> ?e)) UNIV" using assms(2) by (auto simp: same_links_def)
  with g(2,3) assms(1) have "finds (m_global_index mgr') ((heap w)(a \<mapsto> ?e)) u a" by (blast intro: finds_same)
  with g(1) assms(3) show ?thesis by (intro that [of mgr' ?e f2]) simp_all
qed

text \<open>The header of an answer that promises a descriptor, without one.\<close>

definition bare_answer :: "objm_connection \<Rightarrow> objm_request \<Rightarrow> item list" where
  "bare_answer conn req = map Plain (response_header (c_version conn) (ok_response (rq_id req) (-1) 0))"

lemma serve_without_file:
  assumes "finds (m_global_index (sv_mgr sv)) (heap w) u a" "heap w a = Some e" "1 \<le> ie_entry_refcount e"
    and "ie_backend_path e = Some path" "dir w path = None" "link_calm w" "fd_request conn req u"
  obtains sv' w' where "serve_request conn req sv w = Some (sv', w')" "tx w' = tx w @ bare_answer conn req"
    "sv_stats sv' = (sv_stats sv)\<lparr>st_gets := st_gets (sv_stats sv) + 1\<rparr>"
proof -
  note rq = assms(7) [unfolded fd_request_def plain_uri_def]
  let ?r = "\<lparr>fr_entry = Some a, fr_fd = -1, fr_generation = 0\<rparr>" and ?none = "\<lparr>fr_entry = None, fr_fd = -1, fr_generation = 0\<rparr>"
  obtain m1 f1 e1 where 1: "backend_get_object u (sv_mgr sv) w = Some (Some ?r, m1, w\<lparr>faults := f1, heap := (heap w)(a \<mapsto> e1)\<rparr>)"
    "finds (m_global_index m1) ((heap w)(a \<mapsto> e1)) u a" "ie_backend_path e1 = Some path" "ie_entry_refcount e1 = ie_entry_refcount e + 1"
    using get_without_file [OF assms(1,2,4,5)] .
  let ?e2 = "e1\<lparr>ie_entry_refcount := ie_entry_refcount e1 - 1\<rparr>"
  let ?w2 = "w\<lparr>faults := f1, heap := (heap w)(a \<mapsto> ?e2)\<rparr>"
  have 2: "fd_ref_release ?r (w\<lparr>faults := f1, heap := (heap w)(a \<mapsto> e1)\<rparr>) = Some (?none, ?w2)"
    using release_ref [of "w\<lparr>faults := f1, heap := (heap w)(a \<mapsto> e1)\<rparr>" a e1 ?r] 1(4) assms(3) by simp
  have "same_links ((heap w)(a \<mapsto> e1)) (heap ?w2) UNIV" by (auto simp: same_links_def)
  then have "finds (m_global_index m1) (heap ?w2) u a" using finds_same [OF 1(2)] by simp
  moreover have "heap ?w2 a = Some ?e2" "ie_backend_path ?e2 = Some path" "dir ?w2 path = None" using 1(3) assms(5) by simp_all
  ultimately obtain m3 f3 e3 where
    3: "backend_get_object u m1 ?w2 = Some (Some ?r, m3, ?w2\<lparr>faults := f3, heap := (heap ?w2)(a \<mapsto> e3)\<rparr>)"
      "ie_entry_refcount e3 = ie_entry_refcount ?e2 + 1" by (rule get_without_file)
  let ?w3 = "w\<lparr>faults := f3, heap := (heap w)(a \<mapsto> e3)\<rparr>" and ?h = "response_header (c_version conn) (ok_response (rq_id req) (-1) 0)"
  have "link_ok ?w3" using assms(6) by (simp add: link_calm_def link_ok_def)
  then obtain ev where s: "send_all ?h ?w3 = (True, ?w3\<lparr>tx := tx ?w3 @ map Plain ?h, tx_ev := ev\<rparr>)" using send_all_ok by blast
  let ?w4 = "?w3\<lparr>tx := tx w @ map Plain ?h, tx_ev := ev\<rparr>"
  have 4: "objm_server_send_response conn (ok_response (rq_id req) (-1) 0) ?w3 = (True, ?w4)"
    using s by (simp add: objm_server_send_response_def ok_response_def)
  obtain w5 where 5: "fd_ref_release ?r ?w4 = Some (?none, w5)" "tx w5 = tx ?w4"
    using release_ref [of ?w4 a e3 ?r] 1(4) 3(2) assms(3) by simp
  let ?sv = "upd_stats (\<lambda>s. s\<lparr>st_gets := st_gets s + 1\<rparr>) (sv\<lparr>sv_mgr := m3\<rparr>)"
  have "serve_request conn req sv w = Some (?sv, w5)"
    using 1(1) 2 3(1) 4 5(1) rq by (simp add: serve_request_def handle_get_def)
  with 5(2) show ?thesis by (intro that [of ?sv w5]) (simp_all add: bare_answer_def upd_stats_def)
qed

lemma client_misreads:
  assumes "rx sc = bare_answer conn req @ Plain b # rest" "c_version cc = c_version conn" "link_calm sc" "no_faults sc"
    "c_version conn = OBJM_PROTO_V1 \<longrightarrow> rq_id req = 0"
  obtains cc' sc' where "objm_client_recv_response cc sc = (None, cc', sc')" "rx sc' = rest"
proof -
  let ?r = "ok_response (rq_id req) 0 0" and ?s = "os_init\<lparr>fds := [Some 0]\<rparr>"
  have v: "valid_response (c_version cc) ?s ?r" using assms(2,5) by (simp add: valid_response_def ok_response_def fd_obj_def)
  obtain t where f: "fault sc = (False, sc\<lparr>faults := t\<rparr>)" "True \<notin> set t" using no_faults_fault [OF assms(4)] .
  have ok: "link_ok (sc\<lparr>faults := t\<rparr>)" "Intr \<notin> set (rx_ev sc)" "Fail \<notin> set (rx_ev sc)"
    using assms(3) by (simp_all add: link_calm_def link_ok_def)
  have i: "rx (sc\<lparr>faults := t\<rparr>) = map Plain (response_header (c_version cc) ?r) @ Plain b # rest"
    using assms(1,2) by (simp add: bare_answer_def response_header_def ok_response_def)
  obtain s1 where h: "recv_response_header cc (sc\<lparr>faults := t\<rparr>) = (Some (?r\<lparr>rs_fd := -1, rs_metadata := None\<rparr>), cc, s1)"
    "rx s1 = Plain b # rest" "set (rx_ev s1) \<subseteq> set (rx_ev (sc\<lparr>faults := t\<rparr>))"
    using recv_response_header_ok [OF v ok(1) i] by blast
  have "\<not> (rx_ev s1 \<noteq> [] \<and> (hd (rx_ev s1) = Intr \<or> hd (rx_ev s1) = Fail))"
    using h(3) ok(2,3) by (cases "rx_ev s1") auto
  then have "\<exists>s2. recv_fd s1 = (-1, s2) \<and> rx s2 = rest"
    using h(2) by (auto simp: recv_fd_def sock_recvmsg_fd_def Let_def)
  then obtain s2 where "recv_fd s1 = (-1, s2)" "rx s2 = rest" by blast
  with f(1) h(1) show ?thesis
    by (intro that [of "set_error ''Failed to receive file descriptor'' cc" s2])
       (simp_all add: objm_client_recv_response_def recv_response_metadata_def recv_response_fd_def ok_response_def)
qed

text \<open>
  C35: An object whose file is gone (removed by another process, say) is served as if it were
  there: the server counts a get and answers OK, which promises a descriptor, but sends none.
  The client takes the first byte of the next answer for the missing descriptor: it reports
  a failure, and the stream that is left begins in the middle of a message.
\<close>

theorem server_ok_without_descriptor:
  fixes w :: "'a world_scheme" and sc :: "'b os_scheme"
  assumes "gi_rep (m_global_index (sv_mgr sv)) (heap w) m" "m u = Some a" "heap w a = Some e" "1 \<le> ie_entry_refcount e"
    and "ie_backend_path e = Some path" "dir w path = None" "link_calm w" "fd_request conn req u"
    and "c_version cc = c_version conn" "link_calm sc" "no_faults sc"
    and "rx sc = drop (length (tx w)) (tx (snd (the (serve_request conn req sv w)))) @ map Plain (b # bs)"
  shows "\<exists>sv' w' cc' sc'. serve_request conn req sv w = Some (sv', w') \<and>
     st_gets (sv_stats sv') = st_gets (sv_stats sv) + 1 \<and> st_errors (sv_stats sv') = st_errors (sv_stats sv) \<and>
     objm_client_recv_response cc sc = (None, cc', sc') \<and> rx sc' = map Plain bs"
proof -
  obtain sv' w' where s: "serve_request conn req sv w = Some (sv', w')" "tx w' = tx w @ bare_answer conn req"
    "sv_stats sv' = (sv_stats sv)\<lparr>st_gets := st_gets (sv_stats sv) + 1\<rparr>"
    using serve_without_file [OF finds_rep [OF assms(1,2)] assms(3-8)] .
  have "rx sc = bare_answer conn req @ Plain b # map Plain bs" using assms(12) s(1,2) by simp
  from client_misreads [OF this assms(9-11)] obtain cc' sc' where
    "objm_client_recv_response cc sc = (None, cc', sc')" "rx sc' = map Plain bs"
    using assms(8) unfolding fd_request_def by blast
  with s show ?thesis by auto
qed

theorem server_ok_without_descriptor_witness:
  "let conn = sample_conn OBJM_PROTO_V1 True; req = get_request ''/a''; w = sample_world\<lparr>dir := Map.empty\<rparr>;
       sc = os_init\<lparr>rx := drop (length (tx w)) (tx (snd (the (serve_request conn req sample_server w)))) @ map Plain [0, 1, 2]\<rparr>
   in \<exists>cc' sc'. objm_client_recv_response (sample_conn OBJM_PROTO_V1 False) sc = (None, cc', sc') \<and> rx sc' = map Plain [1, 2]"
proof -
  let ?conn = "sample_conn OBJM_PROTO_V1 True" and ?req = "get_request ''/a''" and ?w = "sample_world\<lparr>dir := Map.empty\<rparr>"
  let ?sc = "os_init\<lparr>rx := drop (length (tx ?w)) (tx (snd (the (serve_request ?conn ?req sample_server ?w)))) @ map Plain [0, 1, 2]\<rparr>"
  have "gi_rep (m_global_index (sv_mgr sample_server)) (heap ?w) [''/a'' \<mapsto> 0]"
    using one_rep by (simp add: sample_server_def)
  moreover have "link_calm ?w" using sample_calm(1) by (simp add: link_calm_def link_ok_def)
  moreover have "c_version (sample_conn OBJM_PROTO_V1 False) = c_version ?conn" by (simp add: sample_conn_def)
  ultimately have "\<exists>sv' w' cc' sc'. serve_request ?conn ?req sample_server ?w = Some (sv', w') \<and>
     st_gets (sv_stats sv') = st_gets (sv_stats sample_server) + 1 \<and> st_errors (sv_stats sv') = st_errors (sv_stats sample_server) \<and>
     objm_client_recv_response (sample_conn OBJM_PROTO_V1 False) ?sc = (None, cc', sc') \<and> rx sc' = map Plain [1, 2]"
    by (intro server_ok_without_descriptor [where m = "[''/a'' \<mapsto> 0]" and u = "''/a''" and a = 0 and e = blank_entry and path = "''/m/a''" and b = 0])
       (simp_all add: blank_entry_def sample_calm sample_fd_request)
  then show ?thesis unfolding Let_def by blast
qed

section \<open>Accounting\<close>

text \<open>How often a request was settled, as a get, a put, a deletion or an error.\<close>

definition settled :: "server_stats \<Rightarrow> u64" where
  "settled s = st_gets s + st_puts s + st_deletes s + st_errors s"

definition counts :: "u64 \<Rightarrow> server \<Rightarrow> server \<Rightarrow> bool" where
  "counts n sv sv' \<longleftrightarrow> settled (sv_stats sv') = settled (sv_stats sv) + n \<and>
     st_requests_total (sv_stats sv') = st_requests_total (sv_stats sv) \<and>
     st_active_connections (sv_stats sv') = st_active_connections (sv_stats sv)"

lemma handlers_count:
  "handle_get conn req sv w = Some (ok, sv', w') \<Longrightarrow> counts (if ok then 1 else 0) sv sv'"
  "handle_put conn req sv w = Some (ok, sv', w') \<Longrightarrow> counts (if ok then 1 else 0) sv sv'"
  "handle_delete conn req uri sv w = Some (ok, sv', w') \<Longrightarrow> counts (if ok then 1 else 0) sv sv'"
  "handle_list conn req sv w = Some (ok, sv', w') \<Longrightarrow> counts (if ok then 1 else 0) sv sv'"
  by (auto simp: handle_get_def handle_put_def handle_delete_def handle_list_def counts_def settled_def upd_stats_def Let_def
      split: run_splits elim!: bind_SomeE)

lemma counts_mgr [simp]: "counts n (sv\<lparr>sv_mgr := m\<rparr>) sv' = counts n sv sv'"
  by (simp add: counts_def)

lemma counts_error [simp]: "counts 1 sv (upd_stats (\<lambda>s. s\<lparr>st_errors := st_errors s + 1\<rparr>) x) = counts 0 sv x"
proof -
  have "settled (s\<lparr>st_errors := st_errors s + 1\<rparr>) = settled s + 1" for s by (simp add: settled_def)
  then show ?thesis by (simp add: counts_def upd_stats_def)
qed

lemma serve_counts: "serve_request conn req sv w = Some (sv', w') \<Longrightarrow> counts 1 sv sv'"
  by (auto simp: serve_request_def Let_def split: run_splits elim!: bind_SomeE dest!: handlers_count)

text \<open>The surplus of settled requests over counted ones.\<close>

definition surplus :: "server \<Rightarrow> u64" where
  "surplus sv = settled (sv_stats sv) - st_requests_total (sv_stats sv)"

lemma round_surplus:
  assumes "serve_request conn req (upd_stats (\<lambda>s. s\<lparr>st_requests_total := st_requests_total s + 1\<rparr>) sv) w = Some (sv', w')"
  shows "surplus sv' = surplus sv \<and> st_active_connections (sv_stats sv') = st_active_connections (sv_stats sv)"
proof -
  have "settled (s\<lparr>st_requests_total := n\<rparr>) = settled s" for s n by (simp add: settled_def)
  with serve_counts [OF assms] show ?thesis by (simp add: counts_def surplus_def upd_stats_def)
qed

lemma loop_accounts:
  assumes "client_loop running n version conn sv w = Some res"
  shows "st_active_connections (sv_stats (fst res)) = st_active_connections (sv_stats sv) \<and>
    (surplus (fst res) = surplus sv \<or> (surplus (fst res) = surplus sv + 1 \<and> version \<noteq> OBJM_PROTO_V1))"
  using assms
proof (rule client_loop.raw_induct [rotated])
  have err: "surplus (upd_stats (\<lambda>s. s\<lparr>st_errors := st_errors s + 1\<rparr>) sv) = surplus sv + 1" for sv
    by (simp add: surplus_def settled_def upd_stats_def)
  fix f :: "(nat \<Rightarrow> bool) \<Rightarrow> nat \<Rightarrow> objm_version \<Rightarrow> objm_connection \<Rightarrow> server \<Rightarrow> 'a world_scheme \<Rightarrow> (server \<times> 'a world_scheme) option"
    and running n version conn sv w res
  assume ih: "\<And>running n version conn sv w res. f running n version conn sv w = Some res \<Longrightarrow>
      st_active_connections (sv_stats (fst res)) = st_active_connections (sv_stats sv) \<and>
      (surplus (fst res) = surplus sv \<or> (surplus (fst res) = surplus sv + 1 \<and> version \<noteq> OBJM_PROTO_V1))"
  assume eq: "(if \<not> running n then Some (sv, w)
      else case objm_server_recv_request conn w of
             (RecvRequest req, conn, w) \<Rightarrow>
               (case serve_request conn req
                       (upd_stats (\<lambda>s. s\<lparr>st_requests_total := st_requests_total s + 1\<rparr>) sv) w of
                  None \<Rightarrow> None
                | Some (sv, w) \<Rightarrow> f running (Suc n) version conn sv w)
           | (RecvClose, conn, w) \<Rightarrow> Some (sv, w)
           | (RecvError, conn, w) \<Rightarrow>
               Some (if version = OBJM_PROTO_V1 then sv else upd_stats (\<lambda>s. s\<lparr>st_errors := st_errors s + 1\<rparr>) sv, w)) = Some res"
  show "st_active_connections (sv_stats (fst res)) = st_active_connections (sv_stats sv) \<and>
      (surplus (fst res) = surplus sv \<or> (surplus (fst res) = surplus sv + 1 \<and> version \<noteq> OBJM_PROTO_V1))"
    using eq by (auto simp: err dest!: ih round_surplus split: if_splits prod.splits recv_request_result.splits option.splits)
       (simp_all add: upd_stats_def)
qed

lemma thread_accounts:
  assumes "client_thread running client_fd sv w = Some (sv', w')"
  shows "st_active_connections (sv_stats sv') = st_active_connections (sv_stats sv) \<and>
    (settled (sv_stats sv') - settled (sv_stats sv) =
       st_requests_total (sv_stats sv') - st_requests_total (sv_stats sv) \<or>
     settled (sv_stats sv') - settled (sv_stats sv) =
       st_requests_total (sv_stats sv') - st_requests_total (sv_stats sv) + 1)"
proof -
  let ?sv = "upd_stats (\<lambda>s. s\<lparr>st_active_connections := st_active_connections s + 1\<rparr>) sv"
  let ?leave = "upd_stats (\<lambda>s. s\<lparr>st_active_connections := st_active_connections s - 1\<rparr>)"
  have st: "settled (s\<lparr>st_active_connections := n\<rparr>) = settled s" for s n by (simp add: settled_def)
  have "\<exists>x. sv' = ?leave x \<and> st_active_connections (sv_stats x) = st_active_connections (sv_stats ?sv) \<and>
      (surplus x = surplus ?sv \<or> surplus x = surplus ?sv + 1)"
    using assms unfolding client_thread_def Let_def
    by (auto split: run_splits elim!: bind_SomeE dest!: loop_accounts)
  then obtain x where x: "sv' = ?leave x" "st_active_connections (sv_stats x) = st_active_connections (sv_stats ?sv)"
    "surplus x = surplus ?sv \<or> surplus x = surplus ?sv + 1" by blast
  have "settled (sv_stats sv') = settled (sv_stats x)" "st_requests_total (sv_stats sv') = st_requests_total (sv_stats x)"
    "st_active_connections (sv_stats sv') = st_active_connections (sv_stats sv)"
    using x(1,2) by (simp_all add: upd_stats_def st)
  with x(3) show ?thesis by (auto simp: surplus_def upd_stats_def st algebra_simps)
qed

end
