(* ===== verification/Server_Frame.thy ===== *)
theory Server_Frame
  imports Server_Laws
begin

text \<open>
  What every system call of the server keeps, serving a request keeps: the calls that the server
  makes, through index, backends and protocol, are the assumptions of a locale over a property
  of the process state, and the lemmas carry it through the operations up to a whole request.
\<close>

locale call_invariant =
  fixes P :: "'a world_scheme \<Rightarrow> bool"
  assumes stays_fault: "fault w = (b, w') \<Longrightarrow> P w \<longrightarrow> P w'"
    and stays_heap: "P (w\<lparr>heap := h\<rparr>) = P w"
    and stays_next_addr: "P (w\<lparr>next_addr := n\<rparr>) = P w"
    and stays_close: "P w \<Longrightarrow> P (sys_close fd w)"
    and stays_unlink: "P w \<Longrightarrow> P (sys_unlink p w)"
    and stays_open: "sys_open acc p w = (fd, w') \<Longrightarrow> P w \<longrightarrow> P w'"
    and stays_creat: "sys_open_creat acc p w = (fd, w') \<Longrightarrow> P w \<longrightarrow> P w'"
    and stays_mkdir: "sys_mkdir p w = (r, w') \<Longrightarrow> P w \<longrightarrow> P w'"
    and stays_send_all: "send_all buf w = (ok, w') \<Longrightarrow> P w \<longrightarrow> P w'"
    and stays_send_fd: "send_fd fd w = (ok, w') \<Longrightarrow> P w \<longrightarrow> P w'"
begin

lemma stays_unlink_path: "P w \<Longrightarrow> P (unlink_path p w)"
  by (simp add: unlink_path_def stays_unlink split: option.split)

lemmas stays_simps = stays_heap stays_next_addr stays_close stays_unlink stays_unlink_path

lemma stays_prefixes: "mkdir_prefixes tmp is w = (r, w') \<Longrightarrow> P w \<longrightarrow> P w'"
proof (induction tmp "is" w rule: mkdir_prefixes.induct)
  case (2 tmp i "is" w)
  obtain x t where "sys_mkdir (take i tmp) w = (x, t)" by (cases "sys_mkdir (take i tmp) w")
  with 2 stays_mkdir [OF this] show ?case by (cases x) (auto split: if_splits)
qed simp

lemma stays_mkdir_p: "mkdir_p p w = Some (r, w') \<Longrightarrow> P w \<longrightarrow> P w'"
  by (auto simp: stays_simps mkdir_p_def Let_def dest!: stays_prefixes stays_mkdir split: run_splits mkdir_result.splits)

lemma stays_backing: "create_backing_file p w = Some (fd, w') \<Longrightarrow> P w \<longrightarrow> P w'"
  by (auto simp: stays_simps create_backing_file_def dest!: stays_mkdir_p stays_creat split: run_splits elim!: bind_SomeE)

lemma stays_upd_entry: "upd_entry a f w = Some w' \<Longrightarrow> P w \<longrightarrow> P w'"
  by (auto simp: stays_simps upd_entry_iff)

lemma stays_open_for_lookup: "open_for_lookup p w = (fd, w') \<Longrightarrow> P w \<longrightarrow> P w'"
  by (auto simp: stays_simps open_for_lookup_def Let_def dest!: stays_open split: run_splits)

lemma stays_entry_put: "index_entry_put a w = Some w' \<Longrightarrow> P w \<longrightarrow> P w'"
  by (auto simp: stays_simps index_entry_put_def Let_def dest!: stays_upd_entry split: run_splits)

lemma stays_entry_get: "index_entry_get a w = Some w' \<Longrightarrow> P w \<longrightarrow> P w'"
  by (auto simp: stays_simps index_entry_get_def dest!: stays_upd_entry)

lemma stays_record_access: "index_entry_record_access a w = Some w' \<Longrightarrow> P w \<longrightarrow> P w'"
  by (auto simp: stays_simps index_entry_record_access_def dest!: stays_upd_entry)

lemma stays_entry_create: "index_entry_create u i p w = (r, w') \<Longrightarrow> P w \<longrightarrow> P w'"
  by (auto simp: stays_simps index_entry_create_def Let_def dest!: stays_fault split: run_splits)

lemma stays_store_next: "store_next b prev nxt bs w = Some (bs', w') \<Longrightarrow> P w \<longrightarrow> P w'"
  by (auto simp: stays_simps store_next_def dest!: stays_upd_entry split: run_splits elim!: bind_SomeE)

lemmas stays_entry_laws = stays_fault stays_upd_entry stays_open_for_lookup stays_entry_put stays_entry_get
  stays_record_access stays_entry_create stays_store_next stays_backing

lemma stays_release: "fd_ref_release r w = Some (r', w') \<Longrightarrow> P w \<longrightarrow> P w'"
  by (auto simp: stays_simps fd_ref_release_def dest!: stays_entry_laws split: run_splits elim!: bind_SomeE)

lemma stays_index_ops:
  "global_index_lookup idx u w = Some (r, idx', w') \<Longrightarrow> P w \<longrightarrow> P w'"
  "global_index_insert idx a w = Some (ok, idx', w') \<Longrightarrow> P w \<longrightarrow> P w'"
  "global_index_remove idx u w = Some (ok, idx', w') \<Longrightarrow> P w \<longrightarrow> P w'"
  "backend_index_insert bidx a w = Some (bidx', w') \<Longrightarrow> P w \<longrightarrow> P w'"
  "backend_index_remove bidx u w = Some (ok, bidx', w') \<Longrightarrow> P w \<longrightarrow> P w'"
  by (auto simp: stays_simps global_index_lookup_def global_index_insert_def global_index_remove_def
      backend_index_insert_def backend_index_remove_def Let_def dest!: stays_entry_laws split: run_splits elim!: bind_SomeE)

lemmas stays_index_laws = stays_entry_laws stays_release stays_index_ops

lemma stays_get_object: "backend_get_object u mgr w = Some (r, mgr', w') \<Longrightarrow> P w \<longrightarrow> P w'"
  by (auto simp: stays_simps backend_get_object_def manager_lookup_def Let_def dest!: stays_index_laws split: run_splits elim!: bind_SomeE)

lemma stays_delete_object: "backend_delete_object u mgr w = Some (r, mgr', w') \<Longrightarrow> P w \<longrightarrow> P w'"
  by (auto simp: stays_simps backend_delete_object_def manager_lookup_def release_with_def Let_def dest!: stays_index_laws
      split: run_splits elim!: bind_SomeE)

lemma stays_create_object: "backend_create_object req mgr w = Some (r, mgr', w') \<Longrightarrow> P w \<longrightarrow> P w'"
  by (auto simp: stays_simps backend_create_object_def Let_def dest!: stays_index_laws split: run_splits elim!: bind_SomeE)

lemma stays_send_response: "objm_server_send_response conn resp w = (r, w') \<Longrightarrow> P w \<longrightarrow> P w'"
  by (auto simp: stays_simps objm_server_send_response_def dest!: stays_send_all stays_send_fd split: run_splits)

lemma stays_send_error: "objm_server_send_error conn i st msg w = Some (r, w') \<Longrightarrow> P w \<longrightarrow> P w'"
  by (auto simp: stays_simps objm_server_send_error_def objm_metadata_create_def Let_def dest!: stays_fault stays_send_response
      split: run_splits elim!: bind_SomeE)

lemmas stays_laws = stays_release stays_get_object stays_delete_object stays_create_object stays_send_response stays_send_error

lemma stays_handlers:
  "handle_get conn req sv w = Some (ok, sv', w') \<Longrightarrow> P w \<longrightarrow> P w'"
  "handle_put conn req sv w = Some (ok, sv', w') \<Longrightarrow> P w \<longrightarrow> P w'"
  "handle_delete conn req uri sv w = Some (ok, sv', w') \<Longrightarrow> P w \<longrightarrow> P w'"
  "handle_list conn req sv w = Some (ok, sv', w') \<Longrightarrow> P w \<longrightarrow> P w'"
  by (auto simp: stays_simps handle_get_def handle_put_def handle_delete_def handle_list_def Let_def
      dest!: stays_laws split: run_splits elim!: bind_SomeE)

lemma stays_serve: "serve_request conn req sv w = Some (sv', w') \<Longrightarrow> P w \<longrightarrow> P w'"
  by (auto simp: stays_simps serve_request_def strdup_def Let_def dest!: stays_handlers stays_fault stays_get_object stays_release
      split: run_splits elim!: bind_SomeE)

end

end
