(* ===== verification/Server_Ends.thy ===== *)
theory Server_Ends
  imports Server_Props Server_Frame
begin

text \<open>
  The thread of a connection ends. No operation of the server but the receiving of a request
  touches the bytes that are still to be read, and every request takes at least three of
  them, so that the loop is bounded by the stream. The only way not to return is undefined
  behaviour in a handler.
\<close>

section \<open>The input is left alone\<close>

lemma rx_fault: "fault s = (b, s') \<Longrightarrow> rx s' = rx s"
  by (auto elim!: fault_frame)

lemma rx_mkdir: "sys_mkdir p s = (r, s') \<Longrightarrow> rx s' = rx s"
  using same_socket_mkdir by (fastforce simp: same_socket_def)

lemma rx_creat: "sys_open_creat acc p s = (fd, s') \<Longrightarrow> rx s' = rx s"
  using same_socket_creat by (fastforce simp: same_socket_def)

lemma rx_unlink: "rx (sys_unlink p w) = rx w"
  by (auto simp: sys_unlink_def Let_def split: prod.split dest: rx_fault)

lemma rx_open: "sys_open acc p s = (fd, s') \<Longrightarrow> rx s' = rx s"
  by (auto elim!: sys_open_frame)

lemma rx_send_all: "send_all buf s = (r, s') \<Longrightarrow> rx s' = rx s"
  by (drule send_all_shape) auto

lemma rx_send_fd: "send_fd fd s = (r, s') \<Longrightarrow> rx s' = rx s"
  by (auto simp: send_fd_def sock_sendmsg_fd_def Let_def split: run_splits)

interpretation rx_kept: call_invariant "\<lambda>w. rx w = x" for x
  by unfold_locales (auto simp: rx_unlink sys_close_simps dest: rx_fault rx_open rx_creat rx_mkdir rx_send_all rx_send_fd)

lemma rx_serve: "serve_request conn req sv w = Some (sv', w') \<Longrightarrow> rx w' = rx w"
  using rx_kept.stays_serve by blast

lemma recv_uri_input: "recv_uri r conn s = (res, conn', s') \<Longrightarrow> length (rx s') \<le> length (rx s)"
  by (auto simp: recv_uri_def Let_def dest!: rx_fault recv_all_shape split: run_splits)

lemma recv_request_input:
  "objm_server_recv_request conn s = (RecvRequest req, conn', s') \<Longrightarrow> length (rx s') < length (rx s)"
  by (auto simp: objm_server_recv_request_def Let_def dest!: rx_fault recv_uri_input recv_all_shrinks split: run_splits)

section \<open>Rounds of the loop\<close>

abbreviation count_request :: "server \<Rightarrow> server" where
  "count_request \<equiv> upd_stats (\<lambda>s. s\<lparr>st_requests_total := st_requests_total s + 1\<rparr>)"

inductive client_round ::
    "objm_connection \<times> server \<times> 'a world_scheme \<Rightarrow> objm_connection \<times> server \<times> 'a world_scheme \<Rightarrow> bool" where
  "objm_server_recv_request conn w = (RecvRequest req, conn', w1) \<Longrightarrow>
   serve_request conn' req (count_request sv) w1 = Some (sv', w') \<Longrightarrow>
   client_round (conn, sv, w) (conn', sv', w')"

text \<open>No request of the connection runs into undefined behaviour.\<close>

definition serves_all :: "objm_connection \<Rightarrow> server \<Rightarrow> 'a world_scheme \<Rightarrow> bool" where
  "serves_all conn sv w \<longleftrightarrow>
     (\<forall>c s v req c' v'. client_round\<^sup>*\<^sup>* (conn, sv, w) (c, s, v) \<longrightarrow> objm_server_recv_request c v = (RecvRequest req, c', v') \<longrightarrow>
        serve_request c' req (count_request s) v' \<noteq> None)"

lemma serves_all_step:
  assumes "serves_all conn sv w" "objm_server_recv_request conn w = (RecvRequest req, conn', w1)"
  obtains sv' w' where "serve_request conn' req (count_request sv) w1 = Some (sv', w')" "serves_all conn' sv' w'"
    "length (rx w') < length (rx w)"
proof -
  have "serve_request conn' req (count_request sv) w1 \<noteq> None"
    using assms unfolding serves_all_def by blast
  then obtain sv' w' where s: "serve_request conn' req (count_request sv) w1 = Some (sv', w')" by auto
  have r: "client_round (conn, sv, w) (conn', sv', w')" using assms(2) s by (rule client_round.intros)
  have "serves_all conn' sv' w'"
    using assms(1) converse_rtranclp_into_rtranclp [where r = client_round, OF r] unfolding serves_all_def by blast
  moreover have "length (rx w') < length (rx w)" using recv_request_input [OF assms(2)] rx_serve [OF s] by simp
  ultimately show ?thesis using s that by blast
qed

lemma loop_ends: "serves_all conn sv w \<Longrightarrow> client_loop running n version conn sv w \<noteq> None"
proof (induction "length (rx w)" arbitrary: conn sv w n rule: less_induct)
  case less
  obtain res conn' w1 where r: "objm_server_recv_request conn w = (res, conn', w1)" by (cases "objm_server_recv_request conn w")
  show ?case
  proof (cases res)
    case (RecvRequest req)
    with serves_all_step [OF less.prems] r obtain sv' w' where
      "serve_request conn' req (count_request sv) w1 = Some (sv', w')" "serves_all conn' sv' w'" "length (rx w') < length (rx w)"
      by blast
    with r RecvRequest less.hyps show ?thesis by (subst client_loop.simps) simp
  qed (use r in \<open>subst client_loop.simps, simp\<close>)+
qed

section \<open>Connections that are served\<close>

lemma serves_allI:
  assumes "\<And>req c' v'. objm_server_recv_request conn w = (RecvRequest req, c', v') \<Longrightarrow>
    \<exists>sv' w'. serve_request c' req (count_request sv) v' = Some (sv', w') \<and> serves_all c' sv' w'"
  shows "serves_all conn sv w"
  unfolding serves_all_def
proof (intro allI impI)
  fix c s v req c' v'
  assume run: "client_round\<^sup>*\<^sup>* (conn, sv, w) (c, s, v)" and r: "objm_server_recv_request c v = (RecvRequest req, c', v')"
  from run show "serve_request c' req (count_request s) v' \<noteq> None"
  proof (cases rule: converse_rtranclpE)
    case base
    with assms r show ?thesis by fastforce
  next
    case (step y)
    then obtain q c1 v1 sv1 w1 where y: "objm_server_recv_request conn w = (RecvRequest q, c1, v1)"
      "serve_request c1 q (count_request sv) v1 = Some (sv1, w1)" "y = (c1, sv1, w1)" by (auto elim!: client_round.cases)
    with assms [OF y(1)] have "serves_all c1 sv1 w1" by auto
    with step(2) r show ?thesis unfolding serves_all_def y(3) by blast
  qed
qed

definition in_frame :: "'a os_scheme \<Rightarrow> 'a os_scheme \<Rightarrow> bool" where
  "in_frame s s' \<longleftrightarrow> (\<exists>f x v. s' = s\<lparr>faults := f, rx := x, rx_ev := v\<rparr> \<and> set v \<subseteq> set (rx_ev s))"

lemma in_frame_trans: "in_frame s s' \<Longrightarrow> in_frame s' s'' \<Longrightarrow> in_frame s s''"
  unfolding in_frame_def by (elim exE conjE, hypsubst) (auto intro!: exI)

lemma in_frame_refl: "in_frame s s"
proof -
  have "s = s\<lparr>faults := faults s, rx := rx s, rx_ev := rx_ev s\<rparr>" by simp
  then show ?thesis unfolding in_frame_def by blast
qed

lemma in_frame_fault: "fault s = (b, s') \<Longrightarrow> in_frame s s'"
proof (elim fault_frame)
  fix f assume "s' = s\<lparr>faults := f\<rparr>"
  then have "s' = s\<lparr>faults := f, rx := rx s, rx_ev := rx_ev s\<rparr>" by simp
  then show "in_frame s s'" unfolding in_frame_def by blast
qed

lemma in_frame_recv_all: "recv_all n s = (r, s') \<Longrightarrow> in_frame s s'"
proof (drule recv_all_shape, elim exE conjE)
  fix k ev assume "s' = s\<lparr>rx := drop k (rx s), rx_ev := ev\<rparr>" "set ev \<subseteq> set (rx_ev s)"
  then have "s' = s\<lparr>faults := faults s, rx := drop k (rx s), rx_ev := ev\<rparr>" "set ev \<subseteq> set (rx_ev s)" by simp_all
  then show "in_frame s s'" unfolding in_frame_def by blast
qed

lemma in_frame_recv_uri: "recv_uri r conn s = (res, conn', s') \<Longrightarrow> in_frame s s'"
  by (auto simp: recv_uri_def Let_def in_frame_refl dest!: in_frame_fault in_frame_recv_all
      intro: in_frame_trans split: run_splits)

lemma in_frame_recv_request: "objm_server_recv_request conn s = (res, conn', s') \<Longrightarrow> in_frame s s'"
  by (auto simp: objm_server_recv_request_def Let_def dest!: in_frame_fault in_frame_recv_all in_frame_recv_uri
      intro: in_frame_trans split: run_splits)

lemma in_frame_calm: "in_frame w w' \<Longrightarrow> link_calm w \<Longrightarrow> link_calm w'"
  unfolding in_frame_def by (auto simp: link_calm_def link_ok_def)

lemma in_frame_object: "in_frame w w' \<Longrightarrow> object_at mgr w' u a n path ino = object_at mgr w u a n path ino"
  unfolding in_frame_def object_at_def by auto

text \<open>A connection that ends after a request for an object that is there.\<close>

lemma serves_one_get:
  assumes "object_at (sv_mgr sv) w u a n path ino" "1 \<le> n" "no_faults w" "link_calm w" "fd_request conn req u"
    and "valid_request (c_version conn) req" "rx w = request_items (c_version conn) req"
  shows "serves_all conn sv w"
proof (rule serves_allI)
  have ok: "receiving (c_version conn) (conn, w)" using assms(3,4) by (simp add: receiving_def link_calm_def)
  obtain w1 where r: "objm_server_recv_request conn w = (RecvRequest req, conn, w1)" "rx w1 = []" "link_ok w1" "no_faults w1"
    using server_recv_request_ok [OF ok assms(6), of "[]"] assms(7) by auto
  note fr = in_frame_recv_request [OF r(1)]
  have "object_at (sv_mgr (count_request sv)) w1 u a n path ino"
    using in_frame_object [OF fr] assms(1) by (simp add: upd_stats_def)
  from serve_reached [OF this assms(2) r(4) in_frame_calm [OF fr assms(4)] assms(5)] obtain sv' w' where
    s: "serve_request conn req (count_request sv) w1 = Some (sv', w')" by blast
  have "rx w' = []" using rx_serve [OF s] r(2) by simp
  then have "serves_all conn sv' w'"
    by (intro serves_allI) (auto dest: recv_request_input)
  with s r(1) show "\<exists>sv' w'. serve_request c' q (count_request sv) v' = Some (sv', w') \<and> serves_all c' sv' w'"
    if "objm_server_recv_request conn w = (RecvRequest q, c', v')" for q c' v' using that by auto
qed

abbreviation enter :: "server \<Rightarrow> server" where
  "enter \<equiv> upd_stats (\<lambda>s. s\<lparr>st_active_connections := st_active_connections s + 1\<rparr>)"

lemma thread_ends:
  assumes "\<forall>c w1 params conn w2. objm_server_create client_fd w = (Some c, w1) \<longrightarrow>
      objm_server_handshake c server_hello w1 = (Some params, conn, w2) \<longrightarrow> serves_all conn (enter sv) w2"
  shows "client_thread running client_fd sv w \<noteq> None"
proof -
  obtain c w1 where c: "objm_server_create client_fd w = (c, w1)" by (cases "objm_server_create client_fd w")
  show ?thesis
  proof (cases c)
    case (Some x)
    obtain p conn w2 where h: "objm_server_handshake x server_hello w1 = (p, conn, w2)"
      by (cases "objm_server_handshake x server_hello w1")
    with Some c show ?thesis
    proof (cases p)
      case (Some q)
      then have "client_loop running 0 (p_version q) conn (enter sv) w2 \<noteq> None"
        using assms c \<open>c = Some x\<close> h by (intro loop_ends) blast
      with Some c \<open>c = Some x\<close> h show ?thesis by (auto simp: client_thread_def)
    qed (simp add: client_thread_def)
  qed (use c in \<open>simp add: client_thread_def\<close>)
qed

text \<open>
  C31: The thread of a connection ends, whatever finite stream the client sends and whatever
  fails, unless a handler runs into undefined behaviour, and it leaves the counters balanced:
  the connection is no longer counted as active, and every counted request was settled
  exactly once, as a get, a put, a deletion or an error; at most one error is counted without
  a request, when the receiving of a request fails.
\<close>

theorem connection_ends_balanced:
  assumes "\<forall>c w1 params conn w2. objm_server_create client_fd w = (Some c, w1) \<longrightarrow>
      objm_server_handshake c server_hello w1 = (Some params, conn, w2) \<longrightarrow> serves_all conn (enter sv) w2"
  shows "\<exists>sv' w'. client_thread running client_fd sv w = Some (sv', w') \<and>
     st_active_connections (sv_stats sv') = st_active_connections (sv_stats sv) \<and>
     settled (sv_stats sv') - settled (sv_stats sv) -
       (st_requests_total (sv_stats sv') - st_requests_total (sv_stats sv)) \<in> {0, 1}"
proof -
  obtain sv' w' where t: "client_thread running client_fd sv w = Some (sv', w')" using thread_ends [OF assms] by fastforce
  with thread_accounts [OF t] show ?thesis by auto
qed

definition calling_world :: world where
  "calling_world = sample_world\<lparr>rx := request_items OBJM_PROTO_V1 (get_request ''/a'')\<rparr>"

lemma calling_handshake:
  assumes "objm_server_create 3 calling_world = (Some c, w1)" "objm_server_handshake c server_hello w1 = (Some params, conn, w2)"
  shows "w2 = calling_world \<and> c_version conn = OBJM_PROTO_V1"
proof -
  have ev: "rx_ev calling_world = []" "faults calling_world = []"
    by (simp_all add: calling_world_def sample_world_def one_entry_def os.defs os_init_def)
  have rx: "rx calling_world = Plain OBJM_MODE_FDPASS # map Plain (put_be 2 2 @ bytes_of_string ''/a'')"
    by (simp add: calling_world_def request_items_def request_msg_def get_request_def)
  have w: "calling_world\<lparr>rx_ev := []\<rparr> = calling_world" using ev(1) by (cases calling_world) simp
  have c: "c_is_server c" "w1 = calling_world"
    using assms(1) ev(2) by (auto simp: objm_server_create_def fault_none)
  have "sock_peek calling_world = (Some OBJM_MODE_FDPASS, calling_world)" using ev(1) rx w by (simp add: sock_peek_def)
  moreover have "OBJM_MODE_FDPASS \<noteq> byte_of_char (CHR ''O'')" by (simp add: byte_of_char_def)
  ultimately show ?thesis using assms(2) c by (auto simp: objm_server_handshake_def Let_def)
qed

lemma calling_serves:
  "\<forall>c w1 params conn w2. objm_server_create 3 calling_world = (Some c, w1) \<longrightarrow>
      objm_server_handshake c server_hello w1 = (Some params, conn, w2) \<longrightarrow> serves_all conn (enter sample_server) w2"
proof -
  have "gi_rep (m_global_index (sv_mgr sample_server)) (heap calling_world) [''/a'' \<mapsto> 0]"
    using one_rep by (simp add: sample_server_def calling_world_def)
  from finds_rep [OF this, of "''/a''" 0]
  have o: "object_at (sv_mgr (enter sample_server)) calling_world ''/a'' 0 1 ''/m/a'' 7"
    unfolding object_at_def by (simp add: calling_world_def blank_entry_def upd_stats_def)
  have w: "no_faults calling_world" "link_calm calling_world"
    using sample_no_faults sample_calm(1) by (simp_all add: calling_world_def no_faults_def link_calm_def link_ok_def)
  have "serves_all conn (enter sample_server) calling_world" if "c_version conn = OBJM_PROTO_V1" for conn
  proof (rule serves_one_get [OF o _ w, of conn "get_request ''/a''"])
    show "fd_request conn (get_request ''/a'') ''/a''" using sample_fd_request(1) that by (simp add: fd_request_def sample_conn_def)
    show "valid_request (c_version conn) (get_request ''/a'')" by (simp add: valid_request_def get_request_def)
    show "rx calling_world = request_items (c_version conn) (get_request ''/a'')" using that by (simp add: calling_world_def)
  qed simp
  then show ?thesis using calling_handshake by blast
qed

theorem connection_ends_balanced_witness:
  "\<exists>sv' w'. client_thread (\<lambda>_. True) 3 sample_server calling_world = Some (sv', w') \<and>
     st_active_connections (sv_stats sv') = 1"
  using connection_ends_balanced [OF calling_serves, of "\<lambda>_. True"] by (auto simp: sample_server_def)

end
