(* ===== verification/Kernel_Types.thy ===== *)
theory Kernel_Types
  imports Server_Ends
begin

text \<open>
  What a process state must satisfy to be one: open descriptors, and descriptors that travel
  in messages, refer to descriptions that were made; names refer to files that were made, and
  no two names to one file. Serving a request keeps this.
\<close>

section \<open>Well-formed states\<close>

definition kernel_ok :: "'a os_scheme \<Rightarrow> bool" where
  "kernel_ok s \<longleftrightarrow> (\<forall>fd d. fd_obj s fd = Some d \<longrightarrow> d < next_ofd s) \<and>
     (\<forall>b d. WithFd b d \<in> set (rx s) \<union> set (tx s) \<longrightarrow> d < next_ofd s) \<and>
     (\<forall>p i. dir s p = Some i \<longrightarrow> i < next_ino s) \<and>
     (\<forall>p q i. dir s p = Some i \<longrightarrow> dir s q = Some i \<longrightarrow> p = q)"

lemma kernel_ok_update [simp]:
  "kernel_ok (s\<lparr>faults := a\<rparr>) = kernel_ok s" "kernel_ok (s\<lparr>is_dir := b\<rparr>) = kernel_ok s"
  "kernel_ok (s\<lparr>inodes := c\<rparr>) = kernel_ok s" "kernel_ok (s\<lparr>ofds := e\<rparr>) = kernel_ok s"
  "kernel_ok (s\<lparr>rx_ev := f\<rparr>) = kernel_ok s" "kernel_ok (s\<lparr>tx_ev := g\<rparr>) = kernel_ok s"
  "kernel_ok (s\<lparr>fio_ev := h\<rparr>) = kernel_ok s" "kernel_ok (s\<lparr>clock := i\<rparr>) = kernel_ok s"
  by (simp_all add: kernel_ok_def)

lemma kernel_ok_heap [simp]:
  "kernel_ok (w\<lparr>heap := h\<rparr>) = kernel_ok w" "kernel_ok (w\<lparr>next_addr := n\<rparr>) = kernel_ok w"
  by (simp_all add: kernel_ok_def fd_obj_def)

section \<open>Calls\<close>

lemma kernel_fault: "fault s = (b, s') \<Longrightarrow> kernel_ok s \<longrightarrow> kernel_ok s'"
  by (auto elim!: fault_frame)

lemma kernel_close [simp]: "kernel_ok s \<Longrightarrow> kernel_ok (sys_close fd s)"
  by (auto simp: kernel_ok_def sys_close_simps fd_obj_close)

lemma kernel_unlink [simp]: "kernel_ok s \<Longrightarrow> kernel_ok (sys_unlink p s)"
proof -
  obtain b s1 where b: "fault s = (b, s1)" by (cases "fault s")
  assume "kernel_ok s"
  with kernel_fault [OF b] show ?thesis by (auto simp: sys_unlink_def b kernel_ok_def)
qed

lemma kernel_install:
  assumes "install_fd d s = (fd, s')" "d < next_ofd s" "kernel_ok s" shows "kernel_ok s'"
proof -
  obtain t where s': "s' = s\<lparr>fds := t\<rparr>" using install_fd_frame [OF assms(1)] .
  have "fd_obj s' x = Some e \<Longrightarrow> e < next_ofd s" for x e
    using install_fd_fresh(2,4) [OF assms(1)] assms(2,3) by (cases "x = fd") (auto simp: kernel_ok_def)
  then show ?thesis using assms(3) by (simp add: kernel_ok_def) (simp add: s')
qed

lemma kernel_next_ofd: "kernel_ok s \<Longrightarrow> kernel_ok (s\<lparr>next_ofd := Suc (next_ofd s)\<rparr>)"
    "kernel_ok s \<Longrightarrow> kernel_ok (s\<lparr>ofds := x, next_ofd := Suc (next_ofd s)\<rparr>)"
  unfolding kernel_ok_def by (simp_all add: less_Suc_eq)

lemma kernel_new_ofd: "new_ofd ino acc s = (fd, s') \<Longrightarrow> kernel_ok s \<longrightarrow> kernel_ok s'"
  unfolding new_ofd_def by (auto elim!: kernel_install simp: kernel_next_ofd)

lemma kernel_open: "sys_open acc p s = (fd, s') \<Longrightarrow> kernel_ok s \<longrightarrow> kernel_ok s'"
  by (auto simp: sys_open_def Let_def dest!: kernel_fault kernel_new_ofd split: run_splits)

lemma kernel_new_name:
  assumes "kernel_ok s"
  shows "kernel_ok (s\<lparr>dir := (dir s)(p \<mapsto> next_ino s), inodes := x, next_ino := Suc (next_ino s)\<rparr>)"
  using assms unfolding kernel_ok_def by (simp add: less_Suc_eq) (metis less_irrefl)

lemma kernel_creat: "sys_open_creat acc p s = (fd, s') \<Longrightarrow> kernel_ok s \<longrightarrow> kernel_ok s'"
  by (auto simp: sys_open_creat_def Let_def kernel_new_name dest!: kernel_fault kernel_new_ofd split: run_splits)

lemma kernel_mkdir: "sys_mkdir p s = (r, s') \<Longrightarrow> kernel_ok s \<longrightarrow> kernel_ok s'"
  by (auto simp: sys_mkdir_def dest!: kernel_fault split: run_splits)

lemma kernel_send_all: "send_all buf s = (r, s') \<Longrightarrow> kernel_ok s \<longrightarrow> kernel_ok s'"
  by (drule send_all_shape) (auto simp: kernel_ok_def)

lemma kernel_recv_all: "recv_all n s = (r, s') \<Longrightarrow> kernel_ok s \<longrightarrow> kernel_ok s'"
  by (drule recv_all_shape) (auto simp: kernel_ok_def dest!: in_set_dropD)

lemma kernel_send_fd: "send_fd fd s = (r, s') \<Longrightarrow> kernel_ok s \<longrightarrow> kernel_ok s'"
  by (auto simp: send_fd_def sock_sendmsg_fd_def kernel_ok_def Let_def split: run_splits)

interpretation kernel: call_invariant kernel_ok
  by unfold_locales (simp_all add: kernel_fault kernel_open kernel_creat kernel_mkdir kernel_send_all kernel_send_fd)

lemmas kernel_serve = kernel.stays_serve

end
