(* ===== verification/Client_Props.thy ===== *)
theory Client_Props
  imports Client_Frame Kernel_Types
begin

text \<open>
  The command line client and the server together: what \<open>put\<close> uploads, \<open>get\<close> downloads. The
  two processes have their own descriptors and share files and open file descriptions.
\<close>

section \<open>Two processes\<close>

text \<open>The client's process at the time when the server's answer has arrived.\<close>

definition client_view :: "'a os_scheme \<Rightarrow> 'b os_scheme \<Rightarrow> 'b os_scheme" where
  "client_view w c = c\<lparr>dir := dir w, is_dir := is_dir w, inodes := inodes w, next_ino := next_ino w,
     ofds := ofds w, next_ofd := next_ofd w, rx := tx w\<rparr>"

text \<open>The server's process after the client has worked on the files, before the next answer.\<close>

definition server_view :: "'b os_scheme \<Rightarrow> 'a os_scheme \<Rightarrow> 'a os_scheme" where
  "server_view c w = w\<lparr>dir := dir c, is_dir := is_dir c, inodes := inodes c, next_ino := next_ino c,
     ofds := ofds c, next_ofd := next_ofd c, tx := [], rx_ev := [], tx_ev := []\<rparr>"

definition same_files :: "'a os_scheme \<Rightarrow> 'a os_scheme \<Rightarrow> bool" where
  "same_files s s' \<longleftrightarrow> dir s' = dir s \<and> is_dir s' = is_dir s \<and> inodes s' = inodes s \<and> next_ino s' = next_ino s \<and>
     ofds s' = ofds s \<and> next_ofd s' = next_ofd s \<and> fio_ev s' = fio_ev s \<and> (no_faults s \<longrightarrow> no_faults s')"

interpretation files: link_relation same_files
proof
  show "fault s = (b, s') \<Longrightarrow> same_files s s'" for b and s s' :: "'a os_scheme"
    by (auto simp: fault_def same_files_def no_faults_def split: list.splits)
  show "send_all bs s = (ok, s') \<Longrightarrow> same_files s s'" for bs ok and s s' :: "'a os_scheme"
    by (drule send_all_shape) (auto simp: same_files_def no_faults_def)
  show "recv_all n s = (r, s') \<Longrightarrow> same_files s s'" for n r and s s' :: "'a os_scheme"
    by (drule recv_all_shape) (auto simp: same_files_def no_faults_def)
qed (simp_all add: same_files_def)

lemma same_files_recv_fd: "recv_fd s = (r, s') \<Longrightarrow> same_files s s'"
  by (auto simp: recv_fd_def sock_recvmsg_fd_def Let_def same_files_def no_faults_def fault_def elim!: install_fd_frame
      split: item.splits if_splits prod.splits list.splits option.splits)

lemma same_files_recv_response: "objm_client_recv_response conn s = (r, conn', s') \<Longrightarrow> same_files s s'"
  using same_files_recv_fd by (rule files.R_response)

lemmas same_files_send_request = files.R_send_request
lemmas same_files_trans = files.R_trans

section \<open>Copying\<close>

lemma read_calm:
  assumes "fd_obj s a = Some d" "of_acc (ofds s d) \<noteq> O_WRONLY" "fio_ev s = []"
    and "got = take n (drop (of_off (ofds s d)) (inodes s (of_ino (ofds s d))))"
  shows "file_read a n s = (KDone got, s\<lparr>ofds := (ofds s)(d := (ofds s d)\<lparr>of_off := of_off (ofds s d) + length got\<rparr>)\<rparr>)"
  using assms by (cases s) (simp add: file_read_def chunk_def Let_def)

lemma write_calm:
  assumes "fd_obj s b = Some e" "of_acc (ofds s e) \<noteq> O_RDONLY" "fio_ev s = []" "of_off (ofds s e) = length (inodes s (of_ino (ofds s e)))"
  shows "file_write b bs s = (KDone bs, s\<lparr>inodes := (inodes s)(of_ino (ofds s e) := inodes s (of_ino (ofds s e)) @ bs),
    ofds := (ofds s)(e := (ofds s e)\<lparr>of_off := of_off (ofds s e) + length bs\<rparr>)\<rparr>)"
  using assms by (cases s) (simp add: file_write_def chunk_def Let_def)

lemma copy_data_all:
  assumes "fd_obj s a = Some d" "fd_obj s b = Some e" "d \<noteq> e" "of_acc (ofds s d) \<noteq> O_WRONLY" "of_acc (ofds s e) \<noteq> O_RDONLY"
    and "of_ino (ofds s d) \<noteq> of_ino (ofds s e)" "fio_ev s = []" "inodes s (of_ino (ofds s d)) = data"
    and "inodes s (of_ino (ofds s e)) = old" "of_off (ofds s e) = length old"
  shows "\<exists>x. copy_data a b s =
     Some (True, s\<lparr>inodes := (inodes s)(of_ino (ofds s e) := old @ drop (of_off (ofds s d)) data), ofds := x\<rparr>)"
  using assms
proof (induction "length data - of_off (ofds s d)" arbitrary: s old rule: less_induct)
  case less
  let ?f = "ofds s d" and ?g = "ofds s e"
  define got where "got = take 65536 (drop (of_off ?f) data)"
  let ?s = "s\<lparr>ofds := (ofds s)(d := ?f\<lparr>of_off := of_off ?f + length got\<rparr>)\<rparr>"
  have r: "file_read a 65536 s = (KDone got, ?s)"
    using less.prems by (intro read_calm) (simp_all add: got_def)
  show ?case
  proof (cases "of_off ?f < length data")
    case False
    then have "copy_data a b s = Some (True, ?s)" by (subst copy_data.simps) (simp add: r got_def)
    moreover have "(inodes s)(of_ino ?g := old @ drop (of_off ?f) data) = inodes s" using False less.prems(9) by auto
    ultimately show ?thesis by (intro exI [of _ "ofds ?s"]) simp
  next
    case True
    let ?s' = "?s\<lparr>inodes := (inodes s)(of_ino ?g := old @ got), ofds := (ofds ?s)(e := ?g\<lparr>of_off := length (old @ got)\<rparr>)\<rparr>"
    have got: "got \<noteq> []" using True by (simp add: got_def)
    have w: "file_write b got ?s = (KDone got, ?s')"
      using write_calm [of ?s b e got] less.prems by simp
    have "length data - of_off (ofds ?s' d) < length data - of_off ?f" using True got less.prems(3) by (cases got) auto
    from less.hyps [OF this, of "old @ got"] less.prems obtain x where
      "copy_data a b ?s' = Some (True, ?s'\<lparr>inodes := (inodes ?s')(of_ino (ofds ?s' e) := (old @ got) @ drop (of_off (ofds ?s' d)) data), ofds := x\<rparr>)"
      by auto
    moreover have "copy_data a b s = copy_data a b ?s'" using got r w by (subst copy_data.simps) simp
    moreover have "got @ drop (of_off ?f + length got) data = drop (of_off ?f) data"
      using append_take_drop_id [of 65536 "drop (of_off ?f) data"]
      by (cases "65536 \<le> length data - of_off ?f") (simp_all add: got_def add.commute)
    ultimately show ?thesis using less.prems(3) by (intro exI [of _ x]) simp
  qed
qed

section \<open>Commands\<close>

text \<open>A client process without failures.\<close>

definition calm_client :: "'a os_scheme \<Rightarrow> bool" where
  "calm_client c \<longleftrightarrow> no_faults c \<and> link_calm c \<and> fio_ev c = []"

lemma send_all_events: "send_all b s = (r, s') \<Longrightarrow> set (tx_ev s') \<subseteq> set (tx_ev s)"
  by (drule send_all_shape) auto

lemma send_request_events: "objm_client_send_request conn req s = (r, conn', s') \<Longrightarrow> set (tx_ev s') \<subseteq> set (tx_ev s)"
  by (auto simp: objm_client_send_request_def Let_def split: run_splits dest!: send_all_events)

lemma exchange_ok:
  assumes "rx c = answer conn (cmd_request u) d" "c_version conn = OBJM_PROTO_V1" "c_version cc = OBJM_PROTO_V1"
    and "no_faults c" "link_calm c" "length (c_str u) \<le> 4096"
  obtains fd c1 where "cmd_exchange cc u c = (Some (ok_response 0 fd 0), cc, c1)" "fd_obj c1 fd = Some d" "same_files c c1"
proof -
  have calm: "link_calm c" "no_faults c" using assms(4,5) by simp_all
  have "link_ok c" "valid_request (c_version cc) (cmd_request u)"
    using calm assms(3,6) by (simp_all add: link_calm_def valid_request_def cmd_request_def unat_of_nat)
  then obtain ev where s: "objm_client_send_request cc (cmd_request u) c =
      (True, cc, c\<lparr>tx := tx c @ request_items (c_version cc) (cmd_request u), tx_ev := ev\<rparr>)" (is "_ = (True, cc, ?c)")
    by (rule client_send_request_ok)
  have v: "c_version cc = c_version conn" "c_version conn = OBJM_PROTO_V1 \<longrightarrow> rq_id (cmd_request u) = 0"
    and i: "rq_id (cmd_request u) = 0" using assms(2,3) by (simp_all add: cmd_request_def)
  have "link_calm ?c" "no_faults ?c" "rx ?c = answer conn (cmd_request u) d @ []"
    using send_request_events [OF s] calm assms(1) by (auto simp: link_calm_def link_ok_def no_faults_def)
  from client_gets_answer [OF this(3) v(1) this(1,2) v(2), unfolded i] obtain fd c1 where
    r: "objm_client_recv_response cc ?c = (Some (ok_response 0 fd 0), cc, c1)" "fd_obj c1 fd = Some d" "rx c1 = []" .
  have "cmd_exchange cc u c = (Some (ok_response 0 fd 0), cc, c1)"
    using s r(1) by (simp add: cmd_exchange_def ok_response_def)
  then show ?thesis using r(2) same_files_trans [OF same_files_send_request [OF s] same_files_recv_response [OF r(1)]] by (rule that)
qed

text \<open>\<open>put\<close> on a descriptor of an empty file makes the file a copy of the source.\<close>

lemma put_copies:
  assumes "rx c = answer conn (cmd_request u) d" "c_version conn = OBJM_PROTO_V1" "c_version cc = OBJM_PROTO_V1"
    and "calm_client c" "length (c_str u) \<le> 4096" "d < next_ofd c"
    and "ofds c d = \<lparr>of_ino = ino, of_off = 0, of_acc = O_RDWR\<rparr>" "inodes c ino = []"
    and "dir c src = Some si" "si \<noteq> ino"
  obtains c' where "cmd_put cc u src c = Some (True, cc, c')" "inodes c' = (inodes c)(ino := inodes c si)"
    "dir c' = dir c" "is_dir c' = is_dir c" "next_ino c' = next_ino c" "next_ofd c' = Suc (next_ofd c)"
proof -
  have calm: "no_faults c" "link_calm c" using assms(4) by (simp_all add: calm_client_def)
  obtain fd c1 where x: "cmd_exchange cc u c = (Some (ok_response 0 fd 0), cc, c1)" "fd_obj c1 fd = Some d" "same_files c c1"
    using exchange_ok [OF assms(1-3) calm assms(5)] .
  have c1: "dir c1 = dir c" "is_dir c1 = is_dir c" "inodes c1 = inodes c" "next_ino c1 = next_ino c" "ofds c1 = ofds c"
    "next_ofd c1 = next_ofd c" "fio_ev c1 = []" "no_faults c1" using x(3) assms(4) by (simp_all add: same_files_def calm_client_def)
  obtain t where f: "fault c1 = (False, c1\<lparr>faults := t\<rparr>)" "True \<notin> set t" using no_faults_fault [OF c1(8)] .
  obtain sfd c2 where n: "new_ofd si O_RDONLY (c1\<lparr>faults := t\<rparr>) = (sfd, c2)" by fastforce
  have o: "sys_open O_RDONLY src c1 = (sfd, c2)" using assms(9) f(1) n by (simp add: sys_open_def c1)
  note res = new_ofd_result [OF n]
  obtain tt where c2: "c2 = c1\<lparr>faults := t, ofds := (ofds c1)(next_ofd c1 := \<lparr>of_ino = si, of_off = 0, of_acc = O_RDONLY\<rparr>),
      next_ofd := Suc (next_ofd c1), fds := tt\<rparr>" using new_ofd_frame [OF n] by (auto)
  have fd2: "fd_obj c2 fd = Some d" using res(2,4) x(2) by (cases "fd = sfd") auto
  have "\<exists>y. copy_data sfd fd c2 = Some (True, c2\<lparr>inodes := (inodes c2)(of_ino (ofds c2 d) := [] @ drop (of_off (ofds c2 (next_ofd c1))) (inodes c si)), ofds := y\<rparr>)"
    by (rule copy_data_all) (use res(3) fd2 assms(6-8,10) in \<open>simp_all add: c1 c2\<close>)
  then obtain y where y: "copy_data sfd fd c2 = Some (True, c2\<lparr>inodes := (inodes c)(ino := inodes c si), ofds := y\<rparr>)"
    using assms(6,7) by (auto simp: c2 c1)
  have "0 \<le> fd" using x(2) by (rule fd_obj_nonneg)
  then have "cmd_put cc u src c = Some (True, cc, objm_response_free (ok_response 0 fd 0)
      (sys_close fd (sys_close sfd (c2\<lparr>inodes := (inodes c)(ino := inodes c si), ofds := y\<rparr>))))"
    using x(1) o res(1) y by (simp add: cmd_put_def finish_copy_def ok_response_def Let_def)
  then show ?thesis
    by (rule that) (simp_all add: objm_response_free_def sys_close_simps c2 c1)
qed

text \<open>\<open>get\<close> makes a file that is a copy of the one behind the descriptor.\<close>

lemma get_copies:
  assumes "rx c = answer conn (cmd_request u) d" "c_version conn = OBJM_PROTO_V1" "c_version cc = OBJM_PROTO_V1"
    and "calm_client c" "length (c_str u) \<le> 4096" "d < next_ofd c"
    and "ofds c d = \<lparr>of_ino = ino, of_off = 0, of_acc = O_RDWR\<rparr>" "ino < next_ino c" "dir c dst \<noteq> Some ino"
    and "dir c dst = None \<Longrightarrow> \<not> is_dir c dst \<and> parent_ok c dst"
  obtains c' j where "cmd_get cc u dst c = Some (True, cc, c')" "dir c' dst = Some j" "inodes c' j = inodes c ino"
    "\<forall>i. i \<noteq> j \<longrightarrow> inodes c' i = inodes c i"
proof -
  have calm: "no_faults c" "link_calm c" using assms(4) by (simp_all add: calm_client_def)
  obtain fd c1 where x: "cmd_exchange cc u c = (Some (ok_response 0 fd 0), cc, c1)" "fd_obj c1 fd = Some d" "same_files c c1"
    using exchange_ok [OF assms(1-3) calm assms(5)] .
  have c1: "dir c1 = dir c" "is_dir c1 = is_dir c" "inodes c1 = inodes c" "next_ino c1 = next_ino c" "ofds c1 = ofds c"
    "next_ofd c1 = next_ofd c" "fio_ev c1 = []" "no_faults c1" using x(3) assms(4) by (simp_all add: same_files_def calm_client_def)
  define j where "j = (case dir c1 dst of None \<Rightarrow> next_ino c1 | Some i \<Rightarrow> i)"
  have j: "j \<noteq> ino" using assms(8,9) by (auto simp: j_def c1 split: option.splits)
  have "dir c1 dst = None \<Longrightarrow> \<not> is_dir c1 dst \<and> parent_ok c1 dst" using assms(10) by (simp add: c1 parent_ok_def)
  from creat_shape [OF c1(8) this j_def] obtain dfd c2 t n tt where
    o: "sys_open_creat O_WRONLY dst c1 = (dfd, c2)" "0 \<le> dfd" "fd_obj c1 dfd = None" "fd_obj c2 dfd = Some (next_ofd c1)"
      "\<forall>x. x \<noteq> dfd \<longrightarrow> fd_obj c2 x = fd_obj c1 x" "True \<notin> set t"
    and c2: "c2 = c1\<lparr>faults := t, dir := (dir c1)(dst \<mapsto> j), inodes := (inodes c1)(j := []), next_ino := n,
       ofds := (ofds c1)(next_ofd c1 := \<lparr>of_ino = j, of_off = 0, of_acc = O_WRONLY\<rparr>), next_ofd := Suc (next_ofd c1), fds := tt\<rparr>" .
  have fd2: "fd_obj c2 fd = Some d" using o(3,5) x(2) by (cases "fd = dfd") auto
  have "\<exists>y. copy_data fd dfd c2 = Some (True, c2\<lparr>inodes := (inodes c2)(of_ino (ofds c2 (next_ofd c1)) := [] @ drop (of_off (ofds c2 d)) (inodes c ino)), ofds := y\<rparr>)"
    by (rule copy_data_all) (use o(4) fd2 assms(6,7) j in \<open>simp_all add: c1 c2\<close>)
  then obtain y where y: "copy_data fd dfd c2 = Some (True, c2\<lparr>inodes := (inodes c)(j := inodes c ino), ofds := y\<rparr>)"
    using assms(6,7) by (auto simp: c2 c1)
  have "0 \<le> fd" using x(2) by (rule fd_obj_nonneg)
  then have "cmd_get cc u dst c = Some (True, cc, objm_response_free (ok_response 0 fd 0)
      (sys_close dfd (sys_close fd (c2\<lparr>inodes := (inodes c)(j := inodes c ino), ofds := y\<rparr>))))"
    using x(1) o(1,2) y by (simp add: cmd_get_def finish_copy_def ok_response_def Let_def)
  then show ?thesis
    by (rule that [of _ j]) (simp_all add: objm_response_free_def sys_close_simps c2 c1)
qed

lemma client_view_simps:
  "rx (client_view w c) = tx w" "dir (client_view w c) = dir w" "is_dir (client_view w c) = is_dir w"
  "inodes (client_view w c) = inodes w" "next_ino (client_view w c) = next_ino w" "ofds (client_view w c) = ofds w"
  "next_ofd (client_view w c) = next_ofd w" "calm_client (client_view w c) = calm_client c"
  by (simp_all add: client_view_def calm_client_def no_faults_def link_calm_def link_ok_def)

lemma answer_item: "WithFd 0x58 d \<in> set (answer conn req d)"
  by (simp add: answer_def)

lemma cmd_fd_request:
  assumes "plain_uri u" "c_str u = u" "c_version conn = OBJM_PROTO_V1"
  shows "fd_request conn (cmd_request u) u"
  using assms by (simp add: fd_request_def req_uri_def cmd_request_def)

section \<open>From file to file\<close>

lemma server_view_ok:
  assumes "kernel_ok w" "dir c = dir w" "next_ino c = next_ino w" "next_ofd w \<le> next_ofd c"
  shows "kernel_ok (server_view c w)"
  using assms unfolding kernel_ok_def server_view_def by (auto intro: order_less_le_trans [OF _ assms(4)])

lemma server_view_simps:
  "no_faults (server_view c w) = no_faults w" "link_calm (server_view c w)" "tx (server_view c w) = []"
  "inodes (server_view c w) = inodes c" "dir (server_view c w) = dir c" "is_dir (server_view c w) = is_dir c"
  by (simp_all add: server_view_def no_faults_def link_calm_def link_ok_def)

lemma server_view_object:
  "dir c = dir w \<Longrightarrow> object_at mgr (server_view c w) u a n path ino = object_at mgr w u a n path ino"
  by (simp add: object_at_def server_view_def)

text \<open>What the second half needs of the state after the upload.\<close>

lemma get_after_put:
  fixes w1 :: "'a world_scheme" and c1 c' :: "'b os_scheme"
  assumes "object_at (sv_mgr sv1) w1 u a 2 path ino" "no_faults w1" "kernel_ok w1" "fd_request conn (cmd_request u) u"
    and "dir c1 = dir w1" "next_ino c1 = next_ino w1" "next_ofd w1 \<le> next_ofd c1"
    and "c_version conn = OBJM_PROTO_V1" "c_version cc = OBJM_PROTO_V1" "length (c_str u) \<le> 4096"
  shows "\<exists>sv2 w2. serve_request conn (cmd_request u) sv1 (server_view c1 w1) = Some (sv2, w2) \<and> dom (dir w2) = dom (dir w1) \<and>
     (\<forall>(c' :: 'b os_scheme) dst. calm_client c' \<longrightarrow> dst \<noteq> path \<longrightarrow>
        (dir w2 dst = None \<longrightarrow> \<not> is_dir w2 dst \<and> parent_ok w2 dst) \<longrightarrow>
        (\<exists>c2 j. cmd_get cc u dst (client_view w2 c') = Some (True, cc, c2) \<and> dir c2 dst = Some j \<and> inodes c2 j = inodes c1 ino))"
proof -
  let ?w = "server_view c1 w1"
  have "object_at (sv_mgr sv1) ?w u a 2 path ino" "1 \<le> (2::int)" "no_faults ?w" "link_calm ?w"
    using assms(1,2,5) by (simp_all add: server_view_object server_view_simps)
  then obtain sv2 w2 d where s: "serve_request conn (cmd_request u) sv1 ?w = Some (sv2, w2)" "answered conn (cmd_request u) d ?w w2"
    "ofds w2 d = \<lparr>of_ino = ino, of_off = 0, of_acc = O_RDWR\<rparr>"
    using serve_reached [OF _ _ _ _ assms(4)] by blast
  have k: "kernel_ok w2" using kernel_serve [OF s(1)] server_view_ok [OF assms(3,5-7)] by blast
  have w2: "tx w2 = answer conn (cmd_request u) d" "dir w2 = dir w1" "inodes w2 = inodes c1"
    using s(2) assms(5) by (simp_all add: answered_def server_view_simps)
  have d: "d < next_ofd w2" using k w2(1) answer_item [of d conn "cmd_request u"] by (auto simp: kernel_ok_def)
  have p: "dir w2 path = Some ino" using assms(1) by (simp add: object_at_def w2)
  then have i: "ino < next_ino w2" using k by (auto simp: kernel_ok_def)
  have "\<exists>c2 j. cmd_get cc u dst (client_view w2 c') = Some (True, cc, c2) \<and> dir c2 dst = Some j \<and> inodes c2 j = inodes c1 ino"
    if "calm_client c'" "dst \<noteq> path" "dir w2 dst = None \<longrightarrow> \<not> is_dir w2 dst \<and> parent_ok w2 dst" for c' :: "'b os_scheme" and dst
  proof -
    let ?c = "client_view w2 c'"
    have "dir w2 dst \<noteq> Some ino" using k p that(2) unfolding kernel_ok_def by metis
    then have h: "rx ?c = answer conn (cmd_request u) d" "calm_client ?c" "d < next_ofd ?c"
      "ofds ?c d = \<lparr>of_ino = ino, of_off = 0, of_acc = O_RDWR\<rparr>" "ino < next_ino ?c" "dir ?c dst \<noteq> Some ino"
      "dir ?c dst = None \<Longrightarrow> \<not> is_dir ?c dst \<and> parent_ok ?c dst"
      using that(1,3) d i s(3) w2(1) by (simp_all add: client_view_simps parent_ok_def)
    obtain c2 j where "cmd_get cc u dst ?c = Some (True, cc, c2)" "dir c2 dst = Some j" "inodes c2 j = inodes ?c ino"
      "\<forall>i. i \<noteq> j \<longrightarrow> inodes c2 i = inodes ?c i"
      using get_copies [OF h(1) assms(8,9) h(2) assms(10) h(3-7)] .
    then show ?thesis by (auto simp: client_view_simps w2)
  qed
  with s(1) w2(2) show ?thesis by (intro exI [of _ sv2] exI [of _ w2]) simp
qed

text \<open>
  C6: What the command line client uploads is what it downloads. When the URI is not in use, the
  server answers \<open>put\<close> with a descriptor of a new file, the client copies the source file
  through it and reports success; the server, which shares the files and open descriptions,
  answers a following \<open>get\<close> of the same URI, from this or another client process, and the file
  that \<open>get\<close> writes has the contents of the source file.
\<close>

theorem client_put_then_get:
  fixes w :: "'a world_scheme" and c :: "'b os_scheme"
  assumes "can_create (put_request (cmd_request u)) (sv_mgr sv) path w" "no_faults w" "link_calm w" "kernel_ok w" "tx w = []"
    and "plain_uri u" "c_str u = u" "length u \<le> 4096" "c_version conn = OBJM_PROTO_V1" "c_version cc = OBJM_PROTO_V1"
    and "calm_client c" "dir w src = Some si" "src \<noteq> path"
  shows "\<exists>sv1 w1 c1. serve_request conn (cmd_request u) sv w = Some (sv1, w1) \<and>
     cmd_put cc u src (client_view w1 c) = Some (True, cc, c1) \<and>
     (\<exists>sv2 w2. serve_request conn (cmd_request u) sv1 (server_view c1 w1) = Some (sv2, w2) \<and> dom (dir w2) = insert path (dom (dir w)) \<and>
        (\<forall>(c' :: 'b os_scheme) dst. calm_client c' \<longrightarrow> dst \<noteq> path \<longrightarrow>
           (dir w2 dst = None \<longrightarrow> \<not> is_dir w2 dst \<and> parent_ok w2 dst) \<longrightarrow>
           (\<exists>c2 j. cmd_get cc u dst (client_view w2 c') = Some (True, cc, c2) \<and> dir c2 dst = Some j \<and> inodes c2 j = inodes w si)))"
proof -
  have r: "fd_request conn (cmd_request u) u" using assms(6,7,9) by (rule cmd_fd_request)
  obtain sv1 w1 a d ino where s: "serve_request conn (cmd_request u) sv w = Some (sv1, w1)" "answered_new conn (cmd_request u) d path ino w w1"
    "ofds w1 d = \<lparr>of_ino = ino, of_off = 0, of_acc = O_RDWR\<rparr>" "object_at (sv_mgr sv1) w1 u a 2 path ino" "no_faults w1"
    using serve_missing [OF assms(1-3) r] by metis
  have k: "kernel_ok w1" using kernel_serve [OF s(1)] assms(4) by blast
  have w1: "tx w1 = answer conn (cmd_request u) d" "dir w1 = (dir w)(path \<mapsto> ino)" "inodes w1 = (inodes w)(ino := [])"
    using s(2) assms(5) by (simp_all add: answered_new_def)
  have d: "d < next_ofd w1" using k w1(1) answer_item [of d conn "cmd_request u"] by (auto simp: kernel_ok_def)
  have si: "dir w1 src = Some si" "dir w1 path = Some ino" using assms(12,13) by (simp_all add: w1)
  then have ne: "si \<noteq> ino" using k assms(13) unfolding kernel_ok_def by metis
  obtain c1 where p: "cmd_put cc u src (client_view w1 c) = Some (True, cc, c1)" "inodes c1 = (inodes w1)(ino := inodes w1 si)"
    "dir c1 = dir w1" "next_ino c1 = next_ino w1" "next_ofd c1 = Suc (next_ofd w1)"
    using put_copies [of "client_view w1 c" conn u d cc ino src si thesis for thesis] assms(7-11) d s(3) w1 si(1) ne
    by (simp add: client_view_simps) blast
  have "inodes c1 ino = inodes w si" "dom (dir w1) = insert path (dom (dir w))" using ne by (simp_all add: p w1)
  with get_after_put [OF s(4,5) k r p(3,4) _ assms(9,10)] p s(1) assms(7,8) show ?thesis by simp
qed

text \<open>A server with a file to upload and one to overwrite.\<close>

definition upload_world :: world where
  "upload_world = sample_world\<lparr>dir := [''/m/a'' \<mapsto> 7, ''/x'' \<mapsto> 6], inodes := (\<lambda>i. if i = 7 then [1, 2, 3] else []), next_ino := 8\<rparr>"

lemma upload_can_create: "can_create (put_request (cmd_request ''/b'')) (sv_mgr sample_server) ''/m/b'' upload_world"
proof -
  have "put_request (cmd_request ''/b'') = put_request (get_request ''/b'')"
    by (simp add: put_request_def cmd_request_def get_request_def req_uri_def c_str_def)
  moreover have "creatable ''/m/b'' upload_world"
    by (auto simp: creatable_def dirname_def no_file_on_way_def less_Suc_eq upload_world_def)
  ultimately show ?thesis using sample_can_create unfolding can_create_def by (simp add: upload_world_def)
qed

lemma upload_kernel: "kernel_ok upload_world" "tx upload_world = []" "no_faults upload_world" "link_calm upload_world"
proof -
  have "rx sample_world = []" "tx sample_world = []" "tx_ev sample_world = []" "rx_ev sample_world = []"
    by (simp_all add: sample_world_def one_entry_def os.defs os_init_def)
  then show "kernel_ok upload_world" "tx upload_world = []" "no_faults upload_world" "link_calm upload_world"
    by (simp_all add: upload_world_def kernel_ok_def fd_obj_def no_faults_def link_calm_def link_ok_def)
qed

theorem client_put_then_get_witness:
  "\<exists>sv1 w1 c1 sv2 w2 c2 j. serve_request (sample_conn OBJM_PROTO_V1 True) (cmd_request ''/b'') sample_server upload_world = Some (sv1, w1) \<and>
     cmd_put (sample_conn OBJM_PROTO_V1 False) ''/b'' ''/m/a'' (client_view w1 os_init) = Some (True, sample_conn OBJM_PROTO_V1 False, c1) \<and>
     serve_request (sample_conn OBJM_PROTO_V1 True) (cmd_request ''/b'') sv1 (server_view c1 w1) = Some (sv2, w2) \<and>
     cmd_get (sample_conn OBJM_PROTO_V1 False) ''/b'' ''/x'' (client_view w2 os_init) = Some (True, sample_conn OBJM_PROTO_V1 False, c2) \<and>
     dir c2 ''/x'' = Some j \<and> inodes c2 j = [1, 2, 3]"
proof -
  let ?c = "sample_conn OBJM_PROTO_V1 True" and ?cc = "sample_conn OBJM_PROTO_V1 False"
  have h: "plain_uri ''/b''" "c_str ''/b'' = ''/b''" "length ''/b'' \<le> 4096" "c_version ?c = OBJM_PROTO_V1" "c_version ?cc = OBJM_PROTO_V1"
    "calm_client os_init" "dir upload_world ''/m/a'' = Some 7" "''/m/a'' \<noteq> ''/m/b''"
    by (simp_all add: plain_uri_def c_str_def sample_conn_def calm_client_def no_faults_def link_calm_def link_ok_def os_init_def upload_world_def)
  from client_put_then_get [OF upload_can_create upload_kernel(3,4,1,2) h] obtain sv1 w1 c1 sv2 w2 where
    p: "serve_request ?c (cmd_request ''/b'') sample_server upload_world = Some (sv1, w1)"
      "cmd_put ?cc ''/b'' ''/m/a'' (client_view w1 os_init) = Some (True, ?cc, c1)"
      "serve_request ?c (cmd_request ''/b'') sv1 (server_view c1 w1) = Some (sv2, w2)" and
    dom: "dom (dir w2) = insert ''/m/b'' (dom (dir upload_world))" and
    g: "\<forall>(c' :: os) dst. calm_client c' \<longrightarrow> dst \<noteq> ''/m/b'' \<longrightarrow> (dir w2 dst = None \<longrightarrow> \<not> is_dir w2 dst \<and> parent_ok w2 dst) \<longrightarrow>
        (\<exists>c2 j. cmd_get ?cc ''/b'' dst (client_view w2 c') = Some (True, ?cc, c2) \<and> dir c2 dst = Some j \<and> inodes c2 j = inodes upload_world 7)"
    by (elim exE conjE) (rule that)
  have "''/x'' \<in> dom (dir w2)" unfolding dom by (simp add: upload_world_def)
  then have "\<exists>c2 j. cmd_get ?cc ''/b'' ''/x'' (client_view w2 os_init) = Some (True, ?cc, c2) \<and> dir c2 ''/x'' = Some j \<and> inodes c2 j = [1, 2, 3]"
    using g [THEN spec, of os_init, THEN spec, of "''/x''"] h(6) by (auto simp: upload_world_def)
  with p show ?thesis by blast
qed

section \<open>Short writes\<close>

lemma read_event:
  assumes "fd_obj s a = Some d" "of_acc (ofds s d) \<noteq> O_WRONLY" "fio_ev s = Upto k # evs" "0 < n" "0 < k"
  shows "file_read a n s =
    (let got = take (min n k) (drop (of_off (ofds s d)) (inodes s (of_ino (ofds s d))))
     in (KDone got, s\<lparr>fio_ev := evs, ofds := (ofds s)(d := (ofds s d)\<lparr>of_off := of_off (ofds s d) + length got\<rparr>)\<rparr>))"
  using assms by (simp add: file_read_def chunk_def Let_def max_def)

lemma write_event:
  assumes "fd_obj s b = Some e" "of_acc (ofds s e) \<noteq> O_RDONLY" "fio_ev s = Upto k # evs" "0 < k" "k \<le> length bs"
  shows "file_write b bs s = (KDone (take k bs), s\<lparr>fio_ev := evs,
    inodes := (inodes s)(of_ino (ofds s e) := write_at (of_off (ofds s e)) (take k bs) (inodes s (of_ino (ofds s e)))),
    ofds := (ofds s)(e := (ofds s e)\<lparr>of_off := of_off (ofds s e) + k\<rparr>)\<rparr>)"
  using assms by (simp add: file_write_def chunk_def Let_def max_def min_def)

text \<open>
  A short write loses data silently: when the kernel writes only \<open>k\<close> of the bytes that were
  read, as it may on a full disk or an interrupted call, the client goes on with the next read
  and reports success, but the object has \<open>k\<close> bytes only.
\<close>

theorem short_write_reported_ok:
  assumes "fd_obj s a = Some d" "fd_obj s b = Some e" "d \<noteq> e" "of_ino (ofds s d) \<noteq> of_ino (ofds s e)"
    and "ofds s d = \<lparr>of_ino = si, of_off = 0, of_acc = O_RDONLY\<rparr>" "ofds s e = \<lparr>of_ino = ino, of_off = 0, of_acc = O_RDWR\<rparr>"
    and "inodes s si = data" "inodes s ino = []" "0 < k" "k < length data" "length data \<le> 65536"
    and "fio_ev s = [Upto (length data), Upto k]"
  shows "\<exists>s'. copy_data a b s = Some (True, s') \<and> inodes s' ino = take k data \<and> fio_ev s' = []"
proof -
  let ?f = "ofds s d" and ?g = "ofds s e"
  have data: "data \<noteq> []" using assms(10) by auto
  let ?s1 = "s\<lparr>fio_ev := [Upto k], ofds := (ofds s)(d := ?f\<lparr>of_off := length data\<rparr>)\<rparr>"
  have r: "file_read a 65536 s = (KDone data, ?s1)"
    using read_event [OF assms(1) _ assms(12), of 65536] assms(5,7,11) data by (simp add: Let_def)
  let ?s2 = "?s1\<lparr>fio_ev := [], inodes := (inodes s)(ino := take k data), ofds := (ofds ?s1)(e := ?g\<lparr>of_off := k\<rparr>)\<rparr>"
  have w: "file_write b data ?s1 = (KDone (take k data), ?s2)"
    using write_event [of ?s1 b e k "[]" data] assms(2,3,6,8-10) by (simp add: write_at_def)
  have "copy_data a b s = copy_data a b ?s2" using r w data by (subst copy_data.simps) simp
  moreover have "file_read a 65536 ?s2 = (KDone [], ?s2\<lparr>ofds := (ofds ?s2)(d := (ofds ?s2 d)\<lparr>of_off := of_off (ofds ?s2 d) + length ([] :: bytes)\<rparr>)\<rparr>)"
    by (rule read_calm) (use assms(1,3-7) in simp_all)
  then have "copy_data a b ?s2 = Some (True, ?s2\<lparr>ofds := (ofds ?s2)(d := (ofds ?s2 d)\<lparr>of_off := of_off (ofds ?s2 d) + length ([] :: bytes)\<rparr>)\<rparr>)"
    by (subst copy_data.simps) simp
  ultimately show ?thesis by simp
qed

definition short_os :: os where
  "short_os = os_init\<lparr>fds := [Some 0, Some 1], fio_ev := [Upto 3, Upto 1],
     inodes := (\<lambda>i. if i = 5 then [1, 2, 3] else []),
     ofds := (\<lambda>d. if d = 0 then \<lparr>of_ino = 5, of_off = 0, of_acc = O_RDONLY\<rparr> else \<lparr>of_ino = 6, of_off = 0, of_acc = O_RDWR\<rparr>)\<rparr>"

theorem short_write_reported_ok_witness:
  "\<exists>s'. copy_data 0 1 short_os = Some (True, s') \<and> inodes s' 6 = [1]"
proof -
  have "\<exists>s'. copy_data 0 1 short_os = Some (True, s') \<and> inodes s' 6 = take 1 [1, 2, 3] \<and> fio_ev s' = []"
    by (rule short_write_reported_ok [where d = 0 and e = 1 and si = 5]) (simp_all add: short_os_def fd_obj_def)
  then show ?thesis by auto
qed

end
