(* ===== verification/Server_Main.thy ===== *)
theory Server_Main
  imports Net Server_Ends
begin

text \<open>
  The main program of the object server (\<open>server.c\<close>): set-up, the loop that accepts clients, the
  detached threads that serve them, and the shutdown. A schedule says whose turn it is: that of
  the main thread, of a client thread or of the signal handler. A turn goes from one point at which
  a thread waits, or reads what another one writes, to the next.
\<close>

section \<open>Client threads\<close>

text \<open>
  Each connection has a stream of its own, which the process state holds during a turn of its
  thread. A thread has been created; is about to create the connection and shake hands; tests
  \<open>g_running\<close>; is in the call that receives a request; leaves; has returned. A thread that waits
  for bytes that do not come gets no turn.
\<close>

record conn_link =
  cl_rx :: "item list"
  cl_tx :: "item list"
  cl_rx_ev :: "io_event list"
  cl_tx_ev :: "io_event list"

datatype client_phase =
  ClSpawned
| ClHandshake
| ClTest objm_version objm_connection
| ClRecv objm_version objm_connection
| ClLeave
| ClEnded

record client_info =
  ci_client_fd :: int
  ci_phase :: client_phase
  ci_link :: conn_link

definition resume_conn :: "conn_link \<Rightarrow> 'a os_scheme \<Rightarrow> 'a os_scheme" where
  "resume_conn l w = w\<lparr>rx := cl_rx l, tx := cl_tx l, rx_ev := cl_rx_ev l, tx_ev := cl_tx_ev l\<rparr>"

definition pause_conn :: "'a os_scheme \<Rightarrow> conn_link" where
  "pause_conn w = \<lparr>cl_rx = rx w, cl_tx = tx w, cl_rx_ev = rx_ev w, cl_tx_ev = tx_ev w\<rparr>"

text \<open>\<open>client_thread\<close>, from one phase to the next; \<open>running\<close> is what it reads from \<open>g_running\<close>.\<close>

definition client_turn ::
    "bool \<Rightarrow> client_info \<Rightarrow> server \<Rightarrow> 'a world_scheme \<Rightarrow> (client_info \<times> server \<times> 'a world_scheme) option" where
  "client_turn running t sv w =
     (let w = resume_conn (ci_link t) w;
          pause = (\<lambda>ph sv w. Some (t\<lparr>ci_phase := ph, ci_link := pause_conn w\<rparr>, sv, w))
      in case ci_phase t of
           ClSpawned \<Rightarrow>
             pause ClHandshake (upd_stats (\<lambda>s. s\<lparr>st_active_connections := st_active_connections s + 1\<rparr>) sv) w
         | ClHandshake \<Rightarrow>
             (case objm_server_create (ci_client_fd t) w of
                (None, w) \<Rightarrow> pause ClLeave sv w
              | (Some conn, w) \<Rightarrow>
                  (case objm_server_handshake conn server_hello w of
                     (None, conn, w) \<Rightarrow> pause ClLeave sv w
                   | (Some params, conn, w) \<Rightarrow> pause (ClTest (p_version params) conn) sv w))
         | ClTest version conn \<Rightarrow> pause (if running then ClRecv version conn else ClLeave) sv w
         | ClRecv version conn \<Rightarrow>
             (case objm_server_recv_request conn w of
                (RecvClose, conn, w) \<Rightarrow> pause ClLeave sv w
              | (RecvError, conn, w) \<Rightarrow>
                  pause ClLeave (if version = OBJM_PROTO_V1 then sv else upd_stats (\<lambda>s. s\<lparr>st_errors := st_errors s + 1\<rparr>) sv) w
              | (RecvRequest req, conn, w) \<Rightarrow>
                  (case serve_request conn req
                          (upd_stats (\<lambda>s. s\<lparr>st_requests_total := st_requests_total s + 1\<rparr>) sv) w of
                     None \<Rightarrow> None
                   | Some (sv, w) \<Rightarrow> pause (ClTest version conn) sv w))
         | ClLeave \<Rightarrow>
             pause ClEnded (upd_stats (\<lambda>s. s\<lparr>st_active_connections := st_active_connections s - 1\<rparr>) sv)
               (sys_close (ci_client_fd t) w)
         | ClEnded \<Rightarrow> pause ClEnded sv w)"

section \<open>The main thread\<close>

text \<open>It tests \<open>g_running\<close>; is in \<open>accept\<close>; looks whether connections are active; the process has
  ended.\<close>

datatype main_phase = MainTest | MainAccept | MainWait | MainDone

record server_proc =
  pr_running :: bool                     \<comment> \<open>\<open>g_running\<close>\<close>
  pr_main :: main_phase
  pr_server :: server
  pr_net :: net
  pr_clients :: "client_info list"       \<comment> \<open>in the order of their creation\<close>

definition new_client :: "int \<Rightarrow> 'a os_scheme \<Rightarrow> client_info" where
  "new_client client_fd w = \<lparr>ci_client_fd = client_fd, ci_phase = ClSpawned, ci_link = pause_conn w\<rparr>"

definition accept_turn :: "server_proc \<Rightarrow> 'a world_scheme \<Rightarrow> server_proc \<times> 'a world_scheme" where
  "accept_turn p w =
     (case sys_accept (pr_net p) w of
        None \<Rightarrow> (p, w)
      | Some (AcceptedIntr, n, w) \<Rightarrow> (p\<lparr>pr_main := MainTest, pr_net := n\<rparr>, w)
      | Some (AcceptedError, n, w) \<Rightarrow> (p\<lparr>pr_main := MainWait, pr_net := n\<rparr>, w)
      | Some (Accepted client_fd, n, w) \<Rightarrow>
          let (f, w) = fault w
          in if f then (p\<lparr>pr_main := MainTest, pr_net := n\<rparr>, sys_close client_fd w)
             else let (f, w) = fault w
                  in if f then (p\<lparr>pr_main := MainTest, pr_net := n\<rparr>, sys_close client_fd w)
                     else (p\<lparr>pr_main := MainTest, pr_net := n, pr_clients := pr_clients p @ [new_client client_fd w]\<rparr>, w))"

text \<open>The end of the program, once no connection is active.\<close>

definition server_shutdown ::
    "int \<Rightarrow> string \<Rightarrow> server_proc \<Rightarrow> 'a world_scheme \<Rightarrow> (server_proc \<times> 'a world_scheme) option" where
  "server_shutdown listen_fd socket_path p w =
     (let w = sys_close listen_fd w; (n, w) = unlink_socket socket_path (pr_net p) w
      in do { w \<leftarrow> cleanup_backends (pr_server p) w; Some (p\<lparr>pr_main := MainDone, pr_net := n\<rparr>, w) })"

definition main_turn ::
    "int \<Rightarrow> string \<Rightarrow> server_proc \<Rightarrow> 'a world_scheme \<Rightarrow> (server_proc \<times> 'a world_scheme) option" where
  "main_turn listen_fd socket_path p w =
     (case pr_main p of
        MainTest \<Rightarrow> Some (p\<lparr>pr_main := (if pr_running p then MainAccept else MainWait)\<rparr>, w)
      | MainAccept \<Rightarrow> Some (accept_turn p w)
      | MainWait \<Rightarrow>
          if 0 < st_active_connections (sv_stats (pr_server p)) then Some (p, w)
          else server_shutdown listen_fd socket_path p w
      | MainDone \<Rightarrow> Some (p, w))"

section \<open>Schedules\<close>

datatype turn = MainTurn | ClientTurn nat | SignalTurn

text \<open>When the main thread has returned the process has ended and nobody runs.\<close>

definition server_turn ::
    "int \<Rightarrow> string \<Rightarrow> turn \<Rightarrow> server_proc \<Rightarrow> 'a world_scheme \<Rightarrow> (server_proc \<times> 'a world_scheme) option" where
  "server_turn listen_fd socket_path e p w =
     (if pr_main p = MainDone then Some (p, w)
      else case e of
             MainTurn \<Rightarrow> main_turn listen_fd socket_path p w
           | SignalTurn \<Rightarrow> Some (p\<lparr>pr_running := False\<rparr>, w)
           | ClientTurn i \<Rightarrow>
               if i < length (pr_clients p)
               then do {
                 (t, sv, w) \<leftarrow> client_turn (pr_running p) (pr_clients p ! i) (pr_server p) w;
                 Some (p\<lparr>pr_server := sv, pr_clients := (pr_clients p)[i := t]\<rparr>, w)
               }
               else Some (p, w))"

fun server_turns ::
    "int \<Rightarrow> string \<Rightarrow> turn list \<Rightarrow> server_proc \<Rightarrow> 'a world_scheme \<Rightarrow> (server_proc \<times> 'a world_scheme) option" where
  "server_turns listen_fd socket_path [] p w = Some (p, w)"
| "server_turns listen_fd socket_path (e # es) p w =
     do { (p, w) \<leftarrow> server_turn listen_fd socket_path e p w; server_turns listen_fd socket_path es p w }"

section \<open>Main\<close>

text \<open>\<open>ServerRuns\<close>: the schedule is over and the server is still running.\<close>

datatype server_result = ServerFailed | ServerStopped | ServerRuns server_proc

text \<open>The arguments: socket, memory and persistent path, with their defaults.\<close>

definition server_args :: "string list \<Rightarrow> string \<times> string \<times> string" where
  "server_args argv =
     (if length argv > 0 then argv ! 0 else ''/tmp/objmapper.sock'',
      if length argv > 1 then argv ! 1 else ''/tmp/objmapper_memory'',
      if length argv > 2 then argv ! 2 else ''/tmp/objmapper_persistent'')"

definition stop_failed :: "server \<Rightarrow> net \<Rightarrow> 'a world_scheme \<Rightarrow> (server_result \<times> net \<times> 'a world_scheme) option" where
  "stop_failed sv n w = do { w \<leftarrow> cleanup_backends sv w; Some (ServerFailed, n, w) }"

definition new_proc :: "server \<Rightarrow> net \<Rightarrow> server_proc" where
  "new_proc sv n = \<lparr>pr_running = True, pr_main = MainTest, pr_server = sv, pr_net = n, pr_clients = []\<rparr>"

definition server_main ::
    "(string \<Rightarrow> string list option) \<Rightarrow> bytes \<Rightarrow> turn list \<Rightarrow> string list
       \<Rightarrow> net \<Rightarrow> 'a world_scheme \<Rightarrow> (server_result \<times> net \<times> 'a world_scheme) option" where
  "server_main listing junk es argv n w =
     do {
       let (socket_path, memory_path, persistent_path) = server_args argv;
       (started, w) \<leftarrow> init_backends listing junk memory_path persistent_path w;
       case started of
         None \<Rightarrow> Some (ServerFailed, n, w)
       | Some sv \<Rightarrow>
           let (listen_fd, w) = sys_socket w
           in if listen_fd < 0 then stop_failed sv n w
              else let (n, w) = unlink_socket socket_path n w;
                       (ok, n, w) = sys_bind (UnixAddr (sun_path socket_path)) n w
                   in if \<not> ok then stop_failed sv n (sys_close listen_fd w)
                      else let (ok, w) = sys_listen w
                           in if \<not> ok
                              then let (n, w) = unlink_socket socket_path n (sys_close listen_fd w) in stop_failed sv n w
                              else do {
                                (p, w) \<leftarrow> server_turns listen_fd socket_path es (new_proc sv n) w;
                                Some (if pr_main p = MainDone then ServerStopped else ServerRuns p, pr_net p, w)
                              }
     }"

end
