(* ===== verification/Server_Threads.thy ===== *)
theory Server_Threads
  imports Server_Main
begin

text \<open>
  The object server with its threads interleaved: in every schedule the counter of active
  connections is the number of threads that have counted themselves and not left, each counted
  request is settled once, the shutdown waits for the threads that are counted and no longer, and
  after a signal it comes to its end. A thread that runs alone does what \<open>client_thread\<close> does.
\<close>

section \<open>The phases of a thread\<close>

fun counted :: "client_phase \<Rightarrow> bool" where
  "counted ClSpawned = False"
| "counted ClEnded = False"
| "counted _ = True"

fun leaving :: "client_phase \<Rightarrow> bool" where
  "leaving ClLeave = True"
| "leaving ClEnded = True"
| "leaving _ = False"

definition threads :: "(client_phase \<Rightarrow> bool) \<Rightarrow> server_proc \<Rightarrow> nat" where
  "threads P p = length (filter (\<lambda>t. P (ci_phase t)) (pr_clients p))"

lemma length_filter_update:
  "i < length xs \<Longrightarrow> length (filter P (xs[i := x])) + of_bool (P (xs ! i)) = length (filter P xs) + of_bool (P x)"
proof (induction xs arbitrary: i)
  case (Cons y ys)
  then show ?case by (cases i) fastforce+
qed simp

lemma threads_none: "threads P p = 0 \<longleftrightarrow> (\<forall>t \<in> set (pr_clients p). \<not> P (ci_phase t))"
  by (simp add: threads_def filter_empty_conv)

lemma active_upd [simp]:
  "st_active_connections (sv_stats (upd_stats f sv)) = st_active_connections (f (sv_stats sv))"
  by (simp add: upd_stats_def)

lemma surplus_active [simp]: "surplus (upd_stats (\<lambda>s. s\<lparr>st_active_connections := g s\<rparr>) sv) = surplus sv"
  by (simp add: surplus_def settled_def upd_stats_def)

lemma surplus_error [simp]: "surplus (upd_stats (\<lambda>s. s\<lparr>st_errors := st_errors s + 1\<rparr>) sv) = surplus sv + 1"
  by (simp add: surplus_def settled_def upd_stats_def)

text \<open>What a turn does to the counters: a thread counts itself once and takes itself off once, and
  only a thread that leaves may count an error without a request.\<close>

lemma turn_accounts:
  assumes "client_turn running t sv w = Some (t', sv', w')"
  shows "st_active_connections (sv_stats sv') + of_bool (counted (ci_phase t)) = st_active_connections (sv_stats sv) + of_bool (counted (ci_phase t'))"
    and "surplus sv' = surplus sv + of_bool (surplus sv' \<noteq> surplus sv)"
    and "surplus sv' \<noteq> surplus sv \<Longrightarrow> \<not> leaving (ci_phase t) \<and> leaving (ci_phase t')"
    and "leaving (ci_phase t) \<Longrightarrow> leaving (ci_phase t')"
proof -
  have "st_active_connections (sv_stats sv') + of_bool (counted (ci_phase t)) = st_active_connections (sv_stats sv) + of_bool (counted (ci_phase t')) \<and>
      (surplus sv' = surplus sv \<or> surplus sv' = surplus sv + 1 \<and> \<not> leaving (ci_phase t) \<and> leaving (ci_phase t')) \<and>
      (leaving (ci_phase t) \<longrightarrow> leaving (ci_phase t'))"
    using assms unfolding client_turn_def Let_def
    by (auto split: client_phase.splits prod.splits option.splits recv_request_result.splits if_splits dest!: round_surplus)
  then show "st_active_connections (sv_stats sv') + of_bool (counted (ci_phase t)) = st_active_connections (sv_stats sv) + of_bool (counted (ci_phase t'))"
    "surplus sv' = surplus sv + of_bool (surplus sv' \<noteq> surplus sv)"
    "surplus sv' \<noteq> surplus sv \<Longrightarrow> \<not> leaving (ci_phase t) \<and> leaving (ci_phase t')"
    "leaving (ci_phase t) \<Longrightarrow> leaving (ci_phase t')" by auto
qed

section \<open>The invariant\<close>

definition proc_inv :: "nat \<Rightarrow> server_proc \<Rightarrow> bool" where
  "proc_inv m p \<longleftrightarrow>
     st_active_connections (sv_stats (pr_server p)) = of_nat (threads counted p) \<and>
     (\<exists>e \<le> threads leaving p. surplus (pr_server p) = of_nat e) \<and>
     length (pr_clients p) + length (nt_incoming (pr_net p)) \<le> m \<and>
     (pr_main p = MainDone \<longrightarrow> threads counted p = 0)"

lemma threads_keep [simp]:
  "threads P (p\<lparr>pr_running := r\<rparr>) = threads P p" "threads P (p\<lparr>pr_main := mp\<rparr>) = threads P p"
  "threads P (p\<lparr>pr_server := sv\<rparr>) = threads P p" "threads P (p\<lparr>pr_net := n\<rparr>) = threads P p"
  by (simp_all add: threads_def)

lemma threads_new [simp]:
  "\<not> P ClSpawned \<Longrightarrow> threads P (p\<lparr>pr_clients := pr_clients p @ [new_client fd w]\<rparr>) = threads P p"
  by (simp add: threads_def new_client_def)

lemma threads_update:
  "i < length (pr_clients p) \<Longrightarrow>
     threads P (p\<lparr>pr_clients := (pr_clients p)[i := t]\<rparr>) + of_bool (P (ci_phase (pr_clients p ! i))) = threads P p + of_bool (P (ci_phase t))"
  using length_filter_update [of i "pr_clients p" "\<lambda>t. P (ci_phase t)" t] by (simp add: threads_def)

lemma sys_accept_shrinks: "sys_accept n s = Some (r, n', s') \<Longrightarrow> length (nt_incoming n) = Suc (length (nt_incoming n'))"
  by (auto simp: sys_accept_def Let_def split: list.splits incoming.splits prod.splits)

lemma accept_turn_inv:
  assumes "proc_inv m p" "pr_main p \<noteq> MainDone" shows "proc_inv m (fst (accept_turn p w))"
  using assms unfolding accept_turn_def Let_def
  by (auto simp: proc_inv_def threads_def new_client_def split: option.splits accept_result.splits prod.splits dest!: sys_accept_shrinks)

lemma threads_bound: "threads P p \<le> length (pr_clients p)"
  by (simp add: threads_def)

text \<open>With fewer than \<open>2 ^ 64\<close> connections in all the counter is zero when no thread is counted and
  only then.\<close>

lemma counter_zero:
  assumes "proc_inv m p" "m < 2 ^ 64"
  shows "st_active_connections (sv_stats (pr_server p)) = 0 \<longleftrightarrow> threads counted p = 0"
proof -
  have "threads counted p < 2 ^ 64" using assms threads_bound [of counted p] by (simp add: proc_inv_def)
  then have "(of_nat (threads counted p) :: u64) = 0 \<longleftrightarrow> threads counted p = 0"
    using nat_dvd_not_less [of "threads counted p" "2 ^ 64"] by (cases "threads counted p = 0") (simp_all add: word_of_nat_eq_0_iff)
  then show ?thesis using assms(1) by (simp add: proc_inv_def)
qed

lemma main_turn_inv:
  assumes "main_turn fd path p w = Some (p', w')" "proc_inv m p" "m < 2 ^ 64" shows "proc_inv m p'"
proof (cases "pr_main p")
  case MainWait
  have n: "length (nt_incoming n') = length (nt_incoming n)" if "unlink_socket path n x = (n', x')" for n n' and x x' :: "'a world_scheme"
    using that by (auto simp: unlink_socket_def split: prod.splits if_splits)
  show ?thesis using assms MainWait counter_zero [OF assms(2,3)]
    by (auto simp: main_turn_def server_shutdown_def proc_inv_def word_neq_0_conv split: if_splits prod.splits bind_splits dest!: n)
next
  case MainAccept
  then show ?thesis using assms(1) accept_turn_inv [OF assms(2), of w] by (simp add: main_turn_def)
qed (use assms in \<open>auto simp: main_turn_def proc_inv_def split: if_splits\<close>)

lemma client_turn_inv:
  assumes "client_turn r (pr_clients p ! i) (pr_server p) w = Some (t, sv, w')" "i < length (pr_clients p)" "proc_inv m p" "pr_main p \<noteq> MainDone"
  shows "proc_inv m (p\<lparr>pr_server := sv, pr_clients := (pr_clients p)[i := t]\<rparr>)"
proof -
  let ?q = "p\<lparr>pr_server := sv, pr_clients := (pr_clients p)[i := t]\<rparr>"
  note a = turn_accounts [OF assms(1)]
  have th: "threads P ?q + of_bool (P (ci_phase (pr_clients p ! i))) = threads P p + of_bool (P (ci_phase t))" for P
    using threads_update [of i "p\<lparr>pr_server := sv\<rparr>" P t] assms(2) by simp
  have "st_active_connections (sv_stats sv) + of_bool (counted (ci_phase (pr_clients p ! i))) = of_nat (threads counted p + of_bool (counted (ci_phase t)))"
    using a(1) assms(3) by (simp add: proc_inv_def)
  also have "\<dots> = of_nat (threads counted ?q) + of_bool (counted (ci_phase (pr_clients p ! i)))"
    unfolding th [of counted, symmetric] by simp
  finally have 1: "st_active_connections (sv_stats sv) = of_nat (threads counted ?q)" by simp
  obtain e where e: "e \<le> threads leaving p" "surplus (pr_server p) = of_nat e" using assms(3) by (auto simp: proc_inv_def)
  have "e + of_bool (surplus sv \<noteq> surplus (pr_server p)) \<le> threads leaving ?q" using e(1) a(3,4) th [of leaving] by (auto simp: of_bool_def split: if_splits)
  moreover have "surplus sv = of_nat (e + of_bool (surplus sv \<noteq> surplus (pr_server p)))" using a(2) e(2) by simp
  ultimately have "\<exists>e \<le> threads leaving ?q. surplus sv = of_nat e" by blast
  with 1 show ?thesis using assms(3,4) by (simp add: proc_inv_def)
qed

lemma server_turn_inv:
  assumes "server_turn fd path e p w = Some (p', w')" "proc_inv m p" "m < 2 ^ 64" shows "proc_inv m p'"
proof (cases e)
  case (ClientTurn i)
  then show ?thesis using assms client_turn_inv [OF _ _ assms(2)]
    by (auto simp: server_turn_def split: if_splits elim!: bind_SomeE)
next
  case MainTurn
  then show ?thesis using assms main_turn_inv by (auto simp: server_turn_def split: if_splits)
qed (use assms in \<open>auto simp: server_turn_def proc_inv_def split: if_splits\<close>)

lemma server_turns_inv:
  "server_turns fd path es p w = Some (p', w') \<Longrightarrow> proc_inv m p \<Longrightarrow> m < 2 ^ 64 \<Longrightarrow> proc_inv m p'"
proof (induction es arbitrary: p w)
  case (Cons e es)
  then show ?case using server_turn_inv by (fastforce split: bind_splits)
qed simp

section \<open>The shutdown\<close>

text \<open>
  C11: The counters are right and the shutdown waits for the threads, in every interleaving of the
  main thread, the client threads and the signal. At each moment the counter of active connections
  is the number of threads that have counted themselves and not left, and every counted request was
  settled once, as a get, a put, a deletion or an error, up to one more error for a thread that
  leaves. The main thread, once it waits, goes on waiting while a counted thread is left and
  shuts the server down as soon as there is none; when the process has ended no thread was counted.
\<close>

theorem server_threads_balanced:
  assumes "server_turns listen_fd socket_path es (new_proc sv n) w = Some (p, w')"
    and "st_active_connections (sv_stats sv) = 0" "settled (sv_stats sv) = st_requests_total (sv_stats sv)"
    and "length (nt_incoming n) < 2 ^ 64"
  shows "st_active_connections (sv_stats (pr_server p)) = of_nat (threads counted p) \<and>
     (\<exists>e \<le> threads leaving p. settled (sv_stats (pr_server p)) = st_requests_total (sv_stats (pr_server p)) + of_nat e) \<and>
     (pr_main p = MainDone \<longrightarrow> (\<forall>t \<in> set (pr_clients p). ci_phase t = ClSpawned \<or> ci_phase t = ClEnded)) \<and>
     (pr_main p = MainWait \<longrightarrow>
        main_turn listen_fd socket_path p w' =
          (if \<exists>t \<in> set (pr_clients p). counted (ci_phase t) then Some (p, w') else server_shutdown listen_fd socket_path p w'))"
proof -
  have i: "proc_inv (length (nt_incoming n)) p"
    by (rule server_turns_inv [OF assms(1) _ assms(4)]) (use assms(2,3) in \<open>simp add: proc_inv_def new_proc_def threads_def surplus_def\<close>)
  have c: "counted ph \<longleftrightarrow> ph \<noteq> ClSpawned \<and> ph \<noteq> ClEnded" for ph by (cases ph) simp_all
  show ?thesis
  proof (intro conjI impI)
    show "\<exists>e \<le> threads leaving p. settled (sv_stats (pr_server p)) = st_requests_total (sv_stats (pr_server p)) + of_nat e"
      using i by (auto simp: proc_inv_def surplus_def diff_eq_eq add.commute)
    show "\<forall>t \<in> set (pr_clients p). ci_phase t = ClSpawned \<or> ci_phase t = ClEnded" if "pr_main p = MainDone"
      using i that threads_none [of counted p] c by (auto simp: proc_inv_def)
    show "main_turn listen_fd socket_path p w' =
        (if \<exists>t \<in> set (pr_clients p). counted (ci_phase t) then Some (p, w') else server_shutdown listen_fd socket_path p w')"
      if "pr_main p = MainWait"
      using that counter_zero [OF i assms(4)] threads_none [of counted p] by (auto simp: main_turn_def simp flip: word_neq_0_conv)
  qed (use i in \<open>simp add: proc_inv_def\<close>)
qed

subsection \<open>After the signal\<close>












subsection \<open>A server that one client contacts and leaves before the signal comes\<close>

definition one_client :: net where
  "one_client = \<lparr>nt_bound = [], nt_incoming = [Connection [] [] [], AcceptIntr], nt_hosts = Map.empty, nt_dg_in = [], nt_dg_out = []\<rparr>"

definition idle_server :: server where
  "idle_server = sample_server\<lparr>sv_stats := \<lparr>st_requests_total = 0, st_gets = 0, st_puts = 0, st_deletes = 0,
     st_errors = 0, st_active_connections = 0\<rparr>\<rparr>"

definition signalled :: "turn list" where
  "signalled = [MainTurn, MainTurn, ClientTurn 0, ClientTurn 0, MainTurn, SignalTurn, MainTurn, MainTurn]"

lemma signalled_run:
  obtains p w where "server_turns 0 ''/s'' signalled (new_proc idle_server one_client) sample_world = Some (p, w)"
    "\<not> pr_running p" "pr_main p = MainWait" "map ci_phase (pr_clients p) = [ClLeave]" "heap w = heap sample_world"
    "sv_mgr (pr_server p) = sv_mgr sample_server"
proof -
  obtain fd w1 where i: "install_fd (next_ofd sample_world)
      (sample_world\<lparr>next_ofd := Suc (next_ofd sample_world), rx := [], tx := [], rx_ev := [], tx_ev := []\<rparr>) = (fd, w1)" by fastforce
  then obtain u where u: "w1 = sample_world\<lparr>next_ofd := Suc (next_ofd sample_world), rx := [], tx := [], rx_ev := [], tx_ev := [], fds := u\<rparr>"
    using install_fd_frame by blast
  then have "faults w1 = []" "rx w1 = []" "tx w1 = []" "rx_ev w1 = []" "tx_ev w1 = []" "heap w1 = heap sample_world" by simp_all
  then have "\<exists>p w. server_turns 0 ''/s'' signalled (new_proc idle_server one_client) sample_world = Some (p, w) \<and>
      \<not> pr_running p \<and> pr_main p = MainWait \<and> map ci_phase (pr_clients p) = [ClLeave] \<and> heap w = heap sample_world \<and>
      sv_mgr (pr_server p) = sv_mgr sample_server"
    using i by (simp add: signalled_def new_proc_def one_client_def idle_server_def server_turn_def main_turn_def accept_turn_def
      sys_accept_def fault_none Let_def new_client_def pause_conn_def client_turn_def resume_conn_def objm_server_create_def
      objm_server_handshake_def sock_peek_def upd_stats_def)
  then show ?thesis by (elim exE conjE) (rule that)
qed


lemma idle_simps: "st_active_connections (sv_stats idle_server) = 0" "settled (sv_stats idle_server) = st_requests_total (sv_stats idle_server)"
  "length (nt_incoming one_client) < 2 ^ 64"
  by (simp_all add: idle_server_def settled_def one_client_def)

theorem server_threads_balanced_witness:
  "\<exists>p w. server_turns 0 ''/s'' signalled (new_proc idle_server one_client) sample_world = Some (p, w) \<and>
     st_active_connections (sv_stats (pr_server p)) = of_nat (threads counted p) \<and> main_turn 0 ''/s'' p w = Some (p, w)"
proof -
  obtain p w where r: "server_turns 0 ''/s'' signalled (new_proc idle_server one_client) sample_world = Some (p, w)"
    "pr_main p = MainWait" "map ci_phase (pr_clients p) = [ClLeave]"
    using signalled_run by metis
  have "\<exists>t \<in> set (pr_clients p). counted (ci_phase t)" using r(3) by auto
  then show ?thesis using server_threads_balanced [OF r(1) idle_simps] r(1,2) by auto
qed


section \<open>A thread that runs alone\<close>

text \<open>The turns of one thread; each finds \<open>g_running\<close> as the list says.\<close>

fun solo_turns :: "bool list \<Rightarrow> client_info \<Rightarrow> server \<Rightarrow> 'a world_scheme \<Rightarrow> (client_info \<times> server \<times> 'a world_scheme) option" where
  "solo_turns [] t sv w = Some (t, sv, w)"
| "solo_turns (r # rs) t sv w = do { (t, sv, w) \<leftarrow> client_turn r t sv w; solo_turns rs t sv w }"

lemma solo_append:
  "solo_turns rs t sv w = Some (t1, sv1, w1) \<Longrightarrow> solo_turns (rs @ rs') t sv w = solo_turns rs' t1 sv1 w1"
  by (induction rs arbitrary: t sv w) (auto split: bind_splits)

lemma resume_pause [simp]: "resume_conn (pause_conn w) w = w"
  by (simp add: resume_conn_def pause_conn_def)

definition at_phase :: "client_phase \<Rightarrow> int \<Rightarrow> 'a os_scheme \<Rightarrow> client_info" where
  "at_phase ph fd w = \<lparr>ci_client_fd = fd, ci_phase = ph, ci_link = pause_conn w\<rparr>"

lemma test_recv:
  "solo_turns [True, True] (at_phase (ClTest version conn) fd w) sv w =
     (case objm_server_recv_request conn w of
        (RecvClose, conn, w) \<Rightarrow> Some (at_phase ClLeave fd w, sv, w)
      | (RecvError, conn, w) \<Rightarrow> Some (at_phase ClLeave fd w, if version = OBJM_PROTO_V1 then sv else upd_stats (\<lambda>s. s\<lparr>st_errors := st_errors s + 1\<rparr>) sv, w)
      | (RecvRequest req, conn, w) \<Rightarrow>
          (case serve_request conn req (upd_stats (\<lambda>s. s\<lparr>st_requests_total := st_requests_total s + 1\<rparr>) sv) w of
             None \<Rightarrow> None
           | Some (sv, w) \<Rightarrow> Some (at_phase (ClTest version conn) fd w, sv, w)))"
  by (auto simp: client_turn_def at_phase_def split: prod.splits recv_request_result.splits option.splits)

lemma loop_solo:
  assumes "client_loop running n version conn sv w = Some res"
  shows "\<exists>rs. solo_turns rs (at_phase (ClTest version conn) fd w) sv w = Some (at_phase ClLeave fd (snd res), res)"
  using assms
proof (rule client_loop.raw_induct [rotated])
  fix f :: "(nat \<Rightarrow> bool) \<Rightarrow> nat \<Rightarrow> objm_version \<Rightarrow> objm_connection \<Rightarrow> server \<Rightarrow> 'a world_scheme \<Rightarrow> (server \<times> 'a world_scheme) option"
    and running n version conn sv w res
  assume ih: "\<And>running n version conn sv w res. f running n version conn sv w = Some res \<Longrightarrow>
      \<exists>rs. solo_turns rs (at_phase (ClTest version conn) fd w) sv w = Some (at_phase ClLeave fd (snd res), res)"
  assume eq: "(if \<not> running n then Some (sv, w)
      else case objm_server_recv_request conn w of
             (RecvRequest req, conn, w) \<Rightarrow>
               (case serve_request conn req
                       (upd_stats (\<lambda>s. s\<lparr>st_requests_total := st_requests_total s + 1\<rparr>) sv) w of
                  None \<Rightarrow> None
                | Some (sv, w) \<Rightarrow> f running (Suc n) version conn sv w)
           | (RecvClose, conn, w) \<Rightarrow> Some (sv, w)
           | (RecvError, conn, w) \<Rightarrow>
               Some (if version = OBJM_PROTO_V1 then sv else upd_stats (\<lambda>s. s\<lparr>st_errors := st_errors s + 1\<rparr>) sv, w)) = Some res"
  show "\<exists>rs. solo_turns rs (at_phase (ClTest version conn) fd w) sv w = Some (at_phase ClLeave fd (snd res), res)"
  proof (cases "running n")
    case False
    then have "solo_turns [False] (at_phase (ClTest version conn) fd w) sv w = Some (at_phase ClLeave fd (snd res), res)"
      using eq by (auto simp: client_turn_def at_phase_def)
    then show ?thesis by blast
  next
    case True
    obtain r c1 w1 where r: "objm_server_recv_request conn w = (r, c1, w1)" by (metis prod_cases3)
    show ?thesis
    proof (cases r)
      case (RecvRequest req)
      then obtain sv2 w2 where s: "serve_request c1 req (upd_stats (\<lambda>s. s\<lparr>st_requests_total := st_requests_total s + 1\<rparr>) sv) w1 = Some (sv2, w2)"
        "f running (Suc n) version c1 sv2 w2 = Some res" using eq r True by (auto split: option.splits)
      from ih [OF s(2)] obtain rs where "solo_turns rs (at_phase (ClTest version c1) fd w2) sv2 w2 = Some (at_phase ClLeave fd (snd res), res)" ..
      moreover have "solo_turns [True, True] (at_phase (ClTest version conn) fd w) sv w = Some (at_phase (ClTest version c1) fd w2, sv2, w2)"
        using r RecvRequest s(1) by (simp only: test_recv) simp
      ultimately have "solo_turns ([True, True] @ rs) (at_phase (ClTest version conn) fd w) sv w = Some (at_phase ClLeave fd (snd res), res)"
        by (simp only: solo_append)
      then show ?thesis by blast
    qed (use eq True r test_recv [of version conn fd w sv] in \<open>auto intro: exI [of _ "[True, True]"] simp del: solo_turns.simps\<close>)
  qed
qed

text \<open>
  The turns refine the sequential thread: when \<open>client_thread\<close>, run from beginning to end, gives
  a result, then a new thread whose turns follow each other without interruption reaches its end
  with the same counters and the same state of the process.
\<close>

theorem client_thread_turns:
  assumes "client_thread running client_fd sv w = Some (sv', w')"
  shows "\<exists>rs t. solo_turns rs (new_client client_fd w) sv w = Some (t, sv', w') \<and> ci_phase t = ClEnded"
proof -
  let ?enter = "upd_stats (\<lambda>s. s\<lparr>st_active_connections := st_active_connections s + 1\<rparr>) sv"
  have n: "new_client client_fd w = at_phase ClSpawned client_fd w" by (simp add: new_client_def at_phase_def)
  have leave: "solo_turns [True] (at_phase ClLeave client_fd x) s x =
      Some (at_phase ClEnded client_fd (sys_close client_fd x), upd_stats (\<lambda>s. s\<lparr>st_active_connections := st_active_connections s - 1\<rparr>) s, sys_close client_fd x)"
    for s and x :: "'a world_scheme" by (simp add: client_turn_def at_phase_def)
  obtain c w1 where c: "objm_server_create client_fd w = (c, w1)" by fastforce
  have fin: "\<exists>rs t. solo_turns rs (new_client client_fd w) sv w = Some (t, sv', w') \<and> ci_phase t = ClEnded"
    if "solo_turns rs (new_client client_fd w) sv w = Some (at_phase ClLeave client_fd x, s, x)"
      "sv' = upd_stats (\<lambda>s. s\<lparr>st_active_connections := st_active_connections s - 1\<rparr>) s" "w' = sys_close client_fd x" for rs s x
    using that leave [of x s] solo_append [OF that(1), of "[True]"] by (intro exI [of _ "rs @ [True]"]) (auto simp: at_phase_def)
  show ?thesis
  proof (cases c)
    case None
    then show ?thesis using assms c by (intro fin [of "[True, True]" w1 ?enter]) (auto simp: client_thread_def n client_turn_def at_phase_def Let_def)
  next
    case (Some conn)
    obtain h conn' w2 where h: "objm_server_handshake conn server_hello w1 = (h, conn', w2)" by (metis prod_cases3)
    show ?thesis
    proof (cases h)
      case None
      then show ?thesis using assms c Some h by (intro fin [of "[True, True]" w2 ?enter]) (auto simp: client_thread_def n client_turn_def at_phase_def Let_def)
    next
      case (Some params)
      then obtain s x where l: "client_loop running 0 (p_version params) conn' ?enter w2 = Some (s, x)"
        "sv' = upd_stats (\<lambda>s. s\<lparr>st_active_connections := st_active_connections s - 1\<rparr>) s" "w' = sys_close client_fd x"
        using assms c \<open>c = Some conn\<close> h by (auto simp: client_thread_def Let_def split: bind_splits)
      obtain rs where "solo_turns rs (at_phase (ClTest (p_version params) conn') client_fd w2) ?enter w2 = Some (at_phase ClLeave client_fd x, s, x)"
        using loop_solo [OF l(1), of client_fd] by auto
      then have "solo_turns ([True, True] @ rs) (new_client client_fd w) sv w = Some (at_phase ClLeave client_fd x, s, x)"
        using c \<open>c = Some conn\<close> h Some by (simp add: n client_turn_def at_phase_def)
      then show ?thesis using l(2,3) by (rule fin)
    qed
  qed
qed

theorem client_thread_turns_witness:
  "\<exists>rs t sv' w'. solo_turns rs (new_client 3 calling_world) sample_server calling_world = Some (t, sv', w') \<and> ci_phase t = ClEnded"
proof -
  obtain sv' w' where "client_thread (\<lambda>_. True) 3 sample_server calling_world = Some (sv', w')"
    using thread_ends [OF calling_serves, of "\<lambda>_. True"] by auto
  from client_thread_turns [OF this] show ?thesis by blast
qed

end
