(* ===== verification/Server_Race.thy ===== *)
theory Server_Race
  imports Server_Main
begin

text \<open>
  The end of the object server in small steps. \<open>Server_Main\<close> takes the handling of a request as one
  turn; here a thread that has loaded \<open>g_backend_mgr\<close> for a backend call and the main thread that
  destroys the manager may overtake each other. Of the data only what decides the question is
  kept: \<open>g_running\<close>, the counter, the pointer and whether the manager it points to still exists. There
  are fewer than \<open>2 ^ 64\<close> threads.
\<close>

section \<open>Steps\<close>

text \<open>The main thread tests \<open>g_running\<close>, is in \<open>accept\<close>, looks at the counter, closes the socket, has
  destroyed the manager, has cleared the pointer, has returned and ended the process.\<close>

datatype main_pc = Testing | InAccept | Waiting | Closing | Destroyed | Cleared | Exited

text \<open>A client thread has not run yet, shakes hands, tests \<open>g_running\<close>, is in the call that receives a
  request, handles the request between two backend calls, is in a backend call with the pointer it
  has loaded (true: not \<open>NULL\<close>), leaves, has ended.\<close>

datatype thread_pc =
  Spawned | Handshaking | LoopTest | Receiving | Dispatching | InBackend bool | Leaving | Ended

record sched =
  sd_running :: bool       \<comment> \<open>\<open>g_running\<close>\<close>
  sd_main :: main_pc
  sd_threads :: "thread_pc list"
  sd_active :: nat
  sd_pointer :: bool       \<comment> \<open>\<open>g_backend_mgr\<close> is not \<open>NULL\<close>\<close>
  sd_alive :: bool         \<comment> \<open>the manager has not been destroyed\<close>

definition sched_init :: sched where
  "sched_init = \<lparr>sd_running = True, sd_main = Testing, sd_threads = [], sd_active = 0, sd_pointer = True, sd_alive = True\<rparr>"

inductive main_step :: "sched \<Rightarrow> sched \<Rightarrow> bool" where
  loop_on: "sd_main s = Testing \<Longrightarrow> sd_running s \<Longrightarrow> main_step s (s\<lparr>sd_main := InAccept\<rparr>)"
| loop_off: "sd_main s = Testing \<Longrightarrow> \<not> sd_running s \<Longrightarrow> main_step s (s\<lparr>sd_main := Waiting\<rparr>)"
| spawn: "sd_main s = InAccept \<Longrightarrow> main_step s (s\<lparr>sd_main := Testing, sd_threads := sd_threads s @ [Spawned]\<rparr>)"
| no_thread: "sd_main s = InAccept \<Longrightarrow> main_step s (s\<lparr>sd_main := Testing\<rparr>)"
| accept_error: "sd_main s = InAccept \<Longrightarrow> main_step s (s\<lparr>sd_main := Waiting\<rparr>)"
| sleep: "sd_main s = Waiting \<Longrightarrow> 0 < sd_active s \<Longrightarrow> main_step s s"
| wait_over: "sd_main s = Waiting \<Longrightarrow> sd_active s = 0 \<Longrightarrow> main_step s (s\<lparr>sd_main := Closing\<rparr>)"
| destroy: "sd_main s = Closing \<Longrightarrow> sd_pointer s \<Longrightarrow> main_step s (s\<lparr>sd_main := Destroyed, sd_alive := False\<rparr>)"
| clear: "sd_main s = Destroyed \<Longrightarrow> main_step s (s\<lparr>sd_main := Cleared, sd_pointer := False\<rparr>)"
| exit: "sd_main s = Cleared \<Longrightarrow> main_step s (s\<lparr>sd_main := Exited\<rparr>)"

text \<open>\<open>client_step running pointer pc pc' d\<close>: a step of a client thread, and what it adds to the counter.\<close>

inductive client_step :: "bool \<Rightarrow> bool \<Rightarrow> thread_pc \<Rightarrow> thread_pc \<Rightarrow> int \<Rightarrow> bool" where
  count_in: "client_step r p Spawned Handshaking 1"
| shaken: "client_step r p Handshaking LoopTest 0"
| not_shaken: "client_step r p Handshaking Leaving 0"
| test_on: "client_step True p LoopTest Receiving 0"
| test_off: "client_step False p LoopTest Leaving 0"
| request: "client_step r p Receiving Dispatching 0"
| no_request: "client_step r p Receiving Leaving 0"
| call: "client_step r p Dispatching (InBackend p) 0"
| return: "client_step r p (InBackend b) Dispatching 0"
| answered: "client_step r p Dispatching LoopTest 0"
| count_out: "client_step r p Leaving Ended (-1)"

text \<open>All threads stop when the main thread returns.\<close>

inductive sched_step :: "sched \<Rightarrow> sched \<Rightarrow> bool" where
  main: "main_step s s' \<Longrightarrow> sched_step s s'"
| client: "sd_main s \<noteq> Exited \<Longrightarrow> i < length (sd_threads s) \<Longrightarrow>
    client_step (sd_running s) (sd_pointer s) (sd_threads s ! i) t d \<Longrightarrow>
    sched_step s (s\<lparr>sd_threads := (sd_threads s)[i := t], sd_active := nat (int (sd_active s) + d)\<rparr>)"
| signal: "sched_step s (s\<lparr>sd_running := False\<rparr>)"

inductive sched_run :: "sched \<Rightarrow> sched \<Rightarrow> bool" where
  run_refl: "sched_run s s"
| run_step: "sched_run s s' \<Longrightarrow> sched_step s' s'' \<Longrightarrow> sched_run s s''"

inductive_cases main_stepE: "main_step s s'"
inductive_cases client_stepE: "client_step r p t t' d"
inductive_simps client_step_simps:
  "client_step r p Spawned t d" "client_step r p Handshaking t d" "client_step r p LoopTest t d"
  "client_step r p Leaving t d" "client_step r p Ended t d"

text \<open>A backend call that was given the pointer of a manager which is then destroyed uses freed memory; one
  that was given \<open>NULL\<close> returns \<open>-1\<close> at once.\<close>

definition uses_freed :: "sched \<Rightarrow> bool" where
  "uses_freed s \<longleftrightarrow> \<not> sd_alive s \<and> sd_main s \<noteq> Exited \<and> InBackend True \<in> set (sd_threads s)"

section \<open>The counter\<close>

definition counted_pc :: "thread_pc \<Rightarrow> bool" where
  "counted_pc t \<longleftrightarrow> t \<noteq> Spawned \<and> t \<noteq> Ended"

definition counting :: "thread_pc list \<Rightarrow> nat" where
  "counting ts = length (filter counted_pc ts)"

lemma counting_update:
  "i < length ts \<Longrightarrow> int (counting (ts[i := t])) = int (counting ts) + of_bool (counted_pc t) - of_bool (counted_pc (ts ! i))"
proof (induction ts arbitrary: i)
  case (Cons x xs)
  then show ?case by (cases i) (fastforce simp: counting_def)+
qed simp

lemma client_delta: "client_step r p t t' d \<Longrightarrow> of_bool (counted_pc t') - of_bool (counted_pc t) = d"
  by (auto simp: counted_pc_def elim: client_stepE)

lemma counting_none: "counting ts = 0 \<longleftrightarrow> set ts \<subseteq> {Spawned, Ended}"
  by (auto simp: counting_def counted_pc_def filter_empty_conv)

text \<open>The counter is exact, and the manager exists until the main thread destroys it.\<close>

definition sched_inv :: "sched \<Rightarrow> bool" where
  "sched_inv s \<longleftrightarrow> sd_active s = counting (sd_threads s) \<and>
     (sd_alive s \<longleftrightarrow> sd_main s \<in> {Testing, InAccept, Waiting, Closing})"

lemma step_inv: "sched_step s s' \<Longrightarrow> sched_inv s \<Longrightarrow> sched_inv s'"
proof (induction rule: sched_step.induct)
  case (main s s')
  then show ?case by (auto elim!: main_stepE simp: sched_inv_def counting_def counted_pc_def)
next
  case (client s i t d)
  then show ?case using counting_update [of i "sd_threads s" t] client_delta [OF client(3)] by (simp add: sched_inv_def)
qed (simp add: sched_inv_def)

lemma run_inv: "sched_run s s' \<Longrightarrow> sched_inv s \<Longrightarrow> sched_inv s'"
  by (induction rule: sched_run.induct) (auto dest: step_inv)

section \<open>The wait\<close>

text \<open>
  The main thread has left the accept loop. A thread that has not run yet when the wait is over
  does no harm once \<open>g_running\<close> is cleared: it leaves at its first test. Without the signal there must be no
  such thread.
\<close>

definition idle_pc :: "thread_pc \<Rightarrow> bool" where
  "idle_pc t \<longleftrightarrow> t \<in> {Spawned, Handshaking, LoopTest, Leaving, Ended}"

definition waits :: "sched \<Rightarrow> bool" where
  "waits s \<longleftrightarrow> sd_main s \<noteq> Testing \<and> sd_main s \<noteq> InAccept \<and> (sd_running s \<longrightarrow> Spawned \<notin> set (sd_threads s)) \<and>
     (sd_main s \<noteq> Waiting \<longrightarrow> (\<forall>t \<in> set (sd_threads s). idle_pc t \<and> (sd_running s \<longrightarrow> t = Ended)))"

lemma idle_step:
  assumes "client_step r p t t' d" "idle_pc t" "r \<longrightarrow> t = Ended" shows "idle_pc t'" "r \<longrightarrow> t' = Ended"
  using assms by (auto simp: idle_pc_def client_step_simps)

lemma no_spawned_step: "client_step r p t t' d \<Longrightarrow> t' \<noteq> Spawned"
  by (auto elim: client_stepE)

lemma waits_step: "sched_step s s' \<Longrightarrow> sched_inv s \<Longrightarrow> waits s \<Longrightarrow> waits s'"
proof (induction rule: sched_step.induct)
  case (main s s')
  then show ?case
    by (auto elim!: main_stepE simp: waits_def sched_inv_def idle_pc_def counting_none)
next
  case (client s i t d)
  have "sd_threads s ! i \<in> set (sd_threads s)" using client(2) by simp
  then have "sd_main s \<noteq> Waiting \<longrightarrow> idle_pc t \<and> (sd_running s \<longrightarrow> t = Ended)"
    using idle_step [OF client(3)] client(5) by (auto simp: waits_def)
  then show ?case using client(5) no_spawned_step [OF client(3)] set_update_subset_insert [of "sd_threads s" i t]
    by (auto simp: waits_def)
qed (simp add: waits_def)

lemma waits_safe: "sched_inv s \<Longrightarrow> waits s \<Longrightarrow> \<not> uses_freed s"
  by (auto simp: sched_inv_def waits_def uses_freed_def idle_pc_def)

lemma run_waits: "sched_run s s' \<Longrightarrow> sched_inv s \<Longrightarrow> waits s \<Longrightarrow> waits s'"
  by (induction rule: sched_run.induct) (auto dest: run_inv intro: waits_step)

lemma init_inv: "sched_inv sched_init"
  by (simp add: sched_init_def sched_inv_def counting_def)

lemma run_main: "sched_run s s' \<Longrightarrow> main_step s' s'' \<Longrightarrow> sched_run s s''"
  by (rule run_step [OF _ main])

lemma run_client:
  assumes "sched_run s s'" "client_step (sd_running s') (sd_pointer s') (sd_threads s' ! 0) t d" "sd_main s' \<noteq> Exited" "sd_threads s' \<noteq> []"
  shows "sched_run s (s'\<lparr>sd_threads := (sd_threads s')[0 := t], sd_active := nat (int (sd_active s') + d)\<rparr>)"
  using run_step [OF assms(1) client [OF assms(3) _ assms(2)]] assms(4) by simp

text \<open>Two threads of control, before and after the main thread has found the counter at zero.\<close>

definition pair :: "main_pc \<Rightarrow> thread_pc \<Rightarrow> nat \<Rightarrow> bool \<Rightarrow> sched" where
  "pair m t n alive = \<lparr>sd_running = True, sd_main = m, sd_threads = [t], sd_active = n, sd_pointer = True, sd_alive = alive\<rparr>"

lemma run_pair_main: "sched_run s (pair m t n a) \<Longrightarrow> main_step (pair m t n a) (pair m' t n a') \<Longrightarrow> sched_run s (pair m' t n a')"
  by (rule run_main)

lemma run_pair_client:
  "sched_run s (pair m t n a) \<Longrightarrow> client_step True True t t' d \<Longrightarrow> m \<noteq> Exited \<Longrightarrow> sched_run s (pair m t' (nat (int n + d)) a)"
  using run_client [of s "pair m t n a" t' d] by (simp add: pair_def)

lemma pair_steps:
  "main_step (pair Testing t n True) (pair InAccept t n True)" "main_step (pair InAccept t n True) (pair Waiting t n True)"
  "main_step (pair Waiting t 0 True) (pair Closing t 0 True)" "main_step (pair Closing t n True) (pair Destroyed t n False)"
  using main_step.intros(1,5,7,8) [of "pair _ t _ True"] by (force simp: pair_def)+

lemma run_spawned: "sched_run sched_init (pair Testing Spawned 0 True)"
proof -
  have "sched_run sched_init (sched_init\<lparr>sd_main := InAccept\<rparr>)" by (rule run_main [OF run_refl loop_on]) (simp_all add: sched_init_def)
  from run_main [OF this spawn] show ?thesis by (simp add: sched_init_def pair_def)
qed

text \<open>The interleaving in which \<open>accept\<close> fails right after a thread was created.\<close>

lemma run_freed: "sched_run sched_init (pair Destroyed (InBackend True) 1 False)"
proof -
  note r = run_pair_main [OF run_pair_main [OF run_pair_main [OF run_spawned pair_steps(1)] pair_steps(2)] pair_steps(3)]
  note r1 = run_pair_client [OF r count_in, simplified]
  note r2 = run_pair_client [OF r1 shaken, simplified] note r3 = run_pair_client [OF r2 test_on, simplified]
  note r4 = run_pair_client [OF r3 request, simplified] note r5 = run_pair_client [OF r4 call, simplified]
  show ?thesis using run_pair_main [OF r5 pair_steps(4)] by simp
qed

text \<open>
  C37: The shutdown of the server is safe after a signal and not after a failed \<open>accept\<close>. From every
  reachable state in which the main thread waits, and \<open>g_running\<close> has been cleared or every created thread has counted
  itself, no interleaving leads to a backend call that works on the destroyed manager: the wait
  ends when no thread is counted, and a thread that counts itself later leaves at its first test. But
  when \<open>accept\<close> fails while \<open>g_running\<close> is still set, a thread that was created and has not counted itself is
  not waited for: there is an interleaving in which it loads \<open>g_backend_mgr\<close> for a call, and the main thread
  destroys the manager under it.
\<close>

theorem shutdown_race:
  "(\<forall>s. sched_run sched_init s \<and> sd_main s = Waiting \<and> (sd_running s \<longrightarrow> Spawned \<notin> set (sd_threads s)) \<longrightarrow>
      (\<forall>s'. sched_run s s' \<longrightarrow> \<not> uses_freed s')) \<and>
   (\<exists>s. sched_run sched_init s \<and> sd_running s \<and> uses_freed s)"
proof (intro conjI allI impI)
  fix s s' assume s: "sched_run sched_init s \<and> sd_main s = Waiting \<and> (sd_running s \<longrightarrow> Spawned \<notin> set (sd_threads s))"
    and r: "sched_run s s'"
  then have "sched_inv s" "waits s" using run_inv [OF _ init_inv] by (auto simp: waits_def)
  then show "\<not> uses_freed s'" using run_inv [OF r] run_waits [OF r] waits_safe [of s'] by simp
next
  show "\<exists>s. sched_run sched_init s \<and> sd_running s \<and> uses_freed s"
    using run_freed by (intro exI [of _ "pair Destroyed (InBackend True) 1 False"]) (simp add: pair_def uses_freed_def)
qed

text \<open>After the signal the thread that was not waited for leaves.\<close>

theorem shutdown_race_witness:
  "let s = (pair Waiting Spawned 0 True)\<lparr>sd_running := False\<rparr> in
     sched_run sched_init s \<and> (\<forall>s'. sched_run s s' \<longrightarrow> \<not> uses_freed s')"
proof -
  have "sched_run sched_init (pair Waiting Spawned 0 True)"
    by (rule run_pair_main [OF run_pair_main [OF run_spawned pair_steps(1)] pair_steps(2)])
  from run_step [OF this signal] have "sched_run sched_init ((pair Waiting Spawned 0 True)\<lparr>sd_running := False\<rparr>)" .
  then show ?thesis
    using conjunct1 [OF shutdown_race, rule_format, of "(pair Waiting Spawned 0 True)\<lparr>sd_running := False\<rparr>"] by (simp add: Let_def pair_def)
qed

end
