(* ===== verification/Server_Descriptors.thy ===== *)
theory Server_Descriptors
  imports Server_Ends Net
begin

text \<open>
  The descriptors of the object server. A connection leaves none behind: whatever is requested and
  whatever fails, what a handler opens it closes. But the entry of an object that was created keeps the
  number of a descriptor that was closed, and the deletion of the object closes whatever has this
  number by then.
\<close>

section \<open>Opening and closing\<close>

text \<open>\<open>sheds w w'\<close>: no descriptor is new. \<open>adds fd w w'\<close>: at most \<open>fd\<close> is.\<close>

definition sheds :: "'a os_scheme \<Rightarrow> 'a os_scheme \<Rightarrow> bool" where
  "sheds w w' \<longleftrightarrow> (\<forall>x d. fd_obj w' x = Some d \<longrightarrow> fd_obj w x = Some d)"

definition adds :: "int \<Rightarrow> 'a os_scheme \<Rightarrow> 'a os_scheme \<Rightarrow> bool" where
  "adds fd w w' \<longleftrightarrow> (\<forall>x d. x \<noteq> fd \<longrightarrow> fd_obj w' x = Some d \<longrightarrow> fd_obj w x = Some d)"

lemma sheds_refl [simp]: "sheds w w"
  by (simp add: sheds_def)

lemma sheds_trans: "sheds w w' \<Longrightarrow> sheds w' w'' \<Longrightarrow> sheds w w''"
  by (simp add: sheds_def)

lemma adds_sheds: "adds fd w w' \<Longrightarrow> sheds w' w'' \<Longrightarrow> adds fd w w''" "sheds w w' \<Longrightarrow> adds fd w' w'' \<Longrightarrow> adds fd w w''"
  "sheds w w' \<Longrightarrow> adds fd w w'"
  by (simp_all add: adds_def sheds_def)

lemma adds_none: "adds fd w w' \<Longrightarrow> fd < 0 \<Longrightarrow> sheds w w'"
  unfolding adds_def sheds_def by (metis fd_obj_neg option.distinct(1))

lemma adds_closed: "adds fd w w' \<Longrightarrow> sheds w (sys_close fd w')"
  by (auto simp: adds_def sheds_def fd_obj_close split: if_splits)

lemma sheds_same: "(\<And>x. fd_obj w' x = fd_obj w x) \<Longrightarrow> sheds w w'"
  by (simp add: sheds_def)

lemma sheds_close: "sheds w (sys_close fd w)"
  by (auto simp: sheds_def fd_obj_close split: if_splits)

section \<open>Calls\<close>

lemma sheds_fault: "fault s = (b, s') \<Longrightarrow> sheds s s'"
  by (auto intro!: sheds_same elim!: fault_frame)

lemma sheds_unlink: "sheds s (sys_unlink p s)"
  by (auto simp: sys_unlink_def fd_obj_def intro!: sheds_same split: prod.splits elim!: fault_frame)

lemma sheds_mkdir: "sys_mkdir p s = (r, s') \<Longrightarrow> sheds s s'"
  by (auto simp: sys_mkdir_def fd_obj_def intro!: sheds_same split: prod.splits if_splits elim!: fault_frame)

lemma adds_open: "sys_open acc p s = (fd, s') \<Longrightarrow> adds fd s s'"
  using sys_open_result(2) unfolding adds_def by metis

lemma adds_creat:
  assumes "sys_open_creat acc p s = (fd, s')" shows "adds fd s s'"
proof -
  obtain b s1 where b: "fault s = (b, s1)" by (cases "fault s")
  have n: "adds k x y" if "new_ofd i acc x = (k, y)" for i k and x y :: "'a os_scheme"
    using new_ofd_result(4) [OF that] by (simp add: adds_def)
  have "adds fd s1 s'"
    using assms unfolding sys_open_creat_def Let_def by (auto simp: b adds_def [of _ s1] split: if_splits option.splits dest!: n [unfolded adds_def])
  with sheds_fault [OF b] show ?thesis by (rule adds_sheds(2))
qed

lemma sheds_transfer:
  "send_all buf s = (r, s') \<Longrightarrow> sheds s s'" "recv_all n s = (x, s') \<Longrightarrow> sheds s s'"
  "send_fd fd s = (ok, s') \<Longrightarrow> sheds s s'" "sock_peek s = (y, s') \<Longrightarrow> sheds s s'"
  by (auto simp: send_fd_def sock_sendmsg_fd_def sock_peek_def Let_def intro!: sheds_same dest!: send_all_shape recv_all_shape
      split: if_splits option.splits list.splits)

section \<open>Index and backends\<close>

lemma sheds_heap [simp]: "sheds w (w'\<lparr>heap := h\<rparr>) = sheds w w'" "sheds w (w'\<lparr>next_addr := n\<rparr>) = sheds w w'"
  "adds fd w (w'\<lparr>heap := h\<rparr>) = adds fd w w'"
  by (simp_all add: sheds_def adds_def)

lemma sheds_upd_entry: "upd_entry a f w = Some w' \<Longrightarrow> sheds w w'"
  by (auto simp: upd_entry_iff)

lemma sheds_entry_ops:
  "index_entry_get a w = Some w' \<Longrightarrow> sheds w w'" "index_entry_record_access a w = Some w' \<Longrightarrow> sheds w w'"
  "store_next b prev nxt bs w = Some (bs', w') \<Longrightarrow> sheds w w'" "index_entry_put a w = Some w' \<Longrightarrow> sheds w w'"
  by (auto simp: index_entry_get_def index_entry_record_access_def store_next_def index_entry_put_def Let_def sheds_close
      dest!: sheds_upd_entry split: option.splits if_splits)

lemma sheds_entry_create: "index_entry_create u i p w = (r, w') \<Longrightarrow> sheds w w'"
  by (auto simp: index_entry_create_def Let_def dest!: sheds_fault intro: sheds_trans split: prod.splits if_splits)

lemmas sheds_laws = sheds_fault sheds_upd_entry sheds_entry_ops sheds_entry_create

lemma sheds_index_ops:
  "global_index_insert idx a w = Some (ok, idx', w') \<Longrightarrow> sheds w w'"
  "global_index_remove idx u w = Some (ok, idx', w') \<Longrightarrow> sheds w w'"
  "backend_index_insert bidx a w = Some (bidx', w') \<Longrightarrow> sheds w w'"
  "backend_index_remove bidx u w = Some (ok, bidx', w') \<Longrightarrow> sheds w w'"
  by (auto simp: global_index_insert_def global_index_remove_def backend_index_insert_def backend_index_remove_def Let_def
      dest!: sheds_laws split: run_splits elim!: bind_SomeE; blast intro: sheds_trans sheds_close)+

text \<open>The descriptor of a reference; none for a missing one.\<close>

definition ref_fd :: "fd_ref option \<Rightarrow> int" where
  "ref_fd r = (case r of None \<Rightarrow> -1 | Some r \<Rightarrow> fr_fd r)"

lemma adds_open_for_lookup: "open_for_lookup p w = (fd, w') \<Longrightarrow> adds fd w w'"
  by (auto simp: open_for_lookup_def adds_sheds(3) dest!: adds_open intro: adds_sheds(2) adds_none split: option.splits prod.splits if_splits)

lemma adds_lookup:
  "global_index_lookup idx u w = Some (r, idx', w') \<Longrightarrow> adds (ref_fd r) w w' \<and> (\<forall>x. r = Some x \<longrightarrow> fr_entry x \<noteq> None)"
  by (auto simp: global_index_lookup_def ref_fd_def Let_def adds_sheds(3) dest!: sheds_laws adds_open_for_lookup
      split: run_splits elim!: bind_SomeE; blast intro: adds_sheds(1,2) sheds_trans)

lemma sheds_release:
  assumes "fd_ref_release r w' = Some (r', w'')" "adds (fr_fd r) w w'" "fr_entry r \<noteq> None" shows "sheds w w''"
  using assms adds_closed [OF assms(2)] adds_none [OF assms(2)]
  by (auto simp: fd_ref_release_def dest!: sheds_laws intro: sheds_trans split: run_splits elim!: bind_SomeE)

lemma adds_get_object:
  "backend_get_object u mgr w = Some (r, mgr', w') \<Longrightarrow> adds (ref_fd r) w w' \<and> (\<forall>x. r = Some x \<longrightarrow> fr_entry x \<noteq> None)"
  by (auto simp: backend_get_object_def manager_lookup_def Let_def dest!: adds_lookup sheds_laws
      intro: adds_sheds split: run_splits elim!: bind_SomeE)

lemma sheds_delete_object:
  assumes "backend_delete_object u mgr w = Some (res, mgr', w')" shows "sheds w w'"
proof -
  obtain found m1 w1 where l: "manager_lookup u mgr w = Some (found, m1, w1)"
    using assms by (auto simp: backend_delete_object_def elim!: bind_SomeE)
  have a: "adds (ref_fd found) w w1" "\<forall>x. found = Some x \<longrightarrow> fr_entry x \<noteq> None"
    using l by (auto simp: manager_lookup_def dest!: adds_lookup elim!: bind_SomeE)
  show ?thesis
  proof (cases found)
    case None
    then show ?thesis using assms l adds_none [OF a(1)] by (simp add: backend_delete_object_def ref_fd_def)
  next
    case (Some r)
    have d: "sheds w x'" if "fd_ref_release r x = Some (r', x')" "sheds w1 x" for x x' r'
      using sheds_release [OF that(1) adds_sheds(1) [OF _ that(2)]] a Some by (simp add: ref_fd_def)
    have s: "sheds w1 x2" if "backend_index_remove bi u (unlink_path p w1) = Some (ok, bi', x1)"
      "global_index_remove gi u x1 = Some (ok', gi', x2)" for p bi ok bi' x1 gi ok' gi' x2
    proof -
      have "sheds w1 (unlink_path p w1)" by (simp add: unlink_path_def sheds_unlink split: option.split)
      then show ?thesis using sheds_index_ops(4) [OF that(1)] sheds_index_ops(2) [OF that(2)] by (blast intro: sheds_trans)
    qed
    show ?thesis
      by (insert assms l Some, auto simp: backend_delete_object_def release_with_def Let_def split: option.splits elim!: bind_SomeE;
          (rule d, assumption, rule sheds_refl | rule d, assumption, erule s, assumption))
  qed
qed

lemma sheds_prefixes: "mkdir_prefixes tmp is w = (r, w') \<Longrightarrow> sheds w w'"
proof (induction tmp "is" w rule: mkdir_prefixes.induct)
  case (2 tmp i "is" w)
  obtain x t where "sys_mkdir (take i tmp) w = (x, t)" by (cases "sys_mkdir (take i tmp) w")
  with 2 sheds_mkdir [OF this] show ?case by (cases x) (auto intro: sheds_trans split: if_splits)
qed simp

lemma sheds_mkdir_p: "mkdir_p p w = Some (r, w') \<Longrightarrow> sheds w w'"
  by (auto simp: mkdir_p_def Let_def dest!: sheds_prefixes sheds_mkdir intro: sheds_trans split: run_splits mkdir_result.splits)

lemma adds_backing: "create_backing_file p w = Some (fd, w') \<Longrightarrow> adds fd w w'"
  by (auto simp: create_backing_file_def dest!: sheds_mkdir_p adds_creat intro: adds_sheds split: run_splits elim!: bind_SomeE)

text \<open>After the file was made, nothing else is opened.\<close>

lemma sheds_entered:
  assumes "index_entry_create u i p w = (Some a, w1)" "upd_entry a f w1 = Some w2" "global_index_insert gi a w2 = Some (ok, gi', w3)"
  shows "sheds w w3" "index_entry_put a w3 = Some w4 \<Longrightarrow> sheds w w4"
    and "backend_index_insert bi a w3 = Some (bi', w4) \<Longrightarrow> upd_entry a g w4 = Some w5 \<Longrightarrow> index_entry_get a w5 = Some w6 \<Longrightarrow> sheds w w6"
proof -
  show 1: "sheds w w3" using sheds_laws(7) [OF assms(1)] sheds_upd_entry [OF assms(2)] sheds_index_ops(1) [OF assms(3)] by (meson sheds_trans)
  show "index_entry_put a w3 = Some w4 \<Longrightarrow> sheds w w4" using 1 sheds_entry_ops(4) by (meson sheds_trans)
  show "backend_index_insert bi a w3 = Some (bi', w4) \<Longrightarrow> upd_entry a g w4 = Some w5 \<Longrightarrow> index_entry_get a w5 = Some w6 \<Longrightarrow> sheds w w6"
    using 1 sheds_index_ops(3) sheds_upd_entry sheds_entry_ops(1) by (meson sheds_trans)
qed

lemma adds_create_object:
  assumes "backend_create_object req mgr w = Some (r, mgr', w')"
  shows "adds (ref_fd r) w w' \<and> (\<forall>x. r = Some x \<longrightarrow> fr_entry x \<noteq> None)"
proof (cases "create_target req mgr")
  case (Some t)
  obtain i b where t: "t = (i, b)" by fastforce
  with Some assms obtain m fd w1 where f: "b_mount_path b = Some m" "create_backing_file (snprintf_buf 1024 (m @ or_uri req)) w = Some (fd, w1)"
    by (auto simp: backend_create_object_def Let_def elim!: bind_SomeE)
  note a = adds_backing [OF f(2)]
  have c: "adds (-1) w (sys_unlink p (sys_close fd x))" if "sheds w1 x" for p x
    using adds_closed [OF adds_sheds(1) [OF a that]] sheds_unlink by (blast intro: adds_sheds(3) sheds_trans)
  have n: "fd < 0 \<Longrightarrow> adds (-1) w w1" using adds_none [OF a] by (rule adds_sheds(3))
  show ?thesis
    by (insert assms Some t f n, auto simp: backend_create_object_def ref_fd_def Let_def split: run_splits elim!: bind_SomeE;
        (rule c, erule sheds_entry_create | rule c, erule sheds_entered(2), assumption+ | rule adds_sheds(1) [OF a], erule sheds_entered(3), assumption+))
qed (use assms in \<open>auto simp: backend_create_object_def ref_fd_def adds_sheds(3)\<close>)

section \<open>Requests\<close>

lemma sheds_send_response: "objm_server_send_response conn resp w = (ok, w') \<Longrightarrow> sheds w w'"
  by (auto simp: objm_server_send_response_def dest!: sheds_transfer(1,3) intro: sheds_trans split: run_splits)

lemma sheds_send_error: "objm_server_send_error conn i st msg w = Some (r, w') \<Longrightarrow> sheds w w'"
  by (auto simp: objm_server_send_error_def objm_metadata_create_def Let_def dest!: sheds_fault sheds_send_response intro: sheds_trans
      split: run_splits elim!: bind_SomeE)

text \<open>A reference that was got, or made, is released in the end.\<close>

lemma got_released:
  assumes "backend_get_object u mgr w = Some (Some r, mgr', w1)" "fd_ref_release r w2 = Some (r', w3)" "sheds w1 w2" shows "sheds w w3"
  using adds_get_object [OF assms(1)] by (intro sheds_release [OF assms(2) adds_sheds(1) [OF _ assms(3)]]) (simp_all add: ref_fd_def)

lemma made_released:
  assumes "backend_create_object req mgr w = Some (Some r, mgr', w1)" "fd_ref_release r w2 = Some (r', w3)" "sheds w1 w2" shows "sheds w w3"
  using adds_create_object [OF assms(1)] by (intro sheds_release [OF assms(2) adds_sheds(1) [OF _ assms(3)]]) (simp_all add: ref_fd_def)

lemma sheds_missing:
  "backend_get_object u mgr w = Some (None, mgr', w1) \<Longrightarrow> sheds w w1"
  "backend_create_object req mgr w = Some (None, mgr', w1) \<Longrightarrow> sheds w w1"
  using adds_none [of "ref_fd None"] adds_get_object adds_create_object by (fastforce simp: ref_fd_def)+

lemma sheds_get:
  assumes "handle_get conn req sv w = Some (ok, sv', w')" shows "sheds w w'"
  by (insert assms, auto simp: handle_get_def Let_def split: run_splits elim!: bind_SomeE;
      (rule sheds_trans [OF sheds_missing(1) sheds_send_error], assumption+
      | erule got_released, assumption, erule sheds_send_response
      | rule sheds_trans [OF got_released [OF _ _ sheds_refl] sheds_send_error], assumption+))

lemma sheds_made:
  assumes "backend_create_object req mgr w = Some (c, mgr', w1)"
  shows "c = None \<Longrightarrow> objm_server_send_error conn i st msg w1 = Some (b, w') \<Longrightarrow> sheds w w'"
    and "c = Some r \<Longrightarrow> objm_server_send_response conn resp w1 = (ok, w2) \<Longrightarrow> fd_ref_release r w2 = Some (r', w') \<Longrightarrow> sheds w w'"
    and "c = Some r \<Longrightarrow> fd_ref_release r w1 = Some (r', w2) \<Longrightarrow> objm_server_send_error conn i st msg w2 = Some (b, w') \<Longrightarrow> sheds w w'"
proof -
  show "sheds w w'" if "c = None" "objm_server_send_error conn i st msg w1 = Some (b, w')"
    using sheds_trans [OF sheds_missing(2) sheds_send_error] assms that by blast
  show "sheds w w'" if "c = Some r" "objm_server_send_response conn resp w1 = (ok, w2)" "fd_ref_release r w2 = Some (r', w')"
    using made_released [OF _ that(3) sheds_send_response [OF that(2)]] assms that(1) by blast
  show "sheds w w'" if "c = Some r" "fd_ref_release r w1 = Some (r', w2)" "objm_server_send_error conn i st msg w2 = Some (b, w')"
    using sheds_trans [OF made_released [OF _ that(2) sheds_refl] sheds_send_error [OF that(3)]] assms that(1) by blast
qed

lemma sheds_put:
  assumes "handle_put conn req sv w = Some (ok, sv', w')" shows "sheds w w'"
proof -
  obtain found m1 w1 m2 w2 where g: "backend_get_object (req_uri req) (sv_mgr sv) w = Some (found, m1, w1)"
    and d: "(case found of None \<Rightarrow> Some (m1, w1)
          | Some r \<Rightarrow> do { (_, w) \<leftarrow> fd_ref_release r w1; (_, mgr, w) \<leftarrow> backend_delete_object (req_uri req) m1 w; Some (mgr, w) }) = Some (m2, w2)"
    using assms by (auto simp: handle_put_def elim!: bind_SomeE)
  have 1: "sheds w w2"
    by (insert g d, auto split: option.splits elim!: bind_SomeE;
        (erule sheds_missing(1) | rule sheds_trans [OF got_released [OF _ _ sheds_refl] sheds_delete_object], assumption+))
  have "sheds w2 w'"
    by (insert assms g d, auto simp: handle_put_def Let_def split: run_splits elim!: bind_SomeE;
        (erule sheds_made(1), rule refl, assumption | erule sheds_made(2), rule refl, assumption+ | erule sheds_made(3), rule refl, assumption+))
  with 1 show ?thesis by (rule sheds_trans)
qed

lemma sheds_delete: "handle_delete conn req uri sv w = Some (ok, sv', w') \<Longrightarrow> sheds w w'"
  by (auto simp: handle_delete_def Let_def dest!: sheds_delete_object sheds_send_response sheds_send_error intro: sheds_trans
      split: run_splits elim!: bind_SomeE)

lemma sheds_list: "handle_list conn req sv w = Some (ok, sv', w') \<Longrightarrow> sheds w w'"
  by (auto simp: handle_list_def Let_def dest!: sheds_fault sheds_send_response sheds_send_error intro: sheds_trans
      split: run_splits elim!: bind_SomeE)

lemma sheds_serve:
  assumes "serve_request conn req sv w = Some (sv', w')" shows "sheds w w'"
  by (insert assms, auto simp: serve_request_def strdup_def Let_def split: run_splits elim!: bind_SomeE;
      (rule sheds_trans [OF sheds_fault sheds_delete], assumption+ | erule sheds_list
      | rule sheds_trans [OF sheds_missing(1) sheds_put], assumption+
      | rule sheds_trans [OF got_released [OF _ _ sheds_refl] sheds_get], assumption+))

section \<open>Connections\<close>

lemma sheds_recv_request: "objm_server_recv_request conn s = (res, conn', s') \<Longrightarrow> sheds s s'"
  by (drule in_frame_recv_request) (auto simp: in_frame_def intro!: sheds_same)

lemma sheds_handshake: "objm_server_handshake conn h s = (res, conn', s') \<Longrightarrow> sheds s s'"
  by (auto simp: objm_server_handshake_def Let_def dest!: sheds_transfer intro: sheds_trans split: run_splits)

lemma sheds_server_create: "objm_server_create fd s = (r, s') \<Longrightarrow> sheds s s'"
  by (auto simp: objm_server_create_def dest!: sheds_fault split: run_splits)

lemma sheds_loop:
  assumes "client_loop running n version conn sv w = Some res" shows "sheds w (snd res)"
  using assms
proof (rule client_loop.raw_induct [rotated])
  fix f :: "(nat \<Rightarrow> bool) \<Rightarrow> nat \<Rightarrow> objm_version \<Rightarrow> objm_connection \<Rightarrow> server \<Rightarrow> 'a world_scheme \<Rightarrow> (server \<times> 'a world_scheme) option"
    and running n version conn sv w res
  assume ih: "\<And>running n version conn sv w res. f running n version conn sv w = Some res \<Longrightarrow> sheds w (snd res)"
  assume "(if \<not> running n then Some (sv, w)
      else case objm_server_recv_request conn w of
             (RecvRequest req, conn, w) \<Rightarrow>
               (case serve_request conn req
                       (upd_stats (\<lambda>s. s\<lparr>st_requests_total := st_requests_total s + 1\<rparr>) sv) w of
                  None \<Rightarrow> None
                | Some (sv, w) \<Rightarrow> f running (Suc n) version conn sv w)
           | (RecvClose, conn, w) \<Rightarrow> Some (sv, w)
           | (RecvError, conn, w) \<Rightarrow>
               Some (if version = OBJM_PROTO_V1 then sv else upd_stats (\<lambda>s. s\<lparr>st_errors := st_errors s + 1\<rparr>) sv, w)) = Some res"
  then show "sheds w (snd res)"
    by (auto dest!: ih sheds_recv_request sheds_serve intro: sheds_trans split: run_splits recv_request_result.splits)
qed

text \<open>
  C10: A connection leaves no descriptor behind. When the thread of a client has ended, whatever the
  client sent and whichever calls failed, the descriptor of the connection is closed and every
  descriptor that is open was open before it started, for the same open file: each file that was
  opened or created for a request has been closed again.
\<close>

theorem connection_leaks_nothing:
  assumes "client_thread running client_fd sv w = Some (sv', w')"
  shows "fd_obj w' client_fd = None \<and> (\<forall>fd d. fd_obj w' fd = Some d \<longrightarrow> fd_obj w fd = Some d)"
proof -
  obtain c w1 where c: "objm_server_create client_fd w = (c, w1)" by fastforce
  have "\<exists>x. w' = sys_close client_fd x \<and> sheds w1 x"
    using assms c by (auto simp: client_thread_def Let_def dest!: sheds_handshake sheds_loop intro: sheds_trans sheds_refl
      split: run_splits elim!: bind_SomeE; blast intro: sheds_trans)
  then obtain x where x: "w' = sys_close client_fd x" "sheds w1 x" by blast
  have "sheds w w'" using sheds_trans [OF sheds_server_create [OF c] x(2)] sheds_close [of x client_fd] x(1) by (auto intro: sheds_trans)
  then show ?thesis using x(1) by (auto simp: sheds_def fd_obj_close)
qed

theorem connection_leaks_nothing_witness:
  "\<exists>sv' w'. client_thread (\<lambda>_. True) 3 sample_server calling_world = Some (sv', w') \<and> (\<forall>fd. fd_obj w' fd = None)"
proof -
  obtain sv' w' where t: "client_thread (\<lambda>_. True) 3 sample_server calling_world = Some (sv', w')"
    using thread_ends [OF calling_serves, of "\<lambda>_. True"] by auto
  have "fd_obj calling_world fd = None" for fd by (simp add: calling_world_def fd_obj_def)
  then show ?thesis using connection_leaks_nothing [OF t] t by fastforce
qed

lemma sheds_None: "sheds w w' \<Longrightarrow> fd_obj w x = None \<Longrightarrow> fd_obj w' x = None"
  by (cases "fd_obj w' x") (auto simp: sheds_def)

lemma sheds_released:
  assumes "fd_ref_release r w = Some (r', w')" shows "sheds w w'"
  by (insert assms, auto simp: fd_ref_release_def split: option.splits if_splits elim!: bind_SomeE;
      (rule sheds_trans [OF sheds_trans [OF sheds_close sheds_upd_entry] sheds_entry_ops(4)], assumption+ | erule sheds_entry_ops(4)))

section \<open>A number that outlives its descriptor\<close>

text \<open>\<open>holds_fd a u x w\<close>: the entry at \<open>a\<close> is that of \<open>u\<close> and has the number \<open>x\<close>.\<close>

definition holds_fd :: "addr \<Rightarrow> string \<Rightarrow> int \<Rightarrow> 'a world_scheme \<Rightarrow> bool" where
  "holds_fd a u x w \<longleftrightarrow> (\<exists>e. heap w a = Some e \<and> entry_matches (index_hash_string u) u e \<and> ie_fd e = x)"

definition same_key :: "(index_entry \<Rightarrow> index_entry) \<Rightarrow> bool" where
  "same_key f \<longleftrightarrow> (\<forall>e h u. entry_matches h u (f e) = entry_matches h u e \<and> ie_fd (f e) = ie_fd e)"

lemma holds_upd: "upd_entry b f w = Some w' \<Longrightarrow> same_key f \<Longrightarrow> holds_fd a u x w \<Longrightarrow> holds_fd a u x w'"
  by (auto simp: upd_entry_iff holds_fd_def same_key_def)

lemma same_keys [simp]:
  "same_key (\<lambda>e. e\<lparr>ie_entry_refcount := g e\<rparr>)" "same_key (\<lambda>e. e\<lparr>ie_fd_refcount := g1 e\<rparr>)"
  "same_key (\<lambda>e. e\<lparr>ie_next := g2 e\<rparr>)" "same_key (\<lambda>e. e\<lparr>ie_access_count := g3 e, ie_last_access := g4 e\<rparr>)"
  "same_key (\<lambda>e. e\<lparr>ie_size_bytes := g5 e, ie_flags := g6 e\<rparr>)"
  by (simp_all add: same_key_def entry_matches_def)

lemma holds_entry_ops:
  "index_entry_get b w = Some w' \<Longrightarrow> holds_fd a u x w \<Longrightarrow> holds_fd a u x w'"
  "index_entry_record_access b w = Some w' \<Longrightarrow> holds_fd a u x w \<Longrightarrow> holds_fd a u x w'"
  "store_next k prev nxt bs w = Some (bs', w') \<Longrightarrow> holds_fd a u x w \<Longrightarrow> holds_fd a u x w'"
  "backend_index_insert bi b w = Some (bi', w') \<Longrightarrow> holds_fd a u x w \<Longrightarrow> holds_fd a u x w'"
  by (auto simp: index_entry_get_def index_entry_record_access_def store_next_def backend_index_insert_def Let_def
      elim!: bind_SomeE dest!: holds_upd split: option.splits)

lemma holds_put: "index_entry_put b w = Some w' \<Longrightarrow> holds_fd a u x w \<Longrightarrow> heap w' a \<noteq> None \<Longrightarrow> holds_fd a u x w'"
  by (auto simp: index_entry_put_def Let_def split: option.splits if_splits dest!: holds_upd)
     (auto simp: holds_fd_def)

lemma holds_backend_remove:
  assumes "backend_index_remove bi v w = Some (ok, bi', w')" "holds_fd a u x w" "heap w' a \<noteq> None" shows "holds_fd a u x w'"
proof -
  have "w' = w \<or> (\<exists>k prev nxt bs bs' w1 b. store_next k prev nxt bs w = Some (bs', w1) \<and> index_entry_put b w1 = Some w')"
    using assms(1) by (fastforce simp: backend_index_remove_def Let_def split: option.splits elim!: bind_SomeE)
  then show ?thesis using assms(2,3) holds_entry_ops(3) holds_put by blast
qed

text \<open>The bucket of the object starts with its entry.\<close>

definition heads_bucket :: "global_index \<Rightarrow> string \<Rightarrow> addr \<Rightarrow> bool" where
  "heads_bucket idx u a \<longleftrightarrow> bucket_at (gi_buckets idx) (bucket_of (gi_num_buckets idx) (index_hash_string u)) = Some (Some a)"

lemma head_located: "holds_fd a u x w \<Longrightarrow> chain_locate (heap w) (index_hash_string u) u prev (Some a) = Some (Some (prev, a))"
  by (subst chain_locate.simps) (auto simp: holds_fd_def)

lemma head_missing: "heap w a = None \<Longrightarrow> chain_locate (heap w) h u prev (Some a) = None"
  by (subst chain_locate.simps) simp

lemma holds_lookup:
  assumes "manager_lookup u mgr w = Some (found, mgr', w')" "heads_bucket (m_global_index mgr) u a" "holds_fd a u x w"
  shows "heads_bucket (m_global_index mgr') u a \<and> holds_fd a u x w' \<and> (\<exists>r. found = Some r \<and> fr_entry r = Some a)"
proof -
  have o: "holds_fd a u x w2" if "open_for_lookup p w1 = (fd, w2)" "holds_fd a u x w1" for p fd w1 w2
    using that by (auto simp: open_for_lookup_def holds_fd_def Let_def sys_open_heap split: option.splits prod.splits if_splits)
  obtain idx where g: "global_index_lookup (m_global_index mgr) u w = Some (found, idx, w')" "mgr' = mgr\<lparr>m_global_index := idx\<rparr>"
    using assms(1) by (auto simp: manager_lookup_def elim!: bind_SomeE)
  note l = g(1) [unfolded global_index_lookup_def Let_def]
  obtain w1 where 1: "index_entry_get a w = Some w1"
    using l assms(2) head_located [OF assms(3), of None] by (cases "index_entry_get a w") (auto simp: heads_bucket_def)
  note h1 = holds_entry_ops(1) [OF 1 assms(3)]
  then obtain e where e: "heap w1 a = Some e" by (auto simp: holds_fd_def)
  obtain fd w2 where 2: "open_for_lookup (ie_backend_path e) w1 = (fd, w2)" by fastforce
  obtain w3 where 3: "index_entry_record_access a w2 = Some w3"
    using l assms(2) head_located [OF assms(3), of None] 1 e 2 by (cases "index_entry_record_access a w2") (auto simp: heads_bucket_def)
  note h3 = holds_entry_ops(2) [OF 3 o [OF 2 h1]]
  have f: "found = Some \<lparr>fr_entry = Some a, fr_fd = fd, fr_generation = 0\<rparr>" "gi_buckets idx = gi_buckets (m_global_index mgr)"
    "gi_num_buckets idx = gi_num_buckets (m_global_index mgr)"
    "(if 0 \<le> fd then upd_entry a (\<lambda>e. e\<lparr>ie_fd_refcount := ie_fd_refcount e + 1\<rparr>) w3 else Some w3) = Some w'"
    using l assms(2) head_located [OF assms(3), of None] 1 e 2 3 by (auto simp: heads_bucket_def elim!: bind_SomeE split: if_splits)
  have "holds_fd a u x w'" using f(4) holds_upd [OF _ same_keys(2) h3] h3 by (auto split: if_splits)
  then show ?thesis using assms(2) f(1-3) g(2) by (simp add: heads_bucket_def)
qed

lemma stale_removed:
  assumes "global_index_remove idx u w = Some (ok, idx', w')" "heads_bucket idx u a" "heap w a \<noteq> None \<longrightarrow> holds_fd a u x w" "0 \<le> x"
  shows "fd_obj w' x = None"
proof -
  have h: "holds_fd a u x w"
    using assms head_missing [of w a] by (cases "heap w a") (auto simp: global_index_remove_def heads_bucket_def Let_def elim!: bind_SomeE)
  have c: "fd_obj w2 y = None" if "index_entry_put b (sys_close y w1) = Some w2" for b w1 w2 y
    by (rule sheds_None [OF sheds_entry_ops(4) [OF that]]) (simp add: fd_obj_close)
  show ?thesis using assms(1,2,4) h head_located [OF h, of None] unfolding heads_bucket_def
    by (auto simp: global_index_remove_def store_next_def holds_fd_def Let_def elim!: bind_SomeE intro: c)
qed

lemma created_holds:
  assumes "backend_create_object req mgr w = Some (Some r, mgr', w')"
  obtains a where "fr_entry r = Some a" "0 \<le> fr_fd r" "heads_bucket (m_global_index mgr') (or_uri req) a" "holds_fd a (or_uri req) (fr_fd r) w'"
proof -
  let ?u = "or_uri req"
  have "\<exists>i bi fd p w0 a w1 w2 idx w3 bidx w4 w5. 0 \<le> fd \<and>
      index_entry_create ?u i p w0 = (Some a, w1) \<and>
      upd_entry a (\<lambda>e. e\<lparr>ie_size_bytes := 0, ie_flags := request_flags req\<rparr>) w1 = Some w2 \<and>
      global_index_insert (m_global_index mgr) a w2 = Some (True, idx, w3) \<and>
      backend_index_insert bi a w3 = Some (bidx, w4) \<and>
      upd_entry a (\<lambda>e. e\<lparr>ie_fd := fd, ie_fd_refcount := 1\<rparr>) w4 = Some w5 \<and>
      index_entry_get a w5 = Some w' \<and>
      r = \<lparr>fr_entry = Some a, fr_fd = fd, fr_generation = 0\<rparr> \<and>
      m_global_index mgr' = idx"
    using assms by (fastforce simp: backend_create_object_def Let_def not_less elim!: bind_SomeE split: option.splits prod.splits if_splits)
  then obtain i bi fd p w0 a w1 w2 idx w3 bidx w4 w5 where s: "0 \<le> fd"
    "index_entry_create ?u i p w0 = (Some a, w1)"
    "upd_entry a (\<lambda>e. e\<lparr>ie_size_bytes := 0, ie_flags := request_flags req\<rparr>) w1 = Some w2"
    "global_index_insert (m_global_index mgr) a w2 = Some (True, idx, w3)"
    "backend_index_insert bi a w3 = Some (bidx, w4)"
    "upd_entry a (\<lambda>e. e\<lparr>ie_fd := fd, ie_fd_refcount := 1\<rparr>) w4 = Some w5"
    "index_entry_get a w5 = Some w'"
    "r = \<lparr>fr_entry = Some a, fr_fd = fd, fr_generation = 0\<rparr>"
    "m_global_index mgr' = idx" by blast
  have 2: "holds_fd a ?u (-1) w2" using s(2,3)
    by (auto simp: index_entry_create_def Let_def upd_entry_iff holds_fd_def entry_matches_def split: prod.splits if_splits)
  then obtain e where e: "heap w2 a = Some e" "ie_uri_hash e = index_hash_string ?u" by (auto simp: holds_fd_def entry_matches_def)
  have "heads_bucket idx ?u a" "holds_fd a ?u (-1) w3" using s(4) e 2
    by (auto simp: global_index_insert_def heads_bucket_def bucket_at_def Let_def elim!: bind_SomeE split: option.splits if_splits
        dest: holds_upd [OF _ same_keys(3)])
  moreover from this(2) have "holds_fd a ?u (-1) w4" by (rule holds_entry_ops(4) [OF s(5)])
  then have "holds_fd a ?u fd w5" using s(6) by (auto simp: upd_entry_iff holds_fd_def entry_matches_def)
  then have "holds_fd a ?u fd w'" by (rule holds_entry_ops(1) [OF s(7)])
  ultimately show ?thesis using that [of a] s by simp
qed

text \<open>
  C38: Deleting an object can close the connection of another client. The entry of an object that was
  created keeps the number of the descriptor under which the file was made, although the server has
  closed it after its answer. A client that connects next may get this number for its
  connection; the deletion of the object, requested by whom ever, then closes that connection.
\<close>

theorem deletion_closes_connection:
  assumes "backend_create_object req mgr w = Some (Some r, mgr1, w1)" "fd_ref_release r w1 = Some (r', w2)"
    and "sys_accept n w2 = Some (Accepted (fr_fd r), n', w3)"
    and "backend_delete_object (or_uri req) mgr1 w3 = Some (True, mgr2, w4)"
  shows "fd_obj w3 (fr_fd r) \<noteq> None \<and> fd_obj w4 (fr_fd r) = None"
proof -
  let ?u = "or_uri req"
  obtain a where c: "fr_entry r = Some a" "0 \<le> fr_fd r" "heads_bucket (m_global_index mgr1) ?u a" "holds_fd a ?u (fr_fd r) w1"
    using created_holds [OF assms(1)] .
  have h3: "heap w3 = heap w2" using assms(3)
    by (auto simp: sys_accept_def Let_def install_fd_heap split: list.splits incoming.splits prod.splits)
  have alive: "heap w2 a \<noteq> None"
    using assms(4) c(3) head_missing [of w3 a "index_hash_string ?u" ?u None] h3
    by (cases "heap w2 a") (auto simp: backend_delete_object_def manager_lookup_def global_index_lookup_def heads_bucket_def Let_def)
  have "holds_fd a ?u (fr_fd r) w2"
  proof -
    obtain x where "upd_entry a (\<lambda>e. e\<lparr>ie_fd_refcount := ie_fd_refcount e - 1\<rparr>) (sys_close (fr_fd r) w1) = Some x" "index_entry_put a x = Some w2"
      using assms(2) c(1,2) by (auto simp: fd_ref_release_def elim!: bind_SomeE)
    moreover have "holds_fd a ?u (fr_fd r) (sys_close (fr_fd r) w1)" using c(4) by (simp add: holds_fd_def sys_close_simps)
    ultimately show ?thesis using holds_upd [OF _ same_keys(2)] holds_put alive by fastforce
  qed
  then have 3: "holds_fd a ?u (fr_fd r) w3" "fd_obj w3 (fr_fd r) \<noteq> None"
    using assms(3)
    by (auto simp: sys_accept_def Let_def holds_fd_def install_fd_heap dest: install_fd_fresh(2) split: list.splits incoming.splits prod.splits)
  obtain found m w5 where l: "manager_lookup ?u mgr1 w3 = Some (found, m, w5)"
    using assms(4) by (auto simp: backend_delete_object_def elim!: bind_SomeE)
  obtain q where q: "heads_bucket (m_global_index m) ?u a" "holds_fd a ?u (fr_fd r) w5" "found = Some q"
    using holds_lookup [OF l c(3) 3(1)] by blast
  obtain p bi ok bi' w6 ok' gi w7 q' where d: "backend_index_remove bi ?u (unlink_path p w5) = Some (ok, bi', w6)"
    "global_index_remove (m_global_index m) ?u w6 = Some (ok', gi, w7)" "fd_ref_release q w7 = Some (q', w4)"
    using assms(4) l q(3) by (auto simp: backend_delete_object_def release_with_def Let_def elim!: bind_SomeE split: option.splits)
  have "holds_fd a ?u (fr_fd r) (unlink_path p w5)"
    using q(2) by (auto simp: holds_fd_def unlink_path_def sys_unlink_def fault_heap split: option.split prod.splits)
  then have n: "fd_obj w7 (fr_fd r) = None"
    using holds_backend_remove [OF d(1)] by (intro stale_removed [OF d(2) q(1)]) (use c(2) in auto)
  from sheds_None [OF sheds_released [OF d(3)] n] 3(2) show ?thesis by simp
qed

definition newcomer :: net where
  "newcomer = \<lparr>nt_bound = [], nt_incoming = [Connection [] [] []], nt_hosts = Map.empty, nt_dg_in = [], nt_dg_out = []\<rparr>"

definition make_b :: object_create_req where
  "make_b = \<lparr>or_uri = ''/b'', or_backend_id = 0, or_ephemeral = False, or_size_hint = 0, or_flags = 0\<rparr>"

declare chain_locate.simps [code]

lemma newcomer_run:
  "case backend_create_object make_b (sample_mgr 0) sample_world of
     Some (Some r, m1, w1) \<Rightarrow>
       (case fd_ref_release r w1 of
          Some (r', w2) \<Rightarrow>
            (case sys_accept newcomer w2 of
               Some (Accepted fd, n', w3) \<Rightarrow> fd = fr_fd r \<and>
                  (case backend_delete_object ''/b'' m1 w3 of Some (ok, x) \<Rightarrow> ok | None \<Rightarrow> False)
             | _ \<Rightarrow> False)
        | None \<Rightarrow> False)
   | _ \<Rightarrow> False"
  by code_simp

theorem deletion_closes_connection_witness:
  "\<exists>r m1 w1 r' w2 n' w3 m2 w4. backend_create_object make_b (sample_mgr 0) sample_world = Some (Some r, m1, w1) \<and>
     fd_ref_release r w1 = Some (r', w2) \<and> sys_accept newcomer w2 = Some (Accepted (fr_fd r), n', w3) \<and>
     backend_delete_object ''/b'' m1 w3 = Some (True, m2, w4) \<and> fd_obj w3 (fr_fd r) \<noteq> None \<and> fd_obj w4 (fr_fd r) = None"
proof -
  note run = newcomer_run
  obtain f m1 w1 where 1: "backend_create_object make_b (sample_mgr 0) sample_world = Some (f, m1, w1)"
    using run by (cases "backend_create_object make_b (sample_mgr 0) sample_world") auto
  obtain r where 2: "f = Some r" using run 1 by (cases f) simp_all
  obtain r' w2 where 3: "fd_ref_release r w1 = Some (r', w2)" using run 1 2 by (cases "fd_ref_release r w1") auto
  obtain ac n' w3 where 4: "sys_accept newcomer w2 = Some (ac, n', w3)" using run 1 2 3 by (cases "sys_accept newcomer w2") auto
  obtain fd where 5: "ac = Accepted fd" using run 1 2 3 4 by (cases ac) simp_all
  obtain ok m2 w4 where 6: "backend_delete_object ''/b'' m1 w3 = Some (ok, m2, w4)"
    using run 1 2 3 4 5 by (cases "backend_delete_object ''/b'' m1 w3") auto
  have c: "backend_create_object make_b (sample_mgr 0) sample_world = Some (Some r, m1, w1)"
    "fd_ref_release r w1 = Some (r', w2)" "sys_accept newcomer w2 = Some (Accepted (fr_fd r), n', w3)"
    "backend_delete_object ''/b'' m1 w3 = Some (True, m2, w4)"
    using run 1 2 3 4 5 6 by auto
  have u: "or_uri make_b = ''/b''" by (simp add: make_b_def)
  from deletion_closes_connection [OF c(1-3) c(4) [folded u]] c show ?thesis by blast
qed

end
