(* ===== verification/Benchmark.thy ===== *)
theory Benchmark
  imports Client
begin

text \<open>
  The benchmark client (\<open>benchmark.c\<close>): worker threads that put and get an object each, over
  one connection or over a new one for every operation, and the counters they share.

  The threads share the process: its descriptors, the files, the random numbers and the
  counters. Each has its own connection, which is put in place when the thread runs. A thread
  runs in pieces (its start, one round of its loop, its end) in an order that is an argument
  of the run; the additions to the counters are atomic in the source as well. What is printed
  is left out, \<open>print_stats\<close> with it.
\<close>

section \<open>State\<close>

record stats_t =
  gs_operations :: u64
  gs_bytes_transferred :: u64
  gs_errors :: u64
  gs_put_attempts :: u64
  gs_put_success :: u64
  gs_get_attempts :: u64
  gs_get_success :: u64
  gs_send_errors :: u64
  gs_recv_errors :: u64
  gs_status_errors :: u64
  gs_fd_errors :: u64
  gs_io_errors :: u64
  gs_connects :: u64
  gs_disconnects :: u64
  gs_total_latency_us :: u64

text \<open>What a connection will bring: all that the server sends on it, what has been sent, and
  the events of its transfers.\<close>

record link =
  ln_rx :: "item list"
  ln_tx :: "item list"
  ln_rx_ev :: "io_event list"
  ln_tx_ev :: "io_event list"

text \<open>The process: the time is a list of the seconds and microseconds that \<open>gettimeofday\<close>
  tells, the random numbers those that \<open>rand\<close> gives, and every connection made takes the next
  of \<open>bn_peers\<close>; when there is none, nobody listens.\<close>

record bench = os +
  bn_stats :: stats_t
  bn_times :: "(u64 \<times> u64) list"
  bn_rand :: "nat list"
  bn_peers :: "link list"

section \<open>Utilities\<close>

definition get_time_us :: "bench \<Rightarrow> u64 \<times> bench" where
  "get_time_us s =
     (case bn_times s of
        [] \<Rightarrow> (0, s)
      | (tv_sec, tv_usec) # ts \<Rightarrow> (tv_sec * 1000000 + tv_usec, s\<lparr>bn_times := ts\<rparr>))"

definition next_rand :: "bench \<Rightarrow> nat \<times> bench" where
  "next_rand s = (case bn_rand s of [] \<Rightarrow> (0, s) | r # rs \<Rightarrow> (r, s\<lparr>bn_rand := rs\<rparr>))"

definition zero_stats :: stats_t where
  "zero_stats =
     \<lparr>gs_operations = 0, gs_bytes_transferred = 0, gs_errors = 0, gs_put_attempts = 0, gs_put_success = 0,
      gs_get_attempts = 0, gs_get_success = 0, gs_send_errors = 0, gs_recv_errors = 0, gs_status_errors = 0,
      gs_fd_errors = 0, gs_io_errors = 0, gs_connects = 0, gs_disconnects = 0, gs_total_latency_us = 0\<rparr>"

definition reset_stats :: "bench \<Rightarrow> bench" where
  "reset_stats s = s\<lparr>bn_stats := zero_stats\<rparr>"

text \<open>\<open>atomic_fetch_add\<close> to the counter whose update is given.\<close>

definition atomic_fetch_add :: "((u64 \<Rightarrow> u64) \<Rightarrow> stats_t \<Rightarrow> stats_t) \<Rightarrow> u64 \<Rightarrow> bench \<Rightarrow> bench" where
  "atomic_fetch_add upd n s = s\<lparr>bn_stats := upd (\<lambda>x. x + n) (bn_stats s)\<rparr>"

section \<open>Connections\<close>

definition connect_next :: "sockaddr \<Rightarrow> bench \<Rightarrow> bool \<times> bench" where
  "connect_next addr s =
     (let (ok, s) = sys_connect addr s
      in if \<not> ok then (False, s)
         else case bn_peers s of
                [] \<Rightarrow> (False, s)
              | p # ps \<Rightarrow> (True, s\<lparr>bn_peers := ps, rx := ln_rx p, tx := [], rx_ev := ln_rx_ev p, tx_ev := ln_tx_ev p\<rparr>))"

definition connect_to_server :: "bench \<Rightarrow> int \<times> bench" where
  "connect_to_server s =
     (let (sock, s) = sys_socket s
      in if sock < 0 then (-1, s)
         else let (ok, s) = connect_next (UnixAddr (sun_path ''/tmp/objmapper.sock'')) s
              in if \<not> ok then (-1, sys_close sock s)
                 else (sock, atomic_fetch_add gs_connects_update 1 s))"

definition disconnect_from_server :: "int \<Rightarrow> objm_connection \<Rightarrow> bench \<Rightarrow> bench" where
  "disconnect_from_server sock conn s =
     (let s = objm_client_destroy conn (snd (objm_client_close conn OBJM_CLOSE_NORMAL s))
      in if 0 \<le> sock then atomic_fetch_add gs_disconnects_update 1 (sys_close sock s) else s)"

text \<open>A socket together with the client's side of the protocol, as the worker and the cleanup
  make them.\<close>

definition open_connection :: "bench \<Rightarrow> (int \<times> objm_connection) option \<times> bench" where
  "open_connection s =
     (let (sock, s) = connect_to_server s
      in if sock < 0 then (None, s)
         else case objm_client_create sock OBJM_PROTO_V1 s of
                (None, s) \<Rightarrow> (None, sys_close sock s)
              | (Some conn, s) \<Rightarrow> (Some (sock, conn), s))"

section \<open>Operations\<close>

text \<open>The first half of an operation: the request, the response and its descriptor, which is
  taken out of the response before that is freed; \<open>-1\<close> after an error, which is counted.\<close>

definition request_fd :: "objm_connection \<Rightarrow> string \<Rightarrow> bench \<Rightarrow> int \<times> objm_connection \<times> bench" where
  "request_fd conn uri s =
     (case objm_client_send_request conn (cmd_request uri) s of
        (False, conn, s) \<Rightarrow> (-1, conn, atomic_fetch_add gs_send_errors_update 1 s)
      | (True, conn, s) \<Rightarrow>
          (case objm_client_recv_response conn s of
             (None, conn, s) \<Rightarrow> (-1, conn, atomic_fetch_add gs_recv_errors_update 1 s)
           | (Some resp, conn, s) \<Rightarrow>
               if rs_status resp \<noteq> OBJM_STATUS_OK
               then (-1, conn, objm_response_free resp (atomic_fetch_add gs_status_errors_update 1 s))
               else if rs_fd resp < 0
               then (-1, conn, objm_response_free resp (atomic_fetch_add gs_fd_errors_update 1 s))
               else (rs_fd resp, conn, objm_response_free (resp\<lparr>rs_fd := -1\<rparr>) s)))"

text \<open>The loop that writes: a short write is followed by another one for the rest; an error, an
  interruption or a write of nothing ends it.\<close>

function write_data :: "int \<Rightarrow> bytes \<Rightarrow> 'a os_scheme \<Rightarrow> bool \<times> 'a os_scheme" where
  "write_data fd data s =
     (if data = [] then (True, s)
      else case file_write fd data s of
             (KDone out, s) \<Rightarrow> if out = [] then (False, s) else write_data fd (drop (length out) data) s
           | (_, s) \<Rightarrow> (False, s))"
  by pat_completeness auto
termination
  by (relation "measure (\<lambda>(fd, data, s). length data)") auto

definition do_put_operation :: "objm_connection \<Rightarrow> string \<Rightarrow> bytes \<Rightarrow> bench \<Rightarrow> bool \<times> objm_connection \<times> bench" where
  "do_put_operation conn uri data s =
     (let (start_time, s) = get_time_us s;
          (fd, conn, s) = request_fd conn uri (atomic_fetch_add gs_put_attempts_update 1 s)
      in if fd < 0 then (False, conn, s)
         else if fd_obj s fd = None then (False, conn, sys_close fd (atomic_fetch_add gs_fd_errors_update 1 s))
         else let (ok, s) = write_data fd data s
              in if \<not> ok then (False, conn, sys_close fd (atomic_fetch_add gs_io_errors_update 1 s))
                 else let (end_time, s) = get_time_us (sys_close fd s);
                          s = atomic_fetch_add gs_operations_update 1 s;
                          s = atomic_fetch_add gs_put_success_update 1 s;
                          s = atomic_fetch_add gs_bytes_transferred_update (of_nat (length data)) s;
                          s = atomic_fetch_add gs_total_latency_us_update (end_time - start_time) s
                      in (True, conn, s))"

text \<open>The loop that reads up to \<open>n\<close> bytes: it ends at the end of the file and at an error.\<close>

function read_data :: "int \<Rightarrow> nat \<Rightarrow> 'a os_scheme \<Rightarrow> bytes \<times> 'a os_scheme" where
  "read_data fd n s =
     (if n = 0 then ([], s)
      else case file_read fd n s of
             (KDone got, s) \<Rightarrow>
               if got = [] then ([], s) else let (rest, s) = read_data fd (n - length got) s in (got @ rest, s)
           | (_, s) \<Rightarrow> ([], s))"
  by pat_completeness auto
termination
  by (relation "measure (\<lambda>(fd, n, s). n)") auto

text \<open>The bytes read replace the start of the buffer, whose size bounds the read.\<close>

definition do_get_operation ::
    "objm_connection \<Rightarrow> string \<Rightarrow> bytes \<Rightarrow> bench \<Rightarrow> bool \<times> bytes \<times> objm_connection \<times> bench" where
  "do_get_operation conn uri buffer s =
     (let (start_time, s) = get_time_us s;
          (fd, conn, s) = request_fd conn uri (atomic_fetch_add gs_get_attempts_update 1 s)
      in if fd < 0 then (False, buffer, conn, s)
         else let (got, s) = read_data fd (length buffer) s;
                  buffer = got @ drop (length got) buffer;
                  s = sys_close fd s
              in if got = [] then (False, buffer, conn, atomic_fetch_add gs_io_errors_update 1 s)
                 else let (end_time, s) = get_time_us s;
                          s = atomic_fetch_add gs_operations_update 1 s;
                          s = atomic_fetch_add gs_get_success_update 1 s;
                          s = atomic_fetch_add gs_bytes_transferred_update (of_nat (length got)) s;
                          s = atomic_fetch_add gs_total_latency_us_update (end_time - start_time) s
                      in (True, buffer, conn, s))"

declare write_data.simps [simp del] read_data.simps [simp del]

section \<open>Workers\<close>

record worker_config =
  wc_thread_id :: nat
  wc_object_size :: nat
  wc_long_lived :: bool
  wc_read_write_ratio :: nat

text \<open>A worker has not begun, is in its loop, or has returned. In its loop it holds its buffer
  and, when it is long-lived, its connection.\<close>

datatype phase = Created | Looping | Returned

record thread =
  th_config :: worker_config
  th_phase :: phase
  th_buffer :: bytes
  th_sock :: int
  th_conn :: "objm_connection option"
  th_link :: link

fun random_bytes :: "nat \<Rightarrow> bench \<Rightarrow> bytes \<times> bench" where
  "random_bytes 0 s = ([], s)"
| "random_bytes (Suc n) s =
     (let (r, s) = next_rand s; (bs, s) = random_bytes n s in (of_nat (r mod 256) # bs, s))"

definition worker_uri :: "worker_config \<Rightarrow> string" where
  "worker_uri config = snprintf_buf 256 (''/bench/'' @ show_nat (wc_thread_id config) @ ''/object.bin'')"

definition count_failure :: "bool \<Rightarrow> bench \<Rightarrow> bench" where
  "count_failure ok s = (if ok then s else atomic_fetch_add gs_errors_update 1 s)"

text \<open>The part of \<open>benchmark_worker\<close> before its loop: the buffer, the connection and the first
  put. \<open>None\<close>: the worker returns at once. A worker that reconnects gives no account of a
  failed connection here.\<close>

definition worker_start :: "worker_config \<Rightarrow> bench \<Rightarrow> (bytes \<times> int \<times> objm_connection) option \<times> bench" where
  "worker_start config s =
     (let (f, s) = fault s
      in if f then (None, count_failure False s)
         else let (data_buffer, s) = random_bytes (wc_object_size config) s
              in case open_connection s of
                   (None, s) \<Rightarrow> (None, count_failure (\<not> wc_long_lived config) s)
                 | (Some (sock, conn), s) \<Rightarrow>
                     let (ok, conn, s) = do_put_operation conn (worker_uri config) data_buffer s;
                         s = count_failure ok s
                     in (Some (data_buffer, sock, conn),
                         if wc_long_lived config then s else disconnect_from_server sock conn s))"

definition worker_operation ::
    "bool \<Rightarrow> worker_config \<Rightarrow> bytes \<Rightarrow> objm_connection \<Rightarrow> bench \<Rightarrow> bytes \<times> objm_connection \<times> bench" where
  "worker_operation do_read config data_buffer conn s =
     (if do_read then
        let (ok, data_buffer, conn, s) = do_get_operation conn (worker_uri config) data_buffer s
        in (data_buffer, conn, count_failure ok s)
      else
        let (ok, conn, s) = do_put_operation conn (worker_uri config) data_buffer s
        in (data_buffer, conn, count_failure ok s))"

text \<open>One round of the loop.\<close>

definition worker_round ::
    "worker_config \<Rightarrow> bytes \<Rightarrow> int \<Rightarrow> objm_connection option \<Rightarrow> bench \<Rightarrow> (bytes \<times> int \<times> objm_connection option) \<times> bench" where
  "worker_round config data_buffer sock conn s =
     (let (r, s) = next_rand s; do_read = r mod 100 < wc_read_write_ratio config
      in case (wc_long_lived config, conn) of
           (True, Some c) \<Rightarrow>
             let (data_buffer, c, s) = worker_operation do_read config data_buffer c s in ((data_buffer, sock, Some c), s)
         | _ \<Rightarrow>
             (case open_connection s of
                (None, s) \<Rightarrow> ((data_buffer, sock, conn), count_failure False s)
              | (Some (sock, c), s) \<Rightarrow>
                  let (data_buffer, c, s) = worker_operation do_read config data_buffer c s
                  in ((data_buffer, sock, None), disconnect_from_server sock c s)))"

definition worker_end :: "worker_config \<Rightarrow> int \<Rightarrow> objm_connection option \<Rightarrow> bench \<Rightarrow> bench" where
  "worker_end config sock conn s =
     (case (wc_long_lived config, conn) of
        (True, Some c) \<Rightarrow> disconnect_from_server sock c s
      | _ \<Rightarrow> s)"

text \<open>The connection of a thread is put in place when it runs and kept for it when it pauses.\<close>

definition resume :: "link \<Rightarrow> bench \<Rightarrow> bench" where
  "resume l s = s\<lparr>rx := ln_rx l, tx := ln_tx l, rx_ev := ln_rx_ev l, tx_ev := ln_tx_ev l\<rparr>"

definition pause_link :: "bench \<Rightarrow> link" where
  "pause_link s = \<lparr>ln_rx = rx s, ln_tx = tx s, ln_rx_ev = rx_ev s, ln_tx_ev = tx_ev s\<rparr>"

text \<open>
  \<open>benchmark_worker\<close>, up to the next pause; \<open>stop\<close> is what it reads from \<open>g_stop_test\<close>. A turn is a
  whole round, from one test of \<open>g_stop_test\<close> to the next: its link holds all that the server sends
  during the round, and the end of that list is the server closing the connection. A worker that
  hangs in \<open>recv\<close> because the server stays silent with the connection open is one that gets no
  further turn: it does not return, and \<open>run_benchmark\<close> below then has no result.
\<close>

definition benchmark_worker :: "bool \<Rightarrow> thread \<Rightarrow> bench \<Rightarrow> thread \<times> bench" where
  "benchmark_worker stop t s =
     (let s = resume (th_link t) s; config = th_config t
      in case th_phase t of
           Created \<Rightarrow>
             (case worker_start config s of
                (None, s) \<Rightarrow> (t\<lparr>th_phase := Returned, th_link := pause_link s\<rparr>, s)
              | (Some (data_buffer, sock, conn), s) \<Rightarrow>
                  (t\<lparr>th_phase := Looping, th_buffer := data_buffer, th_sock := sock,
                     th_conn := (if wc_long_lived config then Some conn else None), th_link := pause_link s\<rparr>, s))
         | Looping \<Rightarrow>
             if stop then
               let s = worker_end config (th_sock t) (th_conn t) s
               in (t\<lparr>th_phase := Returned, th_conn := None, th_link := pause_link s\<rparr>, s)
             else let ((data_buffer, sock, conn), s) = worker_round config (th_buffer t) (th_sock t) (th_conn t) s
                  in (t\<lparr>th_buffer := data_buffer, th_sock := sock, th_conn := conn, th_link := pause_link s\<rparr>, s)
         | Returned \<Rightarrow> (t, s))"

section \<open>Runs\<close>

text \<open>What happens during a run: a thread gets to run, or the main thread wakes up and stops
  the test.\<close>

datatype event = Run nat | Stop

fun run_threads :: "event list \<Rightarrow> bool \<Rightarrow> thread list \<Rightarrow> bench \<Rightarrow> thread list \<times> bench" where
  "run_threads [] stop ts s = (ts, s)"
| "run_threads (Run i # es) stop ts s =
     (if i < length ts then let (t, s) = benchmark_worker stop (ts ! i) s in run_threads es stop (ts[i := t]) s
      else run_threads es stop ts s)"
| "run_threads (Stop # es) stop ts s = run_threads es True ts (snd (get_time_us s))"

definition new_thread :: "nat \<Rightarrow> bool \<Rightarrow> nat \<Rightarrow> nat \<Rightarrow> thread" where
  "new_thread object_size long_lived read_write_ratio i =
     \<lparr>th_config = \<lparr>wc_thread_id = i, wc_object_size = object_size, wc_long_lived = long_lived,
        wc_read_write_ratio = read_write_ratio\<rparr>,
      th_phase = Created, th_buffer = [], th_sock = -1, th_conn = None,
      th_link = \<lparr>ln_rx = [], ln_tx = [], ln_rx_ev = [], ln_tx_ev = []\<rparr>\<rparr>"

fun create_threads :: "nat \<Rightarrow> bench \<Rightarrow> bool \<times> bench" where
  "create_threads 0 s = (True, s)"
| "create_threads (Suc n) s =
     (let (f, s) = fault s; (ok, s) = create_threads n s in (\<not> f \<and> ok, s))"

text \<open>\<open>None\<close>: a thread was not created, and \<open>pthread_join\<close> gets a value that was never set; or a
  worker has not returned at the end of \<open>es\<close>, and \<open>pthread_join\<close> waits for it.\<close>

definition run_benchmark :: "nat \<Rightarrow> nat \<Rightarrow> bool \<Rightarrow> nat \<Rightarrow> event list \<Rightarrow> bench \<Rightarrow> bench option" where
  "run_benchmark num_threads object_size long_lived read_write_ratio es s =
     (let (f1, s) = fault s; (f2, s) = fault s
      in if f1 \<or> f2 then Some s
         else let (ok, s) = create_threads num_threads (reset_stats s);
                  ts = map (new_thread object_size long_lived read_write_ratio) [0..<num_threads]
              in if \<not> ok then None
                 else let (ts, s) = run_threads es False ts (snd (get_time_us s))
                      in if \<forall>t \<in> set ts. th_phase t = Returned then Some s else None)"

section \<open>Cleanup and main\<close>

text \<open>One deletion; neither the request nor the response is checked.\<close>

definition cleanup_object :: "nat \<Rightarrow> objm_connection \<times> bench \<Rightarrow> objm_connection \<times> bench" where
  "cleanup_object i cs =
     (let (conn, s) = cs;
          uri = snprintf_buf 256 (''/delete/bench/'' @ show_nat i @ ''/object.bin'');
          (ok, conn, s) = objm_client_send_request conn (cmd_request uri) s
      in case objm_client_recv_response conn s of
           (None, conn, s) \<Rightarrow> (conn, s)
         | (Some resp, conn, s) \<Rightarrow> (conn, objm_response_free resp s))"

definition cleanup_benchmark_objects :: "bench \<Rightarrow> bench" where
  "cleanup_benchmark_objects s =
     (case open_connection s of
        (None, s) \<Rightarrow> s
      | (Some (sock, conn), s) \<Rightarrow>
          let (conn, s) = fold cleanup_object [0..<1000] (conn, s) in disconnect_from_server sock conn s)"

text \<open>The runs of \<open>main\<close>: threads, object size, long-lived connections, percentage of reads.\<close>

definition main_runs :: "(nat \<times> nat \<times> bool \<times> nat) list" where
  "main_runs =
     map (\<lambda>object_size. (1, object_size, True, 50)) [1024, 4096, 65536, 1024 * 1024] @
     map (\<lambda>n. (n, 4096, True, 50)) [1, 4, 16] @
     [(16, 4096, True, 50), (16, 4096, False, 50)] @
     map (\<lambda>ratio. (16, 1024 * 1024, True, ratio)) [100, 75, 50, 25, 0]"

fun run_all :: "(nat \<times> nat \<times> bool \<times> nat) list \<Rightarrow> event list list \<Rightarrow> bench \<Rightarrow> bench option" where
  "run_all [] ess s = Some s"
| "run_all ((n, object_size, long_lived, ratio) # rs) ess s =
     (case run_benchmark n object_size long_lived ratio (case ess of [] \<Rightarrow> [] | es # _ \<Rightarrow> es) s of
        None \<Rightarrow> None
      | Some s \<Rightarrow> run_all rs (tl ess) s)"

definition benchmark_main :: "event list list \<Rightarrow> bench \<Rightarrow> bench option" where
  "benchmark_main ess s = map_option cleanup_benchmark_objects (run_all main_runs ess s)"

end
