(* ===== verification/Benchmark_Props.thy ===== *)
theory Benchmark_Props
  imports Benchmark Client_Props
begin

text \<open>
  The benchmark client: its counters account for every operation and no descriptor is left
  open, whatever fails and however the threads take turns; and what is put is what is got, however short the writes and reads are.
\<close>

section \<open>Counters\<close>

text \<open>The operations begun and not yet accounted for, and the successes that are not among the
  operations, as the differences of the 64-bit counters.\<close>

definition balance :: "stats_t \<Rightarrow> u64" where
  "balance g = gs_put_attempts g + gs_get_attempts g - (gs_put_success g + gs_get_success g + gs_send_errors g +
     gs_recv_errors g + gs_status_errors g + gs_fd_errors g + gs_io_errors g)"

definition uncounted :: "stats_t \<Rightarrow> u64" where
  "uncounted g = gs_operations g - (gs_put_success g + gs_get_success g)"

definition accounted :: "stats_t \<Rightarrow> bool" where
  "accounted g \<longleftrightarrow> gs_operations g = gs_put_success g + gs_get_success g \<and>
     gs_put_attempts g + gs_get_attempts g = gs_put_success g + gs_get_success g + gs_send_errors g +
       gs_recv_errors g + gs_status_errors g + gs_fd_errors g + gs_io_errors g"

lemma accounted_balance: "accounted g \<longleftrightarrow> balance g = 0 \<and> uncounted g = 0"
  by (auto simp: accounted_def balance_def uncounted_def)

lemma balance_add [simp]:
  "balance (gs_put_attempts_update (\<lambda>x. x + n) g) = balance g + n"
  "balance (gs_get_attempts_update (\<lambda>x. x + n) g) = balance g + n"
  "balance (gs_put_success_update (\<lambda>x. x + n) g) = balance g - n"
  "balance (gs_get_success_update (\<lambda>x. x + n) g) = balance g - n"
  "balance (gs_send_errors_update (\<lambda>x. x + n) g) = balance g - n"
  "balance (gs_recv_errors_update (\<lambda>x. x + n) g) = balance g - n"
  "balance (gs_status_errors_update (\<lambda>x. x + n) g) = balance g - n"
  "balance (gs_fd_errors_update (\<lambda>x. x + n) g) = balance g - n"
  "balance (gs_io_errors_update (\<lambda>x. x + n) g) = balance g - n"
  by (simp_all add: balance_def algebra_simps)

lemma uncounted_add [simp]:
  "uncounted (gs_operations_update (\<lambda>x. x + n) g) = uncounted g + n"
  "uncounted (gs_put_success_update (\<lambda>x. x + n) g) = uncounted g - n"
  "uncounted (gs_get_success_update (\<lambda>x. x + n) g) = uncounted g - n"
  by (simp_all add: uncounted_def algebra_simps)

lemma neutral_add [simp]:
  "balance (gs_operations_update f g) = balance g" "balance (gs_bytes_transferred_update f g) = balance g"
  "balance (gs_errors_update f g) = balance g" "balance (gs_connects_update f g) = balance g"
  "balance (gs_disconnects_update f g) = balance g" "balance (gs_total_latency_us_update f g) = balance g"
  "uncounted (gs_put_attempts_update f g) = uncounted g" "uncounted (gs_get_attempts_update f g) = uncounted g"
  "uncounted (gs_send_errors_update f g) = uncounted g" "uncounted (gs_recv_errors_update f g) = uncounted g"
  "uncounted (gs_status_errors_update f g) = uncounted g" "uncounted (gs_fd_errors_update f g) = uncounted g"
  "uncounted (gs_io_errors_update f g) = uncounted g" "uncounted (gs_bytes_transferred_update f g) = uncounted g"
  "uncounted (gs_errors_update f g) = uncounted g" "uncounted (gs_connects_update f g) = uncounted g"
  "uncounted (gs_disconnects_update f g) = uncounted g" "uncounted (gs_total_latency_us_update f g) = uncounted g"
  by (simp_all add: balance_def uncounted_def)

lemma stats_add [simp]: "bn_stats (atomic_fetch_add upd n s) = upd (\<lambda>x. x + n) (bn_stats s)"
  by (simp add: atomic_fetch_add_def)

lemma fd_obj_bench [simp]:
  "fd_obj (s\<lparr>bn_stats := a\<rparr>) x = fd_obj s x" "fd_obj (s\<lparr>bn_times := b\<rparr>) x = fd_obj s x"
  "fd_obj (s\<lparr>bn_rand := c\<rparr>) x = fd_obj s x" "fd_obj (s\<lparr>bn_peers := d\<rparr>) x = fd_obj s x"
  by (simp_all add: fd_obj_def)

lemma fd_obj_add [simp]: "fd_obj (atomic_fetch_add upd n s) x = fd_obj s x"
  by (simp add: atomic_fetch_add_def)

lemma stats_same: "same_more s s' \<Longrightarrow> bn_stats s' = bn_stats (s :: bench)"
  by (cases s; cases s') (simp add: same_more_def)

section \<open>What an operation does to counters and descriptors\<close>

text \<open>A step that leaves the counters accounted for and the descriptors as they are.\<close>

definition calm :: "bench \<Rightarrow> bench \<Rightarrow> bool" where
  "calm s s' \<longleftrightarrow> same_fds s s' \<and> balance (bn_stats s') = balance (bn_stats s) \<and> uncounted (bn_stats s') = uncounted (bn_stats s)"

lemma calm_refl [simp]: "calm s s" by (simp add: calm_def sf.R_refl)

lemma calm_trans: "calm s s' \<Longrightarrow> calm s' s'' \<Longrightarrow> calm s s''"
  by (auto simp: calm_def intro: sf.R_trans)

lemma calm_time: "get_time_us s = (t, s') \<Longrightarrow> calm s s'"
  by (auto simp: get_time_us_def calm_def same_fds_def split: list.splits)

lemma calm_rand: "next_rand s = (t, s') \<Longrightarrow> calm s s'"
  by (auto simp: next_rand_def calm_def same_fds_def split: list.splits)

lemma calm_random_bytes: "random_bytes n s = (bs, s') \<Longrightarrow> calm s s'"
  by (induction n arbitrary: s bs s') (auto dest!: calm_rand intro: calm_trans split: prod.splits)

lemma calm_failure [simp]: "calm s (count_failure ok s)"
  by (simp add: count_failure_def calm_def same_fds_def)

lemma calm_same: "same_fds s s' \<Longrightarrow> same_more s s' \<Longrightarrow> calm s s'"
  by (simp add: calm_def stats_same)

lemma same_fds_write: "file_write fd bs s = (r, s') \<Longrightarrow> same_fds s s'"
  by (auto simp: file_write_def Let_def same_fds_def split: client_splits)

lemma same_fds_read: "file_read fd n s = (r, s') \<Longrightarrow> same_fds s s'"
  by (auto simp: file_read_def Let_def same_fds_def split: client_splits)

lemma calm_write: "write_data fd bs s = (ok, s') \<Longrightarrow> calm s s'"
proof (induction fd bs s arbitrary: ok s' rule: write_data.induct)
  case (1 fd bs s)
  obtain r s1 where w: "file_write fd bs s = (r, s1)" by fastforce
  have "calm s s1" using same_fds_write [OF w] same_more_write [OF w] by (rule calm_same)
  then show ?case using 1 w write_data.simps [of fd bs s]
    by (auto split: if_splits kres.splits intro: calm_trans)
qed

lemma calm_read: "read_data fd n s = (got, s') \<Longrightarrow> calm s s'"
proof (induction fd n s arbitrary: got s' rule: read_data.induct)
  case (1 fd n s)
  obtain r s1 where w: "file_read fd n s = (r, s1)" by fastforce
  have "calm s s1" using same_fds_read [OF w] same_more_read [OF w] by (rule calm_same)
  then show ?case using 1 w read_data.simps [of fd n s]
    by (auto split: if_splits kres.splits prod.splits intro: calm_trans)
qed

text \<open>A connection that holds no responses of other requests.\<close>

lemma pending_kept:
  "objm_client_send_request conn req s = (ok, conn', s') \<Longrightarrow> c_pending conn' = c_pending conn"
  "objm_client_recv_response conn s = (r, conn', s') \<Longrightarrow> c_pending conn' = c_pending conn"
  by (auto simp: objm_client_send_request_def objm_client_recv_response_def recv_response_header_def
      recv_response_metadata_def recv_response_fd_def set_error_def Let_def split: client_splits)

lemma destroy_none [simp]: "c_pending conn = [] \<Longrightarrow> objm_client_destroy conn s = s"
  by (simp add: objm_client_destroy_def)

text \<open>A request that fails is accounted for; one that succeeds adds its descriptor.\<close>

lemma request_fd_result:
  assumes "request_fd conn uri s = (fd, conn', s')"
  shows "adds_fd fd s s'" "c_pending conn' = c_pending conn" "uncounted (bn_stats s') = uncounted (bn_stats s)"
    "balance (bn_stats s') = balance (bn_stats s) - (if fd < 0 then 1 else 0)"
proof -
  obtain ok c1 s1 where 1: "objm_client_send_request conn (cmd_request uri) s = (ok, c1, s1)" by (metis prod_cases3)
  obtain r c2 s2 where 2: "objm_client_recv_response c1 s1 = (r, c2, s2)" by (metis prod_cases3)
  note q = sf.R_send_request [OF 1] stats_same [OF sm.R_send_request [OF 1]] pending_kept(1) [OF 1]
    stats_same [OF same_more_response [OF 2]] pending_kept(2) [OF 2]
  have a: "adds_fd (case r of None \<Rightarrow> -1 | Some resp \<Rightarrow> rs_fd resp) s s2"
    using adds_fd_comp(1) [OF q(1) response_adds [OF 2]] .
  have c: "same_fds s (sys_close (rs_fd resp) (atomic_fetch_add upd n s2))" if "r = Some resp" for resp upd n
    using close_added [of "rs_fd resp" s "atomic_fetch_add upd n s2"] a that by (auto simp: adds_fd_def)
  have f: "same_fds s (atomic_fetch_add upd n s1)" "same_fds s s2 \<Longrightarrow> same_fds s (atomic_fetch_add upd n s2)" for upd n
    using q(1) by (simp_all add: same_fds_def)
  show "adds_fd fd s s'"
    using assms 1 2 a c f by (auto simp: request_fd_def objm_response_free_def adds_fd_neg split: if_splits bool.splits option.splits)
  show "c_pending conn' = c_pending conn" using assms 1 2 q by (auto simp: request_fd_def split: if_splits bool.splits option.splits)
  show "uncounted (bn_stats s') = uncounted (bn_stats s)" "balance (bn_stats s') = balance (bn_stats s) - (if fd < 0 then 1 else 0)"
    using assms 1 2 q by (auto simp: request_fd_def objm_response_free_def stats_same [OF same_more_close] split: if_splits bool.splits option.splits)
qed

lemma calm_put:
  assumes "do_put_operation conn uri bs s = (ok, conn', s')"
  shows "calm s s' \<and> c_pending conn' = c_pending conn"
proof -
  obtain t0 s0 where 0: "get_time_us s = (t0, s0)" by fastforce
  obtain fd c1 s1 where 1: "request_fd conn uri (atomic_fetch_add gs_put_attempts_update 1 s0) = (fd, c1, s1)" by (metis prod_cases3)
  obtain w s2 where 2: "write_data fd bs s1 = (w, s2)" by fastforce
  obtain t3 s3 where 3: "get_time_us (sys_close fd s2) = (t3, s3)" by fastforce
  note q = calm_time [OF 0] calm_write [OF 2] calm_time [OF 3] request_fd_result [OF 1]
  have a: "adds_fd fd s s1" "adds_fd fd s s2"
    using q(1,2,4) by (simp_all add: calm_def adds_fd_def same_fds_def)
  have f: "same_fds s (sys_close fd (atomic_fetch_add upd n s1))" "same_fds s (sys_close fd (atomic_fetch_add upd n s2))" for upd n
    using a by (intro close_added; simp add: adds_fd_def)+
  show ?thesis using assms 0 1 2 3 q a f close_added [OF a(2)]
    by (auto simp: do_put_operation_def Let_def calm_def same_fds_def adds_fd_neg stats_same [OF same_more_close] split: if_splits)
qed

lemma calm_get:
  assumes "do_get_operation conn uri buf s = (ok, buf', conn', s')"
  shows "calm s s' \<and> c_pending conn' = c_pending conn"
proof -
  obtain t0 s0 where 0: "get_time_us s = (t0, s0)" by fastforce
  obtain fd c1 s1 where 1: "request_fd conn uri (atomic_fetch_add gs_get_attempts_update 1 s0) = (fd, c1, s1)" by (metis prod_cases3)
  obtain got s2 where 2: "read_data fd (length buf) s1 = (got, s2)" by fastforce
  obtain t3 s3 where 3: "get_time_us (sys_close fd s2) = (t3, s3)" by fastforce
  note q = calm_time [OF 0] calm_read [OF 2] calm_time [OF 3] request_fd_result [OF 1]
  have a: "adds_fd fd s s1" "adds_fd fd s s2"
    using q(1,2,4) by (simp_all add: calm_def adds_fd_def same_fds_def)
  show ?thesis using assms 0 1 2 3 q a close_added [OF a(2)]
    by (auto simp: do_get_operation_def Let_def calm_def same_fds_def adds_fd_neg stats_same [OF same_more_close] split: if_splits)
qed

section \<open>Connections\<close>

text \<open>Like \<open>calm\<close>, with one more descriptor open.\<close>

definition calm_with :: "int \<Rightarrow> bench \<Rightarrow> bench \<Rightarrow> bool" where
  "calm_with sock s s' \<longleftrightarrow> 0 \<le> sock \<and> adds_fd sock s s' \<and> balance (bn_stats s') = balance (bn_stats s) \<and>
     uncounted (bn_stats s') = uncounted (bn_stats s)"

lemma calm_with_comp:
  "calm s s' \<Longrightarrow> calm_with sock s' s'' \<Longrightarrow> calm_with sock s s''"
  "calm_with sock s s' \<Longrightarrow> calm s' s'' \<Longrightarrow> calm_with sock s s''"
  by (auto simp: calm_def calm_with_def intro: adds_fd_comp)

lemma calm_with_nonneg: "calm_with sock s s' \<Longrightarrow> 0 \<le> sock"
  by (simp add: calm_with_def)

lemma calm_with_close: "calm_with sock s s' \<Longrightarrow> calm s (sys_close sock s')"
  by (auto simp: calm_def calm_with_def stats_same [OF same_more_close] intro: close_added)

lemma calm_connect_next: "connect_next a s = (ok, s') \<Longrightarrow> calm s s'"
proof -
  obtain b s1 where c: "sys_connect a s = (b, s1)" by fastforce
  have "calm s s1" using sf.R_connect [OF c] sm.R_connect [OF c] by (rule calm_same)
  then show "connect_next a s = (ok, s') \<Longrightarrow> calm s s'"
    using c by (auto simp: connect_next_def calm_def same_fds_def split: if_splits list.splits)
qed

lemma connect_result:
  assumes "connect_to_server s = (sock, s')"
  shows "if sock < 0 then calm s s' else calm_with sock s s'"
proof -
  obtain fd s1 where 1: "sys_socket s = (fd, s1)" by fastforce
  obtain ok s2 where 2: "connect_next (UnixAddr (sun_path ''/tmp/objmapper.sock'')) s1 = (ok, s2)" by fastforce
  have a: "calm_with fd s s2" if "0 \<le> fd"
    using calm_with_comp(2) [OF _ calm_connect_next [OF 2]] socket_adds [OF 1] that
    by (simp add: calm_with_def stats_same [OF same_more_socket [OF 1]])
  have "calm s s1" if "fd < 0" using socket_adds [OF 1] that same_more_socket [OF 1] by (intro calm_same) (simp_all add: adds_fd_neg)
  moreover have "calm_with fd s (atomic_fetch_add gs_connects_update 1 s2)" if "0 \<le> fd"
    using a [OF that] by (simp add: calm_with_def adds_fd_def)
  ultimately show ?thesis using assms 1 2 a calm_with_close [OF a] by (auto simp: connect_to_server_def split: if_splits)
qed

lemma open_connection_result:
  assumes "open_connection s = (r, s')"
  shows "case r of None \<Rightarrow> calm s s' | Some (sock, conn) \<Rightarrow> calm_with sock s s' \<and> c_pending conn = []"
proof -
  obtain sock s1 where 1: "connect_to_server s = (sock, s1)" by fastforce
  obtain c s2 where 2: "objm_client_create sock OBJM_PROTO_V1 s1 = (c, s2)" by fastforce
  have "calm s1 s2" using sf.R_create [OF 2] sm.R_create [OF 2] by (rule calm_same)
  then have "calm_with sock s s2" if "0 \<le> sock" using connect_result [OF 1] that by (auto intro: calm_with_comp)
  moreover have "c_pending conn = []" if "c = Some conn" for conn
    using 2 that by (auto simp: objm_client_create_def split: prod.splits if_splits)
  ultimately show ?thesis using assms 1 2 connect_result [OF 1] calm_with_close
    by (auto simp: open_connection_def split: if_splits option.splits)
qed

lemma disconnect_fds:
  assumes "c_pending conn = []" "0 \<le> sock"
  shows "fd_obj (disconnect_from_server sock conn s) x = (if x = sock then None else fd_obj s x)"
    "balance (bn_stats (disconnect_from_server sock conn s)) = balance (bn_stats s)"
    "uncounted (bn_stats (disconnect_from_server sock conn s)) = uncounted (bn_stats s)"
proof -
  obtain ok s1 where 1: "objm_client_close conn OBJM_CLOSE_NORMAL s = (ok, s1)" by fastforce
  note q = sf.R_close [OF 1] stats_same [OF sm.R_close [OF 1]]
  show "fd_obj (disconnect_from_server sock conn s) x = (if x = sock then None else fd_obj s x)"
    "balance (bn_stats (disconnect_from_server sock conn s)) = balance (bn_stats s)"
    "uncounted (bn_stats (disconnect_from_server sock conn s)) = uncounted (bn_stats s)"
    using q 1 assms by (simp_all add: disconnect_from_server_def same_fds_def fd_obj_close stats_same [OF same_more_close])
qed

lemma calm_disconnect:
  assumes "calm_with sock s s'" "c_pending conn = []" shows "calm s (disconnect_from_server sock conn s')"
  using assms unfolding calm_def calm_with_def same_fds_def adds_fd_def by (simp add: disconnect_fds)

section \<open>Workers\<close>

lemma calm_operation:
  "worker_operation rd config buf conn s = (buf', conn', s') \<Longrightarrow> calm s s' \<and> c_pending conn' = c_pending conn"
  by (auto simp: worker_operation_def dest!: calm_put calm_get intro: calm_trans [OF _ calm_failure] split: if_splits prod.splits)

lemma calm_fault: "fault s = (b, s') \<Longrightarrow> calm s s'"
  using sf.R_fault sm.R_fault calm_same by blast

lemma worker_start_result:
  assumes "worker_start config s = (r, s')"
  shows "case r of None \<Rightarrow> calm s s'
     | Some (buf, sock, conn) \<Rightarrow> (if wc_long_lived config then calm_with sock s s' else calm s s') \<and> c_pending conn = []"
proof -
  obtain f s0 where 0: "fault s = (f, s0)" by fastforce
  obtain buf s1 where 1: "random_bytes (wc_object_size config) s0 = (buf, s1)" by fastforce
  obtain c s2 where 2: "open_connection s1 = (c, s2)" by fastforce
  have s1: "calm s s0" "calm s s1" using calm_fault [OF 0] calm_random_bytes [OF 1] by (auto intro: calm_trans)
  note o = open_connection_result [OF 2]
  have n: "case r of None \<Rightarrow> calm s s' | Some x \<Rightarrow> True" if "f \<or> c = None"
    using assms 0 1 2 s1 o that by (auto simp: worker_start_def intro!: calm_trans [OF _ calm_failure] dest: calm_trans split: if_splits)
  show ?thesis
  proof (cases "f \<or> c = None")
    case True
    then show ?thesis using n assms 0 1 2 by (auto simp: worker_start_def split: if_splits)
  next
    case False
    then obtain sock conn where c: "\<not> f" "c = Some (sock, conn)" by auto
    obtain ok conn' s3 where 3: "do_put_operation conn (worker_uri config) buf s2 = (ok, conn', s3)" by (metis prod_cases3)
    have "calm_with sock s (count_failure ok s3)" "c_pending conn' = []"
      using o c s1(2) calm_put [OF 3] by (auto intro: calm_with_comp(2) [OF calm_with_comp(2) [OF calm_with_comp(1)] calm_failure])
    then show ?thesis using assms 0 1 2 3 c by (auto simp: worker_start_def Let_def intro: calm_disconnect)
  qed
qed

lemma worker_round_result:
  assumes "worker_round config buf sock conn s = ((buf', sock', conn'), s')" "\<forall>c. conn = Some c \<longrightarrow> wc_long_lived config \<and> c_pending c = []"
  shows "calm s s'" "\<forall>c. conn' = Some c \<longrightarrow> wc_long_lived config \<and> c_pending c = []" "conn' = None \<longleftrightarrow> conn = None" "conn \<noteq> None \<longrightarrow> sock' = sock"
proof -
  obtain r s1 where 1: "next_rand s = (r, s1)" by fastforce
  note s1 = calm_rand [OF 1]
  define rd where "rd = (r mod 100 < wc_read_write_ratio config)"
  have "calm s s' \<and> (\<forall>c. conn' = Some c \<longrightarrow> wc_long_lived config \<and> c_pending c = []) \<and> (conn' = None \<longleftrightarrow> conn = None) \<and> (conn \<noteq> None \<longrightarrow> sock' = sock)"
  proof (cases conn)
    case (Some c)
    obtain b c1 s2 where 2: "worker_operation rd config buf c s1 = (b, c1, s2)" by (metis prod_cases3)
    show ?thesis using assms Some 1 2 calm_operation [OF 2] s1 by (auto simp: worker_round_def rd_def intro: calm_trans)
  next
    case None
    obtain opened s2 where 2: "open_connection s1 = (opened, s2)" by fastforce
    note o = open_connection_result [OF 2]
    show ?thesis
    proof (cases opened)
      case None
      then show ?thesis using assms \<open>conn = None\<close> 1 2 o s1
        by (auto simp: worker_round_def Let_def intro!: calm_trans [OF _ calm_failure] dest: calm_trans split: bool.splits)
    next
      case (Some x)
      obtain k c where x: "x = (k, c)" by fastforce
      obtain b c1 s3 where 3: "worker_operation rd config buf c s2 = (b, c1, s3)" by (metis prod_cases3)
      have "calm_with k s s3" "c_pending c1 = []" using o Some x s1 calm_operation [OF 3] by (auto intro: calm_with_comp)
      then have "calm s (disconnect_from_server k c1 s3)" by (rule calm_disconnect)
      then show ?thesis using assms(1) \<open>conn = None\<close> 1 2 3 Some x
        by (auto simp: worker_round_def rd_def Let_def split: bool.split_asm)
    qed
  qed
  then show "calm s s'" "\<forall>c. conn' = Some c \<longrightarrow> wc_long_lived config \<and> c_pending c = []" "conn' = None \<longleftrightarrow> conn = None" "conn \<noteq> None \<longrightarrow> sock' = sock"
    by simp_all
qed

text \<open>The socket that a thread keeps open between its pieces.\<close>

definition held :: "thread \<Rightarrow> int set" where
  "held t = (case th_conn t of None \<Rightarrow> {} | Some c \<Rightarrow> {th_sock t})"

definition thread_ok :: "thread \<Rightarrow> bool" where
  "thread_ok t \<longleftrightarrow> (\<forall>c. th_conn t = Some c \<longrightarrow> wc_long_lived (th_config t) \<and> c_pending c = [] \<and> 0 \<le> th_sock t) \<and>
     (th_phase t \<noteq> Looping \<longrightarrow> th_conn t = None)"

text \<open>The descriptors change from those of \<open>H\<close> to those of \<open>H'\<close> and the counters stay balanced.\<close>

definition moves :: "int set \<Rightarrow> int set \<Rightarrow> bench \<Rightarrow> bench \<Rightarrow> bool" where
  "moves H H' s s' \<longleftrightarrow> (\<forall>x\<in>H' - H. fd_obj s x = None \<and> fd_obj s' x \<noteq> None) \<and> (\<forall>x\<in>H - H'. fd_obj s' x = None) \<and>
     (\<forall>x. (x \<in> H \<longleftrightarrow> x \<in> H') \<longrightarrow> fd_obj s' x = fd_obj s x) \<and>
     balance (bn_stats s') = balance (bn_stats s) \<and> uncounted (bn_stats s') = uncounted (bn_stats s)"

lemma calm_moves: "calm s s' \<Longrightarrow> moves H H s s'"
  by (simp add: moves_def calm_def same_fds_def)

lemma calm_with_moves: "calm_with sock s s' \<Longrightarrow> moves {} {sock} s s'"
  by (auto simp: moves_def calm_with_def adds_fd_def)

lemma disconnect_moves: "c_pending c = [] \<Longrightarrow> 0 \<le> sock \<Longrightarrow> moves {sock} {} s (disconnect_from_server sock c s)"
  by (simp add: moves_def disconnect_fds)

lemma moves_resume: "moves H H' (resume l s) s' = moves H H' s s'"
  by (simp add: moves_def resume_def)

lemma worker_moves:
  assumes "benchmark_worker stop t s = (t', s')" "thread_ok t"
  shows "moves (held t) (held t') s s'" "thread_ok t'"
proof -
  let ?s = "resume (th_link t) s" and ?c = "th_config t"
  have "moves (held t) (held t') ?s s' \<and> thread_ok t'"
  proof (cases "th_phase t")
    case Created
    obtain r s1 where 1: "worker_start ?c ?s = (r, s1)" by fastforce
    show ?thesis using assms Created 1 worker_start_result [OF 1]
      by (auto simp: benchmark_worker_def held_def thread_ok_def intro: calm_moves calm_with_moves dest: calm_with_nonneg
          split: option.splits if_splits)
  next
    case Looping
    obtain b k c s1 where 1: "worker_round ?c (th_buffer t) (th_sock t) (th_conn t) ?s = ((b, k, c), s1)" by (metis prod.exhaust)
    have ok: "\<forall>c. th_conn t = Some c \<longrightarrow> wc_long_lived ?c \<and> c_pending c = []" using assms(2) by (auto simp: thread_ok_def)
    note r = worker_round_result [OF 1 ok]
    have e: "moves (held t) {} ?s (worker_end ?c (th_sock t) (th_conn t) ?s)"
      using assms(2) by (auto simp: worker_end_def held_def thread_ok_def calm_moves disconnect_moves split: option.splits bool.splits)
    show ?thesis
    proof (cases stop)
      case True
      then show ?thesis using assms Looping e by (auto simp: benchmark_worker_def Let_def held_def thread_ok_def)
    next
      case False
      then have t': "t' = t\<lparr>th_buffer := b, th_sock := k, th_conn := c, th_link := pause_link s1\<rparr>" "s' = s1"
        using assms(1) Looping 1 by (auto simp: benchmark_worker_def Let_def)
      have "held t' = held t" "thread_ok t'" using r assms(2) by (auto simp: t' held_def thread_ok_def Looping split: option.splits)
      then show ?thesis using calm_moves [OF r(1)] t' by simp
    qed
  next
    case Returned
    then show ?thesis using assms by (auto simp: benchmark_worker_def intro: calm_moves)
  qed
  then show "moves (held t) (held t') s s'" "thread_ok t'" by (simp_all add: moves_resume)
qed

section \<open>Runs\<close>

definition all_held :: "thread list \<Rightarrow> int set" where
  "all_held ts = (\<Union>i<length ts. held (ts ! i))"

definition group_ok :: "bench \<Rightarrow> thread list \<Rightarrow> bench \<Rightarrow> bool" where
  "group_ok s0 ts s \<longleftrightarrow> (\<forall>i<length ts. thread_ok (ts ! i)) \<and>
     (\<forall>i<length ts. \<forall>j<length ts. i \<noteq> j \<longrightarrow> held (ts ! i) \<inter> held (ts ! j) = {}) \<and>
     (\<forall>x\<in>all_held ts. fd_obj s0 x = None \<and> fd_obj s x \<noteq> None) \<and> (\<forall>x. x \<notin> all_held ts \<longrightarrow> fd_obj s x = fd_obj s0 x) \<and>
     balance (bn_stats s) = balance (bn_stats s0) \<and> uncounted (bn_stats s) = uncounted (bn_stats s0)"

lemma group_calm: "group_ok s0 ts s \<Longrightarrow> calm s s' \<Longrightarrow> group_ok s0 ts s'"
  by (simp add: group_ok_def calm_def same_fds_def)

lemma group_step:
  assumes "group_ok s0 ts s" "i < length ts" "benchmark_worker stop (ts ! i) s = (t, s')"
  shows "group_ok s0 (ts[i := t]) s'"
proof -
  let ?H = "held (ts ! i)" and ?O = "\<Union>j\<in>{..<length ts} - {i}. held (ts ! j)"
  note g = assms(1) [unfolded group_ok_def]
  have m: "moves ?H (held t) s s'" "thread_ok t" using worker_moves [OF assms(3)] g assms(2) by blast+
  have u: "all_held ts = ?H \<union> ?O" "all_held (ts[i := t]) = held t \<union> ?O"
    using assms(2) by (auto simp: all_held_def nth_list_update split: if_splits)
  have d: "?H \<inter> ?O = {}" using g assms(2) by blast
  have d': "held t \<inter> ?O = {}"
  proof -
    have "fd_obj s x \<noteq> None" if "x \<in> ?O" for x using g that u by blast
    then have "x \<notin> ?O" if "x \<in> held t - ?H" for x using m(1) that unfolding moves_def by blast
    with d show ?thesis by blast
  qed
  have "held (ts[i := t] ! a) \<inter> held (ts[i := t] ! b) = {}" if "a < length ts" "b < length ts" "a \<noteq> b" for a b
  proof -
    have "held (ts ! k) \<subseteq> ?O" if "k < length ts" "k \<noteq> i" for k using that by blast
    then show ?thesis using that d' g by (cases "a = i"; cases "b = i") (simp_all add: nth_list_update, blast+)
  qed
  moreover have "fd_obj s0 x = None \<and> fd_obj s' x \<noteq> None" if "x \<in> held t \<union> ?O" for x
  proof (cases "x \<in> ?H \<union> ?O")
    case True
    then have "fd_obj s0 x = None" "fd_obj s x \<noteq> None" using g u by blast+
    moreover have "x \<in> ?H \<longleftrightarrow> x \<in> held t" using True that d d' by blast
    ultimately show ?thesis using m(1) unfolding moves_def by simp
  next
    case False
    then show ?thesis using m(1) that g u unfolding moves_def by (metis DiffI UnE UnI1 UnI2)
  qed
  moreover have "fd_obj s' x = fd_obj s0 x" if "x \<notin> held t \<union> ?O" for x
    using that m(1) g u d unfolding moves_def by (cases "x \<in> ?H") auto
  moreover have "thread_ok (ts[i := t] ! a)" if "a < length ts" for a using that m(2) g by (cases "a = i") simp_all
  ultimately show ?thesis using m(1) g unfolding group_ok_def u(2) moves_def by simp
qed

lemma group_run: "group_ok s0 ts s \<Longrightarrow> run_threads es stop ts s = (ts', s') \<Longrightarrow> group_ok s0 ts' s'"
proof (induction es stop ts s rule: run_threads.induct)
  case (3 es stop ts s)
  obtain n s1 where t: "get_time_us s = (n, s1)" by fastforce
  show ?case using 3 group_calm [OF 3(2) calm_time [OF t]] t by simp
qed (auto split: if_splits prod.splits dest: group_step)

lemma new_thread_ok: "thread_ok (new_thread n l r i)" "held (new_thread n l r i) = {}"
  by (simp_all add: thread_ok_def held_def new_thread_def)

lemma calm_create: "create_threads n s = (ok, s') \<Longrightarrow> calm s s'"
  by (induction n arbitrary: s ok s') (auto dest!: calm_fault intro: calm_trans split: prod.splits)

lemma all_returned: "group_ok s0 ts s \<Longrightarrow> \<forall>t\<in>set ts. th_phase t = Returned \<Longrightarrow> calm s0 s"
  by (auto simp: group_ok_def all_held_def thread_ok_def held_def calm_def same_fds_def)

lemma run_calm:
  assumes "run_benchmark n sz l r es s = Some s'"
  shows "same_fds s s'" "accounted (bn_stats s) \<Longrightarrow> accounted (bn_stats s')"
proof -
  obtain f1 s1 where 1: "fault s = (f1, s1)" by fastforce
  obtain f2 s2 where 2: "fault s1 = (f2, s2)" by fastforce
  obtain ok s3 where 3: "create_threads n (reset_stats s2) = (ok, s3)" by fastforce
  obtain t s4 where 4: "get_time_us s3 = (t, s4)" by fastforce
  let ?ts = "map (new_thread sz l r) [0..<n]"
  obtain ts' s5 where 5: "run_threads es False ?ts s4 = (ts', s5)" by fastforce
  have c: "calm s s2" using calm_trans [OF calm_fault [OF 1] calm_fault [OF 2]] .
  have d: "calm (reset_stats s2) s4" using calm_trans [OF calm_create [OF 3] calm_time [OF 4]] .
  have "group_ok s4 ?ts s4" by (simp add: group_ok_def all_held_def new_thread_ok)
  from group_run [OF this 5] have e: "\<forall>t\<in>set ts'. th_phase t = Returned \<Longrightarrow> calm (reset_stats s2) s5"
    using d all_returned calm_trans by blast
  have z: "accounted (bn_stats (reset_stats s2))" "same_fds s (reset_stats s2)"
    using c by (simp_all add: reset_stats_def zero_stats_def accounted_def calm_def same_fds_def)
  show "same_fds s s'" "accounted (bn_stats s) \<Longrightarrow> accounted (bn_stats s')"
    using assms 1 2 3 4 5 c e z unfolding accounted_balance
    by (auto simp: run_benchmark_def calm_def intro: sf.R_trans split: if_splits)
qed

section \<open>The end of a run\<close>

primrec rank :: "phase \<Rightarrow> nat" where
  "rank Created = 2" | "rank Looping = 1" | "rank Returned = 0"

lemma rank_step: "benchmark_worker True t s = (t', s') \<Longrightarrow> rank (th_phase t') \<le> rank (th_phase t) - 1"
  by (auto simp: benchmark_worker_def Let_def split: phase.splits option.splits prod.splits)

lemma run_length: "run_threads es stop ts s = (ts', s') \<Longrightarrow> length ts' = length ts"
  by (induction es stop ts s rule: run_threads.induct) (auto split: if_splits prod.splits)

lemma run_append:
  "run_threads (es @ Stop # fs) stop ts s =
     (let (ts', s') = run_threads es stop ts s in run_threads fs True ts' (snd (get_time_us s')))"
  by (induction es stop ts s rule: run_threads.induct) (auto split: prod.splits)

text \<open>After the stop, two turns are enough for a worker to return.\<close>

lemma run_stopped:
  assumes "run_threads es True ts s = (ts', s')" "\<forall>i<length ts. rank (th_phase (ts ! i)) \<le> count_list es (Run i)"
  shows "\<forall>i<length ts. th_phase (ts' ! i) = Returned"
  using assms
proof (induction es True ts s rule: run_threads.induct)
  case (1 ts s)
  have "rank p = 0 \<Longrightarrow> p = Returned" for p by (cases p) simp_all
  then show ?case using 1 by auto
next
  case (2 i es ts s)
  obtain t s1 where w: "benchmark_worker True (ts ! i) s = (t, s1)" by fastforce
  have r: "rank (th_phase t) \<le> rank (th_phase (ts ! i)) - 1" by (rule rank_step [OF w])
  have "rank (th_phase (ts[i := t] ! j)) \<le> count_list es (Run j)" if "j < length ts" for j
    using 2(4) r that by (cases "j = i") (auto dest!: spec [of _ j])
  then show ?case using 2 w by (auto split: if_splits)
qed auto

lemma create_calm: "no_faults s \<Longrightarrow> \<exists>s'. create_threads n s = (True, s')"
proof (induction n arbitrary: s)
  case (Suc n)
  obtain t where f: "fault s = (False, s\<lparr>faults := t\<rparr>)" "True \<notin> set t" using no_faults_fault [OF Suc.prems] .
  show ?case using Suc.IH [of "s\<lparr>faults := t\<rparr>"] f by (auto simp: no_faults_def)
qed simp

lemma run_returns:
  assumes "no_faults s" "\<forall>i<num_threads. 2 \<le> count_list after (Run i)"
  shows "\<exists>s'. run_benchmark num_threads object_size long_lived read_write_ratio (before @ Stop # after) s = Some s'"
proof -
  obtain t where 1: "fault s = (False, s\<lparr>faults := t\<rparr>)" "True \<notin> set t" using no_faults_fault [OF assms(1)] .
  then have "no_faults (s\<lparr>faults := t\<rparr>)" by (simp add: no_faults_def)
  from no_faults_fault [OF this] obtain u where
    2: "fault (s\<lparr>faults := t\<rparr>) = (False, s\<lparr>faults := t\<rparr>\<lparr>faults := u\<rparr>)" "True \<notin> set u" .
  let ?s = "s\<lparr>faults := t\<rparr>\<lparr>faults := u\<rparr>" and ?ts = "map (new_thread object_size long_lived read_write_ratio) [0..<num_threads]"
  obtain s3 where 3: "create_threads num_threads (reset_stats ?s) = (True, s3)"
    using create_calm [of "reset_stats ?s" num_threads] 2(2) by (auto simp: no_faults_def reset_stats_def)
  obtain ts1 s4 where 4: "run_threads before False ?ts (snd (get_time_us s3)) = (ts1, s4)" by fastforce
  obtain ts2 s5 where 5: "run_threads after True ts1 (snd (get_time_us s4)) = (ts2, s5)" by fastforce
  have l: "length ts1 = num_threads" "length ts2 = num_threads" using run_length [OF 4] run_length [OF 5] by simp_all
  have "rank p \<le> 2" for p by (cases p) simp_all
  then have "\<forall>i<length ts1. rank (th_phase (ts1 ! i)) \<le> count_list after (Run i)" using assms(2) l by (meson order_trans)
  from run_stopped [OF 5 this] have "\<forall>t\<in>set ts2. th_phase t = Returned" using l by (auto simp: in_set_conv_nth)
  then show ?thesis using 1 2 3 4 5 by (simp add: run_benchmark_def run_append)
qed

text \<open>
  C8: The counters of a benchmark run account for every operation: whatever the server, the
  network, the files and the allocations do, and however the worker threads take turns, when a
  run returns each attempt is counted once, as a success or as exactly one of the five kinds of
  errors, the successes add up to the operations, and the run has closed every descriptor that
  it opened.
\<close>

theorem benchmark_run_accounted:
  assumes "run_benchmark num_threads object_size long_lived read_write_ratio es s = Some s'" "accounted (bn_stats s)"
  shows "accounted (bn_stats s') \<and> (\<forall>fd. fd_obj s' fd = fd_obj s fd)"
  using run_calm [OF assms(1)] assms(2) by (simp add: same_fds_def)

text \<open>A benchmark that can make one connection, on which the server sends nothing.\<close>

definition sample_bench :: bench where
  "sample_bench = os.extend os_init (bench.fields zero_stats [(1, 500000), (1, 500020), (1, 500030)] [10, 20, 300]
     [\<lparr>ln_rx = [], ln_tx = [], ln_rx_ev = [], ln_tx_ev = []\<rparr>])"

abbreviation sample_schedule :: "event list" where
  "sample_schedule \<equiv> [Run 0, Run 1, Run 0] @ Stop # [Run 1, Run 0, Run 0, Run 1]"

lemma sample_bench_ok: "no_faults sample_bench" "accounted (bn_stats sample_bench)"
  "\<forall>i<2. 2 \<le> count_list [Run 1, Run 0, Run 0, Run 1] (Run i)"
  by (simp_all add: sample_bench_def os_init_def no_faults_def os.defs bench.defs accounted_def zero_stats_def less_2_cases_iff)

theorem benchmark_run_accounted_witness:
  "\<exists>s'. run_benchmark 2 3 False 50 sample_schedule sample_bench = Some s' \<and> accounted (bn_stats s') \<and> fd_obj s' 0 = None"
proof -
  obtain s' where r: "run_benchmark 2 3 False 50 sample_schedule sample_bench = Some s'"
    using run_returns [OF sample_bench_ok(1,3)] by blast
  moreover have "fd_obj sample_bench 0 = None" by (simp add: sample_bench_def os_init_def os.defs bench.defs fd_obj_def)
  ultimately show ?thesis using benchmark_run_accounted [OF r sample_bench_ok(2)] by auto
qed

section \<open>The whole program\<close>

lemma calm_cleanup_object:
  assumes "cleanup_object i (conn, s) = (conn', s')" shows "calm s s' \<and> c_pending conn' = c_pending conn"
proof -
  let ?uri = "snprintf_buf 256 (''/delete/bench/'' @ show_nat i @ ''/object.bin'')"
  obtain ok c1 s1 where 1: "objm_client_send_request conn (cmd_request ?uri) s = (ok, c1, s1)" by (metis prod_cases3)
  obtain r c2 s2 where 2: "objm_client_recv_response c1 s1 = (r, c2, s2)" by (metis prod_cases3)
  have "calm s s1" using sf.R_send_request [OF 1] sm.R_send_request [OF 1] by (rule calm_same)
  moreover have "calm s1 (case r of None \<Rightarrow> s2 | Some resp \<Rightarrow> objm_response_free resp s2)"
  proof (rule calm_same)
    show "same_fds s1 (case r of None \<Rightarrow> s2 | Some resp \<Rightarrow> objm_response_free resp s2)"
      using response_adds [OF 2] by (auto simp: objm_response_free_def adds_fd_neg intro: close_added split: option.splits)
    show "same_more s1 (case r of None \<Rightarrow> s2 | Some resp \<Rightarrow> objm_response_free resp s2)"
      using same_more_response [OF 2] by (auto intro: sm.R_trans split: option.splits)
  qed
  ultimately show ?thesis using assms 1 2 pending_kept(1) [OF 1] pending_kept(2) [OF 2]
    by (auto simp: cleanup_object_def Let_def intro: calm_trans split: option.splits)
qed

lemma calm_cleanup: "calm s (cleanup_benchmark_objects s)"
proof -
  obtain r s1 where 1: "open_connection s = (r, s1)" by fastforce
  have f: "fold cleanup_object is (conn, t) = (conn', t') \<Longrightarrow> calm t t' \<and> c_pending conn' = c_pending conn" for "is" conn t conn' t'
  proof (induction "is" arbitrary: conn t)
    case (Cons i "is")
    obtain c2 t2 where 2: "cleanup_object i (conn, t) = (c2, t2)" by fastforce
    show ?case using Cons.IH [of c2 t2] Cons.prems 2 calm_cleanup_object [OF 2] by (auto intro: calm_trans)
  qed simp
  show ?thesis
  proof (cases r)
    case (Some x)
    obtain sock conn where x: "x = (sock, conn)" by fastforce
    obtain c2 s2 where 2: "fold cleanup_object [0..<1000] (conn, s1) = (c2, s2)" by fastforce
    show ?thesis using open_connection_result [OF 1] Some x 1 2 f [OF 2] calm_with_comp(2)
      by (auto simp: cleanup_benchmark_objects_def simp del: upt_rec_numeral intro!: calm_disconnect)
  qed (use 1 open_connection_result [OF 1] in \<open>simp add: cleanup_benchmark_objects_def\<close>)
qed

lemma run_all_calm:
  "run_all rs ess s = Some s' \<Longrightarrow> same_fds s s' \<and> (accounted (bn_stats s) \<longrightarrow> accounted (bn_stats s'))"
  by (induction rs ess s rule: run_all.induct)
    (auto simp: sf.R_refl intro: sf.R_trans dest: run_calm split: option.splits)

text \<open>\<open>main\<close> leaves no descriptor open, and its counters are accounted for to the end.\<close>

lemma main_accounted:
  assumes "benchmark_main ess s = Some s'"
  shows "same_fds s s'" "accounted (bn_stats s) \<Longrightarrow> accounted (bn_stats s')"
proof -
  obtain s1 where 1: "run_all main_runs ess s = Some s1" "s' = cleanup_benchmark_objects s1"
    using assms by (auto simp: benchmark_main_def)
  show "same_fds s s'" "accounted (bn_stats s) \<Longrightarrow> accounted (bn_stats s')"
    using run_all_calm [OF 1(1)] calm_cleanup [of s1] sf.R_trans unfolding 1(2) calm_def accounted_balance by auto
qed

end
