(* ===== verification/Benchmark_Transfer.thy ===== *)
theory Benchmark_Transfer
  imports Benchmark_Props
begin

text \<open>
  The data of the benchmark's operations: the loops that write and read transfer everything
  however the kernel splits the transfers, and over the server an object that was put is got.
\<close>

section \<open>The loops\<close>

text \<open>Transfers on files are neither interrupted nor fail; they may be short.\<close>

definition files_ok :: "'a os_scheme \<Rightarrow> bool" where
  "files_ok s \<longleftrightarrow> Intr \<notin> set (fio_ev s) \<and> Fail \<notin> set (fio_ev s)"

lemma files_ok_hd: "files_ok s \<Longrightarrow> fio_ev s \<noteq> [] \<Longrightarrow> hd (fio_ev s) \<noteq> Intr \<and> hd (fio_ev s) \<noteq> Fail"
  unfolding files_ok_def by (cases "fio_ev s") auto

lemma files_ok_tl: "files_ok s \<Longrightarrow> Intr \<notin> set (tl (fio_ev s)) \<and> Fail \<notin> set (tl (fio_ev s))"
  unfolding files_ok_def by (cases "fio_ev s") auto

lemma write_at_split:
  "off \<le> length old \<Longrightarrow> write_at (off + length a) b (write_at off a old) = write_at off (a @ b) old"
  by (simp add: write_at_def min_def ac_simps)

lemma write_at_length: "off \<le> length old \<Longrightarrow> off + length a \<le> length (write_at off a old)"
  by (simp add: write_at_def)

lemma write_data_all:
  assumes "fd_obj s fd = Some d" "of_acc (ofds s d) \<noteq> O_RDONLY" "files_ok s"
    and "of_off (ofds s d) \<le> length (inodes s (of_ino (ofds s d)))"
  shows "\<exists>x ev. write_data fd bs s = (True, s\<lparr>inodes := (inodes s)(of_ino (ofds s d) :=
     write_at (of_off (ofds s d)) bs (inodes s (of_ino (ofds s d)))), ofds := x, fio_ev := ev\<rparr>)"
  using assms
proof (induction "length bs" arbitrary: bs s rule: less_induct)
  case less
  let ?f = "ofds s d"
  let ?old = "inodes s (of_ino ?f)"
  show ?case
  proof (cases "bs = []")
    case True
    have "write_at (of_off ?f) [] ?old = ?old" using less.prems(4) by (simp add: write_at_def)
    then show ?thesis using True by (intro exI [of _ "ofds s"] exI [of _ "fio_ev s"]) (cases s, simp add: write_data.simps)
  next
    case False
    define k where "k = chunk (fio_ev s) (length bs)"
    have k: "0 < k" "k \<le> length bs" using chunk_bounds [of "length bs"] False by (simp_all add: k_def)
    let ?s = "s\<lparr>fio_ev := tl (fio_ev s), inodes := (inodes s)(of_ino ?f := write_at (of_off ?f) (take k bs) ?old),
      ofds := (ofds s)(d := ?f\<lparr>of_off := of_off ?f + k\<rparr>)\<rparr>"
    have w: "file_write fd bs s = (KDone (take k bs), ?s)"
      using less.prems(1,2) files_ok_hd [OF less.prems(3)] k by (auto simp: file_write_def Let_def k_def)
    have st: "write_data fd bs s = write_data fd (drop k bs) ?s"
      using w k False by (subst write_data.simps) (simp add: min_absorb2)
    have "length (drop k bs) < length bs" using k by simp
    moreover have "fd_obj ?s fd = Some d" "of_acc (ofds ?s d) \<noteq> O_RDONLY" "files_ok ?s"
      "of_off (ofds ?s d) \<le> length (inodes ?s (of_ino (ofds ?s d)))"
      using less.prems files_ok_tl [OF less.prems(3)] write_at_length [OF less.prems(4), of "take k bs"] k
      by (simp_all add: files_ok_def min_absorb2)
    ultimately obtain x ev where "write_data fd (drop k bs) ?s = (True, ?s\<lparr>inodes := (inodes ?s)(of_ino (ofds ?s d) :=
       write_at (of_off (ofds ?s d)) (drop k bs) (inodes ?s (of_ino (ofds ?s d)))), ofds := x, fio_ev := ev\<rparr>)"
      using less.hyps by blast
    then show ?thesis using st write_at_split [OF less.prems(4), of "take k bs" "drop k bs"] k
      by (intro exI [of _ x] exI [of _ ev]) (simp add: min_absorb2)
  qed
qed

lemma take_chunk: "c \<le> n \<Longrightarrow> take n xs = take c xs @ take (n - length (take c xs)) (drop (length (take c xs)) xs)"
  using take_add [of c "n - c" xs] by (cases "c \<le> length xs") simp_all

lemma read_data_all:
  assumes "fd_obj s fd = Some d" "of_acc (ofds s d) \<noteq> O_WRONLY" "files_ok s"
  shows "\<exists>x ev. read_data fd n s = (take n (drop (of_off (ofds s d)) (inodes s (of_ino (ofds s d)))), s\<lparr>ofds := x, fio_ev := ev\<rparr>)"
  using assms
proof (induction n arbitrary: s rule: less_induct)
  case (less n)
  let ?f = "ofds s d"
  let ?rest = "drop (of_off ?f) (inodes s (of_ino ?f))"
  show ?case
  proof (cases "n = 0")
    case True
    then show ?thesis by (intro exI [of _ "ofds s"] exI [of _ "fio_ev s"]) (cases s, simp add: read_data.simps)
  next
    case False
    define got where "got = take (chunk (fio_ev s) n) ?rest"
    let ?s = "s\<lparr>fio_ev := tl (fio_ev s), ofds := (ofds s)(d := ?f\<lparr>of_off := of_off ?f + length got\<rparr>)\<rparr>"
    have r: "file_read fd n s = (KDone got, ?s)"
      using less.prems(1,2) files_ok_hd [OF less.prems(3)] by (auto simp: file_read_def Let_def got_def)
    have k: "0 < chunk (fio_ev s) n" "chunk (fio_ev s) n \<le> n" using chunk_bounds [of n] False by simp_all
    show ?thesis
    proof (cases "got = []")
      case True
      then have e: "take n ?rest = []" using k by (simp add: got_def)
      have "read_data fd n s = ([], ?s)" using r True False by (subst read_data.simps) simp
      then show ?thesis using e by (intro exI [of _ "(ofds s)(d := ?f\<lparr>of_off := of_off ?f + length got\<rparr>)"] exI [of _ "tl (fio_ev s)"]) (cases s, simp add: fun_upd_def)
    next
      case got: False
      have "n - length got < n" using got False by (cases got) auto
      moreover have "fd_obj ?s fd = Some d" "of_acc (ofds ?s d) \<noteq> O_WRONLY" "files_ok ?s"
        using less.prems files_ok_tl [OF less.prems(3)] by (simp_all add: files_ok_def)
      ultimately obtain x ev where i: "read_data fd (n - length got) ?s =
          (take (n - length got) (drop (of_off (ofds ?s d)) (inodes ?s (of_ino (ofds ?s d)))), ?s\<lparr>ofds := x, fio_ev := ev\<rparr>)"
        using less.IH by blast
      have "take n ?rest = got @ take (n - length got) (drop (length got) ?rest)"
        unfolding got_def by (rule take_chunk [OF k(2)])
      then show ?thesis using r got False i
        by (intro exI [of _ x] exI [of _ ev]) (subst read_data.simps, simp add: add.commute)
    qed
  qed
qed

section \<open>Operations\<close>

text \<open>An exchange that gives the command line client a descriptor gives it to the benchmark.\<close>

lemma request_fd_exchange:
  "cmd_exchange conn u s = (Some r, conn', s') \<Longrightarrow> 0 \<le> rs_fd r \<Longrightarrow> request_fd conn u s = (rs_fd r, conn', s')"
  by (auto simp: cmd_exchange_def request_fd_def objm_response_free_def split: client_splits)

text \<open>A benchmark process on a link without failures, with file transfers that may be short.\<close>

definition steady :: "bench \<Rightarrow> bool" where
  "steady c \<longleftrightarrow> no_faults c \<and> link_calm c \<and> files_ok c"

lemma request_fd_ok:
  assumes "rx c = answer conn (cmd_request u) d" "c_version conn = OBJM_PROTO_V1" "c_version cc = OBJM_PROTO_V1"
    and "no_faults c" "link_calm c" "length (c_str u) \<le> 4096"
  obtains fd c1 where "request_fd cc u c = (fd, cc, c1)" "0 \<le> fd" "fd_obj c1 fd = Some d" "same_files c c1"
proof -
  obtain fd c1 where x: "cmd_exchange cc u c = (Some (ok_response 0 fd 0), cc, c1)" "fd_obj c1 fd = Some d" "same_files c c1"
    using exchange_ok [OF assms(1-6)] .
  then have "request_fd cc u c = (fd, cc, c1)" using request_fd_exchange [OF x(1)] fd_obj_nonneg [OF x(2)] by (simp add: ok_response_def)
  then show ?thesis using fd_obj_nonneg [OF x(2)] x(2,3) by (rule that)
qed

lemma time_shape: "\<exists>t ts. get_time_us s = (t, s\<lparr>bn_times := ts\<rparr>)"
  by (cases "bn_times s") (auto simp: get_time_us_def intro: exI [of _ "bn_times s"])

text \<open>A put overwrites the start of the file, a get reads it.\<close>

lemma put_writes:
  assumes "rx c = answer conn (cmd_request u) d" "c_version conn = OBJM_PROTO_V1" "c_version cc = OBJM_PROTO_V1"
    and "steady c" "length (c_str u) \<le> 4096" "ofds c d = \<lparr>of_ino = ino, of_off = 0, of_acc = O_RDWR\<rparr>"
  obtains c' where "do_put_operation cc u bs c = (True, cc, c')" "inodes c' = (inodes c)(ino := write_at 0 bs (inodes c ino))"
    "dir c' = dir c" "next_ino c' = next_ino c" "next_ofd c' = next_ofd c"
proof -
  obtain t ts where 0: "get_time_us c = (t, c\<lparr>bn_times := ts\<rparr>)" using time_shape by blast
  let ?c = "atomic_fetch_add gs_put_attempts_update 1 (c\<lparr>bn_times := ts\<rparr>)"
  have "rx ?c = answer conn (cmd_request u) d" "no_faults ?c" "link_calm ?c"
    using assms(1,4) by (simp_all add: atomic_fetch_add_def steady_def no_faults_def link_calm_def link_ok_def)
  then obtain fd c1 where r: "request_fd cc u ?c = (fd, cc, c1)" "0 \<le> fd" "fd_obj c1 fd = Some d" "same_files ?c c1"
    using request_fd_ok [OF _ assms(2,3) _ _ assms(5)] by blast
  have c1: "dir c1 = dir c" "inodes c1 = inodes c" "next_ino c1 = next_ino c" "ofds c1 = ofds c" "next_ofd c1 = next_ofd c" "files_ok c1"
    using r(4) assms(4) by (simp_all add: same_files_def atomic_fetch_add_def steady_def files_ok_def)
  obtain x ev where w: "write_data fd bs c1 = (True, c1\<lparr>inodes := (inodes c)(ino := write_at 0 bs (inodes c ino)), ofds := x, fio_ev := ev\<rparr>)"
    (is "_ = (True, ?c2)") using write_data_all [OF r(3) _ c1(6), of bs] assms(6) by (auto simp: c1)
  obtain t' ts' where 3: "get_time_us (sys_close fd ?c2) = (t', (sys_close fd ?c2)\<lparr>bn_times := ts'\<rparr>)" using time_shape by blast
  have "\<exists>g. do_put_operation cc u bs c = (True, cc, (sys_close fd ?c2)\<lparr>bn_times := ts'\<rparr>\<lparr>bn_stats := g\<rparr>)"
    using 0 r 3 w by (simp add: do_put_operation_def Let_def) (auto simp: atomic_fetch_add_def)
  then obtain g where "do_put_operation cc u bs c = (True, cc, (sys_close fd ?c2)\<lparr>bn_times := ts'\<rparr>\<lparr>bn_stats := g\<rparr>)" ..
  then show ?thesis by (rule that) (simp_all add: sys_close_simps c1)
qed

lemma get_reads:
  assumes "rx c = answer conn (cmd_request u) d" "c_version conn = OBJM_PROTO_V1" "c_version cc = OBJM_PROTO_V1"
    and "steady c" "length (c_str u) \<le> 4096" "ofds c d = \<lparr>of_ino = ino, of_off = 0, of_acc = O_RDWR\<rparr>"
    and "inodes c ino \<noteq> []" "buf \<noteq> []"
  obtains c' where "do_get_operation cc u buf c =
    (True, take (length buf) (inodes c ino) @ drop (length (inodes c ino)) buf, cc, c')" "inodes c' = inodes c"
proof -
  obtain t ts where 0: "get_time_us c = (t, c\<lparr>bn_times := ts\<rparr>)" using time_shape by blast
  let ?c = "atomic_fetch_add gs_get_attempts_update 1 (c\<lparr>bn_times := ts\<rparr>)"
  have "rx ?c = answer conn (cmd_request u) d" "no_faults ?c" "link_calm ?c"
    using assms(1,4) by (simp_all add: atomic_fetch_add_def steady_def no_faults_def link_calm_def link_ok_def)
  then obtain fd c1 where r: "request_fd cc u ?c = (fd, cc, c1)" "0 \<le> fd" "fd_obj c1 fd = Some d" "same_files ?c c1"
    using request_fd_ok [OF _ assms(2,3) _ _ assms(5)] by blast
  have c1: "inodes c1 = inodes c" "ofds c1 = ofds c" "files_ok c1"
    using r(4) assms(4) by (simp_all add: same_files_def atomic_fetch_add_def steady_def files_ok_def)
  obtain x ev where w: "read_data fd (length buf) c1 = (take (length buf) (inodes c ino), c1\<lparr>ofds := x, fio_ev := ev\<rparr>)"
    (is "_ = (?got, ?c2)") using read_data_all [OF r(3) _ c1(3), of "length buf"] assms(6) by (auto simp: c1)
  obtain t' ts' where 3: "get_time_us (sys_close fd ?c2) = (t', (sys_close fd ?c2)\<lparr>bn_times := ts'\<rparr>)" using time_shape by blast
  have "?got \<noteq> []" "drop (length ?got) buf = drop (length (inodes c ino)) buf" using assms(7,8) by (simp_all add: min_def)
  then have "\<exists>g. do_get_operation cc u buf c = (True, ?got @ drop (length (inodes c ino)) buf, cc, (sys_close fd ?c2)\<lparr>bn_times := ts'\<rparr>\<lparr>bn_stats := g\<rparr>)"
    using 0 r 3 w by (simp add: do_get_operation_def Let_def) (auto simp: atomic_fetch_add_def)
  then obtain g where "do_get_operation cc u buf c =
      (True, ?got @ drop (length (inodes c ino)) buf, cc, (sys_close fd ?c2)\<lparr>bn_times := ts'\<rparr>\<lparr>bn_stats := g\<rparr>)" ..
  then show ?thesis by (rule that) (simp add: sys_close_simps c1)
qed

section \<open>Over the server\<close>

lemma steady_view [simp]: "steady (client_view w c) = steady c"
  by (simp add: steady_def client_view_def no_faults_def link_calm_def link_ok_def files_ok_def)

text \<open>Whether the object is there or is created, the answer has a descriptor of its file at the
  start, and the object can be found afterwards.\<close>

lemma serve_any:
  assumes "can_create (put_request req) (sv_mgr sv) path w \<or> (\<exists>a n ino. object_at (sv_mgr sv) w u a n path ino \<and> 1 \<le> n)"
    and "no_faults w" "link_calm w" "fd_request conn req u" "tx w = []"
  obtains sv' w' a n d ino where "serve_request conn req sv w = Some (sv', w')" "tx w' = answer conn req d"
    "ofds w' d = \<lparr>of_ino = ino, of_off = 0, of_acc = O_RDWR\<rparr>" "object_at (sv_mgr sv') w' u a n path ino" "1 \<le> n" "no_faults w'"
  using assms(1)
proof
  assume c: "can_create (put_request req) (sv_mgr sv) path w"
  obtain sv' w' a d ino where "serve_request conn req sv w = Some (sv', w')" "answered_new conn req d path ino w w'"
    "ofds w' d = \<lparr>of_ino = ino, of_off = 0, of_acc = O_RDWR\<rparr>" "object_at (sv_mgr sv') w' u a 2 path ino" "no_faults w'"
    using serve_missing [OF c assms(2-4)] .
  then show ?thesis using assms(5) that [of sv' w' d ino a 2] by (simp add: answered_new_def)
next
  assume "\<exists>a n ino. object_at (sv_mgr sv) w u a n path ino \<and> 1 \<le> n"
  then obtain a n ino where o: "object_at (sv_mgr sv) w u a n path ino" "1 \<le> n" by blast
  obtain sv' w' d where "serve_request conn req sv w = Some (sv', w')" "answered conn req d w w'"
    "ofds w' d = \<lparr>of_ino = ino, of_off = 0, of_acc = O_RDWR\<rparr>" "object_at (sv_mgr sv') w' u a n path ino" "no_faults w'"
    using serve_reached [OF o assms(2-4)] .
  then show ?thesis using assms(5) o(2) that [of sv' w' d ino a n] by (simp add: answered_def)
qed

text \<open>
  C7: What the benchmark puts is what it gets. Whether the object is new or is overwritten, and
  however the kernel splits the writes and reads of the files, the server answers the put with
  a descriptor through which all the data is written, and answers a later get, from this or
  another process, with one through which a buffer of that size is filled with the same data;
  both operations report success.
\<close>

theorem benchmark_put_then_get:
  assumes "can_create (put_request (cmd_request u)) (sv_mgr sv) path w \<or> (\<exists>a n ino. object_at (sv_mgr sv) w u a n path ino \<and> 1 \<le> n)"
    and "no_faults w" "link_calm w" "tx w = []" "plain_uri u" "c_str u = u" "length u \<le> 4096"
    and "c_version conn = OBJM_PROTO_V1" "c_version cc = OBJM_PROTO_V1" "steady c" "steady c'" "bs \<noteq> []" "length buf = length bs"
  shows "\<exists>sv1 w1 c1 sv2 w2 c2. serve_request conn (cmd_request u) sv w = Some (sv1, w1) \<and>
     do_put_operation cc u bs (client_view w1 c) = (True, cc, c1) \<and>
     serve_request conn (cmd_request u) sv1 (server_view c1 w1) = Some (sv2, w2) \<and>
     do_get_operation cc u buf (client_view w2 c') = (True, bs, cc, c2)"
proof -
  have r: "fd_request conn (cmd_request u) u" using assms(5,6,8) by (rule cmd_fd_request)
  obtain sv1 w1 a n d ino where s: "serve_request conn (cmd_request u) sv w = Some (sv1, w1)" "tx w1 = answer conn (cmd_request u) d"
    "ofds w1 d = \<lparr>of_ino = ino, of_off = 0, of_acc = O_RDWR\<rparr>" "object_at (sv_mgr sv1) w1 u a n path ino" "1 \<le> n" "no_faults w1"
    using serve_any [OF assms(1-3) r assms(4)] .
  obtain c1 where p: "do_put_operation cc u bs (client_view w1 c) = (True, cc, c1)"
    "inodes c1 = (inodes w1)(ino := write_at 0 bs (inodes w1 ino))" "dir c1 = dir w1"
    using put_writes [of "client_view w1 c" conn u d cc ino bs] assms(6-10) s(2,3) by (auto simp: client_view_simps)
  let ?w = "server_view c1 w1"
  have w: "object_at (sv_mgr sv1) ?w u a n path ino" "no_faults ?w" "link_calm ?w" "tx ?w = []"
    using s(4,6) p(3) by (simp_all add: server_view_object server_view_simps)
  obtain sv2 w2 d2 where g: "serve_request conn (cmd_request u) sv1 ?w = Some (sv2, w2)" "answered conn (cmd_request u) d2 ?w w2"
    "ofds w2 d2 = \<lparr>of_ino = ino, of_off = 0, of_acc = O_RDWR\<rparr>"
    using serve_reached [OF w(1) s(5) w(2,3) r] .
  have w2: "tx w2 = answer conn (cmd_request u) d2" "inodes w2 ino = bs @ drop (length bs) (inodes w1 ino)"
    using g(2) w(4) by (simp_all add: answered_def server_view_simps p(2) write_at_def)
  let ?c = "client_view w2 c'"
  have h: "rx ?c = answer conn (cmd_request u) d2" "steady ?c" "ofds ?c d2 = \<lparr>of_ino = ino, of_off = 0, of_acc = O_RDWR\<rparr>"
    "length (c_str u) \<le> 4096" "inodes ?c ino \<noteq> []" "buf \<noteq> []"
    using w2 g(3) assms(6,7,11-13) by (auto simp: client_view_simps)
  obtain c2 where "do_get_operation cc u buf ?c = (True, take (length buf) (inodes ?c ino) @ drop (length (inodes ?c ino)) buf, cc, c2)"
    using get_reads [OF h(1) assms(8,9) h(2,4,3,5,6)] .
  then have "do_get_operation cc u buf ?c = (True, bs, cc, c2)" using assms(13) by (simp add: client_view_simps w2(2))
  with s(1) p(1) g(1) show ?thesis by (intro exI conjI)
qed

definition chopped_bench :: bench where
  "chopped_bench = sample_bench\<lparr>fio_ev := [Upto 1, Upto 1]\<rparr>"

theorem benchmark_put_then_get_witness:
  "\<exists>sv1 w1 c1 sv2 w2 c2. serve_request (sample_conn OBJM_PROTO_V1 True) (cmd_request ''/b'') sample_server upload_world = Some (sv1, w1) \<and>
     do_put_operation (sample_conn OBJM_PROTO_V1 False) ''/b'' [7, 8, 9] (client_view w1 chopped_bench) =
       (True, sample_conn OBJM_PROTO_V1 False, c1) \<and>
     serve_request (sample_conn OBJM_PROTO_V1 True) (cmd_request ''/b'') sv1 (server_view c1 w1) = Some (sv2, w2) \<and>
     do_get_operation (sample_conn OBJM_PROTO_V1 False) ''/b'' [0, 0, 0] (client_view w2 chopped_bench) =
       (True, [7, 8, 9], sample_conn OBJM_PROTO_V1 False, c2)"
proof (rule benchmark_put_then_get [where path = "''/m/b''"])
  show "can_create (put_request (cmd_request ''/b'')) (sv_mgr sample_server) ''/m/b'' upload_world \<or>
      (\<exists>a n ino. object_at (sv_mgr sample_server) upload_world ''/b'' a n ''/m/b'' ino \<and> 1 \<le> n)"
    using upload_can_create ..
  show "steady chopped_bench" "steady chopped_bench"
    by (simp_all add: steady_def chopped_bench_def sample_bench_def os_init_def os.defs bench.defs no_faults_def link_calm_def link_ok_def files_ok_def)
qed (simp_all add: upload_kernel plain_uri_def c_str_def sample_conn_def)

end
