(* ===== verification/Datapass.thy ===== *)
theory Datapass
  imports Net
begin

text \<open>
  The datapass experiments (\<open>datapass/csrc\<close>): the store of the cache server with its open
  addressing table, the two kinds of service threads, the passing of descriptors
  (\<open>sendget.c\<close>), and the copy loop of the bridge between clients and cache.

  The sources rely on values that C leaves open, and these are arguments here: the contents of
  memory from \<open>malloc\<close>, and the result of shifting a word by its width, which the hash function
  does at the first character and at every sixty-fourth after it. Writes past the end of an
  array and reads through null pointers have no result (\<open>None\<close>), and neither has a loop that
  never ends. Printing is left out.
\<close>

section \<open>The store\<close>

record st_t =
  sh_fsname :: string       \<comment> \<open>all 1024 bytes of the array\<close>
  sh_cachename :: string
  sh_cfd :: int
  sh_fsfd :: int
  sh_size :: int

record he_t =
  he_fullhash :: u64
  he_index :: nat

record s_t =
  sd_cached :: int
  sd_cachelimit :: int
  sd_items :: "st_t list"
  sd_indexes :: "he_t list"  \<comment> \<open>as many as \<open>hsize\<close> says\<close>

text \<open>\<open>strtohash\<close>: \<open>shift64\<close> is what the machine makes of a shift by 64. A \<open>char\<close> is signed.\<close>

fun hash_loop :: "(u64 \<Rightarrow> u64) \<Rightarrow> u64 \<Rightarrow> nat \<Rightarrow> string \<Rightarrow> u64" where
  "hash_loop shift64 hash rots [] = hash"
| "hash_loop shift64 hash rots (c # cs) =
     hash_loop shift64
       (push_bit rots hash OR (if rots = 0 then shift64 hash else drop_bit (64 - rots) hash) OR scast (byte_of_char c))
       ((rots + 1) mod 64) cs"

definition strtohash :: "(u64 \<Rightarrow> u64) \<Rightarrow> string \<Rightarrow> u64" where
  "strtohash shift64 str = hash_loop shift64 0 0 (c_str str)"

text \<open>The search through the table from a position on; it does not end when no slot stops it.\<close>

partial_function (option) probe :: "(he_t \<Rightarrow> bool) \<Rightarrow> he_t list \<Rightarrow> nat \<Rightarrow> nat option" where
  "probe stop t i = (if stop (t ! i) then Some i else probe stop t (Suc i mod length t))"

definition BACKINGDIR :: string where "BACKINGDIR = ''./back''"
definition CACHEDIR :: string where "CACHEDIR = ''./cached''"

text \<open>\<open>sprintf\<close> into an array of 1024 bytes.\<close>

definition sprintf_1024 :: "string \<Rightarrow> string option" where
  "sprintf_1024 str = (if length str < 1024 then Some str else None)"

definition item_name :: "s_t \<Rightarrow> nat \<Rightarrow> string" where
  "item_name s i = c_str (sh_fsname (sd_items s ! i))"

text \<open>The descriptors of an item: the cached file when there is one, else the backing file. The
  message about a file that cannot be opened is followed by \<open>exit - 1\<close>, which does nothing.\<close>

definition open_item :: "nat \<Rightarrow> s_t \<Rightarrow> 'a os_scheme \<Rightarrow> (s_t \<times> 'a os_scheme) option" where
  "open_item index s w =
     do { fullname \<leftarrow> sprintf_1024 (BACKINGDIR @ ''/'' @ item_name s index);
          let (fsfd, w) = sys_open O_RDONLY fullname w;
          cachename \<leftarrow> sprintf_1024 (CACHEDIR @ ''/'' @ item_name s index);
          let (cfd, w) = sys_open O_RDONLY cachename w;
          let item = sd_items s ! index;
          Some (if cfd < 0 then (s\<lparr>sd_items := (sd_items s)[index := item\<lparr>sh_fsfd := fsfd, sh_cfd := 0\<rparr>]\<rparr>, w)
                else (s\<lparr>sd_items := (sd_items s)[index := item\<lparr>sh_fsfd := 0, sh_cfd := cfd\<rparr>]\<rparr>, sys_close fsfd w)) }"

definition put_item :: "(u64 \<Rightarrow> u64) \<Rightarrow> nat \<Rightarrow> int \<Rightarrow> s_t \<Rightarrow> 'a os_scheme \<Rightarrow> (s_t \<times> 'a os_scheme) option" where
  "put_item shift64 index sz s w =
     (let fullhash = strtohash shift64 (sh_fsname (sd_items s ! index))
      in do { tindex \<leftarrow> probe (\<lambda>e. he_fullhash e = 0) (sd_indexes s) (unat fullhash mod length (sd_indexes s));
              let s = s\<lparr>sd_indexes := (sd_indexes s)[tindex := \<lparr>he_fullhash = fullhash, he_index = index\<rparr>],
                        sd_items := (sd_items s)[index := (sd_items s ! index)\<lparr>sh_size := sz\<rparr>]\<rparr>;
              open_item index s w })"

definition uncache_item :: "nat \<Rightarrow> s_t \<Rightarrow> 'a os_scheme \<Rightarrow> s_t \<times> 'a os_scheme" where
  "uncache_item index s w =
     (let item = sd_items s ! index
      in (s\<lparr>sd_items := (sd_items s)[index := item\<lparr>sh_cfd := 0\<rparr>]\<rparr>, sys_unlink (c_str (sh_cachename item)) w))"

text \<open>\<open>open(path, O_RDWR | O_CREAT)\<close>, which keeps the contents of a file that is there.\<close>

definition open_keep :: "string \<Rightarrow> 'a os_scheme \<Rightarrow> int \<times> 'a os_scheme" where
  "open_keep path w = (if dir w path = None then sys_open_creat O_RDWR path w else sys_open O_RDWR path w)"

text \<open>Nothing is copied into the cached file: the copy is commented out.\<close>

definition cache_item :: "nat \<Rightarrow> s_t \<Rightarrow> 'a os_scheme \<Rightarrow> (s_t \<times> 'a os_scheme) option" where
  "cache_item index s w =
     do { fullpath \<leftarrow> sprintf_1024 (BACKINGDIR @ ''/'' @ item_name s index);
          cachename \<leftarrow> sprintf_1024 (CACHEDIR @ ''/'' @ item_name s index);
          let item = (sd_items s ! index)\<lparr>sh_cachename := cachename\<rparr>;
          let (f, w) = fault w;
          let (item, cached, w) =
            (case (if f then None else dir w fullpath) of
               None \<Rightarrow> (item, sd_cached s, w)
             | Some ino \<Rightarrow>
                 let (cfd, w) = open_keep cachename w; copysize = int (length (inodes w ino))
                 in if sd_cachelimit s < sd_cached s + copysize
                    then (item\<lparr>sh_cfd := cfd, sh_size := copysize\<rparr>, sd_cached s + copysize, w)
                    else (item, sd_cached s, w));
          let (cfd, w) = sys_open O_RDONLY cachename w;
          Some (s\<lparr>sd_cached := cached, sd_items := (sd_items s)[index := item\<lparr>sh_cfd := cfd\<rparr>]\<rparr>, w) }"

text \<open>The second pass over the directory: \<open>nfiles\<close> counts the regular files so far. The name is
  copied without its terminating byte.\<close>

fun add_files :: "(u64 \<Rightarrow> u64) \<Rightarrow> string list \<Rightarrow> nat \<Rightarrow> s_t \<Rightarrow> 'a os_scheme \<Rightarrow> (s_t \<times> 'a os_scheme) option" where
  "add_files shift64 [] nfiles s w = Some (s, w)"
| "add_files shift64 (d_name # ds) nfiles s w =
     do { fullpath \<leftarrow> sprintf_1024 (BACKINGDIR @ ''/'' @ d_name);
          let (f, w) = fault w;
          case (if f then None else dir w fullpath) of
            None \<Rightarrow> add_files shift64 ds nfiles s w
          | Some ino \<Rightarrow>
              do { let item = sd_items s ! nfiles;
                   let cplen = (if length d_name < 1024 then length d_name else 1024);
                   let item = item\<lparr>sh_fsname := take cplen d_name @ drop cplen (sh_fsname item)\<rparr>;
                   (s, w) \<leftarrow> put_item shift64 nfiles (int (length (inodes w ino)))
                      (s\<lparr>sd_items := (sd_items s)[nfiles := item]\<rparr>) w;
                   add_files shift64 ds (Suc nfiles) s w } }"

text \<open>\<open>entries\<close> is what \<open>readdir\<close> lists in both passes, \<open>None\<close> when the directory cannot be
  opened; \<open>raw_item\<close> and \<open>raw_entry\<close> are the contents of the memory that \<open>malloc\<close> returns. A failed allocation is not noticed and ends in
  a write through a null pointer.\<close>

definition init_storage ::
    "(u64 \<Rightarrow> u64) \<Rightarrow> (nat \<Rightarrow> st_t) \<Rightarrow> (nat \<Rightarrow> he_t) \<Rightarrow> string list option \<Rightarrow> s_t \<Rightarrow> 'a os_scheme \<Rightarrow> (s_t \<times> 'a os_scheme) option" where
  "init_storage shift64 raw_item raw_entry entries s w =
     do { ds \<leftarrow> entries;
          let (f1, w) = fault w;
          let (f2, w) = fault w;
          if f1 \<or> f2 then None
          else add_files shift64 ds 0
                 (s\<lparr>sd_items := map raw_item [0..<length ds], sd_indexes := map raw_entry [0..<length ds * 2]\<rparr>) w }"

text \<open>The position of the object with that name, \<open>-1\<close> when there is none.\<close>

definition get_item :: "(u64 \<Rightarrow> u64) \<Rightarrow> s_t \<Rightarrow> string \<Rightarrow> int option" where
  "get_item shift64 s name =
     (let fullhash = strtohash shift64 name
      in do { tindex \<leftarrow> probe (\<lambda>e. \<not> (he_fullhash e \<noteq> 0 \<and> he_fullhash e \<noteq> fullhash)) (sd_indexes s)
                (unat fullhash mod length (sd_indexes s));
              Some (if he_fullhash (sd_indexes s ! tindex) \<noteq> fullhash then -1 else int (he_index (sd_indexes s ! tindex))) })"

section \<open>Descriptors\<close>

text \<open>\<open>sendget.c\<close> on a connected socket. A failed \<open>put_fd\<close> aborts the process. \<open>get_fd\<close> reads the
  control message of what it received without looking whether there is one.\<close>

definition put_fd :: "int \<Rightarrow> u8 \<Rightarrow> 'a os_scheme \<Rightarrow> 'a os_scheme option" where
  "put_fd fd stype w = (case sock_sendmsg_fd stype fd w of (True, w) \<Rightarrow> Some w | (False, w) \<Rightarrow> None)"

definition get_fd :: "'a os_scheme \<Rightarrow> (int \<times> 'a os_scheme) option" where
  "get_fd w =
     (case sock_recvmsg_fd 256 w of
        ((None, _), w) \<Rightarrow> Some (-1, w)
      | ((Some [], _), w) \<Rightarrow> Some (-1, w)
      | ((Some (b # bs), Some fd), w) \<Rightarrow> Some (fd, w)
      | ((Some (b # bs), None), w) \<Rightarrow> None)"

section \<open>Service threads of the cache\<close>

record thp =
  tp_ssock :: int
  tp_csock :: int

text \<open>The end of the pair that went to the client is closed when it is still open.\<close>

definition close_csock :: "thp \<Rightarrow> 'a os_scheme \<Rightarrow> thp \<times> 'a os_scheme" where
  "close_csock p w =
     (if tp_csock p \<noteq> 0 \<and> fd_obj w (tp_csock p) \<noteq> None
      then (p\<lparr>tp_csock := 0\<rparr>, sys_close (tp_csock p) w) else (p, w))"

definition item_fd :: "s_t \<Rightarrow> nat \<Rightarrow> int" where
  "item_fd st idx = (let i = sd_items st ! idx in if 0 < sh_cfd i then sh_cfd i else sh_fsfd i)"

text \<open>\<open>sendfile(sock, fd, &offset, n)\<close>.\<close>

definition sock_sendfile :: "int \<Rightarrow> nat \<Rightarrow> nat \<Rightarrow> 'a os_scheme \<Rightarrow> int \<times> 'a os_scheme" where
  "sock_sendfile fd offset n w =
     (let evs = tx_ev w; w = w\<lparr>tx_ev := tl evs\<rparr>
      in if evs \<noteq> [] \<and> (hd evs = Intr \<or> hd evs = Fail) then (-1, w)
         else case fd_obj w fd of
                None \<Rightarrow> (-1, w)
              | Some d \<Rightarrow>
                  let f = ofds w d; out = take (min 0x7ffff000 (chunk evs n)) (drop offset (inodes w (of_ino f)))
                  in if of_acc f = O_WRONLY then (-1, w)
                     else (int (length out), w\<lparr>tx := tx w @ map Plain out\<rparr>))"

text \<open>The loop around it: it ends at an error and when \<open>sendsize\<close> bytes have been sent.\<close>

partial_function (option) send_file :: "int \<Rightarrow> nat \<Rightarrow> nat \<Rightarrow> 'a os_scheme \<Rightarrow> 'a os_scheme option" where
  "send_file cfd sendsize offset w =
     (case sock_sendfile cfd offset (sendsize - offset) w of
        (sfs, w) \<Rightarrow>
          if sfs < 0 then Some w
          else if sendsize \<le> offset + nat sfs then Some w
          else send_file cfd sendsize (offset + nat sfs) w)"

text \<open>A request in copying mode. The byte after the request is cleared in an array of 256.\<close>

definition copy_request :: "(u64 \<Rightarrow> u64) \<Rightarrow> s_t \<Rightarrow> bytes \<Rightarrow> 'a os_scheme \<Rightarrow> 'a os_scheme option" where
  "copy_request shift64 st m_buffer w =
     (if 256 \<le> length m_buffer then None
      else if m_buffer = [] then Some w
      else do { idx \<leftarrow> get_item shift64 st (string_of_bytes m_buffer);
                if 0 \<le> idx then
                  let sendsize = sh_size (sd_items st ! nat idx);
                      (_, w) = sock_write (put_le 8 (nat sendsize)) w
                  in send_file (item_fd st (nat idx)) (nat sendsize) 0 w
                else Some w })"

text \<open>What the thread meets: \<open>poll\<close> fails or tells that the client is gone, or \<open>read\<close> fails or
  returns bytes.\<close>

datatype copy_event = PollFail | PollHup | ReadFail | ReadGot bytes

text \<open>At the end of the events the thread waits. A failed read gives the position \<open>2\<^sup>6\<^sup>4 - 1\<close> of
  the array.\<close>

fun copy_loop :: "(u64 \<Rightarrow> u64) \<Rightarrow> s_t \<Rightarrow> copy_event list \<Rightarrow> thp \<Rightarrow> 'a os_scheme \<Rightarrow> (thp \<times> 'a os_scheme) option" where
  "copy_loop shift64 st [] p w = Some (p, w)"
| "copy_loop shift64 st (ReadGot bs # es) p w =
     (let (p, w) = close_csock p w
      in case copy_request shift64 st (take 256 bs) w of
           None \<Rightarrow> None
         | Some w \<Rightarrow> copy_loop shift64 st es p w)"
| "copy_loop shift64 st (ReadFail # es) p w = None"
| "copy_loop shift64 st (e # es) p w = Some (p\<lparr>tp_ssock := -1\<rparr>, sys_close (tp_ssock p) w)"

definition copy_thread :: "(u64 \<Rightarrow> u64) \<Rightarrow> s_t \<Rightarrow> copy_event list \<Rightarrow> thp \<Rightarrow> 'a os_scheme \<Rightarrow> (thp \<times> 'a os_scheme) option" where
  "copy_thread shift64 st es p w = copy_loop shift64 st es p (snd (sock_write [0x32] w))"

text \<open>A request in the mode that passes descriptors: it is copied into an array of 1024 bytes and
  one more byte is cleared. A name that is not known is not answered.\<close>

definition fdpass_request :: "(u64 \<Rightarrow> u64) \<Rightarrow> s_t \<Rightarrow> bytes \<Rightarrow> 'a os_scheme \<Rightarrow> 'a os_scheme option" where
  "fdpass_request shift64 st m_buffer w =
     (if 1024 \<le> length m_buffer then None
      else do { idx \<leftarrow> get_item shift64 st (string_of_bytes m_buffer);
                if 0 \<le> idx then put_fd (item_fd st (nat idx)) 0x31 w else Some w })"

text \<open>The messages of the client, one after the other; an empty one, or the end, ends the thread.\<close>

fun fdpass_loop :: "(u64 \<Rightarrow> u64) \<Rightarrow> s_t \<Rightarrow> bytes list \<Rightarrow> thp \<Rightarrow> 'a os_scheme \<Rightarrow> (thp \<times> 'a os_scheme) option" where
  "fdpass_loop shift64 st [] p w = Some (p\<lparr>tp_ssock := -1\<rparr>, sys_close (tp_ssock p) w)"
| "fdpass_loop shift64 st (bs # ms) p w =
     (if bs = [] then Some (p\<lparr>tp_ssock := -1\<rparr>, sys_close (tp_ssock p) w)
      else case fdpass_request shift64 st (take 25600 bs) w of
             None \<Rightarrow> None
           | Some w \<Rightarrow> fdpass_loop shift64 st ms p w)"

definition fdpass_thread :: "(u64 \<Rightarrow> u64) \<Rightarrow> s_t \<Rightarrow> bytes list \<Rightarrow> thp \<Rightarrow> 'a os_scheme \<Rightarrow> (thp \<times> 'a os_scheme) option" where
  "fdpass_thread shift64 st ms p w =
     (let (p, w) = close_csock p (snd (sock_write [0x31] w)) in fdpass_loop shift64 st ms p w)"

section \<open>The bridge\<close>

text \<open>The copy thread of the bridge reads from the cache (\<open>rx\<close>) and writes to the client (\<open>tx\<close>).
  The loop that writes ends at an error and at an interruption.\<close>

partial_function (option) write_up :: "bytes \<Rightarrow> 'a os_scheme \<Rightarrow> (bool \<times> 'a os_scheme) option" where
  "write_up bs w =
     (if bs = [] then Some (True, w)
      else case sock_write bs w of
             (KDone out, w) \<Rightarrow> write_up (drop (length out) bs) w
           | (_, w) \<Rightarrow> Some (False, w))"

text \<open>One round of the transfer: a read from the cache into a buffer of one megabyte and the
  writes to the client, or a splice. The size of the read is counted from the start of the
  object, not from that of the buffer. \<open>None\<close> in the result: the thread ends after an error.\<close>

definition copy_round :: "nat \<Rightarrow> nat \<Rightarrow> 'a os_scheme \<Rightarrow> (nat option \<times> 'a os_scheme) option" where
  "copy_round smsgsz splicebytes w =
     (let cbytes = min smsgsz 1048576
      in case sock_read (cbytes - splicebytes) w of
           (KDone got, w) \<Rightarrow>
             (case write_up got w of
                None \<Rightarrow> None
              | Some (ok, w) \<Rightarrow> Some (if ok then Some (length got) else None, w))
         | (_, w) \<Rightarrow> Some (None, w))"

definition splice_round :: "nat \<Rightarrow> nat \<Rightarrow> 'a os_scheme \<Rightarrow> (nat option \<times> 'a os_scheme) option" where
  "splice_round smsgsz splicebytes w =
     (case sock_read (smsgsz - splicebytes) w of
        (KDone got, w) \<Rightarrow> Some (Some (length got), w\<lparr>tx := tx w @ map Plain got\<rparr>)
      | (_, w) \<Rightarrow> Some (None, w))"

partial_function (option) bridge_transfer ::
    "(nat \<Rightarrow> nat \<Rightarrow> 'a os_scheme \<Rightarrow> (nat option \<times> 'a os_scheme) option) \<Rightarrow> nat \<Rightarrow> nat \<Rightarrow> 'a os_scheme \<Rightarrow> (bool \<times> 'a os_scheme) option" where
  "bridge_transfer one smsgsz splicebytes w =
     (if splicebytes < smsgsz then
        (case one smsgsz splicebytes w of
           None \<Rightarrow> None
         | Some (None, w) \<Rightarrow> Some (False, w)
         | Some (Some sb, w) \<Rightarrow> bridge_transfer one smsgsz (splicebytes + sb) w)
      else Some (True, w))"

text \<open>One request of the copy thread, after it has been read from the client and passed to the
  cache: the size, which is used whether it was read or not, then the object. A negative size
  transfers nothing.\<close>

definition bridge_reply :: "bool \<Rightarrow> 'a os_scheme \<Rightarrow> (bool \<times> 'a os_scheme) option" where
  "bridge_reply op_splice w =
     (case sock_read 8 w of
        (KDone got, w) \<Rightarrow>
          if length got < 8 then None
          else (case write_up got w of
                  None \<Rightarrow> None
                | Some (False, w) \<Rightarrow> Some (False, w)
                | Some (True, w) \<Rightarrow>
                    bridge_transfer (if op_splice then splice_round else copy_round)
                      (nat (sint (of_nat (get_le got) :: u64))) 0 w)
      | (_, w) \<Rightarrow> None)"

text \<open>One request of the thread that passes descriptors on: the descriptor comes from the cache,
  goes to the client and is closed.\<close>

definition bridge_fd_reply :: "'a os_scheme \<Rightarrow> 'a os_scheme option" where
  "bridge_fd_reply w = do { (ffd, w) \<leftarrow> get_fd w; w \<leftarrow> put_fd ffd 0x31 w; Some (sys_close ffd w) }"

section \<open>The client\<close>

text \<open>\<open>getobjlist\<close>: the names of the regular files are written to an array of names. The place of
  the next name is computed from the count before it is raised, so that the second name is
  written over the first; at the end the count is lowered by one. \<open>sptr\<close> is the place of the
  next name in the array \<open>arr\<close>. Names of one character are counted for the size of the array
  only.\<close>

fun list_names :: "string list \<Rightarrow> nat \<Rightarrow> nat \<Rightarrow> string list \<Rightarrow> 'a os_scheme \<Rightarrow> (nat \<times> string list \<times> 'a os_scheme) option" where
  "list_names [] nfiles sptr arr w = Some (nfiles, arr, w)"
| "list_names (d_name # ds) nfiles sptr arr w =
     do { fullpath \<leftarrow> sprintf_1024 (BACKINGDIR @ ''/'' @ d_name);
          let (f, w) = fault w;
          if \<not> f \<and> dir w fullpath \<noteq> None \<and> 1 < length d_name
          then list_names ds (Suc nfiles) nfiles (arr[sptr := d_name]) w
          else list_names ds nfiles sptr arr w }"

fun count_names :: "string list \<Rightarrow> nat \<Rightarrow> 'a os_scheme \<Rightarrow> (nat \<times> 'a os_scheme) option" where
  "count_names [] nfiles w = Some (nfiles, w)"
| "count_names (d_name # ds) nfiles w =
     do { fullpath \<leftarrow> sprintf_1024 (BACKINGDIR @ ''/'' @ d_name);
          let (f, w) = fault w;
          count_names ds (if \<not> f \<and> dir w fullpath \<noteq> None then Suc nfiles else nfiles) w }"

text \<open>The result is the number of names, which is \<open>-1\<close> in an empty directory, and the array.\<close>

definition getobjlist :: "(nat \<Rightarrow> string) \<Rightarrow> string list option \<Rightarrow> 'a os_scheme \<Rightarrow> (int \<times> string list \<times> 'a os_scheme) option" where
  "getobjlist raw entries w =
     do { ds \<leftarrow> entries;
          (nfiles, w) \<leftarrow> count_names ds 0 w;
          let (f1, w) = fault w;
          let (f2, w) = fault w;
          if f1 \<or> f2 then None
          else do { (nfiles, arr, w) \<leftarrow> list_names ds 0 0 (map raw [0..<Suc nfiles]) w;
                    Some (int nfiles - 1, arr, w) } }"

text \<open>The answer to a request in copying mode, as the client takes it: the size from one read,
  then the contents, up to an error or the end of the stream. The bytes at every \<open>step\<close>-th
  place of a buffer below the threshold are added up. \<open>None\<close>: the size was not read, or the step
  is zero and the adding up never ends.\<close>

definition touch_sum :: "nat \<Rightarrow> nat \<Rightarrow> nat \<Rightarrow> bytes \<Rightarrow> u64" where
  "touch_sum step limit rb buf =
     (\<Sum>i \<leftarrow> filter (\<lambda>i. i mod step = 0 \<and> rb + i < limit) [0..<length buf]. scast (buf ! i))"

partial_function (option) client_body ::
    "nat \<Rightarrow> nat \<Rightarrow> nat \<Rightarrow> nat \<Rightarrow> u64 \<Rightarrow> 'a os_scheme \<Rightarrow> (nat \<times> u64 \<times> 'a os_scheme) option" where
  "client_body step limit smsgsz rb tsum w =
     (if rb < smsgsz then
        (case sock_read 1048576 w of
           (KDone got, w) \<Rightarrow>
             if got = [] then Some (rb, tsum, w)
             else if step = 0 \<and> rb < limit then None
             else client_body step limit smsgsz (rb + length got) (tsum + touch_sum step limit rb got) w
         | (_, w) \<Rightarrow> Some (rb, tsum, w))
      else Some (rb, tsum, w))"

definition client_reply :: "nat \<Rightarrow> nat \<Rightarrow> 'a os_scheme \<Rightarrow> (nat \<times> u64 \<times> 'a os_scheme) option" where
  "client_reply stride rthresh w =
     (case sock_read 8 w of
        (KDone got, w) \<Rightarrow>
          if length got < 8 then None
          else let smsgsz = nat (sint (of_nat (get_le got) :: u64))
               in client_body (stride * 4) (smsgsz * rthresh div 100) smsgsz 0 0 w
      | (_, w) \<Rightarrow> None)"

end
