(* ===== verification/Datapass_Props.thy ===== *)
theory Datapass_Props
  imports Datapass
begin

text \<open>
  The datapass experiments: the table of the cache server is the map from hashes to the first
  file that has the hash, so that a lookup finds the right object up to collisions; in copying
  mode a request is answered with the size and the contents of the object; and the copy loops
  of the cache and of the bridge transfer everything or run forever.
\<close>

section \<open>The hash function\<close>

lemma scast_char: "c \<noteq> CHR 0x00 \<Longrightarrow> (scast (byte_of_char c) :: u64) \<noteq> 0"
proof
  assume c: "c \<noteq> CHR 0x00" and z: "(scast (byte_of_char c) :: u64) = 0"
  have "sint (scast (byte_of_char c) :: u64) = sint (byte_of_char c)" by (intro sint_up_scast) (simp add: is_up)
  then have "sint (byte_of_char c) = 0" by (simp add: z)
  then have "byte_of_char c = 0" by (simp add: signed_eq_0_iff)
  then have "(of_char c :: nat) = of_char CHR 0x00" using unat_byte_of_char [of c] by simp
  with c show False unfolding of_char_eq_iff by simp
qed

lemma or_nonzero: "(b :: u64) \<noteq> 0 \<Longrightarrow> a OR b \<noteq> 0"
  by (metis or_eq_0_iff)

text \<open>No name has the hash of an empty slot.\<close>

lemma hash_loop_nonzero: "cs \<noteq> [] \<Longrightarrow> CHR 0x00 \<notin> set cs \<Longrightarrow> hash_loop sh h r cs \<noteq> 0"
proof (induction cs arbitrary: h r)
  case (Cons c cs)
  then show ?case by (cases "cs = []") (simp_all add: or_nonzero scast_char)
qed simp

lemma strtohash_nonzero: "c_str name \<noteq> [] \<Longrightarrow> strtohash sh name \<noteq> 0"
  unfolding strtohash_def by (rule hash_loop_nonzero) (auto simp: c_str_def dest: set_takeWhileD)

section \<open>The table\<close>

text \<open>The first position from \<open>i\<close> on that stops a search.\<close>

definition stops_at :: "(he_t \<Rightarrow> bool) \<Rightarrow> he_t list \<Rightarrow> nat \<Rightarrow> nat \<Rightarrow> bool" where
  "stops_at stop t i p \<longleftrightarrow> (\<exists>j. p = (i + j) mod length t \<and> stop (t ! p) \<and> (\<forall>l<j. \<not> stop (t ! ((i + l) mod length t))))"

lemma probe_stops:
  assumes "stops_at stop t i p" "i < length t" shows "probe stop t i = Some p"
proof -
  obtain j where "p = (i + j) mod length t" "stop (t ! p)" "\<forall>l<j. \<not> stop (t ! ((i + l) mod length t))"
    using assms(1) unfolding stops_at_def by blast
  then show ?thesis using assms(2)
  proof (induction j arbitrary: i)
    case 0
    then show ?case by (simp add: probe.simps)
  next
    case (Suc j)
    have s: "(Suc i mod length t + l) mod length t = (i + Suc l) mod length t" for l by (simp add: mod_add_left_eq)
    have "\<not> stop (t ! i)" using Suc.prems(3) [THEN spec, of 0] Suc.prems(4) by simp
    then have "probe stop t i = probe stop t (Suc i mod length t)" by (simp add: probe.simps [of stop t i])
    moreover have "probe stop t (Suc i mod length t) = Some p"
    proof (rule Suc.IH)
      show "p = (Suc i mod length t + j) mod length t" using Suc.prems(1) unfolding s .
      show "\<forall>l<j. \<not> stop (t ! ((Suc i mod length t + l) mod length t))" using Suc.prems(3) unfolding s by auto
      show "Suc i mod length t < length t" using Suc.prems(4) by (intro mod_less_divisor) auto
    qed (use Suc.prems in simp_all)
    ultimately show ?case by simp
  qed
qed

lemma stops_exists:
  assumes "p < length t" "stop (t ! p)" "i < length t" shows "\<exists>q < length t. stops_at stop t i q"
proof -
  let ?P = "\<lambda>j. stop (t ! ((i + j) mod length t))"
  have "(i + (p + length t - i)) mod length t = p" using assms(1,3) by simp
  then have "?P (p + length t - i)" using assms(2) by simp
  then obtain j where j: "?P j" "\<forall>l<j. \<not> ?P l" using exists_least_iff [of ?P] by blast
  have "(i + j) mod length t < length t" using assms(3) by (intro mod_less_divisor) auto
  moreover have "stops_at stop t i ((i + j) mod length t)" using j unfolding stops_at_def by blast
  ultimately show ?thesis by blast
qed

definition key_stop :: "u64 \<Rightarrow> he_t \<Rightarrow> bool" where
  "key_stop h e \<longleftrightarrow> \<not> (he_fullhash e \<noteq> 0 \<and> he_fullhash e \<noteq> h)"

text \<open>The table holds the map \<open>m\<close>: every hash that occurs is found where its search stops.\<close>

definition table_rep :: "he_t list \<Rightarrow> (u64 \<rightharpoonup> nat) \<Rightarrow> bool" where
  "table_rep t m \<longleftrightarrow> dom m = he_fullhash ` set t - {0} \<and>
     (\<forall>h i. m h = Some i \<longrightarrow> (\<exists>p<length t. stops_at (key_stop h) t (unat h mod length t) p \<and> t ! p = \<lparr>he_fullhash = h, he_index = i\<rparr>))"

lemma table_get:
  assumes "table_rep t m" "p < length t" "he_fullhash (t ! p) = 0" "h \<noteq> 0"
  obtains q where "probe (key_stop h) t (unat h mod length t) = Some q"
    "(if he_fullhash (t ! q) \<noteq> h then -1 else int (he_index (t ! q))) = (case m h of None \<Rightarrow> -1 | Some i \<Rightarrow> int i)"
proof -
  have i: "unat h mod length t < length t" using assms(2) by (intro mod_less_divisor) auto
  obtain q where q: "q < length t" "stops_at (key_stop h) t (unat h mod length t) q"
    using stops_exists [OF assms(2) _ i, of "key_stop h"] assms(3) by (auto simp: key_stop_def)
  note e = probe_stops [OF q(2) i]
  show ?thesis
  proof (cases "m h")
    case None
    then have "he_fullhash (t ! q) \<noteq> h" using assms(1,4) q(1) unfolding table_rep_def by (auto simp: set_conv_nth)
    then show ?thesis using that [OF e] None by simp
  next
    case (Some k)
    then obtain r where "stops_at (key_stop h) t (unat h mod length t) r" "t ! r = \<lparr>he_fullhash = h, he_index = k\<rparr>"
      using assms(1) unfolding table_rep_def by blast
    then show ?thesis using that [OF e] Some probe_stops [OF _ i] e by fastforce
  qed
qed

text \<open>An insertion writes to the first empty slot of its search; the first file of a hash stays.\<close>

lemma table_put:
  assumes "table_rep t m" "stops_at (\<lambda>e. he_fullhash e = 0) t (unat h mod length t) p" "p < length t" "h \<noteq> 0"
  shows "table_rep (t[p := \<lparr>he_fullhash = h, he_index = k\<rparr>]) (if m h = None then m(h \<mapsto> k) else m)"
proof -
  let ?e = "\<lparr>he_fullhash = h, he_index = k\<rparr>" and ?m = "if m h = None then m(h \<mapsto> k) else m"
  let ?t = "t[p := ?e]"
  have z: "he_fullhash (t ! p) = 0" using assms(2) by (auto simp: stops_at_def)
  have dm: "dom m = he_fullhash ` set t - {0}" using assms(1) by (simp add: table_rep_def)
  have "he_fullhash ` set ?t - {0} = insert h (he_fullhash ` set t - {0})"
  proof -
    have "set ?t \<subseteq> insert ?e (set t)" by (rule set_update_subset_insert)
    moreover have "x \<in> set ?t" if "x \<in> set t" "he_fullhash x \<noteq> 0" for x
      using that z by (metis in_set_conv_nth length_list_update nth_list_update_neq)
    moreover have "?e \<in> set ?t" using assms(3) by (rule set_update_memI)
    ultimately show ?thesis using assms(4) by (auto simp: image_iff) force+
  qed
  then have d: "dom ?m = he_fullhash ` set ?t - {0}" using dm by auto
  have old: "\<exists>q<length ?t. stops_at (key_stop g) ?t (unat g mod length ?t) q \<and> ?t ! q = \<lparr>he_fullhash = g, he_index = i\<rparr>"
    if g: "m g = Some i" for g i
  proof -
    have g0: "g \<noteq> 0" using dm g by auto
    obtain q where q: "q < length t" "stops_at (key_stop g) t (unat g mod length t) q" "t ! q = \<lparr>he_fullhash = g, he_index = i\<rparr>"
      using assms(1) g unfolding table_rep_def by blast
    then have "q \<noteq> p" using z g0 by auto
    obtain j where j: "q = (unat g mod length t + j) mod length t" "\<forall>l<j. \<not> key_stop g (t ! ((unat g mod length t + l) mod length t))"
      using q(2) unfolding stops_at_def by blast
    have "p \<noteq> (unat g mod length t + l) mod length t" if "l < j" for l using j(2) that z by (auto simp: key_stop_def)
    then have "stops_at (key_stop g) ?t (unat g mod length ?t) q" 
      using q(3) j \<open>q \<noteq> p\<close> unfolding stops_at_def by (intro exI [of _ j]) (simp add: key_stop_def)
    then show ?thesis using q \<open>q \<noteq> p\<close> by (intro exI [of _ q]) simp
  qed
  have new: "\<exists>q<length ?t. stops_at (key_stop h) ?t (unat h mod length ?t) q \<and> ?t ! q = ?e" if "m h = None"
  proof -
    have nh: "he_fullhash x \<noteq> h" if "x \<in> set t" for x using dm \<open>m h = None\<close> assms(4) that by (metis DiffI domIff image_eqI singletonD)
    obtain j where j: "p = (unat h mod length t + j) mod length t" "\<forall>l<j. he_fullhash (t ! ((unat h mod length t + l) mod length t)) \<noteq> 0"
      using assms(2) unfolding stops_at_def by blast
    have "(unat h mod length t + l) mod length t < length t" for l using assms(3) by (intro mod_less_divisor) auto
    then have "\<not> key_stop h (?t ! ((unat h mod length t + l) mod length t))" if "l < j" for l
      using j(2) that nh z by (cases "(unat h mod length t + l) mod length t = p") (auto simp: key_stop_def)
    then have "stops_at (key_stop h) ?t (unat h mod length ?t) p" using j(1) assms(3) unfolding stops_at_def
      by (intro exI [of _ j]) (simp add: key_stop_def)
    then show ?thesis using assms(3) by (intro exI [of _ p]) simp
  qed
  show ?thesis unfolding table_rep_def using d old new by (auto split: if_splits)
qed

section \<open>Filling the store\<close>

definition back_path :: "string \<Rightarrow> string" where "back_path d = BACKINGDIR @ ''/'' @ d"
definition cached_path :: "string \<Rightarrow> string" where "cached_path d = CACHEDIR @ ''/'' @ d"

text \<open>Names as \<open>readdir\<close> gives them.\<close>

definition good_name :: "string \<Rightarrow> bool" where
  "good_name d \<longleftrightarrow> d \<noteq> [] \<and> CHR 0x00 \<notin> set d \<and> length d \<le> 255"

lemma good_name_c_str: "good_name d \<Longrightarrow> c_str (d @ replicate n CHR 0x00) = d" "good_name d \<Longrightarrow> c_str d = d"
  by (cases n; auto simp: good_name_def c_str_def takeWhile_append)+

lemma sprintf_good: "good_name d \<Longrightarrow> sprintf_1024 (BACKINGDIR @ CHR ''/'' # d) = Some (back_path d)"
    "good_name d \<Longrightarrow> sprintf_1024 (CACHEDIR @ CHR ''/'' # d) = Some (cached_path d)"
  by (simp_all add: good_name_def sprintf_1024_def BACKINGDIR_def CACHEDIR_def back_path_def cached_path_def)

text \<open>The files do not change while the store is set up.\<close>

definition same_disk :: "'a os_scheme \<Rightarrow> 'a os_scheme \<Rightarrow> bool" where
  "same_disk w w' \<longleftrightarrow> dir w' = dir w \<and> inodes w' = inodes w \<and> tx w' = tx w \<and> tx_ev w' = tx_ev w"

lemma open_missing:
  assumes "no_faults w" "dir w path = None"
  obtains t where "sys_open acc path w = (-1, w\<lparr>faults := t\<rparr>)" "True \<notin> set t"
proof -
  obtain t where "fault w = (False, w\<lparr>faults := t\<rparr>)" "True \<notin> set t" using no_faults_fault [OF assms(1)] .
  then show ?thesis using assms(2) by (intro that) (simp_all add: sys_open_def)
qed

lemma open_present:
  assumes "no_faults w" "dir w path = Some ino"
  obtains fd w' where "sys_open acc path w = (fd, w')" "0 \<le> fd" "fd_obj w fd = None" "fd_obj w' fd = Some (next_ofd w)"
    "\<forall>x. x \<noteq> fd \<longrightarrow> fd_obj w' x = fd_obj w x" "ofds w' = (ofds w)(next_ofd w := \<lparr>of_ino = ino, of_off = 0, of_acc = acc\<rparr>)"
    "next_ofd w' = Suc (next_ofd w)" "same_disk w w'" "no_faults w'"
proof -
  obtain t where t: "fault w = (False, w\<lparr>faults := t\<rparr>)" "True \<notin> set t" using no_faults_fault [OF assms(1)] .
  obtain fd w' where n: "new_ofd ino acc (w\<lparr>faults := t\<rparr>) = (fd, w')" by fastforce
  note r = new_ofd_result [OF n]
  obtain u where w': "w' = (w\<lparr>faults := t\<rparr>)\<lparr>ofds := (ofds (w\<lparr>faults := t\<rparr>))
      (next_ofd (w\<lparr>faults := t\<rparr>) := \<lparr>of_ino = ino, of_off = 0, of_acc = acc\<rparr>),
      next_ofd := Suc (next_ofd (w\<lparr>faults := t\<rparr>)), fds := u\<rparr>" using new_ofd_frame [OF n] .
  have "sys_open acc path w = (fd, w')" using t(1) n assms(2) by (simp add: sys_open_def)
  moreover have "ofds w' = (ofds w)(next_ofd w := \<lparr>of_ino = ino, of_off = 0, of_acc = acc\<rparr>)" "next_ofd w' = Suc (next_ofd w)"
    "same_disk w w'" "no_faults w'" using t(2) by (simp_all add: w' same_disk_def no_faults_def)
  ultimately show ?thesis using that r by simp
qed

lemma open_item_ok:
  assumes "no_faults w" "item_name s k = d" "good_name d" "dir w (back_path d) = Some ino" "dir w (cached_path d) = None"
  obtains fd w' where "open_item k s w = Some (s\<lparr>sd_items := (sd_items s)[k := (sd_items s ! k)\<lparr>sh_fsfd := fd, sh_cfd := 0\<rparr>]\<rparr>, w')"
    "fd_obj w' fd = Some (next_ofd w)" "\<forall>x e. fd_obj w x = Some e \<longrightarrow> fd_obj w' x = Some e"
    "ofds w' = (ofds w)(next_ofd w := \<lparr>of_ino = ino, of_off = 0, of_acc = O_RDONLY\<rparr>)"
    "next_ofd w' = Suc (next_ofd w)" "same_disk w w'" "no_faults w'"
proof -
  obtain fd w1 where 1: "sys_open O_RDONLY (back_path d) w = (fd, w1)" "0 \<le> fd" "fd_obj w fd = None" "fd_obj w1 fd = Some (next_ofd w)"
    "\<forall>x. x \<noteq> fd \<longrightarrow> fd_obj w1 x = fd_obj w x" "ofds w1 = (ofds w)(next_ofd w := \<lparr>of_ino = ino, of_off = 0, of_acc = O_RDONLY\<rparr>)"
    "next_ofd w1 = Suc (next_ofd w)" "same_disk w w1" "no_faults w1" using open_present [OF assms(1,4)] .
  have "dir w1 (cached_path d) = None" using 1(8) assms(5) by (simp add: same_disk_def)
  from open_missing [OF 1(9) this] obtain t where 2: "sys_open O_RDONLY (cached_path d) w1 = (-1, w1\<lparr>faults := t\<rparr>)" "True \<notin> set t" .
  show ?thesis
  proof (rule that)
    show "open_item k s w = Some (s\<lparr>sd_items := (sd_items s)[k := (sd_items s ! k)\<lparr>sh_fsfd := fd, sh_cfd := 0\<rparr>]\<rparr>, w1\<lparr>faults := t\<rparr>)"
      using 1(1) 2(1) assms(2,3) by (simp add: open_item_def sprintf_good Let_def)
    show "\<forall>x e. fd_obj w x = Some e \<longrightarrow> fd_obj (w1\<lparr>faults := t\<rparr>) x = Some e"
    proof (intro allI impI)
      fix x e assume "fd_obj w x = Some e"
      then show "fd_obj (w1\<lparr>faults := t\<rparr>) x = Some e" using 1(3,5) by (cases "x = fd") simp_all
    qed
  qed (use 1 2(2) in \<open>simp_all add: same_disk_def no_faults_def\<close>)
qed

text \<open>The map of the store: a hash leads to the first name that has it.\<close>

definition hash_map :: "(u64 \<Rightarrow> u64) \<Rightarrow> string list \<Rightarrow> u64 \<rightharpoonup> nat" where
  "hash_map sh names = map_of (zip (map (strtohash sh) names) [0..<length names])"

lemma map_of_snoc: "map_of (xs @ [(a, b)]) = (if map_of xs a = None then (map_of xs)(a \<mapsto> b) else map_of xs)"
  by (induction xs) (auto simp: fun_upd_twist simp del: map_of_append)

lemma hash_map_snoc:
  "hash_map sh (names @ [d]) = (if hash_map sh names (strtohash sh d) = None
     then (hash_map sh names)(strtohash sh d \<mapsto> length names) else hash_map sh names)"
  unfolding hash_map_def by (simp add: map_of_snoc del: map_of_append)

text \<open>An item is the file of that name, open for reading.\<close>

definition item_ok :: "'a os_scheme \<Rightarrow> st_t \<Rightarrow> string \<Rightarrow> bool" where
  "item_ok w item d \<longleftrightarrow> sh_cfd item = 0 \<and> c_str (sh_fsname item) = d \<and>
     (\<exists>ino e. dir w (back_path d) = Some ino \<and> sh_size item = int (length (inodes w ino)) \<and> fd_obj w (sh_fsfd item) = Some e \<and>
        e < next_ofd w \<and> of_ino (ofds w e) = ino \<and> of_acc (ofds w e) = O_RDONLY)"

definition used :: "he_t list \<Rightarrow> nat" where
  "used t = length (filter (\<lambda>e. he_fullhash e \<noteq> 0) t)"

definition stored :: "(u64 \<Rightarrow> u64) \<Rightarrow> string list \<Rightarrow> nat \<Rightarrow> s_t \<Rightarrow> 'a os_scheme \<Rightarrow> bool" where
  "stored sh names n s w \<longleftrightarrow> length (sd_items s) = n \<and> length (sd_indexes s) = n * 2 \<and> length names \<le> n \<and>
     table_rep (sd_indexes s) (hash_map sh names) \<and> used (sd_indexes s) \<le> length names \<and>
     (\<forall>k<length names. item_ok w (sd_items s ! k) (names ! k)) \<and>
     (\<forall>k<n. length names \<le> k \<longrightarrow> sh_fsname (sd_items s ! k) = replicate 1024 CHR 0x00)"

lemma used_update: "p < length t \<Longrightarrow> used (t[p := e]) \<le> Suc (used t)"
proof -
  assume p: "p < length t"
  have "used t = used (take p t) + used (drop p t)" by (metis append_take_drop_id filter_append length_append used_def)
  moreover have "used (t[p := e]) \<le> used (take p t) + Suc (used (drop (Suc p) t))"
    using p by (simp add: upd_conv_take_nth_drop used_def)
  moreover have "used (drop (Suc p) t) \<le> used (drop p t)" using p by (simp add: Cons_nth_drop_Suc [symmetric] used_def)
  ultimately show ?thesis by simp
qed

lemma free_slot:
  assumes "used t < length t" obtains p where "p < length t" "he_fullhash (t ! p) = 0"
proof -
  have "\<not> (\<forall>e\<in>set t. he_fullhash e \<noteq> 0)" using assms filter_id_conv [of "\<lambda>e. he_fullhash e \<noteq> 0" t] by (auto simp: used_def)
  then show ?thesis using that by (auto simp: in_set_conv_nth)
qed

lemma item_ok_kept:
  assumes "item_ok w item d" "\<forall>x e. fd_obj w x = Some e \<longrightarrow> fd_obj w' x = Some e" "same_disk w w'"
    and "ofds w' = (ofds w)(next_ofd w := f)" "next_ofd w' = Suc (next_ofd w)"
  shows "item_ok w' item d"
proof -
  obtain ino e where "dir w (back_path d) = Some ino" "sh_size item = int (length (inodes w ino))" "fd_obj w (sh_fsfd item) = Some e"
    "e < next_ofd w" "of_ino (ofds w e) = ino" "of_acc (ofds w e) = O_RDONLY" using assms(1) unfolding item_ok_def by blast
  then have "dir w' (back_path d) = Some ino \<and> sh_size item = int (length (inodes w' ino)) \<and> fd_obj w' (sh_fsfd item) = Some e \<and>
     e < next_ofd w' \<and> of_ino (ofds w' e) = ino \<and> of_acc (ofds w' e) = O_RDONLY"
    using assms(2-5) by (simp add: same_disk_def)
  then show ?thesis using assms(1) unfolding item_ok_def by blast
qed

lemma put_item_ok:
  fixes w :: "'a os_scheme"
  assumes st: "stored sh names n s w" and k: "length names < n" and nf: "no_faults w" and d: "good_name d"
    and f: "dir w (back_path d) = Some ino" "dir w (cached_path d) = None"
    and item: "item = (sd_items s ! length names)\<lparr>sh_fsname := d @ replicate m CHR 0x00\<rparr>"
  obtains s' w' where "put_item sh (length names) (int (length (inodes w ino))) (s\<lparr>sd_items := (sd_items s)[length names := item]\<rparr>) w = Some (s', w')"
    "stored sh (names @ [d]) n s' w'" "same_disk w w'" "no_faults w'"
proof -
  let ?k = "length names" and ?t = "sd_indexes s" and ?h = "strtohash sh d"
  let ?size = "int (length (inodes w ino))"
  note s = st [unfolded stored_def]
  have h: "strtohash sh (sh_fsname item) = ?h" "?h \<noteq> 0"
    using good_name_c_str [OF d] d strtohash_nonzero [of d] by (simp_all add: item strtohash_def good_name_def)
  have "used ?t < length ?t" using s k by simp
  then obtain p0 where p0: "p0 < length ?t" "he_fullhash (?t ! p0) = 0" by (rule free_slot)
  have i: "unat ?h mod length ?t < length ?t" using p0(1) by (intro mod_less_divisor) auto
  obtain p where p: "p < length ?t" "stops_at (\<lambda>e. he_fullhash e = 0) ?t (unat ?h mod length ?t) p"
    using stops_exists [OF p0(1) _ i, of "\<lambda>e. he_fullhash e = 0"] p0(2) by blast
  let ?t' = "?t[p := \<lparr>he_fullhash = ?h, he_index = ?k\<rparr>]"
  let ?s = "s\<lparr>sd_indexes := ?t', sd_items := (sd_items s)[?k := item\<lparr>sh_size := ?size\<rparr>]\<rparr>"
  have "item_name ?s ?k = d" using s k good_name_c_str(1) [OF d] by (simp add: item_name_def item)
  from open_item_ok [OF nf this d f] obtain fd w' where
    o: "open_item ?k ?s w = Some (?s\<lparr>sd_items := (sd_items ?s)[?k := (sd_items ?s ! ?k)\<lparr>sh_fsfd := fd, sh_cfd := 0\<rparr>]\<rparr>, w')"
      "fd_obj w' fd = Some (next_ofd w)" "\<forall>x e. fd_obj w x = Some e \<longrightarrow> fd_obj w' x = Some e"
      "ofds w' = (ofds w)(next_ofd w := \<lparr>of_ino = ino, of_off = 0, of_acc = O_RDONLY\<rparr>)" "next_ofd w' = Suc (next_ofd w)"
      "same_disk w w'" "no_faults w'" .
  let ?item = "item\<lparr>sh_size := ?size, sh_fsfd := fd, sh_cfd := 0\<rparr>"
  let ?s' = "s\<lparr>sd_indexes := ?t', sd_items := (sd_items s)[?k := ?item]\<rparr>"
  have "put_item sh ?k ?size (s\<lparr>sd_items := (sd_items s)[?k := item]\<rparr>) w = Some (?s', w')"
    using probe_stops [OF p(2) i] o(1) s k h(1) by (simp add: put_item_def)
  moreover have "stored sh (names @ [d]) n ?s' w'"
  proof -
    have "table_rep ?t' (hash_map sh (names @ [d]))" unfolding hash_map_snoc using s p h(2) by (intro table_put) auto
    moreover have "used ?t' \<le> length (names @ [d])" using used_update [OF p(1), of "\<lparr>he_fullhash = ?h, he_index = ?k\<rparr>"] s by simp
    moreover have "item_ok w' ?item d" unfolding item_ok_def
      using o(2,4,5,6) f(1) good_name_c_str(1) [OF d] by (auto simp: same_disk_def item)
    then have "item_ok w' (sd_items ?s' ! j) ((names @ [d]) ! j)" if "j < length (names @ [d])" for j
      using that s k item_ok_kept [OF _ o(3,6,4,5)] by (cases "j = ?k") (simp_all add: nth_append)
    ultimately show ?thesis using s k unfolding stored_def by simp
  qed
  ultimately show ?thesis using o(6,7) by (rule that)
qed

definition regular :: "'a os_scheme \<Rightarrow> string list \<Rightarrow> string list" where
  "regular w ds = filter (\<lambda>d. dir w (back_path d) \<noteq> None) ds"

lemma stored_faults: "stored sh names n s (w\<lparr>faults := t\<rparr>) = stored sh names n s w"
  by (simp add: stored_def item_ok_def)

lemma add_files_ok:
  assumes "stored sh names n s w" "no_faults w" "\<forall>d\<in>set ds. good_name d \<and> dir w (cached_path d) = None" "length names + length ds \<le> n"
  shows "\<exists>s' w'. add_files sh ds (length names) s w = Some (s', w') \<and> stored sh (names @ regular w ds) n s' w' \<and> same_disk w w' \<and> no_faults w'"
  using assms
proof (induction ds arbitrary: names s w)
  case Nil
  then show ?case by (simp add: regular_def same_disk_def)
next
  case (Cons d ds)
  obtain t where t: "fault w = (False, w\<lparr>faults := t\<rparr>)" "True \<notin> set t" using no_faults_fault [OF Cons.prems(2)] .
  let ?w = "w\<lparr>faults := t\<rparr>"
  have w: "stored sh names n s ?w" "no_faults ?w" using Cons.prems(1) t(2) by (simp_all add: stored_faults no_faults_def)
  have g: "good_name d" "dir ?w (cached_path d) = None" "length names < n" using Cons.prems(3,4) by simp_all
  show ?case
  proof (cases "dir w (back_path d)")
    case None
    have "\<exists>s' w'. add_files sh ds (length names) s ?w = Some (s', w') \<and> stored sh (names @ regular ?w ds) n s' w' \<and> same_disk ?w w' \<and> no_faults w'"
      by (rule Cons.IH [OF w]) (use Cons.prems(3,4) in simp_all)
    then show ?thesis using t(1) None g(1) by (auto simp: regular_def same_disk_def sprintf_good)
  next
    case (Some ino)
    let ?z = "1024 - length d"
    let ?item = "(sd_items s ! length names)\<lparr>sh_fsname := d @ replicate ?z CHR 0x00\<rparr>"
    have l: "length d < 1024" using g(1) by (simp add: good_name_def)
    have z: "sh_fsname (sd_items s ! length names) = replicate 1024 CHR 0x00" using Cons.prems(1) g(3) by (simp add: stored_def)
    have "dir ?w (back_path d) = Some ino" using Some by simp
    from put_item_ok [OF w(1) g(3) w(2) g(1) this g(2) refl, of ?z] obtain s' w' where
      p: "put_item sh (length names) (int (length (inodes ?w ino))) (s\<lparr>sd_items := (sd_items s)[length names := ?item]\<rparr>) ?w = Some (s', w')"
        "stored sh (names @ [d]) n s' w'" "same_disk ?w w'" "no_faults w'" .
    have dk: "dir w' = dir w" using p(3) by (simp add: same_disk_def)
    have "\<exists>s'' w''. add_files sh ds (length (names @ [d])) s' w' = Some (s'', w'') \<and> stored sh ((names @ [d]) @ regular w' ds) n s'' w'' \<and>
        same_disk w' w'' \<and> no_faults w''"
      by (rule Cons.IH [OF p(2,4)]) (use Cons.prems(3,4) dk in simp_all)
    then obtain s'' w'' where q: "add_files sh ds (Suc (length names)) s' w' = Some (s'', w'')"
        "stored sh (names @ d # regular w' ds) n s'' w''" "same_disk w' w''" "no_faults w''" by auto
    have "regular w (d # ds) = d # regular w' ds" "same_disk w w''" using Some dk p(3) q(3) by (simp_all add: regular_def same_disk_def)
    moreover have "add_files sh (d # ds) (length names) s w = Some (s'', w'')"
      using t(1) Some p(1) q(1) l z by (simp add: sprintf_good [OF g(1)] Let_def)
    ultimately show ?thesis using q(2,4) by auto
  qed
qed

text \<open>Memory that holds zeros.\<close>

definition zero_item :: st_t where
  "zero_item = \<lparr>sh_fsname = replicate 1024 CHR 0x00, sh_cachename = replicate 1024 CHR 0x00, sh_cfd = 0, sh_fsfd = 0, sh_size = 0\<rparr>"

definition zero_entry :: he_t where
  "zero_entry = \<lparr>he_fullhash = 0, he_index = 0\<rparr>"

lemma init_storage_ok:
  assumes "no_faults w" "\<forall>d\<in>set ds. good_name d \<and> dir w (cached_path d) = None"
  obtains st w' where "init_storage sh (\<lambda>_. zero_item) (\<lambda>_. zero_entry) (Some ds) s w = Some (st, w')"
    "stored sh (regular w ds) (length ds) st w'" "same_disk w w'" "no_faults w'"
proof -
  obtain t where 1: "fault w = (False, w\<lparr>faults := t\<rparr>)" "True \<notin> set t" using no_faults_fault [OF assms(1)] .
  then have "no_faults (w\<lparr>faults := t\<rparr>)" by (simp add: no_faults_def)
  from no_faults_fault [OF this] obtain u where
    2: "fault (w\<lparr>faults := t\<rparr>) = (False, w\<lparr>faults := t\<rparr>\<lparr>faults := u\<rparr>)" "True \<notin> set u" .
  let ?w = "w\<lparr>faults := t\<rparr>\<lparr>faults := u\<rparr>"
  let ?s = "s\<lparr>sd_items := map (\<lambda>_. zero_item) [0..<length ds], sd_indexes := map (\<lambda>_. zero_entry) [0..<length ds * 2]\<rparr>"
  have "table_rep (map (\<lambda>_. zero_entry) [0..<length ds * 2]) (hash_map sh [])"
    by (auto simp: table_rep_def hash_map_def zero_entry_def)
  moreover have "used (map (\<lambda>_. zero_entry) [0..<length ds * 2]) = 0" by (simp add: used_def zero_entry_def)
  ultimately have s: "stored sh [] (length ds) ?s ?w" by (simp add: stored_def zero_item_def)
  have "no_faults ?w" using 2(2) by (simp add: no_faults_def)
  from add_files_ok [OF s this] have "\<exists>s' w'. add_files sh ds (length ([] :: string list)) ?s ?w = Some (s', w') \<and>
      stored sh ([] @ regular ?w ds) (length ds) s' w' \<and> same_disk ?w w' \<and> no_faults w'" using assms(2) by simp
  then obtain s' w' where "add_files sh ds 0 ?s ?w = Some (s', w')" "stored sh (regular ?w ds) (length ds) s' w'"
    "same_disk ?w w'" "no_faults w'" by (elim exE conjE) (rule that, simp_all only: list.size append_Nil)
  note r = this
  have "init_storage sh (\<lambda>_. zero_item) (\<lambda>_. zero_entry) (Some ds) s w = Some (s', w')"
    unfolding init_storage_def by (simp only: Option.bind.bind_lunit 1(1) 2(1) r(1) Let_def case_prod_conv if_False simp_thms)
  moreover have "stored sh (regular w ds) (length ds) s' w'" "same_disk w w'" using r(2,3) by (simp_all add: regular_def same_disk_def)
  ultimately show ?thesis using r(4) by (rule that)
qed

lemma get_item_stored:
  assumes "stored sh names n st w" "0 < n" "c_str name \<noteq> []"
  shows "get_item sh st name = Some (case hash_map sh names (strtohash sh name) of None \<Rightarrow> -1 | Some i \<Rightarrow> int i)"
proof -
  have "used (sd_indexes st) < length (sd_indexes st)" using assms(1,2) by (simp add: stored_def)
  then obtain p where p: "p < length (sd_indexes st)" "he_fullhash (sd_indexes st ! p) = 0" by (rule free_slot)
  have "table_rep (sd_indexes st) (hash_map sh names)" using assms(1) by (simp add: stored_def)
  then obtain q where q: "probe (key_stop (strtohash sh name)) (sd_indexes st) (unat (strtohash sh name) mod length (sd_indexes st)) = Some q"
    "(if he_fullhash (sd_indexes st ! q) \<noteq> strtohash sh name then -1 else int (he_index (sd_indexes st ! q))) =
      (case hash_map sh names (strtohash sh name) of None \<Rightarrow> -1 | Some i \<Rightarrow> int i)"
    using table_get [OF _ p strtohash_nonzero [OF assms(3)]] by blast
  have "(\<lambda>e. \<not> (he_fullhash e \<noteq> 0 \<and> he_fullhash e \<noteq> h)) = key_stop h" for h by (simp add: key_stop_def fun_eq_iff)
  then show ?thesis unfolding get_item_def Let_def using q by simp
qed

lemma find_snoc: "find P (xs @ [x]) = (case find P xs of None \<Rightarrow> if P x then Some x else None | Some y \<Rightarrow> Some y)"
  by (induction xs) auto

lemma hash_map_find:
  "case hash_map sh names h of None \<Rightarrow> find (\<lambda>d. strtohash sh d = h) names = None
   | Some i \<Rightarrow> i < length names \<and> find (\<lambda>d. strtohash sh d = h) names = Some (names ! i)"
proof (induction names rule: rev_induct)
  case Nil
  then show ?case by (simp add: hash_map_def)
next
  case (snoc d names)
  then show ?case unfolding hash_map_snoc find_snoc by (auto simp: nth_append split: option.splits)
qed

section \<open>Copying mode\<close>

text \<open>Transfers to the client are neither interrupted nor fail; they may be short.\<close>

definition sends_ok :: "'a os_scheme \<Rightarrow> bool" where
  "sends_ok w \<longleftrightarrow> Intr \<notin> set (tx_ev w) \<and> Fail \<notin> set (tx_ev w)"

lemma sends_ok_hd: "sends_ok w \<Longrightarrow> tx_ev w \<noteq> [] \<Longrightarrow> hd (tx_ev w) \<noteq> Intr \<and> hd (tx_ev w) \<noteq> Fail"
  unfolding sends_ok_def by (cases "tx_ev w") auto

lemma sends_ok_tl: "sends_ok w \<Longrightarrow> sends_ok (w\<lparr>tx_ev := tl (tx_ev w)\<rparr>)" "sends_ok (w\<lparr>tx := x\<rparr>) = sends_ok w"
  unfolding sends_ok_def by (cases "tx_ev w"; auto)+

lemma sendfile_step:
  assumes "fd_obj w fd = Some e" "of_acc (ofds w e) \<noteq> O_WRONLY" "sends_ok w" "out = take (min 0x7ffff000 (chunk (tx_ev w) n)) (drop off (inodes w (of_ino (ofds w e))))"
  shows "sock_sendfile fd off n w = (int (length out), w\<lparr>tx_ev := tl (tx_ev w), tx := tx w @ map Plain out\<rparr>)"
  using assms sends_ok_hd [OF assms(3)] by (auto simp: sock_sendfile_def Let_def)

lemma take_length_take: "take (length (take k xs)) xs = take k xs"
  by (cases "k \<le> length xs") simp_all

lemma send_file_all:
  assumes "fd_obj w fd = Some e" "of_acc (ofds w e) \<noteq> O_WRONLY" "sends_ok w" "inodes w (of_ino (ofds w e)) = data" "off \<le> length data"
  shows "\<exists>ev. send_file fd (length data) off w = Some (w\<lparr>tx := tx w @ map Plain (drop off data), tx_ev := ev\<rparr>)"
  using assms
proof (induction "length data - off" arbitrary: off w rule: less_induct)
  case less
  define out where "out = take (min 0x7ffff000 (chunk (tx_ev w) (length data - off))) (drop off data)"
  let ?w = "w\<lparr>tx_ev := tl (tx_ev w), tx := tx w @ map Plain out\<rparr>"
  have s: "sock_sendfile fd off (length data - off) w = (int (length out), ?w)"
    using sendfile_step [OF less.prems(1-3)] less.prems(4) by (simp add: out_def)
  show ?case
  proof (cases "length data \<le> off + length out")
    case True
    then have "out = drop off data" unfolding out_def by (simp add: min_def split: if_splits)
    then show ?thesis using s True by (intro exI [of _ "tl (tx_ev w)"]) (subst send_file.simps, simp)
  next
    case False
    then have "0 < chunk (tx_ev w) (length data - off)" using chunk_bounds [of "length data - off"] by simp
    then have out: "0 < length out" using False by (simp add: out_def)
    have "\<exists>ev. send_file fd (length data) (off + length out) ?w = Some (?w\<lparr>tx := tx ?w @ map Plain (drop (off + length out) data), tx_ev := ev\<rparr>)"
    proof (rule less.hyps)
      show "length data - (off + length out) < length data - off" using out False by linarith
      show "sends_ok ?w" using sends_ok_tl(1) [OF less.prems(3)] by (simp add: sends_ok_def)
    qed (use less.prems False in simp_all)
    then obtain ev where i: "send_file fd (length data) (off + length out) ?w = Some (?w\<lparr>tx := tx ?w @ map Plain (drop (off + length out) data), tx_ev := ev\<rparr>)" ..
    have "out = take (length out) (drop off data)" unfolding out_def by (rule take_length_take [symmetric])
    then have "drop off data = out @ drop (off + length out) data" by (metis add.commute append_take_drop_id drop_drop)
    then show ?thesis using s i False by (intro exI [of _ ev]) (subst send_file.simps, simp)
  qed
qed

text \<open>A request in copying mode, on a store that has been set up.\<close>

lemma copy_request_stored:
  assumes "stored sh names n st w" "0 < n" "good_name name" "sends_ok w" "8 \<le> chunk (tx_ev w) 8"
  shows "case find (\<lambda>d. strtohash sh d = strtohash sh name) names of
       None \<Rightarrow> copy_request sh st (bytes_of_string name) w = Some w
     | Some d \<Rightarrow> (\<exists>ino ev. dir w (back_path d) = Some ino \<and> copy_request sh st (bytes_of_string name) w =
         Some (w\<lparr>tx := tx w @ map Plain (put_le 8 (length (inodes w ino)) @ inodes w ino), tx_ev := ev\<rparr>))"
proof -
  have c: "c_str name \<noteq> []" using assms(3) good_name_c_str(2) by (simp add: good_name_def)
  note g = get_item_stored [OF assms(1,2) c]
  have l: "\<not> 256 \<le> length (bytes_of_string name)" "bytes_of_string name \<noteq> []"
    using assms(3) by (simp_all add: good_name_def bytes_of_string_def)
  show ?thesis
  proof (cases "hash_map sh names (strtohash sh name)")
    case None
    then show ?thesis using hash_map_find [where sh = sh and names = names and h = "strtohash sh name"] g l by (simp add: copy_request_def)
  next
    case (Some i)
    then have i: "i < length names" "find (\<lambda>d. strtohash sh d = strtohash sh name) names = Some (names ! i)"
      using hash_map_find [where sh = sh and names = names and h = "strtohash sh name"] by simp_all
    let ?item = "sd_items st ! i"
    have "item_ok w ?item (names ! i)" using assms(1) i(1) by (simp add: stored_def)
    then obtain ino e where o: "sh_cfd ?item = 0" "dir w (back_path (names ! i)) = Some ino" "sh_size ?item = int (length (inodes w ino))"
      "fd_obj w (sh_fsfd ?item) = Some e" "of_ino (ofds w e) = ino" "of_acc (ofds w e) = O_RDONLY" unfolding item_ok_def by blast
    let ?w = "w\<lparr>tx_ev := tl (tx_ev w), tx := tx w @ map Plain (put_le 8 (length (inodes w ino)))\<rparr>"
    have wr: "sock_write (put_le 8 (length (inodes w ino))) w = (KDone (put_le 8 (length (inodes w ino))), ?w)"
      using sends_ok_hd [OF assms(4)] assms(5) by (auto simp: sock_write_def Let_def)
    have "\<exists>ev. send_file (sh_fsfd ?item) (length (inodes w ino)) 0 ?w = Some (?w\<lparr>tx := tx ?w @ map Plain (drop 0 (inodes w ino)), tx_ev := ev\<rparr>)"
      by (rule send_file_all [where e = e]) (use o sends_ok_tl (1) [OF assms(4)] in \<open>simp_all add: sends_ok_def\<close>)
    then obtain ev where "send_file (sh_fsfd ?item) (length (inodes w ino)) 0 ?w = Some (?w\<lparr>tx := tx ?w @ map Plain (inodes w ino), tx_ev := ev\<rparr>)"
      by auto
    then have "copy_request sh st (bytes_of_string name) w = Some (w\<lparr>tx := tx w @ map Plain (put_le 8 (length (inodes w ino)) @ inodes w ino), tx_ev := ev\<rparr>)"
      using g Some l o(1,3) wr by (simp add: copy_request_def item_fd_def Let_def)
    then show ?thesis using i(2) o(2) by auto
  qed
qed

section \<open>Passing descriptors\<close>

lemma put_fd_ok: "fd_obj w fd = Some e \<Longrightarrow> sends_ok w \<Longrightarrow> put_fd fd b w = Some (w\<lparr>tx_ev := tl (tx_ev w), tx := tx w @ [WithFd b e]\<rparr>)"
  using sends_ok_hd [of w] by (auto simp: put_fd_def sock_sendmsg_fd_def Let_def)

lemma fdpass_request_stored:
  assumes "stored sh names n st w" "0 < n" "good_name name" "sends_ok w"
  shows "case find (\<lambda>d. strtohash sh d = strtohash sh name) names of
       None \<Rightarrow> fdpass_request sh st (bytes_of_string name) w = Some w
     | Some d \<Rightarrow> (\<exists>ino e. dir w (back_path d) = Some ino \<and> of_ino (ofds w e) = ino \<and> fdpass_request sh st (bytes_of_string name) w =
         Some (w\<lparr>tx_ev := tl (tx_ev w), tx := tx w @ [WithFd 0x31 e]\<rparr>))"
proof -
  have c: "c_str name \<noteq> []" using assms(3) good_name_c_str(2) by (simp add: good_name_def)
  note g = get_item_stored [OF assms(1,2) c] and h = hash_map_find [where sh = sh and names = names and h = "strtohash sh name"]
  have l: "\<not> 1024 \<le> length (bytes_of_string name)" using assms(3) by (simp add: good_name_def bytes_of_string_def)
  show ?thesis
  proof (cases "hash_map sh names (strtohash sh name)")
    case None
    then show ?thesis using h g l by (simp add: fdpass_request_def)
  next
    case (Some i)
    then have i: "i < length names" "find (\<lambda>d. strtohash sh d = strtohash sh name) names = Some (names ! i)" using h by simp_all
    have "item_ok w (sd_items st ! i) (names ! i)" using assms(1) i(1) by (simp add: stored_def)
    then obtain ino e where o: "sh_cfd (sd_items st ! i) = 0" "dir w (back_path (names ! i)) = Some ino"
      "fd_obj w (sh_fsfd (sd_items st ! i)) = Some e" "of_ino (ofds w e) = ino" unfolding item_ok_def by blast
    have "fdpass_request sh st (bytes_of_string name) w = Some (w\<lparr>tx_ev := tl (tx_ev w), tx := tx w @ [WithFd 0x31 e]\<rparr>)"
      using g Some l o(1) put_fd_ok [OF o(3) assms(4)] by (simp add: fdpass_request_def item_fd_def Let_def)
    then show ?thesis using i(2) o(2,4) by auto
  qed
qed

text \<open>The bridge passes a descriptor on and keeps none.\<close>

lemma bridge_fd_passes:
  assumes "rx w = WithFd b d # rest" "link_calm w" "no_faults w"
  shows "\<exists>w'. bridge_fd_reply w = Some w' \<and> tx w' = tx w @ [WithFd 0x31 d] \<and> rx w' = rest \<and> (\<forall>x. fd_obj w' x = fd_obj w x) \<and>
     link_calm w' \<and> no_faults w' \<and> os.more w' = os.more w"
proof -
  let ?w = "w\<lparr>rx_ev := tl (rx_ev w), rx := rest\<rparr>"
  have "no_faults ?w" using assms(3) by (simp add: no_faults_def)
  from no_faults_fault [OF this] obtain t where f: "fault ?w = (False, ?w\<lparr>faults := t\<rparr>)" "True \<notin> set t" .
  obtain fd w1 where i: "install_fd d (?w\<lparr>faults := t\<rparr>) = (fd, w1)" by fastforce
  note q = install_fd_fresh [OF i]
  obtain u where w1: "w1 = ?w\<lparr>faults := t\<rparr>\<lparr>fds := u\<rparr>" using install_fd_frame [OF i] .
  have "rx_ev w \<noteq> [] \<longrightarrow> hd (rx_ev w) \<noteq> Intr \<and> hd (rx_ev w) \<noteq> Fail"
    using assms(2) unfolding link_calm_def link_ok_def by (cases "rx_ev w") auto
  moreover have "upto_fd (take 256 (rx w)) = [WithFd b d]" by (simp add: assms(1))
  ultimately have g: "get_fd w = Some (fd, w1)" using f(1) i by (auto simp: get_fd_def sock_recvmsg_fd_def Let_def assms(1))
  have "sends_ok w1" using assms(2) by (simp add: w1 sends_ok_def link_calm_def link_ok_def)
  note p = put_fd_ok [OF q(2) this, of "0x31"]
  let ?w2 = "w1\<lparr>tx_ev := tl (tx_ev w1), tx := tx w1 @ [WithFd 0x31 d]\<rparr>"
  have "fd_obj (sys_close fd ?w2) x = fd_obj w x" for x using q(1,4) by (cases "x = fd") (simp_all add: fd_obj_close)
  moreover have "bridge_fd_reply w = Some (sys_close fd ?w2)" using g p by (simp add: bridge_fd_reply_def)
  moreover have "link_calm (sys_close fd ?w2)" "no_faults (sys_close fd ?w2)"
    using assms(2) f(2) by (cases "rx_ev w"; cases "tx_ev w"; auto simp: link_calm_def link_ok_def no_faults_def sys_close_simps w1)+
  ultimately show ?thesis by (intro exI [of _ "sys_close fd ?w2"]) (simp add: sys_close_simps w1)
qed

end
