(* ===== verification/Datapass_Runs.thy ===== *)
theory Datapass_Runs
  imports Datapass_Props
begin

text \<open>
  What a client of the datapass experiments gets: from the cache in copying mode, and through
  the bridge.
\<close>

section \<open>The cache\<close>

text \<open>
  C15: The open addressing table of the cache server is the map from hashes to the first file with that
  hash. Take a store that holds the files \<open>names\<close>, with room for more, whose unused part is cleared, as
  the code relies on (it comes from \<open>malloc\<close>, which does not promise it). When nothing fails and the new files are not
  in the cache directory, adding a list of directory entries ends and gives a store that holds the regular
  files among them behind the old ones. On it a lookup ends, and a request in copying mode is answered with the
  size and the contents of the first file whose name has the hash of the requested name, however the transfers are
  split, and in the other mode with a descriptor of that file; when there is none, nothing is sent.
\<close>

theorem datapass_store_serves:
  assumes "stored sh names n s w" "no_faults w" "\<forall>d\<in>set ds. good_name d \<and> dir w (cached_path d) = None"
    and "length names + length ds \<le> n" "0 < n" "good_name name" "sends_ok w" "8 \<le> chunk (tx_ev w) 8"
  shows "\<exists>st w1. add_files sh ds (length names) s w = Some (st, w1) \<and> stored sh (names @ regular w ds) n st w1 \<and> tx w1 = tx w \<and>
     (case find (\<lambda>d. strtohash sh d = strtohash sh name) (names @ regular w ds) of
        None \<Rightarrow> get_item sh st name = Some (-1) \<and> copy_request sh st (bytes_of_string name) w1 = Some w1 \<and>
          fdpass_request sh st (bytes_of_string name) w1 = Some w1
      | Some d \<Rightarrow> (\<exists>i ino e w2 w3. get_item sh st name = Some (int i) \<and> (names @ regular w ds) ! i = d \<and>
          dir w (back_path d) = Some ino \<and> copy_request sh st (bytes_of_string name) w1 = Some w2 \<and>
          tx w2 = tx w @ map Plain (put_le 8 (length (inodes w ino)) @ inodes w ino) \<and>
          fdpass_request sh st (bytes_of_string name) w1 = Some w3 \<and> tx w3 = tx w @ [WithFd 0x31 e] \<and> of_ino (ofds w3 e) = ino))"
proof -
  obtain st w1 where i: "add_files sh ds (length names) s w = Some (st, w1)"
    "stored sh (names @ regular w ds) n st w1" "same_disk w w1" "no_faults w1"
    using add_files_ok [OF assms(1-4)] by blast
  have w1: "dir w1 = dir w" "inodes w1 = inodes w" "tx w1 = tx w" "tx_ev w1 = tx_ev w"
    using i(3) by (simp_all add: same_disk_def)
  have ok: "sends_ok w1" "8 \<le> chunk (tx_ev w1) 8" using assms(7,8) w1(4) by (simp_all add: sends_ok_def)
  have "c_str name \<noteq> []" using assms(6) good_name_c_str(2) by (simp add: good_name_def)
  note g = get_item_stored [OF i(2) assms(5) this] hash_map_find [where sh = sh and names = "names @ regular w ds" and h = "strtohash sh name"]
  note c = copy_request_stored [OF i(2) assms(5,6) ok] and f = fdpass_request_stored [OF i(2) assms(5,6) ok(1)]
  show ?thesis
  proof (intro exI conjI)
    show "add_files sh ds (length names) s w = Some (st, w1)" "stored sh (names @ regular w ds) n st w1" "tx w1 = tx w" using i(1,2) w1(3) .
    show "case find (\<lambda>d. strtohash sh d = strtohash sh name) (names @ regular w ds) of
        None \<Rightarrow> get_item sh st name = Some (-1) \<and> copy_request sh st (bytes_of_string name) w1 = Some w1 \<and>
          fdpass_request sh st (bytes_of_string name) w1 = Some w1
      | Some d \<Rightarrow> (\<exists>i ino e w2 w3. get_item sh st name = Some (int i) \<and> (names @ regular w ds) ! i = d \<and>
          dir w (back_path d) = Some ino \<and> copy_request sh st (bytes_of_string name) w1 = Some w2 \<and>
          tx w2 = tx w @ map Plain (put_le 8 (length (inodes w ino)) @ inodes w ino) \<and>
          fdpass_request sh st (bytes_of_string name) w1 = Some w3 \<and> tx w3 = tx w @ [WithFd 0x31 e] \<and> of_ino (ofds w3 e) = ino)"
    proof (cases "hash_map sh (names @ regular w ds) (strtohash sh name)")
      case None
      then show ?thesis using g c f by simp
    next
      case (Some k)
      then show ?thesis using g c f by (auto simp: w1)
    qed
  qed
qed

text \<open>A directory with the two files \<open>aa\<close> and \<open>qa\<close>.\<close>

definition two_files :: os where
  "two_files = os_init\<lparr>dir := [''./back/aa'' \<mapsto> 1, ''./back/qa'' \<mapsto> 2], inodes := (\<lambda>i. if i = 1 then [10, 20, 30] else [40])\<rparr>"

definition empty_store :: s_t where
  "empty_store = \<lparr>sd_cached = 0, sd_cachelimit = 0, sd_items = [], sd_indexes = []\<rparr>"

lemma two_files_ok: "no_faults two_files" "\<forall>d\<in>set [''aa'', ''qa'']. good_name d \<and> dir two_files (cached_path d) = None"
    "[''aa'', ''qa''] \<noteq> []" "good_name ''qa''" "good_name ''aa''" "sends_ok two_files" "8 \<le> chunk (tx_ev two_files) 8"
  by (simp_all add: two_files_def os_init_def no_faults_def good_name_def cached_path_def CACHEDIR_def sends_ok_def chunk_def)

lemma two_files_regular: "regular two_files [''aa'', ''qa''] = [''aa'', ''qa'']"
  by (simp add: regular_def two_files_def back_path_def BACKINGDIR_def)

text \<open>A store with room for two files, and the first of them in it.\<close>

definition cleared_store :: s_t where
  "cleared_store = empty_store\<lparr>sd_items := [zero_item, zero_item], sd_indexes := replicate 4 zero_entry\<rparr>"

lemma cleared_stored: "stored sh [] 2 cleared_store two_files"
proof -
  have "table_rep (replicate 4 zero_entry) (hash_map sh [])" by (auto simp: table_rep_def hash_map_def zero_entry_def)
  moreover have "used (replicate 4 zero_entry) = 0" by (simp add: used_def zero_entry_def)
  moreover have "\<forall>k<2. sh_fsname ([zero_item, zero_item] ! k) = replicate 1024 CHR 0x00"
    by (auto simp: less_2_cases_iff zero_item_def)
  ultimately show ?thesis by (simp add: stored_def cleared_store_def)
qed

theorem datapass_store_serves_witness:
  "\<exists>st w1 w2. add_files (\<lambda>x. x) [''aa'', ''qa''] 0 cleared_store two_files = Some (st, w1) \<and>
     copy_request (\<lambda>x. x) st (bytes_of_string ''aa'') w1 = Some w2 \<and> tx w2 = map Plain [3, 0, 0, 0, 0, 0, 0, 0, 10, 20, 30]"
proof -
  have "put_le 8 (Suc (Suc (Suc 0))) = [3, 0, 0, 0, 0, 0, 0, 0]" by code_simp
  then show ?thesis
    using datapass_store_serves [OF cleared_stored two_files_ok(1,2) _ _ two_files_ok(5-7), of "\<lambda>x. x"]
    unfolding append_Nil list.size two_files_regular
    by (auto simp: two_files_def back_path_def BACKINGDIR_def os_init_def simp del: add_files.simps)
qed

section \<open>Names that are confused\<close>

text \<open>The characters are combined by a disjunction that cannot be undone.\<close>

lemma aa_qa: "sh 0 = 0 \<Longrightarrow> strtohash sh ''aa'' = strtohash sh ''qa''"
  by (simp add: strtohash_def c_str_def byte_of_char_def)

text \<open>
  C39: The hash function of the cache server confuses names: \<open>aa\<close> and \<open>qa\<close> have the same hash on
  every machine that shifts zero to zero, and the table compares nothing else. In a directory
  with both files, listed in this order, a client that asks for \<open>qa\<close> is sent the file \<open>aa\<close>.
\<close>

theorem datapass_wrong_object:
  assumes "sh 0 = 0" "no_faults w" "dir w ''./back/aa'' = Some ino" "dir w ''./back/qa'' \<noteq> None"
    and "dir w ''./cached/aa'' = None" "dir w ''./cached/qa'' = None" "sends_ok w" "8 \<le> chunk (tx_ev w) 8"
  shows "\<exists>st w1 w2. init_storage sh (\<lambda>_. zero_item) (\<lambda>_. zero_entry) (Some [''aa'', ''qa'']) s w = Some (st, w1) \<and>
     copy_request sh st (bytes_of_string ''qa'') w1 = Some w2 \<and> tx w2 = tx w @ map Plain (put_le 8 (length (inodes w ino)) @ inodes w ino)"
proof -
  let ?ds = "[''aa'', ''qa'']"
  have g: "\<forall>d\<in>set ?ds. good_name d \<and> dir w (cached_path d) = None" "good_name ''qa''"
    using assms(5,6) by (simp_all add: good_name_def cached_path_def CACHEDIR_def)
  obtain st w1 where i: "init_storage sh (\<lambda>_. zero_item) (\<lambda>_. zero_entry) (Some ?ds) s w = Some (st, w1)"
    "stored sh (regular w ?ds) (length ?ds) st w1" "same_disk w w1" using init_storage_ok [OF assms(2) g(1)] by blast
  have r: "regular w ?ds = ?ds" using assms(3,4) by (simp add: regular_def back_path_def BACKINGDIR_def)
  have w1: "dir w1 = dir w" "inodes w1 = inodes w" "tx w1 = tx w" "tx_ev w1 = tx_ev w" using i(3) by (simp_all add: same_disk_def)
  have "sends_ok w1" "8 \<le> chunk (tx_ev w1) 8" "0 < length ?ds" using assms(7,8) w1(4) by (simp_all add: sends_ok_def)
  from copy_request_stored [OF i(2) this(3) g(2) this(1,2)] i(1) show ?thesis
    using assms(3) by (auto simp: r aa_qa [of sh, OF assms(1)] w1 back_path_def BACKINGDIR_def)
qed

theorem datapass_wrong_object_witness:
  "\<exists>st w1 w2. init_storage (\<lambda>x. x) (\<lambda>_. zero_item) (\<lambda>_. zero_entry) (Some [''aa'', ''qa'']) empty_store two_files = Some (st, w1) \<and>
     copy_request (\<lambda>x. x) st (bytes_of_string ''qa'') w1 = Some w2 \<and>
     tx w2 = tx two_files @ map Plain (put_le 8 (length (inodes two_files 1)) @ inodes two_files 1)"
  by (rule datapass_wrong_object) (use two_files_ok in \<open>simp_all add: two_files_def os_init_def\<close>)

section \<open>A file that has become shorter\<close>

lemma send_file_short:
  assumes "send_file fd size0 off w = Some w'"
  shows "fd_obj w fd = Some e \<Longrightarrow> of_acc (ofds w e) \<noteq> O_WRONLY \<Longrightarrow> sends_ok w \<Longrightarrow> inodes w (of_ino (ofds w e)) = data \<Longrightarrow>
     off \<le> length data \<Longrightarrow> size0 \<le> length data"
  using assms
proof (induction arbitrary: e data rule: send_file.raw_induct [rotated, consumes 1])
  case (1 f fd size0 off w w')
  define out where "out = take (min 0x7ffff000 (chunk (tx_ev w) (size0 - off))) (drop off data)"
  let ?w = "w\<lparr>tx_ev := tl (tx_ev w), tx := tx w @ map Plain out\<rparr>"
  have s: "sock_sendfile fd off (size0 - off) w = (int (length out), ?w)"
    using sendfile_step [OF 1(3-5)] 1(6) by (simp add: out_def)
  have l: "off + length out \<le> length data" using 1(7) by (simp add: out_def)
  show ?case
  proof (cases "size0 \<le> off + length out")
    case True
    with l show ?thesis by simp
  next
    case False
    then have "f fd size0 (off + length out) ?w = Some w'" using 1(2) s by simp
    then show ?thesis by (rule 1(1)) (use 1(3-6) l sends_ok_tl(1) [OF 1(5)] in \<open>simp_all add: sends_ok_def\<close>)
  qed
qed

text \<open>
  A service thread of the cache hangs when a file has become shorter than it was at the start:
  at the end of the file \<open>sendfile\<close> transfers nothing without an error, and the loop waits for
  the rest forever, so that the request has no end, however the transfers are split.
\<close>

theorem datapass_short_file_hangs:
  assumes "get_item sh st (string_of_bytes m_buffer) = Some (int idx)" "m_buffer \<noteq> []" "length m_buffer < 256"
    and "fd_obj w (item_fd st idx) = Some e" "of_acc (ofds w e) \<noteq> O_WRONLY" "sends_ok w"
    and "int (length (inodes w (of_ino (ofds w e)))) < sh_size (sd_items st ! idx)"
  shows "copy_request sh st m_buffer w = None"
proof -
  let ?n = "nat (sh_size (sd_items st ! idx))"
  obtain r w1 where s: "sock_write (put_le 8 ?n) w = (r, w1)" by fastforce
  have w1: "fd_obj w1 (item_fd st idx) = Some e" "of_acc (ofds w1 e) \<noteq> O_WRONLY" "sends_ok w1"
    "inodes w1 (of_ino (ofds w1 e)) = inodes w (of_ino (ofds w e))"
    using s assms(4-6) sends_ok_tl(1) [OF assms(6)] by (auto simp: sock_write_def Let_def sends_ok_def split: if_splits)
  have "send_file (item_fd st idx) ?n 0 w1 = None"
  proof (rule ccontr)
    assume "send_file (item_fd st idx) ?n 0 w1 \<noteq> None"
    then obtain w' where "send_file (item_fd st idx) ?n 0 w1 = Some w'" by blast
    from send_file_short [OF this w1] assms(7) show False by simp
  qed
  then show ?thesis using assms(1-3) s by (simp add: copy_request_def)
qed

text \<open>A store with one object of three bytes, whose file has two bytes now.\<close>

definition shrunk_store :: s_t where
  "shrunk_store = \<lparr>sd_cached = 0, sd_cachelimit = 0,
     sd_items = [zero_item\<lparr>sh_fsname := ''a'' @ replicate 1023 CHR 0x00, sh_fsfd := 1, sh_size := 3\<rparr>],
     sd_indexes = [zero_entry, \<lparr>he_fullhash = 97, he_index = 0\<rparr>]\<rparr>"

definition shrunk_os :: os where
  "shrunk_os = os_init\<lparr>fds := [Some 0, Some 0], inodes := (\<lambda>_. [1, 2])\<rparr>"

theorem datapass_short_file_hangs_witness: "copy_request (\<lambda>x. x) shrunk_store (bytes_of_string ''a'') shrunk_os = None"
proof (rule datapass_short_file_hangs)
  have "strtohash (\<lambda>x. x) ''a'' = 97" by (simp add: strtohash_def c_str_def byte_of_char_def)
  moreover have "(97 :: nat) mod Suc (Suc 0) = Suc 0" by (simp flip: numeral_2_eq_2)
  ultimately show "get_item (\<lambda>x. x) shrunk_store (string_of_bytes (bytes_of_string ''a'')) = Some (int 0)"
    by (simp add: get_item_def shrunk_store_def zero_entry_def) (subst probe.simps, simp)
qed (simp_all add: bytes_of_string_def shrunk_store_def shrunk_os_def item_fd_def zero_item_def fd_obj_def os_init_def sends_ok_def Let_def)

section \<open>The bridge\<close>

lemma write_up_all:
  "sends_ok w \<Longrightarrow> \<exists>ev. write_up bs w = Some (True, w\<lparr>tx := tx w @ map Plain bs, tx_ev := ev\<rparr>) \<and> set ev \<subseteq> set (tx_ev w)"
proof (induction "length bs" arbitrary: bs w rule: less_induct)
  case less
  show ?case
  proof (cases "bs = []")
    case True
    then show ?thesis by (intro exI [of _ "tx_ev w"]) (cases w, simp add: write_up.simps)
  next
    case False
    define k where "k = chunk (tx_ev w) (length bs)"
    have k: "0 < k" "k \<le> length bs" using chunk_bounds [of "length bs"] False by (simp_all add: k_def)
    let ?w = "w\<lparr>tx_ev := tl (tx_ev w), tx := tx w @ map Plain (take k bs)\<rparr>"
    have "sock_write bs w = (KDone (take k bs), ?w)"
      using sends_ok_hd [OF less.prems] by (auto simp: sock_write_def Let_def k_def)
    then have s: "write_up bs w = write_up (drop k bs) ?w" using k False by (subst write_up.simps) (simp add: min_absorb2)
    have "length (drop k bs) < length bs" "sends_ok ?w"
      using k sends_ok_tl(1) [OF less.prems] by (simp_all add: sends_ok_def)
    from less.hyps [OF this] obtain ev where i: "write_up (drop k bs) ?w = Some (True, ?w\<lparr>tx := tx ?w @ map Plain (drop k bs), tx_ev := ev\<rparr>)"
      "set ev \<subseteq> set (tl (tx_ev w))" by auto
    have "map Plain (take k bs) @ map Plain (drop k bs) = map Plain bs" by (simp flip: map_append)
    then show ?thesis using s i by (intro exI [of _ ev]) (cases "tx_ev w"; auto)
  qed
qed

text \<open>A round that moves at least a byte and at most what is missing.\<close>

locale transfer_round =
  fixes one :: "nat \<Rightarrow> nat \<Rightarrow> 'a os_scheme \<Rightarrow> (nat option \<times> 'a os_scheme) option" and fits :: "nat \<Rightarrow> bool"
  assumes progress: "fits n \<Longrightarrow> k < n \<Longrightarrow> n - k \<le> length (rx w) \<Longrightarrow> link_calm w \<Longrightarrow>
     \<exists>j re te. one n k w = Some (Some j, w\<lparr>rx := drop j (rx w), tx := tx w @ map (Plain \<circ> item_byte) (take j (rx w)), rx_ev := re, tx_ev := te\<rparr>) \<and>
       0 < j \<and> j \<le> n - k \<and> set re \<subseteq> set (rx_ev w) \<and> set te \<subseteq> set (tx_ev w)"
begin

lemma transfer_all:
  assumes "fits n" "k \<le> n" "n - k \<le> length (rx w)" "link_calm w"
  shows "\<exists>re te. bridge_transfer one n k w =
     Some (True, w\<lparr>rx := drop (n - k) (rx w), tx := tx w @ map (Plain \<circ> item_byte) (take (n - k) (rx w)), rx_ev := re, tx_ev := te\<rparr>) \<and>
     set re \<subseteq> set (rx_ev w) \<and> set te \<subseteq> set (tx_ev w)"
  using assms(2-4)
proof (induction "n - k" arbitrary: k w rule: less_induct)
  case less
  show ?case
  proof (cases "k < n")
    case False
    then show ?thesis by (intro exI [of _ "rx_ev w"] exI [of _ "tx_ev w"]) (cases w, simp add: bridge_transfer.simps)
  next
    case True
    obtain j re te where o: "one n k w = Some (Some j, w\<lparr>rx := drop j (rx w), tx := tx w @ map (Plain \<circ> item_byte) (take j (rx w)), rx_ev := re, tx_ev := te\<rparr>)"
      (is "_ = Some (_, ?w)") "0 < j" "j \<le> n - k" "set re \<subseteq> set (rx_ev w)" "set te \<subseteq> set (tx_ev w)"
      using progress [OF assms(1) True less.prems(2,3)] by blast
    have "n - (k + j) < n - k" "k + j \<le> n" "n - (k + j) \<le> length (rx ?w)" "link_calm ?w"
      using o(2-5) True less.prems(2,3) by (auto simp: link_calm_def link_ok_def)
    from less.hyps [OF this] obtain re' te' where i: "bridge_transfer one n (k + j) ?w =
       Some (True, ?w\<lparr>rx := drop (n - (k + j)) (rx ?w), tx := tx ?w @ map (Plain \<circ> item_byte) (take (n - (k + j)) (rx ?w)), rx_ev := re', tx_ev := te'\<rparr>)"
       "set re' \<subseteq> set re" "set te' \<subseteq> set te" by auto
    have e: "j + (n - (k + j)) = n - k" using o(3) by arith
    then have "take j (rx w) @ take (n - (k + j)) (drop j (rx w)) = take (n - k) (rx w)" "n - (k + j) + j = n - k"
      using take_add [of j "n - (k + j)" "rx w"] by simp_all
    then have "bridge_transfer one n k w = Some (True, w\<lparr>rx := drop (n - k) (rx w),
        tx := tx w @ map (Plain \<circ> item_byte) (take (n - k) (rx w)), rx_ev := re', tx_ev := te'\<rparr>)"
      using o(1) i(1) True by (subst bridge_transfer.simps) (simp flip: map_append)
    then show ?thesis using i(2,3) o(4,5) by blast
  qed
qed

end

lemma calm_rx: "link_calm w \<Longrightarrow> rx_ev w \<noteq> [] \<Longrightarrow> hd (rx_ev w) \<noteq> Intr \<and> hd (rx_ev w) \<noteq> Fail"
  unfolding link_calm_def link_ok_def by (cases "rx_ev w") auto

lemma read_calm_link:
  assumes "link_calm w"
  shows "sock_read n w = (KDone (map item_byte (take (chunk (rx_ev w) n) (rx w))), w\<lparr>rx_ev := tl (rx_ev w), rx := drop (chunk (rx_ev w) n) (rx w)\<rparr>)"
  using calm_rx [OF assms] by (auto simp: sock_read_def Let_def)

lemma calm_sends: "link_calm w \<Longrightarrow> sends_ok (w\<lparr>rx := x, rx_ev := y\<rparr>)"
  by (simp add: link_calm_def link_ok_def sends_ok_def)

lemma set_tl_subset: "set (tl xs) \<subseteq> set xs"
  by (cases xs) auto

text \<open>The buffer of the copy is used up after a megabyte.\<close>

interpretation copying: transfer_round copy_round "\<lambda>n. n \<le> 1048576"
proof
  fix n k :: nat and w :: "'a os_scheme"
  assume h: "n \<le> 1048576" "k < n" "n - k \<le> length (rx w)" "link_calm w"
  define j where "j = chunk (rx_ev w) (n - k)"
  have j: "0 < j" "j \<le> n - k" using chunk_bounds [of "n - k"] h(2) by (simp_all add: j_def)
  let ?w = "w\<lparr>rx_ev := tl (rx_ev w), rx := drop j (rx w)\<rparr>"
  obtain te where "write_up (map item_byte (take j (rx w))) ?w = Some (True, ?w\<lparr>tx := tx ?w @ map Plain (map item_byte (take j (rx w))), tx_ev := te\<rparr>)"
    "set te \<subseteq> set (tx_ev ?w)"
    using write_up_all [of ?w "map item_byte (take j (rx w))"] h(4) by (auto simp: link_calm_def link_ok_def sends_ok_def simp del: map_map)
  then show "\<exists>j re te. copy_round n k w = Some (Some j, w\<lparr>rx := drop j (rx w), tx := tx w @ map (Plain \<circ> item_byte) (take j (rx w)), rx_ev := re, tx_ev := te\<rparr>) \<and>
       0 < j \<and> j \<le> n - k \<and> set re \<subseteq> set (rx_ev w) \<and> set te \<subseteq> set (tx_ev w)"
    using j h(1,3) set_tl_subset [of "rx_ev w"] read_calm_link [OF h(4), of "n - k", folded j_def]
    by - (rule exI [of _ j], rule exI [of _ "tl (rx_ev w)"], rule exI [of _ te], simp add: copy_round_def Let_def min_absorb1 min_absorb2)
qed

interpretation splicing: transfer_round splice_round "\<lambda>n. True"
proof
  fix n k :: nat and w :: "'a os_scheme"
  assume h: "k < n" "n - k \<le> length (rx w)" "link_calm w"
  define j where "j = chunk (rx_ev w) (n - k)"
  have j: "0 < j" "j \<le> n - k" using chunk_bounds [of "n - k"] h(1) by (simp_all add: j_def)
  then show "\<exists>j re te. splice_round n k w = Some (Some j, w\<lparr>rx := drop j (rx w), tx := tx w @ map (Plain \<circ> item_byte) (take j (rx w)), rx_ev := re, tx_ev := te\<rparr>) \<and>
       0 < j \<and> j \<le> n - k \<and> set re \<subseteq> set (rx_ev w) \<and> set te \<subseteq> set (tx_ev w)"
    using h(2) set_tl_subset [of "rx_ev w"] read_calm_link [OF h(3), of "n - k", folded j_def]
    by - (rule exI [of _ j], rule exI [of _ "tl (rx_ev w)"], rule exI [of _ "tx_ev w"], cases w, simp add: splice_round_def min_absorb2)
qed

lemma size_field: "n < 2 ^ 63 \<Longrightarrow> nat (sint (of_nat (get_le (put_le 8 n)) :: u64)) = n"
proof -
  assume n: "n < 2 ^ 63"
  then have "get_le (put_le 8 n) = n" by (simp add: get_le_put_le)
  moreover have "sint (of_nat n :: u64) = int n"
    using n by (simp add: signed_of_nat signed_take_bit_int_eq_self)
  ultimately show ?thesis by simp
qed

text \<open>The part of the answer to a request up to the transfer.\<close>

lemma bridge_reply_size:
  assumes "rx w = map Plain (put_le 8 n) @ rest" "link_calm w" "8 \<le> chunk (rx_ev w) 8" "n < 2 ^ 63"
  obtains re te where "bridge_reply sp w = bridge_transfer (if sp then splice_round else copy_round) n 0
      (w\<lparr>rx := rest, tx := tx w @ map Plain (put_le 8 n), rx_ev := re, tx_ev := te\<rparr>)"
    "set re \<subseteq> set (rx_ev w)" "set te \<subseteq> set (tx_ev w)"
proof -
  have c: "chunk (rx_ev w) 8 = 8" using assms(3) chunk_bounds [of 8 "rx_ev w"] by simp
  let ?w = "w\<lparr>rx_ev := tl (rx_ev w), rx := rest\<rparr>"
  have r: "sock_read 8 w = (KDone (put_le 8 n), ?w)" using read_calm_link [OF assms(2), of 8] assms(1) by (simp add: c comp_def)
  have "sends_ok ?w" using assms(2) by (simp add: sends_ok_def link_calm_def link_ok_def)
  then obtain ev where u: "write_up (put_le 8 n) ?w = Some (True, ?w\<lparr>tx := tx ?w @ map Plain (put_le 8 n), tx_ev := ev\<rparr>)" "set ev \<subseteq> set (tx_ev ?w)"
    using write_up_all by blast
  have "bridge_reply sp w = bridge_transfer (if sp then splice_round else copy_round) n 0
      (w\<lparr>rx := rest, tx := tx w @ map Plain (put_le 8 n), rx_ev := tl (rx_ev w), tx_ev := ev\<rparr>)"
    using r u(1) size_field [OF assms(4)] by (cases w) (simp add: bridge_reply_def)
  then show ?thesis using u(2) set_tl_subset [of "rx_ev w"] by (intro that) simp_all
qed

text \<open>The bridge sends on the answer that the cache has given and takes nothing more, however its
  reads and writes are split.\<close>

lemma bridge_reply_delivers:
  assumes "rx w = map Plain (put_le 8 (length data) @ data) @ rest" "link_calm w" "8 \<le> chunk (rx_ev w) 8"
    and "length data < 2 ^ 63" "op_splice \<or> length data \<le> 1048576"
  obtains re te where "bridge_reply op_splice w =
      Some (True, w\<lparr>rx := rest, tx := tx w @ map Plain (put_le 8 (length data) @ data), rx_ev := re, tx_ev := te\<rparr>)"
    "set re \<subseteq> set (rx_ev w)" "set te \<subseteq> set (tx_ev w)"
proof -
  let ?one = "if op_splice then splice_round else copy_round"
  have "rx w = map Plain (put_le 8 (length data)) @ (map Plain data @ rest)" using assms(1) by simp
  from bridge_reply_size [OF this assms(2-4), of op_splice] obtain re te where
    b: "bridge_reply op_splice w = bridge_transfer ?one (length data) 0
      (w\<lparr>rx := map Plain data @ rest, tx := tx w @ map Plain (put_le 8 (length data)), rx_ev := re, tx_ev := te\<rparr>)" (is "_ = bridge_transfer _ _ _ ?w1")
      "set re \<subseteq> set (rx_ev w)" "set te \<subseteq> set (tx_ev w)" .
  have c: "link_calm ?w1" "length data - 0 \<le> length (rx ?w1)" "0 \<le> length data" using b(2,3) assms(2) by (auto simp: link_calm_def link_ok_def)
  have "\<exists>re te. bridge_transfer ?one (length data) 0 ?w1 = Some (True, ?w1\<lparr>rx := drop (length data - 0) (rx ?w1),
      tx := tx ?w1 @ map (Plain \<circ> item_byte) (take (length data - 0) (rx ?w1)), rx_ev := re, tx_ev := te\<rparr>) \<and>
      set re \<subseteq> set (rx_ev ?w1) \<and> set te \<subseteq> set (tx_ev ?w1)"
  proof (cases op_splice)
    case True
    show ?thesis unfolding if_P [OF True] by (rule splicing.transfer_all [OF TrueI c(3,2,1)])
  next
    case False
    with assms(5) have "length data \<le> 1048576" by simp
    show ?thesis unfolding if_not_P [OF False] by (rule copying.transfer_all [OF \<open>length data \<le> 1048576\<close> c(3,2,1)])
  qed
  then obtain re' te' where "bridge_transfer ?one (length data) 0 ?w1 = Some (True, ?w1\<lparr>rx := drop (length data - 0) (rx ?w1),
      tx := tx ?w1 @ map (Plain \<circ> item_byte) (take (length data - 0) (rx ?w1)), rx_ev := re', tx_ev := te'\<rparr>)"
    "set re' \<subseteq> set re" "set te' \<subseteq> set te" by auto
  then show ?thesis using b by (intro that [where re = re' and te = te']) (auto simp: comp_def)
qed

section \<open>Large objects\<close>

lemma copy_round_stuck:
  assumes "copy_round n k w = Some (r, w')" "link_calm w" "1048576 < n" "k \<le> 1048576"
  shows "link_calm w' \<and> (\<exists>j. r = Some j \<and> k + j \<le> 1048576)"
proof -
  define j where "j = chunk (rx_ev w) (1048576 - k)"
  have j: "j \<le> 1048576 - k" by (cases "k = 1048576") (use chunk_bounds [of "1048576 - k"] assms(4) in \<open>auto simp: j_def chunk_def split: list.splits io_event.splits\<close>)
  let ?w = "w\<lparr>rx_ev := tl (rx_ev w), rx := drop j (rx w)\<rparr>" and ?got = "map item_byte (take j (rx w))"
  obtain te where u: "write_up ?got ?w = Some (True, ?w\<lparr>tx := tx ?w @ map Plain ?got, tx_ev := te\<rparr>)" "set te \<subseteq> set (tx_ev ?w)"
    using write_up_all [of ?w ?got] assms(2) by (auto simp: link_calm_def link_ok_def sends_ok_def simp del: map_map)
  have "copy_round n k w = Some (Some (length ?got), ?w\<lparr>tx := tx ?w @ map Plain ?got, tx_ev := te\<rparr>)"
    using read_calm_link [OF assms(2), of "1048576 - k", folded j_def] u(1) assms(3) by (simp add: copy_round_def Let_def)
  then show ?thesis using assms(1,2,4) u(2) j set_tl_subset [of "rx_ev w"] by (auto simp: link_calm_def link_ok_def)
qed

lemma bridge_never_done:
  assumes "bridge_transfer one n k w = Some r"
  shows "one = copy_round \<Longrightarrow> link_calm w \<Longrightarrow> 1048576 < n \<Longrightarrow> k \<le> 1048576 \<Longrightarrow> False"
  using assms
proof (induction rule: bridge_transfer.raw_induct [rotated, consumes 1])
  case (1 f one n k w r)
  then have "(case copy_round n k w of None \<Rightarrow> None | Some (None, w) \<Rightarrow> Some (False, w) | Some (Some sb, w) \<Rightarrow> f one n (k + sb) w) = Some r"
    by simp
  then obtain s w' where c: "copy_round n k w = Some (s, w')" by (cases "copy_round n k w") auto
  from copy_round_stuck [OF this 1(4-6)] obtain j where j: "link_calm w'" "s = Some j" "k + j \<le> 1048576" by blast
  then have "f one n (k + j) w' = Some r" using 1 c by simp
  then show False using 1(1) 1(3,5) j by blast
qed

text \<open>
  C40: In copying mode the bridge never finishes an object of more than a megabyte: the size of a
  read is the rest of its buffer counted from the start of the object, and after a megabyte it
  reads nothing, for ever, whatever the cache has sent.
\<close>

theorem bridge_large_object_hangs:
  assumes "rx w = map Plain (put_le 8 n) @ rest" "link_calm w" "8 \<le> chunk (rx_ev w) 8" "1048576 < n" "n < 2 ^ 63"
  shows "bridge_reply False w = None"
proof -
  obtain re te where r: "bridge_reply False w = bridge_transfer (if False then splice_round else copy_round) n 0
      (w\<lparr>rx := rest, tx := tx w @ map Plain (put_le 8 n), rx_ev := re, tx_ev := te\<rparr>)" (is "_ = bridge_transfer _ _ _ ?w1")
    "set re \<subseteq> set (rx_ev w)" "set te \<subseteq> set (tx_ev w)" using bridge_reply_size [OF assms(1-3,5), of False] .
  then have "bridge_reply False w = bridge_transfer copy_round n 0 ?w1" "link_calm ?w1"
    using assms(2) by (auto simp: link_calm_def link_ok_def)
  then obtain w1 where b: "bridge_reply False w = bridge_transfer copy_round n 0 w1" "link_calm w1" by blast
  show ?thesis unfolding b(1) using bridge_never_done [of copy_round n 0 w1] b(2) assms(4) by (cases "bridge_transfer copy_round n 0 w1") auto
qed

theorem bridge_large_object_hangs_witness:
  "bridge_reply False (os_init\<lparr>rx := map Plain (put_le 8 2000000) @ map Plain [1, 2, 3]\<rparr>) = None"
  by (rule bridge_large_object_hangs [where n = 2000000]) (simp_all add: os_init_def link_calm_def link_ok_def chunk_def)

section \<open>The client\<close>

definition listed :: "'a os_scheme \<Rightarrow> string list \<Rightarrow> string list" where
  "listed w ds = filter (\<lambda>d. dir w (back_path d) \<noteq> None \<and> 1 < length d) ds"

lemma fault_calm: "no_faults w \<Longrightarrow> \<exists>t. fault w = (False, w\<lparr>faults := t\<rparr>) \<and> no_faults (w\<lparr>faults := t\<rparr>)"
  using no_faults_fault [of w] by (auto simp: no_faults_def)

lemma count_names_ok:
  "no_faults w \<Longrightarrow> \<forall>d\<in>set ds. good_name d \<Longrightarrow>
     \<exists>t. count_names ds n w = Some (n + length (regular w ds), w\<lparr>faults := t\<rparr>) \<and> no_faults (w\<lparr>faults := t\<rparr>)"
proof (induction ds arbitrary: n w)
  case Nil
  then show ?case by (intro exI [of _ "faults w"]) (simp add: regular_def)
next
  case (Cons d ds)
  obtain t where t: "fault w = (False, w\<lparr>faults := t\<rparr>)" "no_faults (w\<lparr>faults := t\<rparr>)" using fault_calm [OF Cons.prems(1)] by blast
  let ?n = "if dir w (back_path d) \<noteq> None then Suc n else n"
  obtain u where "count_names ds ?n (w\<lparr>faults := t\<rparr>) = Some (?n + length (regular (w\<lparr>faults := t\<rparr>) ds), w\<lparr>faults := t\<rparr>\<lparr>faults := u\<rparr>)"
    "no_faults (w\<lparr>faults := t\<rparr>\<lparr>faults := u\<rparr>)" using Cons.IH [OF t(2), of ?n] Cons.prems(2) by auto
  then show ?case using t(1) Cons.prems(2) by (intro exI [of _ u]) (auto simp: regular_def sprintf_good no_faults_def)
qed

text \<open>After the names \<open>ns\<close> all of them but the first are in the array.\<close>

lemma list_names_ok:
  "no_faults w \<Longrightarrow> \<forall>d\<in>set ds. good_name d \<Longrightarrow> length ns + length (listed w ds) \<le> length arr \<Longrightarrow>
     \<forall>j<length ns - 1. arr ! j = ns ! Suc j \<Longrightarrow>
     \<exists>arr' w'. list_names ds (length ns) (length ns - 1) arr w = Some (length (ns @ listed w ds), arr', w') \<and>
       (\<forall>j<length (ns @ listed w ds) - 1. arr' ! j = (ns @ listed w ds) ! Suc j)"
proof (induction ds arbitrary: ns arr w)
  case Nil
  then show ?case by (simp add: listed_def)
next
  case (Cons d ds)
  obtain t where t: "fault w = (False, w\<lparr>faults := t\<rparr>)" "no_faults (w\<lparr>faults := t\<rparr>)" using fault_calm [OF Cons.prems(1)] by blast
  let ?w = "w\<lparr>faults := t\<rparr>"
  have e: "listed ?w ds = listed w ds" by (simp add: listed_def)
  have sp: "sprintf_1024 (BACKINGDIR @ CHR ''/'' # d) = Some (back_path d)" using Cons.prems(2) by (simp add: sprintf_good)
  show ?case
  proof (cases "dir w (back_path d) \<noteq> None \<and> 1 < length d")
    case False
    then show ?thesis using Cons.IH [OF t(2), of ns arr] Cons.prems(2-4) t(1) sp by (auto simp: listed_def)
  next
    case True
    let ?arr = "arr[length ns - 1 := d]"
    have l: "listed w (d # ds) = d # listed w ds" using True by (simp add: listed_def)
    have "\<forall>j<length (ns @ [d]) - 1. ?arr ! j = (ns @ [d]) ! Suc j"
      using Cons.prems(3,4) by (auto simp: l nth_append nth_list_update less_Suc_eq)
    moreover have "length (ns @ [d]) + length (listed ?w ds) \<le> length ?arr" using Cons.prems(3) by (simp add: l e)
    ultimately have "\<exists>arr' w'. list_names ds (length (ns @ [d])) (length (ns @ [d]) - 1) ?arr ?w = Some (length ((ns @ [d]) @ listed ?w ds), arr', w') \<and>
        (\<forall>j<length ((ns @ [d]) @ listed ?w ds) - 1. arr' ! j = ((ns @ [d]) @ listed ?w ds) ! Suc j)"
      using Cons.IH [OF t(2), of "ns @ [d]" ?arr] Cons.prems(2) by simp
    then show ?thesis using t(1) sp True by (simp add: l e)
  qed
qed

lemma list_names_length: "list_names ds n p arr w = Some (m, arr', w') \<Longrightarrow> length arr' = length arr"
  by (induction ds n p arr w rule: list_names.induct) (auto simp: Let_def split: prod.splits if_splits Option.bind_splits)

text \<open>The client never asks for the first object of the directory: its name is overwritten by that
  of the second.\<close>

lemma getobjlist_loses_first:
  assumes "no_faults w" "\<forall>d\<in>set ds. good_name d" "listed w ds \<noteq> []"
  shows "\<exists>arr w'. getobjlist raw (Some ds) w = Some (int (length (listed w ds)) - 1, arr, w') \<and>
     take (length (listed w ds) - 1) arr = tl (listed w ds)"
proof -
  obtain t where c: "count_names ds 0 w = Some (length (regular w ds), w\<lparr>faults := t\<rparr>)" "no_faults (w\<lparr>faults := t\<rparr>)"
    using count_names_ok [OF assms(1,2), of 0] by auto
  obtain u where 1: "fault (w\<lparr>faults := t\<rparr>) = (False, w\<lparr>faults := t\<rparr>\<lparr>faults := u\<rparr>)" "no_faults (w\<lparr>faults := t\<rparr>\<lparr>faults := u\<rparr>)"
    using fault_calm [OF c(2)] by blast
  obtain v where 2: "fault (w\<lparr>faults := t\<rparr>\<lparr>faults := u\<rparr>) = (False, w\<lparr>faults := t\<rparr>\<lparr>faults := u\<rparr>\<lparr>faults := v\<rparr>)"
      "no_faults (w\<lparr>faults := t\<rparr>\<lparr>faults := u\<rparr>\<lparr>faults := v\<rparr>)" using fault_calm [OF 1(2)] by blast
  let ?w = "w\<lparr>faults := t\<rparr>\<lparr>faults := u\<rparr>\<lparr>faults := v\<rparr>" and ?arr = "map raw [0..<Suc (length (regular w ds))]"
  have e: "listed (w\<lparr>faults := x\<rparr>) ds = listed w ds" for x by (simp add: listed_def)
  have le: "length (listed w ds) \<le> length (regular w ds)"
    unfolding listed_def regular_def by (induction ds) auto
  obtain arr' w' where l: "list_names ds 0 0 ?arr ?w = Some (length (listed w ds), arr', w')"
      "\<forall>j<length (listed w ds) - 1. arr' ! j = listed w ds ! Suc j"
    using list_names_ok [OF 2(2) assms(2), of "[]" ?arr] le by (auto simp: e)
  have "length arr' = length ?arr" using l(1) by (rule list_names_length)
  then have "take (length (listed w ds) - 1) arr' = tl (listed w ds)" using l(2) le by (intro nth_equalityI) (auto simp: nth_tl)
  then show ?thesis using c(1) 1(1) 2(1) l(1) by (intro exI [of _ arr'] exI [of _ w']) (simp add: getobjlist_def del: upt_Suc)
qed

lemma client_body_all:
  "0 < step \<Longrightarrow> link_calm w \<Longrightarrow> rb + length (rx w) = n \<Longrightarrow> \<exists>ts w'. client_body step limit n rb tsum w = Some (n, ts, w') \<and> rx w' = []"
proof (induction "length (rx w)" arbitrary: rb tsum w rule: less_induct)
  case less
  show ?case
  proof (cases "rx w = []")
    case True
    then show ?thesis using less.prems(3) by (simp add: client_body.simps)
  next
    case False
    define j where "j = chunk (rx_ev w) 1048576"
    have j: "0 < j" using chunk_bounds [of 1048576] by (simp add: j_def)
    let ?w = "w\<lparr>rx_ev := tl (rx_ev w), rx := drop j (rx w)\<rparr>" and ?got = "map item_byte (take j (rx w))"
    have r: "sock_read 1048576 w = (KDone ?got, ?w)" using read_calm_link [OF less.prems(2)] by (simp add: j_def)
    have "length (rx ?w) < length (rx w)" "link_calm ?w" "(rb + length ?got) + length (rx ?w) = n"
      using False j less.prems(2,3) set_tl_subset [of "rx_ev w"] by (auto simp: link_calm_def link_ok_def)
    from less.hyps [OF this(1) less.prems(1) this(2,3)] obtain ts w' where
      i: "client_body step limit n (rb + length ?got) (tsum + touch_sum step limit rb ?got) ?w = Some (n, ts, w')" "rx w' = []" by blast
    have "rb < n" using False less.prems(3) by (cases "rx w") auto
    then have "client_body step limit n rb tsum w = Some (n, ts, w')"
      using r i(1) False j less.prems(1,3) by (subst client_body.simps) simp
    with i(2) show ?thesis by blast
  qed
qed

text \<open>What the cache or the bridge sends in copying mode, the client takes to its end.\<close>

lemma client_takes_object:
  assumes "rx w = map Plain (put_le 8 (length data) @ data)" "link_calm w" "8 \<le> chunk (rx_ev w) 8" "length data < 2 ^ 63" "0 < stride"
  shows "\<exists>ts w'. client_reply stride rthresh w = Some (length data, ts, w') \<and> rx w' = []"
proof -
  have c: "chunk (rx_ev w) 8 = 8" using assms(3) chunk_bounds [of 8 "rx_ev w"] by simp
  let ?w = "w\<lparr>rx_ev := tl (rx_ev w), rx := map Plain data\<rparr>"
  have r: "sock_read 8 w = (KDone (put_le 8 (length data)), ?w)" using read_calm_link [OF assms(2), of 8] assms(1) by (simp add: c comp_def)
  have "link_calm ?w" using assms(2) set_tl_subset [of "rx_ev w"] by (auto simp: link_calm_def link_ok_def)
  then show ?thesis
    using r size_field [OF assms(4)] client_body_all [of "stride * 4" ?w 0 "length data"] assms(5) by (simp add: client_reply_def Let_def)
qed

end
