(* ===== verification/Bridge.thy ===== *)
theory Bridge
  imports Datapass_Runs
begin

text \<open>
  The threads of the bridge of the datapass experiments (\<open>datapass/csrc/bridge.c\<close>). A thread reads
  the requests of a client, sends them down to the cache and passes the answers up. The link of
  the state is the one between cache and client: \<open>rx\<close> holds what the cache answers, \<open>tx\<close> what the
  client gets. The requests are an argument, and what goes down is recorded beside the process
  state. A session of any length is answered in order.
\<close>

section \<open>The threads\<close>

record bridge = os +
  br_down :: "bytes list"        \<comment> \<open>what has been sent to the cache, call by call\<close>
  br_down_ev :: "io_event list"

record bridge_thp =
  bp_ssockw :: int
  bp_ssockr :: int
  bp_csock :: int
  bp_dssock :: int


definition send_down :: "bytes \<Rightarrow> 'a bridge_scheme \<Rightarrow> 'a bridge_scheme" where
  "send_down bs w =
     (let evs = br_down_ev w; w = w\<lparr>br_down_ev := tl evs\<rparr>
      in if evs \<noteq> [] \<and> (hd evs = Intr \<or> hd evs = Fail) then w else w\<lparr>br_down := br_down w @ [bs]\<rparr>)"



text \<open>The messages of a client that wants descriptors; an empty one, an error and the end are the
  same. The request is copied to an array of 1024 bytes.\<close>

fun bridge_fd_loop :: "bytes list \<Rightarrow> 'a bridge_scheme \<Rightarrow> 'a bridge_scheme option" where
  "bridge_fd_loop [] w = Some w"
| "bridge_fd_loop (bs # ms) w =
     (let m_buffer = take 25600 bs
      in if m_buffer = [] then Some w
         else if 1024 \<le> length m_buffer then None
         else (case bridge_fd_reply (send_down m_buffer w) of None \<Rightarrow> None | Some w \<Rightarrow> bridge_fd_loop ms w))"

definition bridge_fdpass_thread :: "bytes list \<Rightarrow> bridge_thp \<Rightarrow> 'a bridge_scheme \<Rightarrow> (bridge_thp \<times> 'a bridge_scheme) option" where
  "bridge_fdpass_thread ms p w =
     (let w = snd (sock_write [0x31] w);
          (p, w) = (if bp_csock p \<noteq> 0 \<and> fd_obj w (bp_csock p) \<noteq> None
                    then (p\<lparr>bp_csock := 0\<rparr>, sys_close (bp_csock p) w) else (p, w))
      in do { w \<leftarrow> bridge_fd_loop ms w;
              Some (p\<lparr>bp_ssockr := -1\<rparr>, sys_close (bp_dssock p) (sys_close (bp_ssockr p) w)) })"

section \<open>A session\<close>






lemma send_down_ok: "br_down_ev w = [] \<Longrightarrow> send_down bs w = w\<lparr>br_down := br_down w @ [bs]\<rparr>"
  by (cases w) (simp add: send_down_def)





text \<open>A session in the other mode: the descriptors of the cache reach the client, and the bridge
  keeps none of them.\<close>

lemma fd_session:
  assumes "\<forall>x\<in>set xs. fst x \<noteq> [] \<and> length (fst x) < 1024" "rx w = map (\<lambda>x. WithFd b (snd x)) xs @ rest"
    and "link_calm w" "no_faults w" "br_down_ev w = []"
  shows "\<exists>w'. bridge_fd_loop (map fst xs) w = Some w' \<and> tx w' = tx w @ map (\<lambda>x. WithFd 0x31 (snd x)) xs \<and> rx w' = rest \<and>
     br_down w' = br_down w @ map fst xs \<and> (\<forall>fd. fd_obj w' fd = fd_obj w fd)"
  using assms
proof (induction xs arbitrary: w)
  case (Cons x xs)
  let ?w = "send_down (fst x) w"
  have d: "?w = w\<lparr>br_down := br_down w @ [fst x]\<rparr>" using send_down_ok [OF Cons.prems(5)] .
  have "rx ?w = WithFd b (snd x) # (map (\<lambda>x. WithFd b (snd x)) xs @ rest)" "link_calm ?w" "no_faults ?w"
    using Cons.prems(2-4) by (simp_all add: d link_calm_def link_ok_def no_faults_def)
  from bridge_fd_passes [OF this] obtain w1 where r: "bridge_fd_reply ?w = Some w1" "tx w1 = tx ?w @ [WithFd 0x31 (snd x)]"
    "rx w1 = map (\<lambda>x. WithFd b (snd x)) xs @ rest" "\<forall>fd. fd_obj w1 fd = fd_obj ?w fd" "link_calm w1" "no_faults w1" "os.more w1 = os.more ?w" by blast
  have m: "br_down w1 = br_down ?w" "br_down_ev w1 = br_down_ev ?w" using r(7) by (cases w1; cases ?w; simp)+
  then obtain w' where i: "bridge_fd_loop (map fst xs) w1 = Some w'" "tx w' = tx w1 @ map (\<lambda>x. WithFd 0x31 (snd x)) xs" "rx w' = rest"
     "br_down w' = br_down w1 @ map fst xs" "\<forall>fd. fd_obj w' fd = fd_obj w1 fd"
    using Cons.IH [OF _ r(3,5,6)] Cons.prems(1,5) by (auto simp: d)
  have "bridge_fd_loop (map fst (x # xs)) w = bridge_fd_loop (map fst xs) w1" using r(1) Cons.prems(1) by (simp add: Let_def)
  moreover have "fd_obj ?w fd = fd_obj w fd" for fd by (simp add: d fd_obj_def)
  ultimately show ?case using i r(2,4) m(1) by (intro exI [of _ w']) (simp add: d)
qed simp

end
