(* ===== verification/Demo.thy ===== *)
theory Demo
  imports Server_Props Legacy
begin

text \<open>
  The integration demo (\<open>demo_integration.c\<close>): a backend manager with two backends, objects that
  are created, written, read back, accessed and deleted. What the demo prints of the objects it
  reads is the result of its parts; the status reports only read the manager.
\<close>

section \<open>The parts\<close>

definition demo_objects :: "(string \<times> string \<times> bool) list" where
  "demo_objects =
     [(''/data/file1.txt'', ''This is file 1 content'', False), (''/data/file2.txt'', ''This is file 2 content'', False),
      (''/cache/temp1.txt'', ''This is temporary data'', True)]"

definition demo_request :: "string \<Rightarrow> string \<Rightarrow> bool \<Rightarrow> object_create_req" where
  "demo_request uri content ephemeral =
     \<lparr>or_uri = uri, or_backend_id = -1, or_ephemeral = ephemeral, or_size_hint = of_nat (length content), or_flags = 0\<rparr>"

text \<open>One object is created and written. Neither the write nor the update of the size is checked.\<close>

definition demo_create :: "string \<times> string \<times> bool \<Rightarrow> backend_manager \<Rightarrow> 'a world_scheme \<Rightarrow> (backend_manager \<times> 'a world_scheme) option" where
  "demo_create obj mgr w =
     (let (uri, content, ephemeral) = obj
      in do { (created, mgr, w) \<leftarrow> backend_create_object (demo_request uri content ephemeral) mgr w;
              case created of
                None \<Rightarrow> Some (mgr, w)
              | Some ref \<Rightarrow>
                  do { let (_, w) = file_write (fr_fd ref) (bytes_of_string content) w;
                       (_, mgr, w) \<leftarrow> backend_update_size uri (of_nat (length content)) mgr w;
                       (_, w) \<leftarrow> fd_ref_release ref w;
                       Some (mgr, w) } })"

text \<open>One object is read into a buffer of 256 bytes; the bytes are the result.\<close>

definition demo_read :: "string \<Rightarrow> backend_manager \<Rightarrow> 'a world_scheme \<Rightarrow> (bytes option \<times> backend_manager \<times> 'a world_scheme) option" where
  "demo_read uri mgr w =
     do { (found, mgr, w) \<leftarrow> backend_get_object uri mgr w;
          case found of
            None \<Rightarrow> Some (None, mgr, w)
          | Some ref \<Rightarrow>
              do { let (r, w) = file_read (fr_fd ref) 255 (lseek_start (fr_fd ref) w);
                   (_, w) \<leftarrow> fd_ref_release ref w;
                   Some (case r of KDone got \<Rightarrow> if got = [] then None else Some got | _ \<Rightarrow> None, mgr, w) } }"

fun create_all :: "(string \<times> string \<times> bool) list \<Rightarrow> backend_manager \<Rightarrow> 'a world_scheme \<Rightarrow> (backend_manager \<times> 'a world_scheme) option" where
  "create_all [] mgr w = Some (mgr, w)"
| "create_all (obj # objs) mgr w = do { (mgr, w) \<leftarrow> demo_create obj mgr w; create_all objs mgr w }"

fun read_all_objects :: "string list \<Rightarrow> backend_manager \<Rightarrow> 'a world_scheme \<Rightarrow> (bytes option list \<times> backend_manager \<times> 'a world_scheme) option" where
  "read_all_objects [] mgr w = Some ([], mgr, w)"
| "read_all_objects (u # us) mgr w =
     do { (r, mgr, w) \<leftarrow> demo_read u mgr w;
          (rs, mgr, w) \<leftarrow> read_all_objects us mgr w;
          Some (r # rs, mgr, w) }"

definition demo_create_and_read :: "backend_manager \<Rightarrow> 'a world_scheme \<Rightarrow> (bytes option list \<times> backend_manager \<times> 'a world_scheme) option" where
  "demo_create_and_read mgr w =
     do { (mgr, w) \<leftarrow> create_all demo_objects mgr w; read_all_objects (map fst demo_objects) mgr w }"

fun demo_access :: "nat \<Rightarrow> string \<Rightarrow> backend_manager \<Rightarrow> 'a world_scheme \<Rightarrow> (backend_manager \<times> 'a world_scheme) option" where
  "demo_access 0 uri mgr w = Some (mgr, w)"
| "demo_access (Suc n) uri mgr w =
     do { (found, mgr, w) \<leftarrow> backend_get_object uri mgr w;
          case found of
            None \<Rightarrow> demo_access n uri mgr w
          | Some ref \<Rightarrow>
              do { let (_, w) = file_read (fr_fd ref) 128 w;
                   (_, w) \<leftarrow> fd_ref_release ref w;
                   demo_access n uri mgr w } }"

definition demo_hotness_tracking ::
    "backend_manager \<Rightarrow> 'a world_scheme \<Rightarrow> (object_metadata option \<times> backend_manager \<times> 'a world_scheme) option" where
  "demo_hotness_tracking mgr w =
     do { (mgr, w) \<leftarrow> demo_access 10 ''/data/file1.txt'' mgr w; backend_get_metadata ''/data/file1.txt'' mgr w }"

text \<open>The caching thread runs for three seconds; a pass of it changes nothing that is modelled.\<close>

definition demo_caching :: "backend_manager \<Rightarrow> 'a world_scheme \<Rightarrow> backend_manager \<times> 'a world_scheme" where
  "demo_caching mgr w =
     (let (ok, mgr, w) = backend_start_caching 1000000 0.5 mgr w in (if ok then backend_stop_caching mgr else mgr, w))"

fun delete_all :: "string list \<Rightarrow> backend_manager \<Rightarrow> 'a world_scheme \<Rightarrow> (bool list \<times> backend_manager \<times> 'a world_scheme) option" where
  "delete_all [] mgr w = Some ([], mgr, w)"
| "delete_all (u # us) mgr w =
     do { (ok, mgr, w) \<leftarrow> backend_delete_object u mgr w;
          (oks, mgr, w) \<leftarrow> delete_all us mgr w;
          Some (ok # oks, mgr, w) }"

definition demo_delete :: "backend_manager \<Rightarrow> 'a world_scheme \<Rightarrow> (bool list \<times> backend_manager \<times> 'a world_scheme) option" where
  "demo_delete mgr w = delete_all (map fst demo_objects) mgr w"

section \<open>Main\<close>

text \<open>\<open>junk\<close> stands for uninitialised bytes, as for the server. The result is \<open>False\<close> for the exit
  status 1.\<close>

definition demo_main :: "bytes \<Rightarrow> 'a world_scheme \<Rightarrow> (bool \<times> 'a world_scheme) option" where
  "demo_main junk w =
     do {
       (created, w) \<leftarrow> backend_manager_create 8192 1000 w;
       case created of
         None \<Rightarrow> Some (False, w)
       | Some mgr \<Rightarrow>
           do {
             let (_, w) = sys_mkdir ''/tmp/objmapper_memory'' w;
             (mem, mgr, w) \<leftarrow> backend_manager_register junk BACKEND_TYPE_MEMORY ''/tmp/objmapper_memory'' ''Memory Cache'' (1024 * 1024 * 1024)
                (BACKEND_FLAG_EPHEMERAL_ONLY OR BACKEND_FLAG_ENABLED OR BACKEND_FLAG_MIGRATION_SRC OR BACKEND_FLAG_MIGRATION_DST) mgr w;
             if mem < 0 then do { w \<leftarrow> backend_manager_destroy mgr w; Some (False, w) }
             else do {
               let (_, w) = sys_mkdir ''/tmp/objmapper_persistent'' w;
               (per, mgr, w) \<leftarrow> backend_manager_register junk BACKEND_TYPE_SSD ''/tmp/objmapper_persistent'' ''Persistent SSD'' (10 * 1024 * 1024 * 1024)
                  (BACKEND_FLAG_PERSISTENT OR BACKEND_FLAG_ENABLED OR BACKEND_FLAG_MIGRATION_SRC OR BACKEND_FLAG_MIGRATION_DST) mgr w;
               if per < 0 then do { w \<leftarrow> backend_manager_destroy mgr w; Some (False, w) }
               else do {
                 let mgr = snd (backend_manager_set_default per mgr);
                 let mgr = snd (backend_manager_set_ephemeral mem mgr);
                 let mgr = snd (backend_manager_set_cache mem mgr);
                 (_, mgr, w) \<leftarrow> demo_create_and_read mgr w;
                 (_, mgr, w) \<leftarrow> demo_hotness_tracking mgr w;
                 let (mgr, w) = demo_caching mgr w;
                 (_, mgr, w) \<leftarrow> demo_delete mgr w;
                 w \<leftarrow> backend_manager_destroy mgr w;
                 Some (True, w)
               }
             }
           }
     }"

section \<open>What is written is read\<close>

lemma lookup_reached:
  assumes "object_at mgr w u a n path ino" "no_faults w"
  obtains fd mgr' w' where
    "manager_lookup u mgr w = Some (Some \<lparr>fr_entry = Some a, fr_fd = fd, fr_generation = 0\<rparr>, mgr', w')"
    "0 \<le> fd" "object_at mgr' w' u a (n + 1) path ino" "no_faults w'" "fd_frame w w'"
proof -
  obtain e where e: "heap w a = Some e" "ie_entry_refcount e = n" "ie_backend_path e = Some path" and di: "dir w path = Some ino"
    and fnd: "finds (m_global_index mgr) (heap w) u a" using assms(1) unfolding object_at_def by blast
  then obtain p q where pq: "bucket_at (gi_buckets (m_global_index mgr)) (bucket_of (gi_num_buckets (m_global_index mgr)) (index_hash_string u)) = Some p"
    "chain_locate (heap w) (index_hash_string u) u None p = Some (Some (q, a))" unfolding finds_def by blast
  let ?w0 = "w\<lparr>heap := (heap w)(a \<mapsto> e\<lparr>ie_entry_refcount := ie_entry_refcount e + 1\<rparr>)\<rparr>"
  obtain fd w1 where o: "sys_open O_RDWR path ?w0 = (fd, w1)" by (cases "sys_open O_RDWR path ?w0")
  have "no_faults ?w0" "dir ?w0 path = Some ino" using assms(2) di by (simp_all add: no_faults_def)
  note ok = sys_open_ok [OF this o]
  obtain f x k t where w1: "w1 = ?w0\<lparr>faults := f, ofds := x, next_ofd := k, fds := t\<rparr>" using sys_open_frame [OF o] .
  let ?w' = "w1\<lparr>heap := (heap w)(a \<mapsto> touched e fd (clock w))\<rparr>"
  have "\<exists>mgr'. manager_lookup u mgr w = Some (Some \<lparr>fr_entry = Some a, fr_fd = fd, fr_generation = 0\<rparr>, mgr', ?w') \<and>
      gi_buckets (m_global_index mgr') = gi_buckets (m_global_index mgr) \<and>
      gi_num_buckets (m_global_index mgr') = gi_num_buckets (m_global_index mgr)"
    using pq e o ok(1)
    by (simp add: manager_lookup_def global_index_lookup_def index_entry_get_def
        index_entry_record_access_def upd_entry_def open_for_lookup_def touched_def w1 Let_def split: option.split)
  then obtain mgr' where g: "manager_lookup u mgr w = Some (Some \<lparr>fr_entry = Some a, fr_fd = fd, fr_generation = 0\<rparr>, mgr', ?w')"
      "gi_buckets (m_global_index mgr') = gi_buckets (m_global_index mgr)"
      "gi_num_buckets (m_global_index mgr') = gi_num_buckets (m_global_index mgr)" by blast
  have "same_links (heap w) (heap ?w') UNIV" using e(1) by (auto simp: same_links_def)
  with g(2,3) fnd have "finds (m_global_index mgr') (heap ?w') u a" by (blast intro: finds_same)
  then have "object_at mgr' ?w' u a (n + 1) path ino" using e di unfolding object_at_def by (simp add: w1)
  moreover have "fd_frame w ?w'" unfolding fd_frame_def w1
    by (rule exI [of _ f], rule exI [of _ x], rule exI [of _ k], rule exI [of _ t], rule exI [of _ "heap ?w'"]) simp
  ultimately show ?thesis using ok by (intro that [OF g(1) ok(1)]) (simp_all add: no_faults_def)
qed

lemma object_at_size:
  assumes "object_at mgr w u a n path ino"
  obtains w' where "upd_entry a (\<lambda>e. e\<lparr>ie_size_bytes := sz\<rparr>) w = Some w'" "object_at mgr w' u a n path ino"
    "fd_frame w w'" "faults w' = faults w"
proof -
  obtain e where e: "heap w a = Some e" "ie_entry_refcount e = n" "ie_backend_path e = Some path" "dir w path = Some ino"
    "finds (m_global_index mgr) (heap w) u a" using assms unfolding object_at_def by blast
  let ?w = "w\<lparr>heap := (heap w)(a \<mapsto> e\<lparr>ie_size_bytes := sz\<rparr>)\<rparr>"
  have "same_links (heap w) (heap ?w) UNIV" using e(1) by (auto simp: same_links_def)
  then have "object_at mgr ?w u a n path ino" using finds_same [OF e(5)] e unfolding object_at_def by simp
  then show ?thesis using e(1) by (intro that [of ?w]) (simp_all add: upd_entry_def fd_frame_heap)
qed

lemma object_at_mgr:
  "m_global_index mgr' = m_global_index mgr \<Longrightarrow> object_at mgr' w u a n path ino = object_at mgr w u a n path ino"
  by (simp add: object_at_def)

lemma update_size_reached:
  assumes "object_at mgr w u a n path ino" "no_faults w" "1 \<le> n"
  obtains ok mgr' w' where "backend_update_size u sz mgr w = Some (ok, mgr', w')" "object_at mgr' w' u a n path ino"
    "no_faults w'" "fd_frame w w'"
proof -
  obtain fd mgr1 w1 where 1: "manager_lookup u mgr w = Some (Some \<lparr>fr_entry = Some a, fr_fd = fd, fr_generation = 0\<rparr>, mgr1, w1)"
    "0 \<le> fd" "object_at mgr1 w1 u a (n + 1) path ino" "no_faults w1" "fd_frame w w1" using lookup_reached [OF assms(1,2)] .
  obtain e where e: "heap w1 a = Some e" using 1(3) unfolding object_at_def by blast
  have n: "1 < n + 1" using assms(3) by simp
  show ?thesis
  proof (cases "backend_manager_get_backend mgr1 (sint (ie_backend_id e))")
    case None
    obtain r w2 where 2: "fd_ref_release \<lparr>fr_entry = Some a, fr_fd = fd, fr_generation = 0\<rparr> w1 = Some (r, w2)"
      "object_at mgr1 w2 u a (n + 1 - 1) path ino" "fd_frame w1 w2" "faults w2 = faults w1" using release_reached [OF 1(3) n 1(2)] by blast
    have "backend_update_size u sz mgr w = Some (False, mgr1, w2)"
      using 1(1) 2(1) e None by (simp add: backend_update_size_def release_with_def)
    then show ?thesis using that 2(2,4) 1(4) fd_frame_trans [OF 1(5) 2(3)] by (simp add: no_faults_def)
  next
    case (Some b)
    obtain w2 where 2: "upd_entry a (\<lambda>e. e\<lparr>ie_size_bytes := sz\<rparr>) w1 = Some w2" "object_at mgr1 w2 u a (n + 1) path ino"
      "fd_frame w1 w2" "faults w2 = faults w1" using object_at_size [OF 1(3)] .
    obtain r w3 where 3: "fd_ref_release \<lparr>fr_entry = Some a, fr_fd = fd, fr_generation = 0\<rparr> w2 = Some (r, w3)"
      "object_at mgr1 w3 u a (n + 1 - 1) path ino" "fd_frame w2 w3" "faults w3 = faults w2" using release_reached [OF 2(2) n 1(2)] by blast
    have "\<exists>mgr2. backend_update_size u sz mgr w = Some (True, mgr2, w3) \<and> m_global_index mgr2 = m_global_index mgr1"
      using 1(1) 2(1) 3(1) e Some by (simp add: backend_update_size_def release_with_def Let_def)
    then obtain mgr2 where "backend_update_size u sz mgr w = Some (True, mgr2, w3)" "m_global_index mgr2 = m_global_index mgr1" by blast
    then show ?thesis using 2(4) 3(2,4) 1(4) fd_frame_trans [OF fd_frame_trans [OF 1(5) 2(3)] 3(3)]
      by (intro that [of True mgr2 w3]) (simp_all add: no_faults_def object_at_mgr [of mgr2 mgr1])
  qed
qed

text \<open>
  C9: What the integration demo writes into a new object is what it reads back: when the object
  can be created and nothing fails, creating it, writing a text of at most 255 bytes, updating
  its size and releasing it, and then looking it up and reading it, gives the text.
\<close>

theorem demo_reads_back:
  assumes "can_create (demo_request u content eph) mgr path w" "no_faults w" "fio_ev w = []" "content \<noteq> []" "length content \<le> 255"
  shows "\<exists>mgr1 w1 mgr2 w2. demo_create (u, content, eph) mgr w = Some (mgr1, w1) \<and>
     demo_read u mgr1 w1 = Some (Some (bytes_of_string content), mgr2, w2)"
proof -
  let ?req = "demo_request u content eph" and ?bs = "bytes_of_string content"
  obtain a fd mgr1 w1 d ino where 1:
    "backend_create_object ?req mgr w = Some (Some \<lparr>fr_entry = Some a, fr_fd = fd, fr_generation = 0\<rparr>, mgr1, w1)"
    "0 \<le> fd" "fd_obj w1 fd = Some d" "ofds w1 d = \<lparr>of_ino = ino, of_off = 0, of_acc = O_RDWR\<rparr>"
    "object_at mgr1 w1 (or_uri ?req) a 3 path ino" "inodes w1 = (inodes w)(ino := [])" "no_faults w1" "same_socket w w1"
    using create_reached [OF assms(1,2)] by metis
  have u: "or_uri ?req = u" by (simp add: demo_request_def)
  have "fio_ev w1 = []" using 1(8) assms(3) by (simp add: same_socket_def)
  let ?w2 = "w1\<lparr>inodes := (inodes w1)(ino := ?bs), ofds := (ofds w1)(d := (ofds w1 d)\<lparr>of_off := length ?bs\<rparr>)\<rparr>"
  have 2: "file_write fd ?bs w1 = (KDone ?bs, ?w2)"
    using 1(3,4,6) \<open>fio_ev w1 = []\<close> by (simp add: file_write_def chunk_def Let_def write_at_def)
  have o: "object_at mgr1 ?w2 u a 3 path ino" "no_faults ?w2" and n: "1 \<le> (3 :: int)" "1 < (3 :: int)"
    using 1(5,7) u by (simp_all add: object_at_def no_faults_def)
  obtain ok mgr3 w3 where 3: "backend_update_size u (of_nat (length content)) mgr1 ?w2 = Some (ok, mgr3, w3)"
    "object_at mgr3 w3 u a 3 path ino" "no_faults w3" "fd_frame ?w2 w3" using update_size_reached [OF o n(1)] .
  obtain r w4 where 4: "fd_ref_release \<lparr>fr_entry = Some a, fr_fd = fd, fr_generation = 0\<rparr> w3 = Some (r, w4)"
    "object_at mgr3 w4 u a (3 - 1) path ino" "fd_frame w3 w4" "faults w4 = faults w3" using release_reached [OF 3(2) n(2) 1(2)] by metis
  have w4: "no_faults w4" "inodes w4 ino = ?bs" "fio_ev w4 = []"
    using 3(3) 4(4) fd_frame_trans [OF 3(4) 4(3)] \<open>fio_ev w1 = []\<close> by (auto simp: no_faults_def fd_frame_def)
  obtain fd5 mgr5 w5 e where 5: "backend_get_object u mgr3 w4 = Some (Some \<lparr>fr_entry = Some a, fr_fd = fd5, fr_generation = 0\<rparr>, mgr5, w5)"
    "0 \<le> fd5" "fd_obj w5 fd5 = Some e" "ofds w5 e = \<lparr>of_ino = ino, of_off = 0, of_acc = O_RDWR\<rparr>"
    "object_at mgr5 w5 u a (3 - 1 + 1) path ino" "fd_frame w4 w5" using get_reached [OF 4(2) w4(1)] by metis
  have w5: "inodes w5 ino = ?bs" "fio_ev w5 = []" using w4(2,3) 5(6) by (auto simp: fd_frame_def)
  let ?w6 = "lseek_start fd5 w5" and ?w7 = "w5\<lparr>ofds := (ofds w5)(e := (ofds w5 e)\<lparr>of_off := length ?bs\<rparr>)\<rparr>"
  have "length ?bs \<le> 255" using assms(5) by (simp add: bytes_of_string_def)
  then have 6: "file_read fd5 255 ?w6 = (KDone ?bs, ?w7)"
    using 5(3,4) w5 by (simp add: lseek_start_def file_read_def chunk_def Let_def)
  have "3 - 1 + 1 = (3 :: int)" by simp
  then have q: "object_at mgr5 ?w7 u a 3 path ino" using 5(5) by (simp add: object_at_def)
  obtain r' w8 where 7: "fd_ref_release \<lparr>fr_entry = Some a, fr_fd = fd5, fr_generation = 0\<rparr> ?w7 = Some (r', w8)"
    using release_reached [OF q n(2) 5(2)] by blast
  have "?bs \<noteq> []" using assms(4) by (simp add: bytes_of_string_def)
  then have "demo_read u mgr3 w4 = Some (Some ?bs, mgr5, w8)" using 5(1) 6 7 by (simp add: demo_read_def)
  moreover have "demo_create (u, content, eph) mgr w = Some (mgr3, w4)" using 1(1) 2 3(1) 4(1) by (simp add: demo_create_def)
  ultimately show ?thesis by blast
qed

lemma demo_can_create: "can_create (demo_request ''/b'' ''hello'' False) (sv_mgr sample_server) ''/m/b'' sample_world"
proof -
  have "create_target (demo_request ''/b'' ''hello'' False) m = create_target (put_request (get_request ''/b'')) m"
    "or_uri (demo_request ''/b'' ''hello'' False) = or_uri (put_request (get_request ''/b''))" for m
    by (simp_all add: create_target_def demo_request_def put_request_def get_request_def req_uri_def c_str_def Let_def split: option.split)
  then show ?thesis using sample_can_create unfolding can_create_def by simp
qed

theorem demo_reads_back_witness:
  "\<exists>mgr1 w1 mgr2 w2. demo_create (''/b'', ''hello'', False) (sv_mgr sample_server) sample_world = Some (mgr1, w1) \<and>
     demo_read ''/b'' mgr1 w1 = Some (Some (bytes_of_string ''hello''), mgr2, w2)"
  by (rule demo_reads_back [OF demo_can_create sample_no_faults])
    (simp_all add: sample_world_def one_entry_def os.defs os_init_def)

end
