(* ===== verification/Spec2Isabelle.thy ===== *)
theory Spec2Isabelle
  imports Protocol_Limits Index_Props Index_File Backend_Migrate Backend_Faults Backend_Scan Storage_Props
    Transport_Props Legacy_Props Legacy_Main Client_Props Server_Threads Server_Race Server_Descriptors
    Benchmark_Transfer Bridge Demo
begin

text \<open>
  objmapper maps URIs to objects that live as files on several storage backends and hands
  them to clients as file descriptors over Unix sockets. This development models the
  libraries the program is built from and proves what they promise, and where they do not
  keep it.

  \<^bold>\<open>Parts and theories.\<close>
  \<^item> \<open>Objm_Prelude\<close>: integer types of C, byte order, strings cut by \<open>snprintf\<close>, shared lemmas.
  \<^item> \<open>Posix\<close>: files, directories, descriptors, open file descriptions and the stream socket as
    a record \<open>os\<close>; every system call is a function on it. Failures, short transfers and
    interruptions are scripted in the state, so a theorem that leaves the scripts free holds
    for every pattern of failures.
  \<^item> \<open>Protocol_Conn\<close>, \<open>Protocol_Meta\<close> (\<open>lib/protocol/protocol.c\<close>): connections of client and
    server, requests, responses, descriptor passing, metadata blocks and name tables.
    \<open>Framing\<close> is the contract of a framed stream as a locale; \<open>Protocol_Laws\<close> shows that both
    directions meet it (round trips, order of pipelined requests, handshake);
    \<open>Protocol_Limits\<close> has the limits and the flaws of the wire format.
  \<^item> \<open>Index_Core\<close>, \<open>Index_Tables\<close> (\<open>lib/index/index.c\<close>): entries with reference counts and
    cached descriptors in a heap, the global index and the index of a backend.
    \<open>Index_Chains\<close> relates the chained tables to finite maps, \<open>Index_Laws\<close> states the contract
    of an index of URIs as a locale and interprets it for both tables, \<open>Index_Props\<close> has the
    properties.
  \<^item> \<open>Index_Persist\<close> (same file): the index file, the transfer loops and the scan
    of a directory tree. \<open>Index_Persist_Laws\<close>: the transfer loops move all bytes;
    \<open>Index_File\<close>: an index survives the trip through its file; \<open>Tree_Walk\<close>: a walk that never ends.
  \<^item> \<open>Backend_Manager\<close>, \<open>Backend_Ops\<close> (\<open>lib/backend/backend.c\<close>): registration and roles of
    backends, creation, lookup, deletion, scan, size accounting, migration, cache control.
    \<open>Backend_Laws\<close> has the invariant and the step relation, \<open>Backend_Files\<close> the directories
    and files, \<open>Backend_Props\<close> the properties, \<open>Backend_Faults\<close> and \<open>Backend_Migrate\<close> the
    runs that lose an object. \<open>Backend_Scan\<close> states what a scan needs of the code it runs for each
    file as a locale, meets it for both scans, and shows that they return.
  \<^item> \<open>Storage\<close> (\<open>lib/storage/storage.c\<close>): slots, hash table, backing files and mappings;
    \<open>Storage_Laws\<close> states the contract of a store as a locale and meets it, \<open>Storage_Props\<close>
    has the properties.
  \<^item> \<open>Server\<close> (\<open>server.c\<close>): request handlers, dispatch, the thread of a connection, set-up of the
    backends, on top of protocol and backend manager. \<open>Server_Laws\<close> follows an object through
    the calls of a request, \<open>Server_Props\<close> follows requests from the client to the file and back,
    \<open>Server_Frame\<close> is the locale of the properties that every system call of a request keeps;
    \<open>Server_Ends\<close> shows with it that the thread ends, \<open>Kernel_Types\<close> that the process state stays
    well-formed; \<open>Server_Descriptors\<close> has that a connection leaks no descriptor, and the number that
    an entry keeps too long. \<open>Server_Main\<close> (same file) has the listening socket, the accept loop, the
    detached threads of the clients and the shutdown: main thread, client threads and the signal
    handler take turns as a schedule says. \<open>Server_Threads\<close> has the books and the shutdown in
    every schedule, and that a thread that runs alone is \<open>client_thread\<close>; \<open>Server_Race\<close> is the
    state machine of the shutdown in smaller steps.
  \<^item> \<open>Net\<close>: names of sockets, connections that wait to be accepted, datagrams and the resolver,
    as a record \<open>net\<close> beside \<open>os\<close>.
  \<^item> \<open>Client\<close> (\<open>client.c\<close>): the commands of the command line client, its copy loop and main.
    \<open>Client_Frame\<close> is the locale of the relations between states that every call on the link
    keeps, met for the files and for the descriptors; \<open>Client_Props\<close> runs client and server
    against each other, two processes that share files and open file descriptions.
  \<^item> \<open>Benchmark\<close> (\<open>benchmark.c\<close>): the load generator, whose worker threads run in every
    interleaving of their rounds. \<open>Benchmark_Props\<close> has its books,
    \<open>Benchmark_Transfer\<close> an operation against the server.
  \<^item> \<open>Demo\<close> (\<open>demo_integration.c\<close>): the integration demo on top of the backend manager.
  \<^item> \<open>Transport\<close> (\<open>lib/transport/transport.c\<close>, \<open>lib/fdpass/fdpass.c\<close>): handles for Unix, TCP and UDP
    sockets and the passing of descriptors. \<open>Transport_Props\<close> states the contract of a
    constructor of handles as a locale and meets it three times.
  \<^item> \<open>Legacy\<close> (\<open>objmapper/src/server.c\<close>, \<open>objmapper/src/client.c\<close>): the first object mapper over the
    transport and storage libraries, with its three modes of transfer; \<open>Legacy_Main\<close> its
    options (\<open>objmapper/src/main.c\<close>); \<open>Legacy_Props\<close> has what works and what does not.
  \<^item> \<open>Datapass\<close> (\<open>datapass/csrc\<close>): the experiments that came before: the store of the cache server
    and its threads, the passing of descriptors, the transfers of the bridge and of the client.
    \<open>Datapass_Props\<close> relates the open addressing table to the map from hashes to files;
    \<open>Datapass_Runs\<close> has what a client gets; \<open>Bridge\<close> has the threads of the bridge and their
    sessions.

  \<^bold>\<open>How code and model correspond.\<close> A struct is a record, an enum a datatype, a function of
  the code a function of the same name that takes and returns the state it changes. A result
  \<open>-1\<close> of the code is \<open>False\<close> or \<open>None\<close> inside the result. Undefined behaviour (a freed
  entry, an index out of bounds, a \<open>NULL\<close> that is used) and a loop that does not end are an
  outer \<open>None\<close>. Unsigned integers of the code are words of their width, so that wrap-around
  is that of the code; counts of references are unbounded integers, since they are bounded by
  the number of live references. Loops that may not end (chain walks, transfers, directory
  walks) are \<open>partial_function\<close>s in the option monad, and that they return is proved, not
  assumed. Buffer sizes are those of the code.

  \<^bold>\<open>What is shown.\<close> Requests, responses and metadata survive the trip over the socket under
  every schedule of partial transfers; pipelined requests keep their order; both ends agree
  after the handshake; accepted lengths are bounded. The indexes are maps. A lookup and its
  release are balanced, and a lookup opens the file. The manager keeps its invariant in every reachable state; a created
  object is found; sizes are accounted; ephemeral objects stay on ephemeral backends; scans
  return when no path is cut at the size of the buffer. An index survives the trip through its file. The storage library is a
  map and gives back what was put. A request to the server ends with a descriptor of the
  right file in the client's hands, and the thread of a connection ends, keeps its books and
  leaves no descriptor behind; in every interleaving the server counts its threads right, waits
  for them at the shutdown, and a signal ends it.
  What the command line client uploads it downloads again. A handle of the transport library
  is one descriptor; descriptors that are passed arrive with their types.
  The first object mapper reproduces objects in copying mode. The benchmark reads what it
  wrote, counts every operation once and leaves no descriptor open. The integration demo
  reads what it wrote. The cache of the datapass experiments serves the first file with the
  hash of the requested name, and the bridge passes its answers on.
  The theorems about flaws state exactly in which state the code fails and how: they are
  the findings of the manifest.

  \<^bold>\<open>Not modelled.\<close> Locks and atomicity inside the libraries: the threads of the server and
  of the benchmark are interleaved at the points where they wait for a peer or test a shared
  variable, and the handling of one request is one step, except in \<open>Server_Race\<close>; the caching
  thread of the backends and the threads of the first object mapper and of the datapass
  experiments run by themselves. A thread that hangs because its peer stays silent is one that gets
  no further turn. The limit of one \<open>write\<close>, except as a short write of the script. Messages to the standard
  output; permissions of files and socket options; symbolic links and dot segments in paths;
  rounding of floating point numbers (scores are reals). Of the datapass experiments the three
  main functions, which hand out sockets and threads over datagrams, and the client's
  measurements on mapped files. The test programs, which only call the libraries.
\<close>

end
